(* ===== verification/Prelude.thy ===== *)
theory Prelude
  imports Main "HOL-Library.Word"
begin

text \<open>
  The base of the launchpad development: the outcomes a C function can have (a value, or a
  fault where the C text has undefined behaviour), the collections of simplification rules
  the component theories extend, generic lemmas on lists and words, and the interface of a
  machine that moves by steps, from which every component gets its reachability invariants.
\<close>

section \<open>Faults and results\<close>

text \<open>
  A fault is a point where the C code leaves its defined behaviour: it reads or writes outside
  an object, dereferences a null pointer, divides by zero or leaves the range of int. A model function that can reach
  such a point returns a sum, with the fault on the left.
\<close>

datatype fault =
    Buffer_overread      \<comment> \<open>a read outside an array\<close>
  | Buffer_overflow      \<comment> \<open>a write outside a character buffer\<close>
  | Table_overflow       \<comment> \<open>a write outside an allocated table\<close>
  | Null_deref           \<comment> \<open>a null (or meaningless) pointer is followed\<close>
  | Div_zero             \<comment> \<open>an integer division by zero\<close>
  | Int_overflow         \<comment> \<open>a sum, a difference or a product of ints that is no int\<close>

type_synonym 'a res = "fault + 'a"

text \<open>The C type short.\<close>

type_synonym short = "16 word"

named_theorems res_simps "rules for results: binding, guards, case splits"
named_theorems cstr_simps "rules for C strings and character buffers"
named_theorems frame_simps "rules saying which fields an operation leaves alone"

fun bindR :: "'a res \<Rightarrow> ('a \<Rightarrow> 'b res) \<Rightarrow> 'b res" where
  "bindR (Inl e) f = Inl e"
| "bindR (Inr x) f = f x"

fun mapR :: "('a \<Rightarrow> 'b) \<Rightarrow> 'a res \<Rightarrow> 'b res" where
  "mapR f (Inl e) = Inl e"
| "mapR f (Inr x) = Inr (f x)"

definition guardR :: "bool \<Rightarrow> fault \<Rightarrow> unit res" where
  "guardR b e = (if b then Inr () else Inl e)"

fun isOk :: "'a res \<Rightarrow> bool" where
  "isOk (Inl e) = False"
| "isOk (Inr x) = True"

lemma bindR_eq_Inr [res_simps]:
  "bindR m f = Inr y \<longleftrightarrow> (\<exists>x. m = Inr x \<and> f x = Inr y)"
  by (cases m) auto

lemma bindR_eq_Inl:
  "bindR m f = Inl e \<longleftrightarrow> m = Inl e \<or> (\<exists>x. m = Inr x \<and> f x = Inl e)"
  by (cases m) auto

lemma mapR_eq_Inr [res_simps]:
  "mapR f m = Inr y \<longleftrightarrow> (\<exists>x. m = Inr x \<and> y = f x)"
  by (cases m) auto

lemma mapR_eq_Inl [simp]: "mapR f m = Inl e \<longleftrightarrow> m = Inl e"
  by (cases m) auto

lemma guardR_eq_Inr [res_simps]: "guardR b e = Inr u \<longleftrightarrow> b"
  by (auto simp: guardR_def)

lemma guardR_True [simp]: "guardR True e = Inr ()"
  by (simp add: guardR_def)

lemma guardR_False [simp]: "guardR False e = Inl e"
  by (simp add: guardR_def)

text \<open>Arithmetic on the 32-bit int of C: a result outside of its range is a fault.\<close>

definition in_int :: "int \<Rightarrow> bool" where
  "in_int x = (- (2 ^ 31) \<le> x \<and> x < 2 ^ 31)"

definition checked :: "int \<Rightarrow> int res" where
  "checked x = (if in_int x then Inr x else Inl Int_overflow)"

definition int_sum :: "int \<Rightarrow> int \<Rightarrow> int res" where "int_sum a b = checked (a + b)"
definition int_diff :: "int \<Rightarrow> int \<Rightarrow> int res" where "int_diff a b = checked (a - b)"
definition int_prod :: "int \<Rightarrow> int \<Rightarrow> int res" where "int_prod a b = checked (a * b)"

lemma checked_in [simp]: "in_int x \<Longrightarrow> checked x = Inr x"
  by (simp add: checked_def)

lemma checked_out [simp]: "\<not> in_int x \<Longrightarrow> checked x = Inl Int_overflow"
  by (simp add: checked_def)

lemma checked_eq_Inr [res_simps]: "checked x = Inr y \<longleftrightarrow> in_int x \<and> y = x"
  by (auto simp: checked_def)

lemma isOk_iff: "isOk m \<longleftrightarrow> (\<exists>x. m = Inr x)"
  by (cases m) auto

lemma isOk_bindR [res_simps]: "isOk (bindR m f) \<longleftrightarrow> (\<exists>x. m = Inr x \<and> isOk (f x))"
  by (cases m) auto

lemma bindR_assoc: "bindR (bindR m f) g = bindR m (\<lambda>x. bindR (f x) g)"
  by (cases m) auto

lemma bindR_cong [fundef_cong]:
  "m = m' \<Longrightarrow> (\<And>x. m' = Inr x \<Longrightarrow> f x = f' x) \<Longrightarrow> bindR m f = bindR m' f'"
  by (cases m') auto

text \<open>A fold that stops at the first fault.\<close>

fun foldR :: "('a \<Rightarrow> 's \<Rightarrow> 's res) \<Rightarrow> 'a list \<Rightarrow> 's \<Rightarrow> 's res" where
  "foldR f [] s = Inr s"
| "foldR f (x # xs) s = bindR (f x s) (foldR f xs)"

lemma foldR_append: "foldR f (xs @ ys) s = bindR (foldR f xs s) (foldR f ys)"
proof (induction xs arbitrary: s)
  case Nil
  then show ?case by simp
next
  case (Cons x xs)
  then show ?case by (cases "f x s") auto
qed

lemma foldR_invariant:
  assumes "foldR f xs s = Inr t" and "P s"
    and "\<And>x s t. x \<in> set xs \<Longrightarrow> P s \<Longrightarrow> f x s = Inr t \<Longrightarrow> P t"
  shows "P t"
  using assms
proof (induction xs arbitrary: s)
  case Nil
  then show ?case by simp
next
  case (Cons x xs)
  from Cons.prems(1) obtain s' where "f x s = Inr s'" "foldR f xs s' = Inr t"
    by (auto simp: res_simps)
  with Cons.prems(2,3) Cons.IH [of s'] show ?case
    by (meson list.set_intros)
qed

lemma foldR_total:
  assumes "P s" and "\<And>x s. x \<in> set xs \<Longrightarrow> P s \<Longrightarrow> \<exists>t. f x s = Inr t \<and> P t"
  shows "\<exists>t. foldR f xs s = Inr t \<and> P t"
  using assms
proof (induction xs arbitrary: s)
  case Nil
  then show ?case by simp
next
  case (Cons x xs)
  from Cons.prems obtain s' where "f x s = Inr s'" "P s'"
    by (meson list.set_intros(1))
  moreover have "\<exists>t. foldR f xs s' = Inr t \<and> P t"
    using Cons.IH [OF \<open>P s'\<close>] Cons.prems(2) by (meson list.set_intros(2))
  ultimately show ?case by simp
qed

section \<open>Lists\<close>

lemma drop_eq_Cons_iff:
  "drop n xs = y # ys \<longleftrightarrow> n < length xs \<and> y = xs ! n \<and> ys = drop (Suc n) xs"
proof (cases "n < length xs")
  case True
  then show ?thesis by (auto simp: Cons_nth_drop_Suc [symmetric])
next
  case False
  then show ?thesis by simp
qed

lemma takeWhile_drop_stable:
  assumes "xs ! k = z" "i \<le> k" "k < length xs" "\<not> P z"
  shows "takeWhile P (drop i xs) = takeWhile P (take (k - i) (drop i xs))"
proof -
  have "drop (k - i) (drop i xs) = z # drop (Suc k) xs"
    using assms(1-3) Cons_nth_drop_Suc [of k xs] by simp
  then have "drop i xs = take (k - i) (drop i xs) @ z # drop (Suc k) xs"
    by (metis append_take_drop_id)
  then show ?thesis
    using assms(4) takeWhile_tail [of P z] by metis
qed

lemma takeWhile_all: "(\<forall>x \<in> set xs. P x) \<Longrightarrow> takeWhile P xs = xs"
  by (induction xs) auto

lemma dropWhile_all: "(\<forall>x \<in> set xs. P x) \<Longrightarrow> dropWhile P xs = []"
  by (induction xs) auto

lemma length_concat_replicate: "length (concat (replicate n xs)) = n * length xs"
  by (induction n) auto

lemma nth_error_update: "i < length xs \<Longrightarrow> length (xs[i := v]) = length xs"
  by simp

lemma sint_short [simp]: "- (2 ^ 15) \<le> v \<Longrightarrow> v < 2 ^ 15 \<Longrightarrow> sint (word_of_int v :: short) = v"
  by transfer (simp add: signed_take_bit_int_eq_self)

section \<open>Machines that move by steps\<close>

text \<open>
  The interface every stateful component is proved against: an initial state predicate, a step
  relation and an invariant that starts true and is kept by a step. Its only theorem is that
  the invariant holds in every reachable state; the components (the hotkey machine of main.c,
  the remote command listener of rce.c) interpret it on their own definitions.
\<close>

inductive reach :: "('s \<Rightarrow> bool) \<Rightarrow> ('s \<Rightarrow> 's \<Rightarrow> bool) \<Rightarrow> 's \<Rightarrow> bool"
  for init :: "'s \<Rightarrow> bool" and step :: "'s \<Rightarrow> 's \<Rightarrow> bool" where
  reach_init: "init s \<Longrightarrow> reach init step s"
| reach_step: "reach init step s \<Longrightarrow> step s t \<Longrightarrow> reach init step t"

locale machine =
  fixes init :: "'s \<Rightarrow> bool"
    and step :: "'s \<Rightarrow> 's \<Rightarrow> bool"
    and inv :: "'s \<Rightarrow> bool"
  assumes inv_init: "init s \<Longrightarrow> inv s"
    and inv_step: "inv s \<Longrightarrow> step s t \<Longrightarrow> inv t"
begin

lemma reach_inv: "reach init step s \<Longrightarrow> inv s"
proof (induction rule: reach.induct)
  case (reach_init s)
  then show ?case by (rule inv_init)
next
  case (reach_step s t)
  show ?case by (rule inv_step [OF reach_step.IH reach_step.hyps(2)])
qed

lemma reach_consequence:
  assumes P: "\<And>s. inv s \<Longrightarrow> P s" and r: "reach init step s"
  shows "P s"
proof -
  from r have "inv s" by (rule reach_inv)
  then show ?thesis by (rule P)
qed

end

end
