(* ===== verification/CString.thy ===== *)
theory CString
  imports Prelude
begin

text \<open>
  C characters, strings and character buffers, and what the sources use of the C library on
  them. A string is a list of characters without NUL; a buffer is a list of fixed length in
  which the first NUL ends the string it holds. Plain char is unsigned, as on the ARM target
  of the makefile (the comparisons with a space below depend on it for bytes above 127).
\<close>

section \<open>Characters\<close>

abbreviation NUL :: char where "NUL \<equiv> CHR 0x00"
abbreviation TAB :: char where "TAB \<equiv> CHR 0x09"
abbreviation LF :: char where "LF \<equiv> CHR 0x0A"
abbreviation CR :: char where "CR \<equiv> CHR 0x0D"

definition le_space :: "char \<Rightarrow> bool" where
  "le_space c = ((of_char c :: nat) \<le> 32)"

definition tolower :: "char \<Rightarrow> char" where
  "tolower c = (if 65 \<le> (of_char c :: nat) \<and> (of_char c :: nat) \<le> 90
                then char_of ((of_char c :: nat) + 32) else c)"

definition digit_val :: "char \<Rightarrow> nat" where
  "digit_val c = of_char c - 48"

definition is_digit :: "char \<Rightarrow> bool" where
  "is_digit c = (48 \<le> (of_char c :: nat) \<and> (of_char c :: nat) \<le> 57)"

definition is_xdigit :: "char \<Rightarrow> bool" where
  "is_xdigit c = (is_digit c \<or> (97 \<le> (of_char (tolower c) :: nat) \<and> (of_char (tolower c) :: nat) \<le> 102))"

definition xdigit_val :: "char \<Rightarrow> nat" where
  "xdigit_val c = (if is_digit c then digit_val c else of_char (tolower c) - 87)"

definition is_space :: "char \<Rightarrow> bool" where
  "is_space c = ((of_char c :: nat) = 32 \<or> (9 \<le> (of_char c :: nat) \<and> (of_char c :: nat) \<le> 13))"

text \<open>The same on the bits of a character, for evaluation.\<close>

lemma le_space_code [code]:
  "le_space (Char b0 b1 b2 b3 b4 b5 b6 b7) =
     (\<not> b7 \<and> \<not> b6 \<and> (b5 \<longrightarrow> \<not> b4 \<and> \<not> b3 \<and> \<not> b2 \<and> \<not> b1 \<and> \<not> b0))"
  by (cases b0; cases b1; cases b2; cases b3; cases b4; cases b5; cases b6; cases b7) (simp_all add: le_space_def)

lemma tolower_code [code]:
  "tolower (Char b0 b1 b2 b3 b4 b5 b6 b7) =
     (if \<not> b7 \<and> b6 \<and> \<not> b5 \<and> (b0 \<or> b1 \<or> b2 \<or> b3 \<or> b4) \<and> \<not> (b4 \<and> b3 \<and> (b2 \<or> b1 \<and> b0))
      then Char b0 b1 b2 b3 b4 True b6 b7 else Char b0 b1 b2 b3 b4 b5 b6 b7)"
  by (cases b0; cases b1; cases b2; cases b3; cases b4; cases b5; cases b6; cases b7)
    (simp_all add: tolower_def char_of_def bit_0)

lemma is_digit_code [code]:
  "is_digit (Char b0 b1 b2 b3 b4 b5 b6 b7) = (\<not> b7 \<and> \<not> b6 \<and> b5 \<and> b4 \<and> \<not> (b3 \<and> (b2 \<or> b1)))"
  by (cases b0; cases b1; cases b2; cases b3; cases b4; cases b5; cases b6; cases b7) (simp_all add: is_digit_def)

lemma is_space_code [code]:
  "is_space (Char b0 b1 b2 b3 b4 b5 b6 b7) = (\<not> b7 \<and> \<not> b6 \<and> \<not> b4 \<and>
     (b5 \<and> \<not> b3 \<and> \<not> b2 \<and> \<not> b1 \<and> \<not> b0 \<or> \<not> b5 \<and> b3 \<and> (b2 \<and> \<not> b1 \<or> \<not> b2 \<and> (b1 \<or> b0))))"
  by (cases b0; cases b1; cases b2; cases b3; cases b4; cases b5; cases b6; cases b7) (simp_all add: is_space_def)

lemma le_space_consts [simp]:
  "le_space NUL" "le_space TAB" "le_space LF" "le_space CR" "le_space CHR '' ''"
  "\<not> le_space CHR ''=''" "\<not> le_space CHR '']''" "\<not> le_space CHR ''[''"
  by (simp_all add: le_space_def)

section \<open>Buffers\<close>

definition cstr :: "char list \<Rightarrow> string" where
  "cstr buf = takeWhile (\<lambda>c. c \<noteq> NUL) buf"

definition strncpy :: "char list \<Rightarrow> string \<Rightarrow> nat \<Rightarrow> char list" where
  "strncpy dst src n = take n src @ replicate (n - length src) NUL @ drop n dst"

lemma cstr_no_nul [cstr_simps]: "NUL \<notin> set s \<Longrightarrow> cstr (s @ NUL # t) = s"
  unfolding cstr_def by (subst takeWhile_append2) auto

lemma cstr_id [cstr_simps]: "NUL \<notin> set s \<Longrightarrow> cstr s = s"
  unfolding cstr_def by (rule takeWhile_all) auto

lemma cstr_append [cstr_simps]: "NUL \<notin> set s \<Longrightarrow> cstr (s @ t) = s @ cstr t"
  unfolding cstr_def by (subst takeWhile_append2) auto

lemma cstr_simps' [simp]:
  "cstr [] = []" "cstr (NUL # t) = []" "c \<noteq> NUL \<Longrightarrow> cstr (c # t) = c # cstr t"
  by (simp_all add: cstr_def)

lemma NUL_notin_cstr [simp]: "NUL \<notin> set (cstr s)"
  unfolding cstr_def using set_takeWhileD by fastforce

lemma length_cstr_le: "length (cstr s) \<le> length s"
  by (simp add: cstr_def length_takeWhile_le)

lemma cstr_replicate_NUL [cstr_simps]: "cstr (replicate n NUL @ t) = (if n = 0 then cstr t else [])"
  by (cases n) auto

lemma length_strncpy [cstr_simps]: "n \<le> length dst \<Longrightarrow> length (strncpy dst src n) = length dst"
  by (simp add: strncpy_def)

text \<open>
  strncpy ends the copy with a NUL only when the count exceeds the source's length; with a
  count equal to it, the characters the buffer held beyond the copy stay part of the string.
\<close>

lemma cstr_strncpy_terminated [cstr_simps]:
  "NUL \<notin> set src \<Longrightarrow> length src < n \<Longrightarrow> cstr (strncpy dst src n) = src"
proof -
  assume a: "NUL \<notin> set src" "length src < n"
  then have "replicate (n - length src) NUL = NUL # replicate (n - Suc (length src)) NUL"
    by (metis Suc_diff_Suc replicate_Suc)
  with a have "strncpy dst src n = src @ NUL # (replicate (n - Suc (length src)) NUL @ drop n dst)"
    by (simp add: strncpy_def)
  with a show ?thesis by (simp add: cstr_no_nul)
qed

lemma cstr_strncpy_exact [cstr_simps]:
  "NUL \<notin> set src \<Longrightarrow> cstr (strncpy dst src (length src)) = src @ cstr (drop (length src) dst)"
  by (simp add: strncpy_def cstr_append)

section \<open>Comparisons and tokens\<close>

definition strcaseeq :: "string \<Rightarrow> string \<Rightarrow> bool" where
  "strcaseeq a b = (map tolower a = map tolower b)"

definition strncaseeq :: "string \<Rightarrow> string \<Rightarrow> nat \<Rightarrow> bool" where
  "strncaseeq a b n = (map tolower (take n a) = map tolower (take n b))"

lemma strcaseeq_refl [simp]: "strcaseeq a a"
  by (simp add: strcaseeq_def)

lemma strcaseeq_sym: "strcaseeq a b = strcaseeq b a"
  by (auto simp: strcaseeq_def)

lemma strcaseeq_trans: "strcaseeq a b \<Longrightarrow> strcaseeq b c \<Longrightarrow> strcaseeq a c"
  by (simp add: strcaseeq_def)

text \<open>One call of strtok_r: the next token over a delimiter set, and the text after it.\<close>

definition strtok :: "(char \<Rightarrow> bool) \<Rightarrow> string \<Rightarrow> (string \<times> string) option" where
  "strtok d s = (let t = dropWhile d s in
     if t = [] then None
     else Some (takeWhile (\<lambda>c. \<not> d c) t, tl (dropWhile (\<lambda>c. \<not> d c) t)))"

lemma strtok_length: "strtok d s = Some (t, r) \<Longrightarrow> length r < length s"
proof -
  assume a: "strtok d s = Some (t, r)"
  then have r: "r = tl (dropWhile (\<lambda>c. \<not> d c) (dropWhile d s))" and ne: "dropWhile d s \<noteq> []"
    by (auto simp: strtok_def Let_def split: if_splits)
  have "length (dropWhile (\<lambda>c. \<not> d c) (dropWhile d s)) \<le> length s"
    using length_dropWhile_le order_trans by blast
  moreover have "0 < length s" using ne by auto
  ultimately show ?thesis
    unfolding r length_tl by linarith
qed

lemma strtok_token:
  assumes "strtok d s = Some (t, r)"
  shows "t \<noteq> []" "\<forall>c \<in> set t. \<not> d c" "set t \<subseteq> set s"
proof -
  from assms have t: "t = takeWhile (\<lambda>c. \<not> d c) (dropWhile d s)" and ne: "dropWhile d s \<noteq> []"
    by (auto simp: strtok_def Let_def split: if_splits)
  have "\<not> d (hd (dropWhile d s))" using ne hd_dropWhile by blast
  then show "t \<noteq> []" using ne unfolding t by (cases "dropWhile d s") auto
  show "\<forall>c \<in> set t. \<not> d c" unfolding t using set_takeWhileD by fastforce
  show "set t \<subseteq> set s" unfolding t by (meson set_dropWhileD set_takeWhileD subsetI)
qed

text \<open>All the tokens a loop over strtok_r meets.\<close>

function tokens :: "(char \<Rightarrow> bool) \<Rightarrow> string \<Rightarrow> string list" where
  "tokens d s = (case strtok d s of None \<Rightarrow> [] | Some (t, r) \<Rightarrow> t # tokens d r)"
  by pat_completeness auto
termination
  by (relation "measure (\<lambda>(d, s). length s)") (auto dest: strtok_length)

declare tokens.simps [simp del]

lemma tokens_members: "t \<in> set (tokens d s) \<Longrightarrow> t \<noteq> [] \<and> (\<forall>c \<in> set t. \<not> d c)"
proof (induction d s rule: tokens.induct)
  case (1 d s)
  show ?case
  proof (cases "strtok d s")
    case None
    with "1.prems" show ?thesis by (simp add: tokens.simps [of d s])
  next
    case (Some a)
    obtain t' r where a: "a = (t', r)" by (cases a)
    with "1.prems" Some have "t = t' \<or> t \<in> set (tokens d r)"
      by (simp add: tokens.simps [of d s])
    with "1.IH" [OF Some a [symmetric]] strtok_token [of d s t' r] Some a show ?thesis
      by auto
  qed
qed

section \<open>Numbers\<close>

definition clamp32 :: "int \<Rightarrow> int" where
  "clamp32 v = max (- (2 ^ 31)) (min (2 ^ 31 - 1) v)"

definition dec_value :: "string \<Rightarrow> nat" where
  "dec_value s = foldl (\<lambda>n c. 10 * n + digit_val c) 0 s"

text \<open>
  atoi of the C library, where long has 32 bits: blanks, an optional sign, the digits; the
  result saturates at the ends of the range, and no digits give zero.
\<close>

definition atoi :: "string \<Rightarrow> int" where
  "atoi s = (let t = dropWhile is_space s;
                 neg = (t \<noteq> [] \<and> hd t = CHR ''-'');
                 u = (if t \<noteq> [] \<and> (hd t = CHR ''-'' \<or> hd t = CHR ''+'') then tl t else t);
                 v = int (dec_value (takeWhile is_digit u))
             in clamp32 (if neg then - v else v))"

definition digit_char :: "nat \<Rightarrow> char" where
  "digit_char n = char_of (48 + n)"

fun show_nat :: "nat \<Rightarrow> string" where
  "show_nat n = (if n < 10 then [digit_char n] else show_nat (n div 10) @ [digit_char (n mod 10)])"

declare show_nat.simps [simp del]

text \<open>The "%d" conversion of printf.\<close>

definition show_int :: "int \<Rightarrow> string" where
  "show_int v = (if v < 0 then CHR ''-'' # show_nat (nat (- v)) else show_nat (nat v))"

lemma of_char_digit_char [simp]: "n < 10 \<Longrightarrow> (of_char (digit_char n) :: nat) = 48 + n"
  by (simp add: digit_char_def of_char_of)

lemma digit_val_digit_char [simp]: "n < 10 \<Longrightarrow> digit_val (digit_char n) = n"
  by (simp add: digit_val_def)

lemma is_digit_digit_char [simp]: "n < 10 \<Longrightarrow> is_digit (digit_char n)"
  by (simp add: is_digit_def)

lemma show_nat_digits: "\<forall>c \<in> set (show_nat n). is_digit c"
proof (induction n rule: show_nat.induct)
  case (1 n)
  then show ?case by (cases "n < 10") (auto simp: show_nat.simps [of n])
qed

lemma show_nat_nonempty [simp]: "show_nat n \<noteq> []"
  by (subst show_nat.simps) simp

lemma dec_value_show_nat [simp]: "dec_value (show_nat n) = n"
proof (induction n rule: show_nat.induct)
  case (1 n)
  show ?case
  proof (cases "n < 10")
    case True
    then show ?thesis by (simp add: show_nat.simps [of n] dec_value_def)
  next
    case False
    with 1 have "dec_value (show_nat (n div 10)) = n div 10" by simp
    with False show ?thesis
      by (simp add: show_nat.simps [of n] dec_value_def)
  qed
qed

lemma is_digit_not_space: "is_digit c \<Longrightarrow> \<not> is_space c"
  by (auto simp: is_digit_def is_space_def)

lemma is_digit_not_sign: "is_digit c \<Longrightarrow> c \<noteq> CHR ''-'' \<and> c \<noteq> CHR ''+''"
  by (auto simp: is_digit_def)

text \<open>Printing with "%d" and reading back with atoi is the identity on the range of int.\<close>

lemma atoi_show_nat: "atoi (show_nat n @ t) = clamp32 (int n)" if "t = [] \<or> \<not> is_digit (hd t)"
proof -
  have d: "\<forall>c \<in> set (show_nat n). is_digit c" by (rule show_nat_digits)
  obtain c cs where s: "show_nat n = c # cs" by (cases "show_nat n") auto
  with d have c: "is_digit c" by simp
  have tw: "takeWhile is_digit (show_nat n @ t) = show_nat n"
    using d that by (cases t) (auto simp: takeWhile_all takeWhile_append)
  have h: "hd (show_nat n @ t) = c" and ne: "show_nat n @ t \<noteq> []" by (simp_all add: s)
  have dw: "dropWhile is_space (show_nat n @ t) = show_nat n @ t"
    using is_digit_not_space [OF c] by (simp add: s)
  show ?thesis
    using is_digit_not_sign [OF c] by (simp add: atoi_def Let_def dw h tw)
qed

lemma atoi_show_int:
  assumes "- (2 ^ 31) \<le> v" "v < 2 ^ 31" "t = [] \<or> \<not> is_digit (hd t)"
  shows "atoi (show_int v @ t) = v"
proof (cases "v < 0")
  case False
  with assms show ?thesis by (simp add: show_int_def atoi_show_nat clamp32_def)
next
  case True
  have d: "\<forall>c \<in> set (show_nat (nat (- v))). is_digit c" by (rule show_nat_digits)
  have tw: "takeWhile is_digit (show_nat (nat (- v)) @ t) = show_nat (nat (- v))"
    using d assms(3) by (cases t) (auto simp: takeWhile_all takeWhile_append)
  have "\<not> is_space CHR ''-''" by (simp add: is_space_def)
  with True tw assms(1) show ?thesis
    by (simp add: show_int_def atoi_def Let_def clamp32_def)
qed

end
