(* ===== verification/IniFile.thy ===== *)
theory IniFile
  imports CString
begin

text \<open>
  src/inifile.c: the parser of .ini files. The file is read into a buffer of its size plus one
  NUL; the parser walks a pointer over it, writes NULs into it to end names and values, and
  fills two tables, allocated beforehand for a quarter of the file's bytes each, with pointers
  into the buffer. Pointers are offsets here, every read and write of the buffer and every new
  table row is checked against its bounds, and a check that fails is a fault.
\<close>

section \<open>Data\<close>

text \<open>A char pointer of the database: into the file buffer, or to one of the static strings.\<close>

datatype strptr = Buf nat | Defsection | Emptystring

record section_row =
  psname :: strptr
  ppairs :: "nat option"   \<comment> \<open>row of the section's first key, None for the null pointer\<close>
  npairs :: int

record key_row =
  pkname :: strptr
  pkvalue :: strptr
  psect :: nat             \<comment> \<open>row of the containing section\<close>

text \<open>The locals of parse_ini_file, and the tables it fills.\<close>

record pstate =
  ps_buf :: "char list"
  ps_p :: nat
  ps_sects :: "section_row list"
  ps_keys :: "key_row list"
  ps_cur :: "nat option"

definition defsection :: string where "defsection = ''Default''"
definition emptystring :: string where "emptystring = ''<empty>''"

text \<open>The C string a pointer of the database denotes.\<close>

fun deref :: "char list \<Rightarrow> strptr \<Rightarrow> string" where
  "deref b (Buf i) = cstr (drop i b)"
| "deref b Defsection = defsection"
| "deref b Emptystring = emptystring"

definition rd :: "char list \<Rightarrow> nat \<Rightarrow> char res" where
  "rd b p = (if p < length b then Inr (b ! p) else Inl Buffer_overread)"

definition wr :: "char list \<Rightarrow> nat \<Rightarrow> char \<Rightarrow> char list res" where
  "wr b p c = (if p < length b then Inr (b[p := c]) else Inl Buffer_overflow)"

text \<open>The shape of the pointer loops: advance until a character where the loop stops.\<close>

function scan :: "(char \<Rightarrow> bool) \<Rightarrow> char list \<Rightarrow> nat \<Rightarrow> nat res" where
  "scan stop b p = (if p < length b
     then (if stop (b ! p) then Inr p else scan stop b (Suc p))
     else Inl Buffer_overread)"
  by pat_completeness auto
termination
  by (relation "measure (\<lambda>(stop, b, p). length b - p)") auto

declare scan.simps [simp del]

section \<open>The scanner functions\<close>

definition is_ws :: "char \<Rightarrow> bool" where
  "is_ws c = (c = CHR '' '' \<or> c = TAB \<or> c = CR)"

definition skipws :: "char list \<Rightarrow> nat \<Rightarrow> nat res" where
  "skipws b p = scan (\<lambda>c. \<not> is_ws c) b p"

definition skipline :: "char list \<Rightarrow> nat \<Rightarrow> nat res" where
  "skipline b p = bindR (scan (\<lambda>c. c = NUL \<or> c = LF) b p)
     (\<lambda>q. Inr (if b ! q = LF then Suc q else q))"

function section_name_loop :: "char list \<Rightarrow> nat \<Rightarrow> int \<Rightarrow> int res" where
  "section_name_loop b p len = (if p < length b
     then (if b ! p = CHR '']'' \<or> len = 0 then Inr len
           else if b ! p = LF \<or> b ! p = NUL then Inr 0
           else if b ! p = CR then section_name_loop b (Suc p) len
           else section_name_loop b (Suc p) ((if len = -1 then 0 else len) + 1))
     else Inl Buffer_overread)"
  by pat_completeness auto
termination
  by (relation "measure (\<lambda>(b, p, len). length b - p)") auto

declare section_name_loop.simps [simp del]

definition parse_section_name :: "char list \<Rightarrow> nat \<Rightarrow> int res" where
  "parse_section_name b p = section_name_loop b p (-1)"

text \<open>The loops that step back over blanks and control characters.\<close>

function trim_back :: "char list \<Rightarrow> nat \<Rightarrow> nat \<Rightarrow> nat" where
  "trim_back b p q = (if le_space (b ! q) \<and> p < q then trim_back b p (q - 1) else q)"
  by pat_completeness auto
termination
  by (relation "measure (\<lambda>(b, p, q). q)") auto

declare trim_back.simps [simp del]

definition parse_key_value :: "char list \<Rightarrow> nat \<Rightarrow> nat res" where
  "parse_key_value b p =
     bindR (scan (\<lambda>c. c = LF \<or> c = CR \<or> c = NUL) b p)
       (\<lambda>q. Inr (if p < q
          then (let q' = trim_back b p q in (if \<not> le_space (b ! q') then Suc q' else q') - p)
          else 0))"

definition parse_key_name :: "char list \<Rightarrow> nat \<Rightarrow> nat res" where
  "parse_key_name b p =
     bindR (scan (\<lambda>c. c = CHR ''='' \<or> c = LF \<or> c = CR \<or> c = NUL) b p)
       (\<lambda>q. Inr (if b ! q = CHR ''=''
          then (if p < q
                then (let q' = trim_back b p (q - 1)
                      in (if \<not> le_space (b ! q') then Suc q' else q') - p)
                else 0)
          else 0))"

section \<open>One turn of the loop of parse\_ini\_file\<close>

text \<open>
  The search for a section of the same name. The C loop runs i over the rows but compares
  psects->psname, the name of row 0, in every turn.
\<close>

function dup_scan :: "char list \<Rightarrow> section_row list \<Rightarrow> string \<Rightarrow> nat \<Rightarrow> nat" where
  "dup_scan b ss nm i = (if i < length ss
     then (if strcaseeq (deref b (psname (ss ! 0))) nm then i else dup_scan b ss nm (Suc i))
     else i)"
  by pat_completeness auto
termination
  by (relation "measure (\<lambda>(b, ss, nm, i). length ss - i)") auto

declare dup_scan.simps [simp del]

definition new_section :: "strptr \<Rightarrow> section_row" where
  "new_section nm = \<lparr>psname = nm, ppairs = None, npairs = 0\<rparr>"

definition enter_section :: "nat \<Rightarrow> nat \<Rightarrow> pstate \<Rightarrow> pstate res" where
  "enter_section scap p s =
     (let i = dup_scan (ps_buf s) (ps_sects s) (deref (ps_buf s) (Buf p)) 0
      in if i \<ge> length (ps_sects s)
         then bindR (guardR (length (ps_sects s) < scap) Table_overflow)
           (\<lambda>_. Inr (s\<lparr>ps_sects := ps_sects s @ [new_section (Buf p)],
                       ps_cur := Some (length (ps_sects s))\<rparr>))
         else Inr (s\<lparr>ps_cur := Some i\<rparr>))"

text \<open>The case of an initial bracket; p is behind it.\<close>

definition section_line :: "nat \<Rightarrow> nat \<Rightarrow> pstate \<Rightarrow> pstate res" where
  "section_line scap p s =
     bindR (parse_section_name (ps_buf s) p) (\<lambda>len.
     bindR (if 0 < len
            then bindR (wr (ps_buf s) (p + nat len) NUL) (\<lambda>b.
                 bindR (enter_section scap p (s\<lparr>ps_buf := b\<rparr>)) (\<lambda>s'.
                   Inr (s'\<lparr>ps_p := p + (nat len + 1)\<rparr>)))
            else Inr (s\<lparr>ps_p := p\<rparr>)) (\<lambda>s'.
     bindR (skipline (ps_buf s') (ps_p s')) (\<lambda>p'.
       Inr (s'\<lparr>ps_p := p'\<rparr>))))"

text \<open>The default section, and the row of a new key with its links to the section.\<close>

definition apply_default_section :: "nat \<Rightarrow> pstate \<Rightarrow> pstate res" where
  "apply_default_section scap s =
     (if ps_sects s = []
      then bindR (guardR (0 < scap) Table_overflow)
        (\<lambda>_. Inr (s\<lparr>ps_sects := [new_section Defsection], ps_cur := Some 0\<rparr>))
      else Inr s)"

definition link_key :: "strptr \<Rightarrow> strptr \<Rightarrow> pstate \<Rightarrow> pstate res" where
  "link_key nm val s =
     (case ps_cur s of
        None \<Rightarrow> Inl Null_deref
      | Some c \<Rightarrow>
          (let n = length (ps_keys s); row = ps_sects s ! c;
               row' = row\<lparr>ppairs := (if ppairs row = None then Some n else ppairs row),
                          npairs := npairs row + 1\<rparr>
           in Inr (s\<lparr>ps_keys := ps_keys s @ [\<lparr>pkname = nm, pkvalue = val, psect = c\<rparr>],
                     ps_sects := (ps_sects s)[c := row']\<rparr>)))"

text \<open>The value at pv: its pointer, ended by a NUL; or the static empty string.\<close>

definition store_value :: "char list \<Rightarrow> nat \<Rightarrow> (char list \<times> nat \<times> strptr) res" where
  "store_value b pv =
     bindR (parse_key_value b pv) (\<lambda>vlen.
       if 0 < vlen
       then bindR (wr b (pv + vlen) NUL) (\<lambda>b'. Inr (b', pv + (vlen + 1), Buf pv))
       else Inr (b, pv, Emptystring))"

text \<open>The links of the new row, and the step over a newline.\<close>

definition finish_key :: "nat \<Rightarrow> nat \<Rightarrow> pstate \<Rightarrow> char list \<Rightarrow> nat \<Rightarrow> strptr \<Rightarrow> pstate res" where
  "finish_key scap p s b p' val =
     bindR (apply_default_section scap (s\<lparr>ps_buf := b, ps_p := p'\<rparr>)) (\<lambda>s1.
     bindR (link_key (Buf p) val s1) (\<lambda>s2.
     bindR (rd b p') (\<lambda>c.
     bindR (if c = LF then skipline b p' else Inr p') (\<lambda>p''.
       Inr (s2\<lparr>ps_p := p''\<rparr>)))))"

text \<open>A line with a key name of len characters at p.\<close>

definition key_line :: "nat \<Rightarrow> nat \<Rightarrow> nat \<Rightarrow> nat \<Rightarrow> pstate \<Rightarrow> pstate res" where
  "key_line scap kcap p len s =
     bindR (rd (ps_buf s) (p + len)) (\<lambda>c.
     bindR (if c \<noteq> CHR ''='' then skipws (ps_buf s) (p + len) else Inr (p + len)) (\<lambda>pe.
     bindR (skipws (ps_buf s) (Suc pe)) (\<lambda>pv.
     bindR (wr (ps_buf s) (p + len) NUL) (\<lambda>b1.
     bindR (guardR (length (ps_keys s) < kcap) Table_overflow) (\<lambda>_.
     bindR (store_value b1 pv) (\<lambda>(b2, p', val). finish_key scap p s b2 p' val))))))"

definition name_line :: "nat \<Rightarrow> nat \<Rightarrow> nat \<Rightarrow> pstate \<Rightarrow> pstate res" where
  "name_line scap kcap p s =
     bindR (parse_key_name (ps_buf s) p) (\<lambda>len.
       if 0 < len then key_line scap kcap p len s
       else bindR (skipline (ps_buf s) p) (\<lambda>p'. Inr (s\<lparr>ps_p := p'\<rparr>)))"

definition ini_step :: "nat \<Rightarrow> nat \<Rightarrow> pstate \<Rightarrow> pstate res" where
  "ini_step scap kcap s =
     bindR (skipws (ps_buf s) (ps_p s)) (\<lambda>p.
       let c = ps_buf s ! p in
       if c = LF \<or> c = CR then Inr (s\<lparr>ps_p := Suc p\<rparr>)
       else if c = CHR ''['' then section_line scap (Suc p) s
       else if c = CHR '';'' \<or> c = CHR ''#''
       then bindR (skipline (ps_buf s) p) (\<lambda>p'. Inr (s\<lparr>ps_p := p'\<rparr>))
       else name_line scap kcap p s)"

section \<open>Progress, and the loop\<close>

lemma scan_ge: "scan stop b p = Inr q \<Longrightarrow> p \<le> q \<and> q < length b \<and> stop (b ! q)"
proof (induction stop b p rule: scan.induct)
  case (1 stop b p)
  then show ?case
    by (fastforce simp: scan.simps [of stop b p] split: if_splits)
qed

lemma skipws_ge: "skipws b p = Inr q \<Longrightarrow> p \<le> q \<and> q < length b \<and> \<not> is_ws (b ! q)"
  by (auto simp: skipws_def dest: scan_ge)

lemma skipline_ge:
  "skipline b p = Inr q \<Longrightarrow> p \<le> q \<and> (p < q \<or> q < length b \<and> b ! q = NUL)"
  by (auto simp: skipline_def res_simps split: if_splits dest!: scan_ge)

lemma wr_Inr [res_simps]: "wr b p c = Inr b' \<longleftrightarrow> p < length b \<and> b' = b[p := c]"
  by (auto simp: wr_def)

lemma rd_Inr [res_simps]: "rd b p = Inr c \<longleftrightarrow> p < length b \<and> c = b ! p"
  by (auto simp: rd_def)

lemma if_Inr [res_simps]:
  "(if c then Inr x else m) = Inr y \<longleftrightarrow> (if c then x = y else m = Inr y)"
  "(if c then m else Inr x) = Inr y \<longleftrightarrow> (if c then m = Inr y else x = y)"
  by auto

lemma enter_section_frame:
  "enter_section scap p s = Inr s' \<Longrightarrow>
     ps_buf s' = ps_buf s \<and> ps_p s' = ps_p s \<and> ps_keys s' = ps_keys s"
  by (auto simp: enter_section_def Let_def res_simps split: if_splits)

lemma apply_default_frame:
  "apply_default_section scap s = Inr s' \<Longrightarrow>
     ps_buf s' = ps_buf s \<and> ps_p s' = ps_p s \<and> ps_keys s' = ps_keys s"
  by (auto simp: apply_default_section_def res_simps split: if_splits)

lemma link_key_frame:
  "link_key nm v s = Inr s' \<Longrightarrow> ps_buf s' = ps_buf s \<and> ps_p s' = ps_p s"
  by (auto simp: link_key_def Let_def split: option.splits)

lemma section_line_progress:
  assumes "section_line scap p s = Inr s'"
  shows "length (ps_buf s') = length (ps_buf s) \<and> p \<le> ps_p s'"
  using assms
  by (fastforce simp: section_line_def res_simps split: if_splits
      dest: skipline_ge enter_section_frame)

lemma store_value_ge:
  "store_value b pv = Inr (b', p', v) \<Longrightarrow> pv \<le> p' \<and> length b' = length b"
  by (auto simp: store_value_def res_simps split: if_splits)

lemma finish_key_ge:
  "finish_key scap p s b p' v = Inr s' \<Longrightarrow> p' \<le> ps_p s' \<and> ps_buf s' = b"
  by (auto simp: finish_key_def res_simps split: if_splits
      dest!: skipline_ge apply_default_frame link_key_frame)

lemma key_line_progress:
  assumes "key_line scap kcap p len s = Inr s'"
  shows "length (ps_buf s') = length (ps_buf s) \<and> p < ps_p s'"
proof -
  from assms obtain pe pv b2 p' val where
    pe: "(if ps_buf s ! (p + len) \<noteq> CHR ''='' then skipws (ps_buf s) (p + len) else Inr (p + len)) = Inr pe"
    and pv: "skipws (ps_buf s) (Suc pe) = Inr pv"
    and val: "store_value ((ps_buf s)[p + len := NUL]) pv = Inr (b2, p', val)"
    and s': "finish_key scap p s b2 p' val = Inr s'"
    unfolding key_line_def bindR_eq_Inr rd_Inr wr_Inr by (auto split: prod.splits)
  have "p \<le> pe" using pe by (auto split: if_splits dest: skipws_ge)
  moreover have "Suc pe \<le> pv" using skipws_ge [OF pv] by simp
  ultimately show ?thesis
    using store_value_ge [OF val] finish_key_ge [OF s'] by simp
qed

lemma ini_step_progress:
  assumes "ini_step scap kcap s = Inr s'"
  shows "length (ps_buf s') = length (ps_buf s) \<and>
    (ps_p s < ps_p s' \<or> ps_p s' < length (ps_buf s') \<and> ps_buf s' ! ps_p s' = NUL)"
proof -
  from assms obtain p where p: "skipws (ps_buf s) (ps_p s) = Inr p"
    by (auto simp: ini_step_def res_simps)
  have ge: "ps_p s \<le> p" using skipws_ge [OF p] by simp
  from assms p show ?thesis
    using ge
    by (auto simp: ini_step_def name_line_def Let_def res_simps split: if_splits
        dest!: section_line_progress key_line_progress skipline_ge)
qed

text \<open>
  The do-while loop: a turn, then the test of the character at the pointer (a read) and of the
  pointer against the file's size.
\<close>

function ini_loop :: "nat \<Rightarrow> nat \<Rightarrow> nat \<Rightarrow> pstate \<Rightarrow> pstate res" where
  "ini_loop bufsize scap kcap s =
     (case ini_step scap kcap s of
        Inl e \<Rightarrow> Inl e
      | Inr s' \<Rightarrow>
          (if ps_p s' < length (ps_buf s')
           then (if ps_buf s' ! ps_p s' \<noteq> NUL \<and> ps_p s' < bufsize
                 then ini_loop bufsize scap kcap s' else Inr s')
           else Inl Buffer_overread))"
  by pat_completeness auto
termination
proof (relation "measure (\<lambda>(bs, sc, kc, s). length (ps_buf s) - ps_p s)", goal_cases)
  case 1
  show ?case by simp
next
  case (2 bufsize scap kcap s s')
  then have "length (ps_buf s') = length (ps_buf s)" "ps_p s < ps_p s'"
    using ini_step_progress [of scap kcap s s'] by auto
  with 2 show ?case by auto
qed

declare ini_loop.simps [simp del]

definition init_pstate :: "char list \<Rightarrow> pstate" where
  "init_pstate pfb = \<lparr>ps_buf = pfb, ps_p = 0, ps_sects = [], ps_keys = [], ps_cur = None\<rparr>"

definition parse_ini_file :: "nat \<Rightarrow> nat \<Rightarrow> nat \<Rightarrow> char list \<Rightarrow> pstate res" where
  "parse_ini_file bufsize scap kcap pfb = ini_loop bufsize scap kcap (init_pstate pfb)"

section \<open>The database\<close>

record dbdesc =
  pbuf :: "char list"
  bufsize :: nat
  psections :: "section_row list"   \<comment> \<open>nsections rows\<close>
  pkeys :: "key_row list"           \<comment> \<open>nkeys rows\<close>

text \<open>
  What the functions use of the system: a file's contents when it can be opened, whether the
  read returns all of it, and whether an allocation of some size succeeds. Shrinking a table
  with realloc leaves it where it is, so the pointers between the tables stay valid.
\<close>

record os =
  os_file :: "string \<Rightarrow> string option"
  os_read_all :: "string \<Rightarrow> bool"
  os_malloc :: "nat \<Rightarrow> bool"

definition sizeof_section_row :: nat where "sizeof_section_row = 12"
definition sizeof_key_row :: nat where "sizeof_key_row = 12"
definition sizeof_dbdesc :: nat where "sizeof_dbdesc = 28"

text \<open>None is the return value 0 of create_db_structure.\<close>

definition create_db_structure :: "os \<Rightarrow> nat \<Rightarrow> char list \<Rightarrow> dbdesc option res" where
  "create_db_structure os bsize pfb =
     (let nsects = bsize div 4; npairs = bsize div 4 in
      if \<not> os_malloc os (sizeof_section_row * nsects) then Inr None
      else if \<not> os_malloc os (npairs * sizeof_key_row) then Inr None
      else bindR (parse_ini_file bsize nsects npairs pfb) (\<lambda>s.
        if ps_keys s \<noteq> []
        then Inr (Some \<lparr>pbuf = ps_buf s, bufsize = bsize,
                        psections = ps_sects s, pkeys = ps_keys s\<rparr>)
        else Inr None))"

text \<open>inidb_open returns a null pointer (None) on every failure.\<close>

definition inidb_open :: "os \<Rightarrow> string \<Rightarrow> dbdesc option res" where
  "inidb_open os path =
     (case os_file os path of
        None \<Rightarrow> Inr None
      | Some contents \<Rightarrow>
          (let buflen = length contents in
           if \<not> os_malloc os sizeof_dbdesc then Inr None
           else if \<not> os_malloc os (buflen + 1) then Inr None
           else if \<not> os_read_all os path then Inr None
           else create_db_structure os buflen (contents @ [NUL])))"

text \<open>inidb_close reads pdb->fd before it looks whether pdb is a null pointer.\<close>

definition inidb_close :: "dbdesc option \<Rightarrow> unit res" where
  "inidb_close pdb = (case pdb of None \<Rightarrow> Inl Null_deref | Some _ \<Rightarrow> Inr ())"

end
