(* ===== verification/IniSpec.thy ===== *)
theory IniSpec
  imports IniFile "HOL-Library.Sublist"
begin

text \<open>
  What the .ini parser of src/inifile.c promises, without pointers and without writing into the
  text: a function that takes the text apart line by line into section headers and key/value
  pairs, and the section and key tables those items make. The pointer parser refines it: on a
  text without NUL that ends with a newline it stays inside the buffer, and succeeds exactly
  when the tables it allocated for a quarter of the bytes are large enough.
\<close>

section \<open>The specification\<close>

datatype ini_item = Sec string | Pair string string

definition rstrip :: "string \<Rightarrow> string" where
  "rstrip s = rev (dropWhile le_space (rev s))"

definition after_line :: "string \<Rightarrow> string" where
  "after_line r = tl (dropWhile (\<lambda>c. c \<noteq> LF) r)"

fun sec_len :: "string \<Rightarrow> int \<Rightarrow> int" where
  "sec_len [] len = 0"
| "sec_len (c # cs) len =
     (if c = CHR '']'' \<or> len = 0 then len
      else if c = LF then 0
      else if c = CR then sec_len cs len
      else sec_len cs ((if len = -1 then 0 else len) + 1))"

definition spec_section :: "string \<Rightarrow> ini_item option \<times> string" where
  "spec_section cs = (let n = sec_len cs (-1) in
     if 0 < n then (Some (Sec (take (nat n) cs)), after_line (drop (nat n + 1) cs))
     else (None, after_line cs))"

definition spec_value :: "string \<Rightarrow> string \<times> string" where
  "spec_value w = (let v = rstrip (takeWhile (\<lambda>c. c \<noteq> LF \<and> c \<noteq> CR) w) in
     if v = [] then (emptystring, w) else (v, drop (length v + 1) w))"

definition skip_newline :: "string \<Rightarrow> string" where
  "skip_newline r = (if r \<noteq> [] \<and> hd r = LF then tl r else r)"

definition spec_key :: "string \<Rightarrow> string" where
  "spec_key r = (let nm = takeWhile (\<lambda>c. c \<noteq> CHR ''='' \<and> c \<noteq> LF \<and> c \<noteq> CR) r in
     if drop (length nm) r \<noteq> [] \<and> hd (drop (length nm) r) = CHR ''='' then rstrip nm else [])"

text \<open>The text behind the equality sign of a line whose key is k.\<close>

definition spec_behind :: "string \<Rightarrow> string \<Rightarrow> string" where
  "spec_behind k r = (let w = drop (length k) r;
                          w1 = (if hd w = CHR ''='' then w else dropWhile is_ws w)
                      in dropWhile is_ws (tl w1))"

definition spec_name :: "string \<Rightarrow> ini_item option \<times> string" where
  "spec_name r = (let k = spec_key r in
     if k = [] then (None, after_line r)
     else (case spec_value (spec_behind k r) of
             (v, r') \<Rightarrow> (Some (Pair k v), skip_newline r')))"

definition spec_line :: "string \<Rightarrow> ini_item option \<times> string" where
  "spec_line r = (case dropWhile is_ws r of
       [] \<Rightarrow> (None, [])
     | c # cs \<Rightarrow>
         (if c = LF then (None, cs)
          else if c = CHR ''['' then spec_section cs
          else if c = CHR '';'' \<or> c = CHR ''#'' then (None, after_line (c # cs))
          else spec_name (c # cs)))"

subsection \<open>Each line makes the rest shorter\<close>

lemma length_after_line_less: "r \<noteq> [] \<Longrightarrow> length (after_line r) < length r"
proof -
  assume "r \<noteq> []"
  then have "0 < length r" by simp
  moreover have "length (dropWhile (\<lambda>c. c \<noteq> LF) r) \<le> length r" by (rule length_dropWhile_le)
  ultimately show ?thesis unfolding after_line_def length_tl by linarith
qed

lemma length_after_line: "length (after_line r) \<le> length r"
  using length_after_line_less [of r] by (cases "r = []") (auto simp: after_line_def)

lemma length_skip_newline: "length (skip_newline r) \<le> length r"
  by (simp add: skip_newline_def)

lemma length_spec_section: "length (snd (spec_section cs)) \<le> length cs"
proof -
  have "length (after_line (drop n cs)) \<le> length cs" for n
    using length_after_line [of "drop n cs"] by simp
  then show ?thesis by (simp add: spec_section_def Let_def length_after_line)
qed

lemma length_spec_value: "length (snd (spec_value w)) \<le> length w"
  by (simp add: spec_value_def Let_def)

lemma rstrip_prefix: "\<exists>t. s = rstrip s @ t \<and> (\<forall>c \<in> set t. le_space c)"
proof -
  have "rev s = takeWhile le_space (rev s) @ dropWhile le_space (rev s)" by simp
  then have "s = rstrip s @ rev (takeWhile le_space (rev s))"
    unfolding rstrip_def by (metis rev_append rev_rev_ident)
  then show ?thesis using set_takeWhileD by (metis set_rev)
qed

lemma length_rstrip: "length (rstrip s) \<le> length s"
  using rstrip_prefix [of s] by (metis le_add1 length_append)

lemma rstrip_nonempty_last: "rstrip s \<noteq> [] \<Longrightarrow> \<not> le_space (last (rstrip s))"
proof -
  assume a: "rstrip s \<noteq> []"
  then have "dropWhile le_space (rev s) \<noteq> []" by (simp add: rstrip_def)
  then have "\<not> le_space (hd (dropWhile le_space (rev s)))" by (rule hd_dropWhile)
  then show ?thesis by (simp add: rstrip_def last_rev a)
qed

lemma length_spec_behind:
  assumes "k \<noteq> []" "r \<noteq> []"
  shows "length (spec_behind k r) < length r"
proof -
  let ?w = "drop (length k) r"
  have a: "length ?w < length r" using assms by (cases k; cases r) auto
  have "length (dropWhile is_ws (tl w1)) \<le> length w1" for w1 :: string
    using length_dropWhile_le [of is_ws "tl w1"] by simp
  moreover have "length (dropWhile is_ws ?w) \<le> length ?w" by (rule length_dropWhile_le)
  ultimately show ?thesis
    unfolding spec_behind_def Let_def using a by (smt (verit) le_trans not_le)
qed

lemma length_spec_name: "r \<noteq> [] \<Longrightarrow> length (snd (spec_name r)) < length r"
  unfolding spec_name_def Let_def
  by (auto split: prod.splits simp: length_after_line_less)
    (metis length_skip_newline length_spec_behind length_spec_value le_less_trans snd_conv)

lemma length_spec_line: "r \<noteq> [] \<Longrightarrow> length (snd (spec_line r)) < length r"
proof -
  assume ne: "r \<noteq> []"
  have le: "length (dropWhile is_ws r) \<le> length r" by (rule length_dropWhile_le)
  show ?thesis
  proof (cases "dropWhile is_ws r")
    case Nil
    show ?thesis unfolding spec_line_def Nil using ne by simp
  next
    case (Cons c cs)
    with le have "length cs < length r" by simp
    then show ?thesis
      using Cons length_spec_section [of cs] length_spec_name [of "c # cs"]
        length_after_line_less [of "c # cs"] le
      by (auto simp: spec_line_def)
  qed
qed

text \<open>The rest is a suffix of the text, so it keeps what every suffix keeps.\<close>

lemma suffix_after_line: "suffix (after_line r) r"
  unfolding after_line_def by (meson suffix_dropWhile suffix_tl suffix_order.trans)

lemma suffix_skip_newline: "suffix (skip_newline r) r"
  by (simp add: skip_newline_def suffix_tl)

lemma suffix_spec_section: "suffix (snd (spec_section cs)) cs"
  unfolding spec_section_def Let_def
  by (auto intro: suffix_after_line suffix_order.trans [OF suffix_after_line suffix_drop])

lemma suffix_spec_value: "suffix (snd (spec_value w)) w"
  by (simp add: spec_value_def Let_def suffix_drop)

lemma suffix_spec_behind: "suffix (spec_behind k r) (drop (length k) r)"
  unfolding spec_behind_def Let_def
  by (auto intro: suffix_order.trans [OF suffix_dropWhile] suffix_order.trans [OF suffix_tl]
      suffix_dropWhile suffix_tl)

lemma suffix_spec_name: "suffix (snd (spec_name r)) r"
proof -
  have "suffix (snd (spec_value (spec_behind k r))) r" for k
    using suffix_spec_value suffix_spec_behind suffix_drop suffix_order.trans by metis
  then have "suffix (skip_newline (snd (spec_value (spec_behind k r)))) r" for k
    using suffix_skip_newline suffix_order.trans by metis
  then show ?thesis
    by (auto simp: spec_name_def Let_def suffix_after_line split: prod.splits) (metis snd_conv)
qed

lemma suffix_spec_line: "suffix (snd (spec_line r)) r"
proof -
  have a: "suffix (dropWhile is_ws r) r" by (rule suffix_dropWhile)
  show ?thesis
  proof (cases "dropWhile is_ws r")
    case Nil
    show ?thesis unfolding spec_line_def Nil by simp
  next
    case (Cons c cs)
    with a have c: "suffix (c # cs) r" by simp
    then have cs: "suffix cs r" by (rule suffix_ConsD)
    show ?thesis
      unfolding spec_line_def Cons
      using cs suffix_order.trans [OF suffix_spec_section cs]
        suffix_order.trans [OF suffix_after_line c] suffix_order.trans [OF suffix_spec_name c]
      by simp
  qed
qed

definition lf_end :: "string \<Rightarrow> bool" where
  "lf_end r = (r = [] \<or> last r = LF)"

lemma lf_end_suffix: "suffix r' r \<Longrightarrow> lf_end r \<Longrightarrow> lf_end r'"
  by (auto simp: suffix_def lf_end_def last_append split: if_splits)

lemma NUL_free_suffix: "suffix r' r \<Longrightarrow> NUL \<notin> set r \<Longrightarrow> NUL \<notin> set r'"
  by (auto simp: suffix_def)

function spec_items :: "string \<Rightarrow> ini_item list" where
  "spec_items r = (if r = [] then []
     else (case spec_line r of (it, r') \<Rightarrow>
             (case it of None \<Rightarrow> [] | Some i \<Rightarrow> [i]) @ spec_items r'))"
  by pat_completeness auto
termination
  by (relation "measure length") (simp_all, metis length_spec_line snd_conv)

declare spec_items.simps [simp del]

text \<open>The tables: section names, the current section, and the keys with their sections.\<close>

record ini_tables =
  t_secs :: "string list"
  t_cur :: "nat option"
  t_keys :: "(nat \<times> string \<times> string) list"

definition empty_tables :: ini_tables where
  "empty_tables = \<lparr>t_secs = [], t_cur = None, t_keys = []\<rparr>"

fun item_step :: "ini_tables \<Rightarrow> ini_item \<Rightarrow> ini_tables" where
  "item_step t (Sec nm) =
     (if t_secs t \<noteq> [] \<and> strcaseeq (hd (t_secs t)) nm then t\<lparr>t_cur := Some 0\<rparr>
      else t\<lparr>t_secs := t_secs t @ [nm], t_cur := Some (length (t_secs t))\<rparr>)"
| "item_step t (Pair k v) =
     (let t' = (if t_secs t = [] then t\<lparr>t_secs := [defsection], t_cur := Some 0\<rparr> else t)
      in t'\<lparr>t_keys := t_keys t' @ [(the (t_cur t'), k, v)]\<rparr>)"

definition spec_tables :: "string \<Rightarrow> ini_tables" where
  "spec_tables r = foldl item_step empty_tables (spec_items r)"

end
