(* ===== verification/IniRefine.thy ===== *)
theory IniRefine
  imports IniSpec
begin

text \<open>
  The pointer parser of src/inifile.c refines the specification of IniSpec. A pointer p stands
  for the text behind it: drop p b is the rest of the text and the final NUL. The writes of a
  turn lie between the old and the new pointer, so the strings found earlier keep their value.
\<close>

section \<open>The scanner functions on the text behind the pointer\<close>

lemma drop_nonempty_less: "drop p b = x # xs \<Longrightarrow> p < length b \<and> b ! p = x \<and> drop (Suc p) b = xs"
  by (auto simp: drop_eq_Cons_iff)

lemma scan_drop:
  "scan stop b p = (if \<exists>c \<in> set (drop p b). stop c
     then Inr (p + length (takeWhile (\<lambda>c. \<not> stop c) (drop p b))) else Inl Buffer_overread)"
proof (induction stop b p rule: scan.induct)
  case (1 stop b p)
  show ?case
  proof (cases "p < length b")
    case True
    then have d: "drop p b = b ! p # drop (Suc p) b" by (simp add: Cons_nth_drop_Suc)
    show ?thesis
      using 1 True by (auto simp: scan.simps [of stop b p] d)
  next
    case False
    then show ?thesis by (simp add: scan.simps)
  qed
qed

lemma scan_text:
  assumes "drop p b = r @ [NUL]" "stop NUL"
  shows "scan stop b p = Inr (p + length (takeWhile (\<lambda>c. \<not> stop c) r))"
proof -
  have "takeWhile (\<lambda>c. \<not> stop c) (r @ [NUL]) = takeWhile (\<lambda>c. \<not> stop c) r"
    using assms(2) by (cases "\<forall>x \<in> set r. \<not> stop x") (simp_all add: takeWhile_append takeWhile_all)
  with assms show ?thesis by (simp add: scan_drop)
qed

lemma drop_text:
  "drop p b = r @ t \<Longrightarrow> n \<le> length r \<Longrightarrow> drop (p + n) b = drop n r @ t"
proof -
  assume a: "drop p b = r @ t" "n \<le> length r"
  have "drop (p + n) b = drop n (drop p b)" by (simp add: add.commute)
  with a show ?thesis by simp
qed

lemma skipws_text:
  assumes "drop p b = r @ [NUL]"
  shows "skipws b p = Inr (p + length (takeWhile is_ws r))"
    and "drop (p + length (takeWhile is_ws r)) b = dropWhile is_ws r @ [NUL]"
proof -
  have "\<not> is_ws NUL" by (simp add: is_ws_def)
  then show "skipws b p = Inr (p + length (takeWhile is_ws r))"
    unfolding skipws_def using scan_text [OF assms, of "\<lambda>c. \<not> is_ws c"] by simp
  show "drop (p + length (takeWhile is_ws r)) b = dropWhile is_ws r @ [NUL]"
    using drop_text [OF assms length_takeWhile_le] by (simp add: dropWhile_eq_drop)
qed

lemma skipline_text:
  assumes "drop p b = r @ [NUL]" "NUL \<notin> set r"
  shows "\<exists>p'. skipline b p = Inr p' \<and> p \<le> p' \<and> drop p' b = after_line r @ [NUL]"
proof -
  let ?tw = "takeWhile (\<lambda>c. c \<noteq> LF) r" and ?dw = "dropWhile (\<lambda>c. c \<noteq> LF) r"
  have tw: "takeWhile (\<lambda>c. \<not> (c = NUL \<or> c = LF)) r = ?tw"
    using assms(2) by (intro takeWhile_cong) auto
  have q: "scan (\<lambda>c. c = NUL \<or> c = LF) b p = Inr (p + length ?tw)"
    using scan_text [OF assms(1), of "\<lambda>c. c = NUL \<or> c = LF"] tw by simp
  have d: "drop (p + length ?tw) b = ?dw @ [NUL]"
    using assms(1) by (metis add.commute append.assoc append_eq_conv_conj drop_drop takeWhile_dropWhile_id)
  show ?thesis
  proof (cases ?dw)
    case Nil
    with d have "b ! (p + length ?tw) = NUL" using drop_nonempty_less by fastforce
    moreover have "after_line r = []" unfolding after_line_def Nil by simp
    ultimately show ?thesis using q d Nil by (simp add: skipline_def)
  next
    case (Cons c cs)
    then have "c = LF" using hd_dropWhile [of "\<lambda>c. c \<noteq> LF" r] by auto
    with d Cons have "b ! (p + length ?tw) = LF" "drop (Suc (p + length ?tw)) b = cs @ [NUL]"
      using drop_nonempty_less [of "p + length ?tw" b LF "cs @ [NUL]"] by auto
    with q Cons show ?thesis by (simp add: skipline_def after_line_def)
  qed
qed

lemma section_name_text:
  assumes "drop p b = r @ [NUL]" "NUL \<notin> set r"
  shows "section_name_loop b p len = Inr (sec_len r len)"
  using assms
proof (induction r arbitrary: p len)
  case Nil
  then have "p < length b" "b ! p = NUL" using drop_nonempty_less by fastforce+
  then show ?case by (simp add: section_name_loop.simps)
next
  case (Cons c cs)
  then have "p < length b" "b ! p = c" "drop (Suc p) b = cs @ [NUL]"
    using drop_nonempty_less [of p b c "cs @ [NUL]"] by auto
  moreover have "c \<noteq> NUL" "NUL \<notin> set cs" using Cons.prems(2) by auto
  ultimately show ?case using Cons.IH by (simp add: section_name_loop.simps [of b p])
qed

lemma rstrip_snoc: "rstrip (xs @ [x]) = (if le_space x then rstrip xs else xs @ [x])"
  by (simp add: rstrip_def)

lemma trim_back_text:
  assumes "drop p b = xs @ ys" "xs \<noteq> []"
  shows "(let q' = trim_back b p (p + length xs - 1)
          in (if \<not> le_space (b ! q') then Suc q' else q') - p) = length (rstrip xs)"
  using assms
proof (induction xs arbitrary: ys rule: rev_induct)
  case Nil
  then show ?case by simp
next
  case (snoc x zs)
  have bx: "b ! (p + length zs) = x"
    using snoc.prems(1) drop_nonempty_less [of "p + length zs" b x ys]
    by (metis add.commute append.assoc append_Cons append_Nil append_eq_conv_conj drop_drop)
  show ?case
  proof (cases "le_space x \<and> zs \<noteq> []")
    case True
    then have "trim_back b p (p + length zs) = trim_back b p (p + length zs - 1)"
      using bx by (simp add: trim_back.simps [of b p "p + length zs"])
    moreover have "(let q' = trim_back b p (p + length zs - 1)
        in (if \<not> le_space (b ! q') then Suc q' else q') - p) = length (rstrip zs)"
      using snoc.IH [of "x # ys"] snoc.prems(1) True by simp
    ultimately show ?thesis using True by (simp add: rstrip_snoc)
  next
    case False
    then have "trim_back b p (p + length zs) = p + length zs"
      using bx by (auto simp: trim_back.simps [of b p "p + length zs"])
    with False bx show ?thesis by (auto simp: rstrip_snoc rstrip_def)
  qed
qed

lemma parse_key_name_text:
  assumes "drop p b = r @ [NUL]" "NUL \<notin> set r"
  shows "parse_key_name b p = Inr (length (spec_key r))"
proof -
  let ?st = "\<lambda>c. c = CHR ''='' \<or> c = LF \<or> c = CR \<or> c = NUL"
  let ?nm = "takeWhile (\<lambda>c. c \<noteq> CHR ''='' \<and> c \<noteq> LF \<and> c \<noteq> CR) r"
  have nm: "takeWhile (\<lambda>c. \<not> ?st c) r = ?nm"
    using assms(2) by (intro takeWhile_cong) auto
  have q: "scan ?st b p = Inr (p + length ?nm)"
    using scan_text [OF assms(1), of ?st] nm by simp
  have d: "drop (p + length ?nm) b = drop (length ?nm) r @ [NUL]"
    by (rule drop_text [OF assms(1) length_takeWhile_le])
  have hd_iff: "b ! (p + length ?nm) = CHR ''='' \<longleftrightarrow>
      drop (length ?nm) r \<noteq> [] \<and> hd (drop (length ?nm) r) = CHR ''=''"
    using d drop_nonempty_less [of "p + length ?nm" b] by (cases "drop (length ?nm) r") auto
  have "?nm @ drop (length ?nm) r = r" by (simp flip: dropWhile_eq_drop)
  then have split: "drop p b = ?nm @ (drop (length ?nm) r @ [NUL])"
    unfolding assms(1) append.assoc [symmetric] by (rule arg_cong [OF sym])
  show ?thesis
  proof (cases "?nm = []")
    case True
    with q show ?thesis by (simp add: parse_key_name_def spec_key_def Let_def rstrip_def)
  next
    case False
    then show ?thesis
      using q hd_iff trim_back_text [OF split False]
      by (simp add: parse_key_name_def spec_key_def Let_def)
  qed
qed

lemma parse_key_value_text:
  assumes "drop p b = r @ [NUL]" "NUL \<notin> set r"
  shows "parse_key_value b p = Inr (length (rstrip (takeWhile (\<lambda>c. c \<noteq> LF \<and> c \<noteq> CR) r)))"
proof -
  let ?st = "\<lambda>c. c = LF \<or> c = CR \<or> c = NUL"
  define v where "v = takeWhile (\<lambda>c. c \<noteq> LF \<and> c \<noteq> CR) r"
  have v: "takeWhile (\<lambda>c. \<not> ?st c) r = v"
    unfolding v_def using assms(2) by (intro takeWhile_cong) auto
  have q: "scan ?st b p = Inr (p + length v)"
    using scan_text [OF assms(1), of ?st] v by simp
  have "v @ drop (length v) r = r" unfolding v_def by (simp flip: dropWhile_eq_drop)
  then have split: "drop p b = v @ (drop (length v) r @ [NUL])"
    unfolding assms(1) append.assoc [symmetric] by (rule arg_cong [OF sym])
  have "?st (b ! (p + length v))" using scan_ge [OF q] by simp
  then have le: "le_space (b ! (p + length v))" by auto
  show ?thesis
  proof (cases "v = []")
    case True
    with q show ?thesis unfolding v_def [symmetric] by (simp add: parse_key_value_def rstrip_def)
  next
    case False
    then have "trim_back b p (p + length v) = trim_back b p (p + length v - 1)"
      using le by (subst trim_back.simps) simp
    then show ?thesis
      unfolding v_def [symmetric] using q False trim_back_text [OF split False]
      by (simp add: parse_key_value_def Let_def)
  qed
qed

section \<open>Strings found earlier keep their value\<close>

fun closed :: "char list \<Rightarrow> nat \<Rightarrow> strptr \<Rightarrow> bool" where
  "closed b p (Buf i) = (NUL \<in> set (drop i (take p b)))"
| "closed b p Defsection = True"
| "closed b p Emptystring = True"

lemma cstr_stops: "NUL \<in> set xs \<Longrightarrow> cstr (xs @ t) = cstr xs"
  unfolding cstr_def by (rule takeWhile_append1) auto

lemma closed_deref:
  assumes "closed b p sp" "take p b' = take p b"
  shows "deref b' sp = deref b sp"
proof (cases sp)
  case (Buf i)
  with assms(1) have n: "NUL \<in> set (drop i (take p b))" by simp
  then have i: "i \<le> p" by (cases "i \<le> p") auto
  have d: "drop i c = drop i (take p c) @ drop p c" for c :: "char list"
  proof -
    have "drop i c = drop i (take p c @ drop p c)" by simp
    also have "\<dots> = drop i (take p c) @ drop p c"
      unfolding drop_append using i by (cases "p \<le> length c") simp_all
    finally show ?thesis .
  qed
  show ?thesis
    using Buf n assms(2) cstr_stops d by (metis deref.simps(1))
qed simp_all

lemma closed_mono:
  assumes "closed b p sp" "take p b' = take p b" "p \<le> p'"
  shows "closed b' p' sp"
proof (cases sp)
  case (Buf i)
  with assms(1) have "NUL \<in> set (drop i (take p b))" by simp
  moreover have "take p b' = take p (take p' b')" using assms(3) by (simp add: min_absorb1)
  ultimately have "NUL \<in> set (drop i (take p (take p' b')))" using assms(2) by simp
  then have "NUL \<in> set (drop i (take p' b'))"
    by (metis drop_take in_set_takeD)
  with Buf show ?thesis by simp
qed simp_all

lemma string_ended:
  assumes "drop p b = r @ [NUL]" "NUL \<notin> set r" "n \<le> length r"
  shows "deref (b[p + n := NUL]) (Buf p) = take n r"
    and "p + n < q \<Longrightarrow> closed (b[p + n := NUL]) q (Buf p)"
    and "p + n < q \<Longrightarrow> drop q (b[p + n := NUL]) = drop q b"
    and "q \<le> p + n \<Longrightarrow> take q (b[p + n := NUL]) = take q b"
    and "p + n < length b"
proof -
  have lb: "length b - p = Suc (length r)" using arg_cong [OF assms(1), of length] by simp
  with assms(3) show len: "p + n < length b" by simp
  have d: "drop p (b[p + n := NUL]) = take n r @ NUL # drop (Suc n) (r @ [NUL])"
    using assms by (simp add: drop_update_swap upd_conv_take_nth_drop)
  have "NUL \<notin> set (take n r)" using assms(2) by (meson in_set_takeD)
  with d show "deref (b[p + n := NUL]) (Buf p) = take n r" by (simp add: cstr_no_nul)
  show "closed (b[p + n := NUL]) q (Buf p)" if "p + n < q"
  proof -
    have "drop p (take q (b[p + n := NUL])) = take (q - p) (drop p (b[p + n := NUL]))"
      by (simp add: drop_take)
    then have "drop p (take q (b[p + n := NUL]))
        = take n r @ take (q - p - n) (NUL # drop (Suc n) (r @ [NUL]))"
      using d assms(3) that by simp
    moreover have "q - p - n = Suc (q - p - n - 1)" using that by simp
    ultimately show ?thesis by (metis closed.simps(1) in_set_conv_decomp take_Suc_Cons append_Cons)
  qed
  show "drop q (b[p + n := NUL]) = drop q b" if "p + n < q"
    using that by (simp add: drop_update_cancel)
  show "take q (b[p + n := NUL]) = take q b" if "q \<le> p + n"
    using that by (simp add: take_update_cancel)
qed

section \<open>The simulation\<close>

definition tables_of :: "pstate \<Rightarrow> ini_tables" where
  "tables_of s =
     \<lparr>t_secs = map (\<lambda>x. deref (ps_buf s) (psname x)) (ps_sects s),
      t_cur = ps_cur s,
      t_keys = map (\<lambda>k. (psect k, deref (ps_buf s) (pkname k), deref (ps_buf s) (pkvalue k)))
                 (ps_keys s)\<rparr>"

definition sim :: "pstate \<Rightarrow> string \<Rightarrow> ini_tables \<Rightarrow> bool" where
  "sim s r t \<longleftrightarrow>
     drop (ps_p s) (ps_buf s) = r @ [NUL] \<and> NUL \<notin> set r \<and>
     (\<forall>x \<in> set (ps_sects s). closed (ps_buf s) (ps_p s) (psname x)) \<and>
     (\<forall>k \<in> set (ps_keys s). closed (ps_buf s) (ps_p s) (pkname k) \<and>
                               closed (ps_buf s) (ps_p s) (pkvalue k)) \<and>
     (ps_sects s \<noteq> [] \<longrightarrow> (\<exists>c. ps_cur s = Some c \<and> c < length (ps_sects s))) \<and>
     tables_of s = t"

lemma sim_move:
  assumes "sim s r t" "take (ps_p s) b' = take (ps_p s) (ps_buf s)" "ps_p s \<le> p'"
    and "drop p' b' = r' @ [NUL]" "NUL \<notin> set r'"
  shows "sim (s\<lparr>ps_buf := b', ps_p := p'\<rparr>) r' t"
  using assms closed_deref [OF _ assms(2)] closed_mono [OF _ assms(2,3)]
  by (auto simp: sim_def tables_of_def)

definition fits :: "nat \<Rightarrow> nat \<Rightarrow> ini_tables \<Rightarrow> bool" where
  "fits scap kcap t \<longleftrightarrow> length (t_secs t) \<le> scap \<and> length (t_keys t) \<le> kcap"

definition outcome :: "nat \<Rightarrow> nat \<Rightarrow> pstate res \<Rightarrow> string \<Rightarrow> ini_tables \<Rightarrow> bool" where
  "outcome scap kcap m r t \<longleftrightarrow>
     (if fits scap kcap t then \<exists>s. m = Inr s \<and> sim s r t else m = Inl Table_overflow)"

lemma sim_rest: "sim s r t \<Longrightarrow> drop (ps_p s) (ps_buf s) = r @ [NUL]"
  by (simp add: sim_def)

lemma sim_NUL_free: "sim s r t \<Longrightarrow> NUL \<notin> set r"
  by (simp add: sim_def)

lemma sim_secs_empty: "sim s r t \<Longrightarrow> t_secs t = [] \<longleftrightarrow> ps_sects s = []"
  by (auto simp: sim_def tables_of_def)

lemma sim_cur: "sim s r t \<Longrightarrow> t_cur t = ps_cur s"
  by (auto simp: sim_def tables_of_def)

lemma sim_move_pointer:
  "sim s r t \<Longrightarrow> ps_p s \<le> p' \<Longrightarrow> drop p' (ps_buf s) = r' @ [NUL] \<Longrightarrow> NUL \<notin> set r' \<Longrightarrow>
     sim (s\<lparr>ps_p := p'\<rparr>) r' t"
  using sim_move [of s r t "ps_buf s" p' r'] by simp

lemma outcome_Inr: "fits scap kcap t \<Longrightarrow> sim s r t \<Longrightarrow> outcome scap kcap (Inr s) r t"
  by (simp add: outcome_def)

lemma sim_skipline:
  assumes "sim s r t"
  shows "\<exists>p'. skipline (ps_buf s) (ps_p s) = Inr p' \<and> sim (s\<lparr>ps_p := p'\<rparr>) (after_line r) t"
proof -
  obtain p' where "skipline (ps_buf s) (ps_p s) = Inr p'" "ps_p s \<le> p'"
    "drop p' (ps_buf s) = after_line r @ [NUL]"
    using skipline_text [OF sim_rest [OF assms] sim_NUL_free [OF assms]] by blast
  with sim_move_pointer [OF assms, of p'] NUL_free_suffix [OF suffix_after_line sim_NUL_free [OF assms]]
  show ?thesis by blast
qed

lemma outcome_skipline:
  assumes "outcome scap kcap m r t"
  shows "outcome scap kcap
    (bindR m (\<lambda>s'. bindR (skipline (ps_buf s') (ps_p s')) (\<lambda>p'. Inr (s'\<lparr>ps_p := p'\<rparr>))))
    (after_line r) t"
proof (cases "fits scap kcap t")
  case True
  with assms obtain s where "m = Inr s" "sim s r t" by (auto simp: outcome_def)
  with True sim_skipline [of s r t] show ?thesis by (auto simp: outcome_def)
next
  case False
  with assms show ?thesis by (simp add: outcome_def)
qed

subsection \<open>Sections\<close>

lemma dup_scan_eq:
  "i \<le> length ss \<Longrightarrow> dup_scan b ss nm i =
     (if i < length ss \<and> strcaseeq (deref b (psname (ss ! 0))) nm then i else length ss)"
proof (induction b ss nm i rule: dup_scan.induct)
  case (1 b ss nm i)
  show ?case
  proof (cases "i < length ss")
    case True
    with 1 show ?thesis by (simp add: dup_scan.simps [of b ss nm i])
  next
    case False
    with "1.prems" show ?thesis by (simp add: dup_scan.simps)
  qed
qed

lemma enter_section_outcome:
  assumes sim: "sim (s\<lparr>ps_p := q\<rparr>) r t" and cl: "closed (ps_buf s) q (Buf p)"
    and nm: "deref (ps_buf s) (Buf p) = nm" and fit: "fits scap kcap t"
  shows "outcome scap kcap (bindR (enter_section scap p s) (\<lambda>s'. Inr (s'\<lparr>ps_p := q\<rparr>))) r
    (item_step t (Sec nm))"
proof -
  have t: "t = tables_of s" using sim by (simp add: sim_def tables_of_def)
  let ?hit = "ps_sects s \<noteq> [] \<and> strcaseeq (deref (ps_buf s) (psname (ps_sects s ! 0))) nm"
  have scan: "dup_scan (ps_buf s) (ps_sects s) nm 0 = (if ?hit then 0 else length (ps_sects s))"
    by (simp add: dup_scan_eq)
  have hit: "t_secs t \<noteq> [] \<and> strcaseeq (hd (t_secs t)) nm \<longleftrightarrow> ?hit"
    unfolding t tables_of_def by (cases "ps_sects s") auto
  show ?thesis
  proof (cases ?hit)
    case True
    then have "enter_section scap p s = Inr (s\<lparr>ps_cur := Some 0\<rparr>)"
      using scan nm by (simp add: enter_section_def Let_def)
    moreover have "sim (s\<lparr>ps_cur := Some 0, ps_p := q\<rparr>) r (t\<lparr>t_cur := Some 0\<rparr>)"
      using sim True by (simp add: sim_def tables_of_def) auto
    moreover have "item_step t (Sec nm) = t\<lparr>t_cur := Some 0\<rparr>" using hit True by simp
    ultimately show ?thesis using fit by (simp add: outcome_def fits_def)
  next
    case False
    let ?t = "t\<lparr>t_secs := t_secs t @ [nm], t_cur := Some (length (t_secs t))\<rparr>"
    let ?s = "s\<lparr>ps_sects := ps_sects s @ [new_section (Buf p)], ps_cur := Some (length (ps_sects s))\<rparr>"
    have it: "item_step t (Sec nm) = ?t" unfolding item_step.simps hit using False by (rule if_not_P)
    have len: "length (t_secs t) = length (ps_sects s)" by (simp add: t tables_of_def)
    have enter: "enter_section scap p s =
        (if length (ps_sects s) < scap then Inr ?s else Inl Table_overflow)"
      using scan nm False by (simp add: enter_section_def Let_def guardR_def)
    have "sim (?s\<lparr>ps_p := q\<rparr>) r ?t"
      using sim cl nm by (simp add: sim_def tables_of_def new_section_def) auto
    with fit show ?thesis
      unfolding it enter by (auto simp: outcome_def fits_def len)
  qed
qed

lemma sec_len_less: "sec_len cs len = m \<Longrightarrow> 0 < m \<Longrightarrow> -1 \<le> len \<Longrightarrow> m - max len 0 < int (length cs)"
proof (induction cs len rule: sec_len.induct)
  case (1 len)
  then show ?case by simp
next
  case (2 c cs len)
  then show ?case by (auto split: if_splits)
qed

lemma section_line_outcome:
  assumes sim: "sim (s\<lparr>ps_p := p\<rparr>) cs t" and fit: "fits scap kcap t"
    and line: "spec_section cs = (it, r')"
  shows "outcome scap kcap (section_line scap p s) r'
    (case it of None \<Rightarrow> t | Some i \<Rightarrow> item_step t i)"
proof -
  have d: "drop p (ps_buf s) = cs @ [NUL]" and nf: "NUL \<notin> set cs"
    using sim_rest [OF sim] sim_NUL_free [OF sim] by simp_all
  have len: "parse_section_name (ps_buf s) p = Inr (sec_len cs (-1))"
    unfolding parse_section_name_def by (rule section_name_text [OF d nf])
  show ?thesis
  proof (cases "0 < sec_len cs (-1)")
    case False
    then have "it = None" "r' = after_line cs"
      using line by (auto simp: spec_section_def Let_def)
    with len False outcome_skipline [OF outcome_Inr [OF fit sim]] show ?thesis
      by (simp add: section_line_def)
  next
    case True
    define n where "n = nat (sec_len cs (-1))"
    have n: "n < length cs" using sec_len_less [of cs "-1"] True by (simp add: n_def)
    have it: "it = Some (Sec (take n cs))" "r' = after_line (drop (n + 1) cs)"
      using line True by (auto simp: spec_section_def Let_def n_def)
    let ?b = "(ps_buf s)[p + n := NUL]" and ?q = "p + (n + 1)"
    note ended = string_ended [OF d nf less_imp_le [OF n]]
    have "sim (s\<lparr>ps_buf := ?b, ps_p := ?q\<rparr>) (drop (n + 1) cs) t"
    proof -
      have "drop ?q ?b = drop (n + 1) cs @ [NUL]"
        using ended(3) [of ?q] drop_text [OF d, of "n + 1"] n by simp
      moreover have "NUL \<notin> set (drop (n + 1) cs)" using nf by (meson in_set_dropD)
      ultimately show ?thesis
        using sim_move [OF sim, of ?b ?q "drop (n + 1) cs"] ended(4) [of p] by simp
    qed
    then have "outcome scap kcap
        (bindR (enter_section scap p (s\<lparr>ps_buf := ?b\<rparr>)) (\<lambda>s'. Inr (s'\<lparr>ps_p := ?q\<rparr>)))
        (drop (n + 1) cs) (item_step t (Sec (take n cs)))"
      using ended(1) ended(2) [of ?q] fit by (intro enter_section_outcome) simp_all
    from outcome_skipline [OF this] show ?thesis
      using True ended(5) by (simp add: section_line_def len it wr_def n_def)
  qed
qed

subsection \<open>Keys\<close>

lemma spec_key_split:
  assumes "spec_key r \<noteq> []"
  shows "\<exists>g u. r = spec_key r @ g @ CHR ''='' # u \<and> CHR ''='' \<notin> set g \<and>
    last (spec_key r) \<notin> {LF, CR}"
proof -
  define nm where "nm = takeWhile (\<lambda>c. c \<noteq> CHR ''='' \<and> c \<noteq> LF \<and> c \<noteq> CR) r"
  have k: "spec_key r = rstrip nm" and ne: "drop (length nm) r \<noteq> []"
    and hd: "hd (drop (length nm) r) = CHR ''=''"
    using assms by (auto simp: spec_key_def Let_def nm_def split: if_splits)
  have r: "r = nm @ CHR ''='' # tl (drop (length nm) r)"
    using ne hd by (metis append_take_drop_id list.collapse nm_def takeWhile_eq_take)
  obtain g where g: "nm = rstrip nm @ g" using rstrip_prefix by blast
  have "\<forall>c \<in> set nm. c \<noteq> CHR ''='' \<and> c \<noteq> LF \<and> c \<noteq> CR"
    unfolding nm_def using set_takeWhileD by fastforce
  moreover have "set nm = set (rstrip nm) \<union> set g" using g by (metis set_append)
  moreover have "last (rstrip nm) \<in> set (rstrip nm)" using assms k by simp
  ultimately have "CHR ''='' \<notin> set g" "last (rstrip nm) \<notin> {LF, CR}" by auto
  then show ?thesis using r g k by (metis append.assoc)
qed

text \<open>The pointer behind the equality sign and the blanks after it.\<close>

lemma behind_text:
  assumes d: "drop p b = r @ [NUL]" and nf: "NUL \<notin> set r" and k: "spec_key r = k" "k \<noteq> []"
  shows "\<exists>pe pv. (if b ! (p + length k) \<noteq> CHR ''='' then skipws b (p + length k)
                  else Inr (p + length k)) = Inr pe \<and>
    skipws b (Suc pe) = Inr pv \<and> p + length k < pv \<and>
    drop pv b = spec_behind k r @ [NUL]"
proof -
  obtain g u where r: "r = k @ g @ CHR ''='' # u" and eqg: "CHR ''='' \<notin> set g"
    using spec_key_split [of r] k by auto
  let ?w = "drop (length k) r"
  have w: "?w = g @ CHR ''='' # u" by (subst r) simp
  have dw: "drop (p + length k) b = ?w @ [NUL]" by (rule drop_text [OF d]) (subst r, simp)
  have hd: "b ! (p + length k) = hd ?w"
    using dw w drop_nonempty_less [of "p + length k" b "hd ?w"] by (cases g) auto
  define w1 where "w1 = (if hd ?w = CHR ''='' then ?w else dropWhile is_ws ?w)"
  have "\<exists>pe. (if b ! (p + length k) \<noteq> CHR ''='' then skipws b (p + length k)
      else Inr (p + length k)) = Inr pe \<and> p + length k \<le> pe \<and> drop pe b = w1 @ [NUL]"
    using skipws_text [OF dw] dw hd by (auto simp: w1_def)
  then obtain pe where pe: "(if b ! (p + length k) \<noteq> CHR ''='' then skipws b (p + length k)
      else Inr (p + length k)) = Inr pe" "p + length k \<le> pe" and d1: "drop pe b = w1 @ [NUL]"
    by blast
  have "CHR ''='' \<in> set w1"
  proof -
    have "\<not> is_ws CHR ''=''" by (simp add: is_ws_def)
    then show ?thesis unfolding w1_def w by (auto simp: dropWhile_append)
  qed
  then obtain x xs where w1: "w1 = x # xs" by (cases w1) auto
  have d2: "drop (Suc pe) b = tl w1 @ [NUL]" using d1 w1 drop_nonempty_less [of pe b x] by simp
  show ?thesis
    using pe skipws_text [OF d2]
    by (auto simp: spec_behind_def Let_def simp flip: w1_def)
qed

text \<open>The value, where the text ends with a newline.\<close>

lemma store_value_text:
  assumes d: "drop pv b = w @ [NUL]" and nf: "NUL \<notin> set w" and lf: "lf_end w"
    and v: "spec_value w = (v, r')"
  shows "\<exists>b' p' sp. store_value b pv = Inr (b', p', sp) \<and> pv \<le> p' \<and>
    take pv b' = take pv b \<and> drop p' b' = r' @ [NUL] \<and>
    closed b' p' sp \<and> deref b' sp = v"
proof -
  define seg where "seg = takeWhile (\<lambda>c. c \<noteq> LF \<and> c \<noteq> CR) w"
  have pk: "parse_key_value b pv = Inr (length (rstrip seg))"
    unfolding seg_def by (rule parse_key_value_text [OF d nf])
  show ?thesis
  proof (cases "rstrip seg = []")
    case True
    then have "v = emptystring" "r' = w" using v by (auto simp: spec_value_def Let_def seg_def)
    with True pk d show ?thesis by (simp add: store_value_def)
  next
    case False
    then have vr: "v = rstrip seg" "r' = drop (length v + 1) w"
      using v by (auto simp: spec_value_def Let_def seg_def)
    obtain t where "seg = v @ t" using rstrip_prefix [of seg] vr by auto
    moreover have "w = seg @ dropWhile (\<lambda>c. c \<noteq> LF \<and> c \<noteq> CR) w" by (simp add: seg_def)
    ultimately obtain t' where w: "w = v @ t'" by (metis append.assoc)
    have "\<not> le_space (last v)" using rstrip_nonempty_last False vr by simp
    then have "last v \<noteq> LF" by auto
    with w lf False vr have "t' \<noteq> []" by (auto simp: lf_end_def)
    then have lv: "length v < length w" using w by simp
    note ended = string_ended [OF d nf less_imp_le [OF lv]]
    let ?b = "b[pv + length v := NUL]" and ?p = "pv + (length v + 1)"
    have "store_value b pv = Inr (?b, ?p, Buf pv)"
      using pk False vr ended(5) by (simp add: store_value_def wr_def)
    moreover have "take pv ?b = take pv b" by (rule ended(4)) simp
    moreover have "drop ?p ?b = r' @ [NUL]"
      using ended(3) [of ?p] drop_text [OF d, of "length v + 1"] lv vr by simp
    moreover have "closed ?b ?p (Buf pv)" by (rule ended(2)) simp
    moreover have "deref ?b (Buf pv) = v" using ended(1) w by simp
    ultimately show ?thesis by fastforce
  qed
qed

text \<open>The links of the new key and the step over the newline.\<close>

lemma apply_default_outcome:
  assumes sim: "sim s r t" and fit: "fits scap kcap t"
  shows "(if t_secs t = [] \<and> scap = 0 then apply_default_section scap s = Inl Table_overflow
    else \<exists>s1 c. apply_default_section scap s = Inr s1 \<and> ps_cur s1 = Some c \<and>
      sim s1 r (if t_secs t = [] then t\<lparr>t_secs := [defsection], t_cur := Some 0\<rparr> else t))"
proof -
  have t: "t = tables_of s" using sim by (simp add: sim_def)
  have e: "t_secs t = [] \<longleftrightarrow> ps_sects s = []" by (simp add: t tables_of_def)
  show ?thesis
  proof (cases "ps_sects s = []")
    case True
    have "sim (s\<lparr>ps_sects := [new_section Defsection], ps_cur := Some 0\<rparr>) r
        (t\<lparr>t_secs := [defsection], t_cur := Some 0\<rparr>)"
      using sim by (simp add: sim_def tables_of_def new_section_def) auto
    with True e show ?thesis by (simp add: apply_default_section_def guardR_def)
  next
    case False
    with sim e show ?thesis by (auto simp: apply_default_section_def sim_def)
  qed
qed

lemma link_key_sim:
  assumes sim: "sim s r t" and cur: "ps_cur s = Some c" and ne: "ps_sects s \<noteq> []"
    and cl: "closed (ps_buf s) (ps_p s) nm" "closed (ps_buf s) (ps_p s) val"
  shows "\<exists>s2. link_key nm val s = Inr s2 \<and> ps_buf s2 = ps_buf s \<and> ps_p s2 = ps_p s \<and>
    sim s2 r (t\<lparr>t_keys := t_keys t @ [(c, deref (ps_buf s) nm, deref (ps_buf s) val)]\<rparr>)"
proof -
  define row where "row = (ps_sects s ! c)\<lparr>
      ppairs := (if ppairs (ps_sects s ! c) = None then Some (length (ps_keys s))
                 else ppairs (ps_sects s ! c)),
      npairs := npairs (ps_sects s ! c) + 1\<rparr>"
  define s2 where "s2 = s\<lparr>
      ps_keys := ps_keys s @ [\<lparr>pkname = nm, pkvalue = val, psect = c\<rparr>],
      ps_sects := (ps_sects s)[c := row]\<rparr>"
  have lk: "link_key nm val s = Inr s2"
    by (simp only: link_key_def cur option.case Let_def s2_def row_def)
  have c: "c < length (ps_sects s)" using sim cur ne by (auto simp: sim_def)
  have nm: "psname row = psname (ps_sects s ! c)" by (simp add: row_def)
  have names: "map (\<lambda>x. deref b (psname x)) ((ps_sects s)[c := row])
      = map (\<lambda>x. deref b (psname x)) (ps_sects s)" for b
    using c by (simp add: map_update nm list_update_same_conv)
  have "\<forall>x \<in> set ((ps_sects s)[c := row]). closed (ps_buf s) (ps_p s) (psname x)"
  proof
    fix x assume "x \<in> set ((ps_sects s)[c := row])"
    then have "x = row \<or> x \<in> set (ps_sects s)"
      using set_update_subset_insert [of "ps_sects s" c row] by auto
    then show "closed (ps_buf s) (ps_p s) (psname x)"
      using sim c nm by (auto simp: sim_def)
  qed
  then have "sim s2 r (t\<lparr>t_keys := t_keys t @ [(c, deref (ps_buf s) nm, deref (ps_buf s) val)]\<rparr>)"
    using sim cl cur c ne by (auto simp: sim_def tables_of_def s2_def names)
  with lk show ?thesis by (simp add: s2_def)
qed

lemma finish_key_outcome:
  assumes sim: "sim (s\<lparr>ps_buf := b, ps_p := p'\<rparr>) r' t"
    and nm: "closed b p' (Buf p)" "deref b (Buf p) = k"
    and val: "closed b p' val" "deref b val = v"
    and fit: "fits scap kcap t" "length (t_keys t) < kcap"
  shows "outcome scap kcap (finish_key scap p s b p' val) (skip_newline r') (item_step t (Pair k v))"
proof -
  let ?s = "s\<lparr>ps_buf := b, ps_p := p'\<rparr>"
  have d: "drop p' b = r' @ [NUL]" and nf: "NUL \<notin> set r'"
    using sim_rest [OF sim] sim_NUL_free [OF sim] by simp_all
  let ?t = "if t_secs t = [] then t\<lparr>t_secs := [defsection], t_cur := Some 0\<rparr> else t"
  show ?thesis
  proof (cases "t_secs t = [] \<and> scap = 0")
    case True
    then have "apply_default_section scap ?s = Inl Table_overflow"
      using apply_default_outcome [OF sim fit(1)] by simp
    with True show ?thesis by (simp add: finish_key_def outcome_def fits_def Let_def)
  next
    case False
    then obtain s1 c where s1: "apply_default_section scap ?s = Inr s1" "ps_cur s1 = Some c"
        "sim s1 r' ?t"
      using apply_default_outcome [OF sim fit(1)] by auto
    have fr: "ps_buf s1 = b" "ps_p s1 = p'" using apply_default_frame [OF s1(1)] by simp_all
    have "t_secs ?t \<noteq> []" by simp
    then have "ps_sects s1 \<noteq> []" using sim_secs_empty [OF s1(3)] by blast
    from link_key_sim [OF s1(3,2) this, unfolded fr, OF nm(1) val(1), unfolded nm(2) val(2)]
    obtain s2 where s2: "link_key (Buf p) val s1 = Inr s2"
        "ps_buf s2 = b" "ps_p s2 = p'" "sim s2 r' (?t\<lparr>t_keys := t_keys ?t @ [(c, k, v)]\<rparr>)"
      by blast
    have "t_cur ?t = Some c" using sim_cur [OF s1(3)] s1(2) by simp
    then have it: "item_step t (Pair k v) = ?t\<lparr>t_keys := t_keys ?t @ [(c, k, v)]\<rparr>"
      by (simp add: Let_def)
    have p': "p' < length b" "b ! p' = (case r' of [] \<Rightarrow> NUL | c # _ \<Rightarrow> c)"
      using d drop_nonempty_less [of p' b] by (cases r'; fastforce)+
    have skip: "\<exists>q. (if b ! p' = LF then skipline b p' else Inr p') = Inr q \<and>
        p' \<le> q \<and> drop q b = skip_newline r' @ [NUL]"
    proof (cases "r' \<noteq> [] \<and> hd r' = LF")
      case True
      then obtain cs where "r' = LF # cs" by (cases r') auto
      with skipline_text [OF d nf] p' show ?thesis by (simp add: skip_newline_def after_line_def)
    next
      case False
      with p' d show ?thesis by (cases r') (auto simp: skip_newline_def)
    qed
    then obtain q where q: "(if b ! p' = LF then skipline b p' else Inr p') = Inr q"
        "p' \<le> q" "drop q b = skip_newline r' @ [NUL]" by blast
    have "sim (s2\<lparr>ps_p := q\<rparr>) (skip_newline r') (item_step t (Pair k v))"
      unfolding it
      using sim_move_pointer [OF s2(4)] s2(2,3) q(2,3) NUL_free_suffix [OF suffix_skip_newline nf]
      by simp
    moreover have "finish_key scap p s b p' val = Inr (s2\<lparr>ps_p := q\<rparr>)"
      using s1(1) s2(1) p'(1) q(1) by (simp add: finish_key_def rd_def)
    moreover have "fits scap kcap (item_step t (Pair k v))"
      using fit False unfolding it by (auto simp: fits_def)
    ultimately show ?thesis by (simp add: outcome_def)
  qed
qed

lemma key_line_outcome:
  assumes sim: "sim (s\<lparr>ps_p := p\<rparr>) r t" and fit: "fits scap kcap t" and lf: "lf_end r"
    and k: "spec_key r = k" "k \<noteq> []"
    and line: "spec_value (spec_behind k r) = (v, r')"
  shows "outcome scap kcap (key_line scap kcap p (length k) s) (skip_newline r')
    (item_step t (Pair k v))"
proof -
  let ?b = "ps_buf s" and ?n = "p + length k"
  have d: "drop p ?b = r @ [NUL]" and nf: "NUL \<notin> set r"
    using sim_rest [OF sim] sim_NUL_free [OF sim] by simp_all
  obtain pe pv where pe: "(if ?b ! ?n \<noteq> CHR ''='' then skipws ?b ?n else Inr ?n) = Inr pe"
    and pv: "skipws ?b (Suc pe) = Inr pv" "?n < pv" "drop pv ?b = spec_behind k r @ [NUL]"
    using behind_text [OF d nf k] by blast
  obtain g u where r: "r = k @ g @ CHR ''='' # u" using spec_key_split [of r] k by auto
  then have lk: "length k \<le> length r" "take (length k) r = k"
    by (metis le_add1 length_append, metis append_eq_conv_conj)
  note ended = string_ended [OF d nf lk(1)]
  let ?b1 = "?b[?n := NUL]"
  have suf: "suffix (spec_behind k r) r"
    using suffix_order.trans [OF suffix_spec_behind suffix_drop] .
  have d1: "drop pv ?b1 = spec_behind k r @ [NUL]" using ended(3) [of pv] pv by simp
  obtain b2 p' sp where val: "store_value ?b1 pv = Inr (b2, p', sp)" "pv \<le> p'"
      "take pv b2 = take pv ?b1" "drop p' b2 = r' @ [NUL]" "closed b2 p' sp" "deref b2 sp = v"
    using store_value_text [OF d1 NUL_free_suffix [OF suf nf] lf_end_suffix [OF suf lf] line] by blast
  have nf': "NUL \<notin> set r'"
    using NUL_free_suffix [OF suffix_order.trans [OF suffix_spec_value suf] nf] line
    by (metis snd_conv)
  have c1: "closed ?b1 pv (Buf p)" using ended(2) [of pv] pv by simp
  have c2: "closed b2 p' (Buf p)" by (rule closed_mono [OF c1 val(3,2)])
  have nm: "deref b2 (Buf p) = k" using closed_deref [OF c1 val(3)] ended(1) lk by simp
  have pn: "p \<le> p'" using pv(2) val(2) by simp
  have tk: "take p b2 = take p ?b"
  proof -
    have "take p b2 = take p (take pv b2)" using pv(2) by (simp add: min_def)
    also have "\<dots> = take p ?b1" using pv(2) unfolding val(3) by (simp add: min_def)
    finally show ?thesis using ended(4) [of p] by simp
  qed
  have simv: "sim (s\<lparr>ps_buf := b2, ps_p := p'\<rparr>) r' t"
    using sim_move [OF sim, of b2 p' r'] tk pn val(4) nf' by simp
  have kl: "length (ps_keys s) = length (t_keys t)"
    using sim by (auto simp: sim_def tables_of_def)
  show ?thesis
  proof (cases "length (t_keys t) < kcap")
    case True
    then show ?thesis
      using finish_key_outcome [OF simv c2 nm val(5,6) fit True] pe pv(1) val(1) ended(5) kl
      by (simp add: key_line_def rd_def wr_def)
  next
    case False
    then show ?thesis
      using pe pv(1) ended(5) kl
      by (simp add: key_line_def rd_def wr_def outcome_def fits_def Let_def)
  qed
qed

lemma ini_step_outcome:
  assumes sim: "sim s r t" and fit: "fits scap kcap t" and lf: "lf_end r" and ne: "r \<noteq> []"
    and line: "spec_line r = (it, r')"
  shows "outcome scap kcap (ini_step scap kcap s) r' (case it of None \<Rightarrow> t | Some i \<Rightarrow> item_step t i)"
proof -
  let ?p = "ps_p s + length (takeWhile is_ws r)" and ?r = "dropWhile is_ws r"
  note ws = skipws_text [OF sim_rest [OF sim]]
  have nf: "NUL \<notin> set ?r" using sim_NUL_free [OF sim] by (meson set_dropWhileD)
  have sim1: "sim (s\<lparr>ps_p := ?p\<rparr>) ?r t"
    using sim_move_pointer [OF sim _ ws(2) nf] by simp
  have lf1: "lf_end ?r" using lf lf_end_suffix suffix_dropWhile by blast
  have "?r \<noteq> []"
  proof
    assume e: "?r = []"
    then have "\<forall>c \<in> set r. is_ws c" by (simp add: dropWhile_eq_Nil_conv)
    then have "is_ws (last r)" using ne by simp
    then show False using lf ne by (simp add: lf_end_def is_ws_def)
  qed
  then obtain c cs where r: "?r = c # cs" by (cases ?r) auto
  have b: "ps_buf s ! ?p = c" "drop (Suc ?p) (ps_buf s) = cs @ [NUL]"
    using ws(2) r drop_nonempty_less [of ?p "ps_buf s" c "cs @ [NUL]"] by auto
  have cr: "c \<noteq> CR" using hd_dropWhile [of is_ws r] r by (auto simp: is_ws_def)
  have nfc: "NUL \<notin> set cs" using nf r by simp
  have sim2: "sim (s\<lparr>ps_p := Suc ?p\<rparr>) cs t"
    using sim_move_pointer [OF sim _ b(2) nfc] by simp
  consider (lf) "c = LF" | (sec) "c = CHR ''[''" | (com) "c = CHR '';'' \<or> c = CHR ''#''"
    | (name) "c \<noteq> LF" "c \<noteq> CHR ''[''" "c \<noteq> CHR '';''" "c \<noteq> CHR ''#''" by blast
  then show ?thesis
  proof cases
    case lf
    then show ?thesis using ws(1) b line r sim2 fit
      by (auto simp: ini_step_def spec_line_def intro: outcome_Inr)
  next
    case sec
    then show ?thesis using ws(1) b line r section_line_outcome [OF sim2 fit, of it r']
      by (simp add: ini_step_def spec_line_def)
  next
    case com
    have "outcome scap kcap (ini_step scap kcap s) (after_line (c # cs)) t"
      using outcome_skipline [OF outcome_Inr [OF fit sim1]] ws(1) b com r
      by (auto simp: ini_step_def)
    then show ?thesis using line r com by (auto simp: spec_line_def)
  next
    case name
    have step: "ini_step scap kcap s = name_line scap kcap ?p s"
      using ws(1) b name cr by (simp add: ini_step_def)
    have sl: "spec_name ?r = (it, r')" using line r name by (simp add: spec_line_def)
    have pk: "parse_key_name (ps_buf s) ?p = Inr (length (spec_key ?r))"
      by (rule parse_key_name_text [OF ws(2) nf])
    show ?thesis
    proof (cases "spec_key ?r = []")
      case True
      then have "it = None" "r' = after_line ?r" using sl by (auto simp: spec_name_def)
      then show ?thesis
        using outcome_skipline [OF outcome_Inr [OF fit sim1]] pk True step
        by (simp add: name_line_def)
    next
      case False
      obtain v w where vw: "spec_value (spec_behind (spec_key ?r) ?r) = (v, w)" by fastforce
      then have "it = Some (Pair (spec_key ?r) v)" "r' = skip_newline w"
        using sl False by (auto simp: spec_name_def Let_def)
      then show ?thesis
        using key_line_outcome [OF sim1 fit lf1 refl False vw] pk False step
        by (simp add: name_line_def)
    qed
  qed
qed

section \<open>The loop and the whole parser\<close>

lemma item_step_grows:
  "length (t_secs t) \<le> length (t_secs (item_step t i)) \<and>
   length (t_keys t) \<le> length (t_keys (item_step t i))"
  by (cases i) (auto simp: Let_def)

lemma items_grow: "fits scap kcap (foldl item_step t is) \<Longrightarrow> fits scap kcap t"
proof (induction "is" arbitrary: t)
  case Nil
  then show ?case by simp
next
  case (Cons i "is")
  then have "fits scap kcap (item_step t i)" by simp
  with item_step_grows [of t i] show ?case by (auto simp: fits_def)
qed

definition loop_outcome :: "nat \<Rightarrow> nat \<Rightarrow> pstate res \<Rightarrow> ini_tables \<Rightarrow> bool" where
  "loop_outcome scap kcap m t \<longleftrightarrow>
     (if fits scap kcap t then \<exists>s. m = Inr s \<and> sim s [] t else m = Inl Table_overflow)"

lemma ini_loop_outcome:
  assumes "sim s r t" "fits scap kcap t" "lf_end r" "r \<noteq> []" "length (ps_buf s) = Suc bsize"
  shows "loop_outcome scap kcap (ini_loop bsize scap kcap s) (foldl item_step t (spec_items r))"
  using assms
proof (induction r arbitrary: s t rule: spec_items.induct)
  case (1 r)
  note ne = \<open>r \<noteq> []\<close>
  obtain it r' where line: "spec_line r = (it, r')" by fastforce
  define t' where "t' = (case it of None \<Rightarrow> t | Some i \<Rightarrow> item_step t i)"
  have items: "foldl item_step t (spec_items r) = foldl item_step t' (spec_items r')"
    using ne line by (simp add: spec_items.simps [of r] t'_def split: option.splits)
  have lf': "lf_end r'"
    using lf_end_suffix [OF suffix_spec_line] "1.prems"(3) line by (metis snd_conv)
  have out: "outcome scap kcap (ini_step scap kcap s) r' t'"
    unfolding t'_def by (rule ini_step_outcome [OF "1.prems"(1-4) line])
  show ?case
  proof (cases "fits scap kcap t'")
    case False
    then have "\<not> fits scap kcap (foldl item_step t' (spec_items r'))" using items_grow by blast
    moreover have "ini_loop bsize scap kcap s = Inl Table_overflow"
      using out False by (simp add: outcome_def ini_loop.simps [of bsize])
    ultimately show ?thesis by (simp add: loop_outcome_def items)
  next
    case True
    then obtain s' where s': "ini_step scap kcap s = Inr s'" "sim s' r' t'"
      using out by (auto simp: outcome_def)
    have len: "length (ps_buf s') = Suc bsize"
      using ini_step_progress [OF s'(1)] "1.prems"(5) by simp
    note rest = sim_rest [OF s'(2)]
    show ?thesis
    proof (cases r')
      case Nil
      then have "ps_p s' < length (ps_buf s')" "ps_buf s' ! ps_p s' = NUL"
        using rest drop_nonempty_less [of "ps_p s'" "ps_buf s'" NUL] by simp_all
      then have "ini_loop bsize scap kcap s = Inr s'"
        using s'(1) by (simp add: ini_loop.simps [of bsize])
      moreover have "spec_items r' = []" using Nil by (simp add: spec_items.simps)
      ultimately show ?thesis
        unfolding loop_outcome_def items using s'(2) Nil True by simp
    next
      case (Cons c cs)
      then have p: "ps_p s' < length (ps_buf s')" "ps_buf s' ! ps_p s' = c"
        using rest drop_nonempty_less [of "ps_p s'" "ps_buf s'" c] by simp_all
      moreover have "c \<noteq> NUL" using sim_NUL_free [OF s'(2)] Cons by auto
      moreover have "ps_p s' < bsize"
      proof -
        have "2 \<le> length (drop (ps_p s') (ps_buf s'))" using rest Cons by simp
        then show ?thesis using len by simp
      qed
      ultimately have "ini_loop bsize scap kcap s = ini_loop bsize scap kcap s'"
        using s'(1) by (simp add: ini_loop.simps [of bsize _ _ s])
      moreover have "loop_outcome scap kcap (ini_loop bsize scap kcap s')
          (foldl item_step t' (spec_items r'))"
        using "1.IH" [OF ne line [symmetric] s'(2) True lf' _ len] Cons by simp
      ultimately show ?thesis by (simp add: items)
    qed
  qed
qed

lemma sim_init: "NUL \<notin> set c \<Longrightarrow> sim (init_pstate (c @ [NUL])) c empty_tables"
  by (simp add: sim_def init_pstate_def tables_of_def empty_tables_def)

lemma parse_outcome:
  assumes nf: "NUL \<notin> set c" and lf: "lf_end c"
  shows "loop_outcome scap kcap (parse_ini_file (length c) scap kcap (c @ [NUL])) (spec_tables c)"
proof (cases "c = []")
  case True
  have "parse_ini_file 0 scap kcap [NUL] = Inr (init_pstate [NUL])"
    by (simp add: parse_ini_file_def init_pstate_def ini_loop.simps ini_step_def skipws_def
        scan.simps is_ws_def name_line_def parse_key_name_def skipline_def)
  with True sim_init [OF nf] show ?thesis
    by (simp add: loop_outcome_def spec_tables_def spec_items.simps empty_tables_def fits_def)
next
  case False
  have "fits scap kcap empty_tables" by (simp add: fits_def empty_tables_def)
  from ini_loop_outcome [OF sim_init [OF nf] this lf False, of "length c"]
  show ?thesis by (simp add: parse_ini_file_def spec_tables_def init_pstate_def)
qed

lemma loop_outcome_cases:
  "loop_outcome scap kcap m t \<Longrightarrow>
     (\<exists>s. m = Inr s \<and> fits scap kcap t \<and> tables_of s = t) \<or>
     m = Inl Table_overflow \<and> \<not> fits scap kcap t"
  by (auto simp: loop_outcome_def sim_def split: if_splits)

end
