(* ===== verification/IniSize.thy ===== *)
theory IniSize
  imports IniRefine
begin

text \<open>
  The size of the tables. inidb_open allocates one section row and one key row for every four
  bytes of the file. That is enough when every key of the file has a value: each section header
  and each key line then takes four bytes at least.
\<close>

definition valued :: "ini_item \<Rightarrow> bool" where
  "valued i = (case i of Sec nm \<Rightarrow> True | Pair k v \<Rightarrow> v \<noteq> emptystring)"

lemma sec_len_stops:
  "0 < sec_len cs len \<Longrightarrow> -1 \<le> len \<Longrightarrow> len \<noteq> 0 \<Longrightarrow>
     CHR '']'' \<in> set cs \<and> sec_len cs len - max len 0 \<le> int (length (takeWhile (\<lambda>c. c \<noteq> CHR '']'') cs))"
proof (induction cs len rule: sec_len.induct)
  case (1 len)
  then show ?case by simp
next
  case (2 c cs len)
  then show ?case by (auto split: if_splits)
qed

lemma spec_section_bytes:
  assumes "spec_section cs = (Some i, r')" "lf_end cs"
  shows "length r' + 3 \<le> length cs"
proof -
  define n where "n = nat (sec_len cs (-1))"
  have pos: "0 < sec_len cs (-1)" and r': "r' = after_line (drop (n + 1) cs)"
    using assms(1) by (auto simp: spec_section_def Let_def n_def split: if_splits)
  let ?a = "takeWhile (\<lambda>c. c \<noteq> CHR '']'') cs" and ?d = "dropWhile (\<lambda>c. c \<noteq> CHR '']'') cs"
  have br: "CHR '']'' \<in> set cs" and n: "n \<le> length ?a"
    using sec_len_stops [OF pos] by (auto simp: n_def)
  have "?d \<noteq> []" using br by (simp add: dropWhile_eq_Nil_conv)
  then obtain u where u: "?d = CHR '']'' # u"
    using hd_dropWhile [of "\<lambda>c. c \<noteq> CHR '']''" cs] by (cases ?d) auto
  have cs: "cs = ?a @ CHR '']'' # u" using u by (metis takeWhile_dropWhile_id)
  have "u \<noteq> []"
  proof
    assume "u = []"
    then have "last cs = CHR '']''" using cs by (metis last_snoc)
    with assms(2) br show False by (auto simp: lf_end_def)
  qed
  then have "length ?a + 2 \<le> length cs" by (subst (2) cs) (cases u; simp)
  then have "n + 2 \<le> length cs" using n by linarith
  moreover from this have "length r' < length (drop (n + 1) cs)"
    unfolding r' by (intro length_after_line_less) simp
  moreover have "0 < n" using pos by (simp add: n_def)
  ultimately show ?thesis by simp
qed

lemma spec_name_bytes:
  assumes "spec_name r = (Some (Pair k v), r')" "lf_end r" "v \<noteq> emptystring"
  shows "length r' + 4 \<le> length r"
proof -
  let ?w = "spec_behind k r"
  obtain w where k: "spec_key r = k" "k \<noteq> []" and v: "spec_value ?w = (v, w)"
    and r': "r' = skip_newline w"
    using assms(1) by (auto simp: spec_name_def Let_def split: prod.splits if_splits)
  have lk: "length k + 1 \<le> length r" 
  proof -
    obtain g u where "r = k @ g @ CHR ''='' # u" using spec_key_split [of r] k by auto
    then have "length r = length (k @ g @ CHR ''='' # u)" by (rule arg_cong)
    then show ?thesis by simp
  qed
  have "length ?w \<le> length (drop (length k) r) - 1"
  proof -
    have "length (dropWhile is_ws (tl x)) \<le> length x - 1" for x :: string
      using length_dropWhile_le [of is_ws "tl x"] by simp
    moreover have "length (dropWhile is_ws x) \<le> length x" for x :: string
      by (rule length_dropWhile_le)
    ultimately show ?thesis
      unfolding spec_behind_def Let_def by (smt (verit) diff_le_mono le_trans)
  qed
  then have a: "length ?w + length k + 1 \<le> length r" using lk by simp
  define seg where "seg = takeWhile (\<lambda>c. c \<noteq> LF \<and> c \<noteq> CR) ?w"
  have vr: "v = rstrip seg" "w = drop (length v + 1) ?w" "v \<noteq> []"
    using v assms(3) by (auto simp: spec_value_def Let_def seg_def split: if_splits)
  have "suffix ?w r" using suffix_order.trans [OF suffix_spec_behind suffix_drop] .
  then have lf: "lf_end ?w" using assms(2) lf_end_suffix by blast
  obtain t where "seg = v @ t" using rstrip_prefix [of seg] vr by auto
  moreover have "?w = seg @ dropWhile (\<lambda>c. c \<noteq> LF \<and> c \<noteq> CR) ?w" by (simp add: seg_def)
  ultimately obtain t' where w: "?w = v @ t'" by (metis append.assoc)
  have "\<not> le_space (last v)" using rstrip_nonempty_last vr by simp
  then have "last v \<noteq> LF" by auto
  with w lf vr have "t' \<noteq> []" by (auto simp: lf_end_def)
  then have "length v + 1 \<le> length ?w" using w by (cases t') simp_all
  then have "length w + length v + 1 = length ?w" using vr(2) by simp
  moreover have "length r' \<le> length w" unfolding r' by (rule length_skip_newline)
  moreover have "0 < length k" "0 < length v" using k vr by simp_all
  ultimately show ?thesis using a by linarith
qed

lemma spec_line_bytes:
  assumes "spec_line r = (Some i, r')" "lf_end r" "valued i"
  shows "length r' + 4 \<le> length r"
proof -
  let ?r = "dropWhile is_ws r"
  have le: "length ?r \<le> length r" by (rule length_dropWhile_le)
  have lf: "lf_end ?r" using assms(2) lf_end_suffix suffix_dropWhile by blast
  obtain c cs where r: "?r = c # cs" using assms(1) by (cases ?r) (auto simp: spec_line_def)
  show ?thesis
  proof (cases "c = CHR ''[''")
    case True
    then have "spec_section cs = (Some i, r')" "lf_end cs"
      using assms(1) r lf by (auto simp: spec_line_def lf_end_def split: if_splits)
    from spec_section_bytes [OF this] show ?thesis using le r by simp
  next
    case False
    then have sn: "spec_name ?r = (Some i, r')"
      using assms(1) r by (auto simp: spec_line_def split: if_splits)
    then obtain k v where "i = Pair k v"
      by (auto simp: spec_name_def Let_def split: prod.splits if_splits)
    with spec_name_bytes [of ?r k v r'] sn lf assms(3) le show ?thesis by (simp add: valued_def)
  qed
qed

lemma items_bytes:
  "lf_end r \<Longrightarrow> list_all valued (spec_items r) \<Longrightarrow> 4 * length (spec_items r) \<le> length r"
proof (induction r rule: spec_items.induct)
  case (1 r)
  show ?case
  proof (cases "r = []")
    case True
    then show ?thesis by (simp add: spec_items.simps)
  next
    case False
    obtain it r' where line: "spec_line r = (it, r')" by fastforce
    have items: "spec_items r = (case it of None \<Rightarrow> [] | Some i \<Rightarrow> [i]) @ spec_items r'"
      using False line by (simp add: spec_items.simps [of r])
    have lf': "lf_end r'"
      using lf_end_suffix [OF suffix_spec_line] "1.prems"(1) line by (metis snd_conv)
    have IH: "4 * length (spec_items r') \<le> length r'"
      using "1.IH" [OF False line [symmetric] lf'] "1.prems"(2) items by simp
    show ?thesis
    proof (cases it)
      case None
      then show ?thesis using IH items length_spec_line [OF False] line by simp
    next
      case (Some i)
      then show ?thesis
        using IH items spec_line_bytes [of r i r'] line "1.prems" by simp
    qed
  qed
qed

lemma item_step_secs:
  "t_secs (item_step t i) \<noteq> [] \<and> length (t_secs (item_step t i)) \<le> Suc (length (t_secs t))"
  by (cases i) (auto simp: Let_def)

lemma items_secs: "t_secs t \<noteq> [] \<Longrightarrow>
    length (t_secs (foldl item_step t is)) \<le> length (t_secs t) + length is"
proof (induction "is" arbitrary: t)
  case Nil
  then show ?case by simp
next
  case (Cons i "is")
  then have "length (t_secs (foldl item_step (item_step t i) is))
      \<le> length (t_secs (item_step t i)) + length is"
    using item_step_secs by simp
  with item_step_secs [of t i] show ?case by simp
qed

lemma items_keys: "length (t_keys (foldl item_step t is)) \<le> length (t_keys t) + length is"
proof (induction "is" arbitrary: t)
  case Nil
  then show ?case by simp
next
  case (Cons i "is")
  have "length (t_keys (item_step t i)) \<le> Suc (length (t_keys t))"
    by (cases i) (auto simp: Let_def)
  with Cons.IH [of "item_step t i"] show ?case by simp
qed

lemma valued_fits:
  assumes "lf_end c" "list_all valued (spec_items c)"
  shows "fits (length c div 4) (length c div 4) (spec_tables c)"
proof -
  have n: "length (spec_items c) \<le> length c div 4" using items_bytes [OF assms] by linarith
  have "length (t_secs (spec_tables c)) \<le> length (spec_items c)"
  proof (cases "spec_items c")
    case Nil
    then show ?thesis by (simp add: spec_tables_def empty_tables_def)
  next
    case (Cons i "is")
    have "length (t_secs (item_step empty_tables i)) = 1"
      by (cases i) (simp_all add: empty_tables_def)
    then show ?thesis
      using items_secs [of "item_step empty_tables i" "is"] item_step_secs [of empty_tables i] Cons
      by (simp add: spec_tables_def)
  qed
  moreover have "length (t_keys (spec_tables c)) \<le> length (spec_items c)"
    using items_keys [of empty_tables "spec_items c"]
    by (simp add: spec_tables_def empty_tables_def)
  ultimately show ?thesis using n by (simp add: fits_def)
qed

end
