(* ===== verification/IniQuery.thy ===== *)
theory IniQuery
  imports IniSize
begin

text \<open>
  The query functions of src/inifile.c. They walk the rows of the key table from the first row
  of a section, and trust the links the parser has set: that npairs counts the section's rows
  and that ppairs points at the first of them. A section without keys has a null ppairs, which
  inidb_find_key uses all the same. The theory gives the functions, the invariant of the links,
  its preservation by every turn of the parser, and what the queries then answer.
\<close>

section \<open>The functions\<close>

text \<open>The pointer psections + sidx, and the first row of its section.\<close>

definition section_at :: "dbdesc \<Rightarrow> int \<Rightarrow> section_row res" where
  "section_at db sidx =
     (if 0 \<le> sidx \<and> sidx < int (length (psections db)) then Inr (psections db ! nat sidx)
      else Inl Buffer_overread)"

definition first_pair :: "section_row \<Rightarrow> nat res" where
  "first_pair row = (case ppairs row of None \<Rightarrow> Inl Null_deref | Some i \<Rightarrow> Inr i)"

definition inidb_get_number_of_sections :: "dbdesc option \<Rightarrow> int" where
  "inidb_get_number_of_sections pdb =
     (case pdb of None \<Rightarrow> 0 | Some db \<Rightarrow> int (length (psections db)))"

definition inidb_get_section_name_length :: "dbdesc option \<Rightarrow> int \<Rightarrow> int res" where
  "inidb_get_section_name_length pdb sidx =
     (case pdb of None \<Rightarrow> Inr 0
      | Some db \<Rightarrow> bindR (section_at db sidx)
          (\<lambda>row. Inr (int (length (deref (pbuf db) (psname row))))))"

text \<open>The copied string comes with the length; None where the C code writes nothing.\<close>

definition inidb_get_section_name :: "dbdesc option \<Rightarrow> int \<Rightarrow> (int \<times> string option) res" where
  "inidb_get_section_name pdb idx =
     (case pdb of None \<Rightarrow> Inr (0, None)
      | Some db \<Rightarrow> bindR (section_at db idx)
          (\<lambda>row. let s = deref (pbuf db) (psname row) in Inr (int (length s), Some s)))"

definition inidb_get_number_of_keys :: "dbdesc option \<Rightarrow> int \<Rightarrow> int res" where
  "inidb_get_number_of_keys pdb idx =
     (case pdb of None \<Rightarrow> Inr 0
      | Some db \<Rightarrow> bindR (section_at db idx) (\<lambda>row. Inr (npairs row)))"

text \<open>The search loop of the four functions that read the row kidx of section sidx.\<close>

fun pair_scan :: "nat \<Rightarrow> int \<Rightarrow> int \<Rightarrow> key_row list \<Rightarrow> key_row option" where
  "pair_scan sidx kidx j [] = None"
| "pair_scan sidx kidx j (k # ks) =
     (if psect k = sidx then (if j = kidx then Some k else pair_scan sidx kidx (j + 1) ks)
      else pair_scan sidx kidx j ks)"

definition pair_at :: "dbdesc \<Rightarrow> int \<Rightarrow> int \<Rightarrow> key_row option res" where
  "pair_at db sidx kidx =
     bindR (section_at db sidx) (\<lambda>row.
       if kidx < npairs row
       then bindR (first_pair row) (\<lambda>i. Inr (pair_scan (nat sidx) kidx 0 (drop i (pkeys db))))
       else Inr None)"

definition pair_string ::
    "(key_row \<Rightarrow> strptr) \<Rightarrow> dbdesc option \<Rightarrow> int \<Rightarrow> int \<Rightarrow> (int \<times> string option) res" where
  "pair_string field pdb sidx kidx =
     (case pdb of None \<Rightarrow> Inr (0, None)
      | Some db \<Rightarrow> bindR (pair_at db sidx kidx)
          (\<lambda>r. case r of None \<Rightarrow> Inr (0, None)
               | Some k \<Rightarrow> (let s = deref (pbuf db) (field k) in Inr (int (length s), Some s))))"

definition inidb_get_key_value_length :: "dbdesc option \<Rightarrow> int \<Rightarrow> int \<Rightarrow> int res" where
  "inidb_get_key_value_length pdb sidx kidx = mapR fst (pair_string pkvalue pdb sidx kidx)"

definition inidb_get_key_value :: "dbdesc option \<Rightarrow> int \<Rightarrow> int \<Rightarrow> (int \<times> string option) res" where
  "inidb_get_key_value pdb sidx kidx = pair_string pkvalue pdb sidx kidx"

definition inidb_get_key_name_length :: "dbdesc option \<Rightarrow> int \<Rightarrow> int \<Rightarrow> int res" where
  "inidb_get_key_name_length pdb sidx kidx = mapR fst (pair_string pkname pdb sidx kidx)"

definition inidb_get_key_name :: "dbdesc option \<Rightarrow> int \<Rightarrow> int \<Rightarrow> (int \<times> string option) res" where
  "inidb_get_key_name pdb sidx kidx = pair_string pkname pdb sidx kidx"

fun find_section_loop :: "char list \<Rightarrow> string \<Rightarrow> int \<Rightarrow> section_row list \<Rightarrow> int" where
  "find_section_loop b nm i [] = -1"
| "find_section_loop b nm i (s # ss) =
     (if strcaseeq nm (deref b (psname s)) then i else find_section_loop b nm (i + 1) ss)"

definition inidb_find_section :: "dbdesc option \<Rightarrow> string \<Rightarrow> int" where
  "inidb_find_section pdb pname =
     (case pdb of None \<Rightarrow> -1 | Some db \<Rightarrow> find_section_loop (pbuf db) pname 0 (psections db))"

fun find_key_loop :: "char list \<Rightarrow> nat \<Rightarrow> string \<Rightarrow> int \<Rightarrow> key_row list \<Rightarrow> int" where
  "find_key_loop b sidx nm j [] = -1"
| "find_key_loop b sidx nm j (k # ks) =
     (if sidx = psect k
      then (if strcaseeq nm (deref b (pkname k)) then j else find_key_loop b sidx nm (j + 1) ks)
      else find_key_loop b sidx nm j ks)"

definition inidb_find_key :: "dbdesc option \<Rightarrow> int \<Rightarrow> string \<Rightarrow> int res" where
  "inidb_find_key pdb sidx pname =
     (case pdb of None \<Rightarrow> Inr (-1)
      | Some db \<Rightarrow>
          (if 0 < length (psections db) \<and> 0 \<le> sidx \<and> sidx < int (length (psections db))
           then bindR (first_pair (psections db ! nat sidx))
             (\<lambda>i. Inr (find_key_loop (pbuf db) (nat sidx) pname 0 (drop i (pkeys db))))
           else Inr (-1)))"

section \<open>The links between the tables\<close>

definition rows_of :: "nat \<Rightarrow> key_row list \<Rightarrow> nat" where
  "rows_of i ks = length (filter (\<lambda>k. psect k = i) ks)"

definition first_of :: "nat \<Rightarrow> key_row list \<Rightarrow> nat option" where
  "first_of i ks = (if rows_of i ks = 0 then None
                    else Some (length (takeWhile (\<lambda>k. psect k \<noteq> i) ks)))"

definition linked :: "section_row list \<Rightarrow> key_row list \<Rightarrow> bool" where
  "linked ss ks \<longleftrightarrow>
     (\<forall>k \<in> set ks. psect k < length ss) \<and>
     (\<forall>i < length ss. npairs (ss ! i) = int (rows_of i ks) \<and> ppairs (ss ! i) = first_of i ks)"

definition links_ok :: "pstate \<Rightarrow> bool" where
  "links_ok s \<longleftrightarrow> linked (ps_sects s) (ps_keys s) \<and>
     (ps_sects s \<noteq> [] \<longrightarrow> (\<exists>c. ps_cur s = Some c \<and> c < length (ps_sects s)))"

lemma rows_of_fresh: "\<forall>k \<in> set ks. psect k < n \<Longrightarrow> n \<le> i \<Longrightarrow> rows_of i ks = 0"
  by (fastforce simp: rows_of_def filter_empty_conv)

lemma rows_of_snoc: "rows_of i (ks @ [k]) = rows_of i ks + (if psect k = i then 1 else 0)"
  by (simp add: rows_of_def)

lemma rows_of_0: "rows_of i ks = 0 \<longleftrightarrow> (\<forall>k \<in> set ks. psect k \<noteq> i)"
  by (auto simp: rows_of_def filter_empty_conv)

lemma first_of_snoc:
  "first_of i (ks @ [k]) =
     (if rows_of i ks = 0 then (if psect k = i then Some (length ks) else None) else first_of i ks)"
proof (cases "rows_of i ks = 0")
  case True
  then have "takeWhile (\<lambda>k. psect k \<noteq> i) ks = ks" by (simp add: rows_of_0 takeWhile_all)
  moreover have "takeWhile (\<lambda>k. psect k \<noteq> i) (ks @ xs) = ks @ takeWhile (\<lambda>k. psect k \<noteq> i) xs" for xs
    using True by (simp add: rows_of_0 takeWhile_append2)
  ultimately show ?thesis using True by (simp add: first_of_def rows_of_snoc)
next
  case False
  then obtain x where "x \<in> set ks" "psect x = i" by (auto simp: rows_of_0)
  then have "takeWhile (\<lambda>k. psect k \<noteq> i) (ks @ [k]) = takeWhile (\<lambda>k. psect k \<noteq> i) ks"
    by (metis (mono_tags, lifting) takeWhile_append1)
  with False show ?thesis by (simp add: first_of_def rows_of_snoc)
qed

lemma first_of_None: "first_of i ks = None \<longleftrightarrow> rows_of i ks = 0"
  by (simp add: first_of_def)

lemma first_of_Some:
  assumes "first_of i ks = Some n"
  shows "n < length ks \<and> psect (ks ! n) = i \<and> (\<forall>m < n. psect (ks ! m) \<noteq> i)"
proof -
  let ?P = "\<lambda>k. psect k \<noteq> i"
  have n: "n = length (takeWhile ?P ks)" and ne: "rows_of i ks \<noteq> 0"
    using assms by (auto simp: first_of_def split: if_splits)
  have lt: "n < length ks"
  proof (rule ccontr)
    assume "\<not> n < length ks"
    then have "takeWhile ?P ks = ks"
      using n takeWhile_eq_take [of ?P ks] by (metis not_le take_all)
    then have "\<forall>k \<in> set ks. ?P k" by (metis set_takeWhileD)
    with ne show False by (simp add: rows_of_0)
  qed
  moreover have "\<not> ?P (ks ! n)" using lt unfolding n by (rule nth_length_takeWhile)
  moreover have "?P (ks ! m)" if "m < n" for m
  proof -
    have "takeWhile ?P ks ! m = ks ! m" by (rule takeWhile_nth) (use that n in simp)
    moreover have "takeWhile ?P ks ! m \<in> set (takeWhile ?P ks)" using that n by simp
    ultimately show ?thesis using set_takeWhileD by metis
  qed
  ultimately show ?thesis by blast
qed

lemma links_init: "links_ok (init_pstate b)"
  by (simp add: links_ok_def linked_def init_pstate_def)

lemma linked_new_section:
  assumes "linked ss ks"
  shows "linked (ss @ [new_section nm]) ks"
proof -
  have "rows_of (length ss) ks = 0"
    using assms by (intro rows_of_fresh [of _ "length ss"]) (auto simp: linked_def)
  with assms show ?thesis
    by (auto simp: linked_def nth_append new_section_def first_of_def less_Suc_eq)
qed

lemma links_enter: "enter_section scap p s = Inr s' \<Longrightarrow> links_ok s \<Longrightarrow> links_ok s'"
  using linked_new_section [of "ps_sects s" "ps_keys s" "Buf p"]
  by (auto simp: enter_section_def Let_def res_simps links_ok_def split: if_splits)

lemma links_default: "apply_default_section scap s = Inr s' \<Longrightarrow> links_ok s \<Longrightarrow> links_ok s' \<and> ps_sects s' \<noteq> []"
  using linked_new_section [of "[]" "ps_keys s" Defsection]
  by (auto simp: apply_default_section_def res_simps links_ok_def split: if_splits)

lemma links_link_key:
  assumes "link_key nm v s = Inr s'" "links_ok s" "ps_sects s \<noteq> []"
  shows "links_ok s'"
proof -
  from assms(2,3) obtain c where c: "ps_cur s = Some c" "c < length (ps_sects s)"
    and l: "linked (ps_sects s) (ps_keys s)" by (auto simp: links_ok_def)
  let ?k = "\<lparr>pkname = nm, pkvalue = v, psect = c\<rparr>"
  define row where "row = (ps_sects s ! c)\<lparr>
      ppairs := (if ppairs (ps_sects s ! c) = None then Some (length (ps_keys s))
                 else ppairs (ps_sects s ! c)),
      npairs := npairs (ps_sects s ! c) + 1\<rparr>"
  have s': "s' = s\<lparr>ps_keys := ps_keys s @ [?k], ps_sects := (ps_sects s)[c := row]\<rparr>"
    using assms(1) by (simp only: link_key_def c(1) option.case Let_def row_def sum.inject)
  have "ppairs row = first_of c (ps_keys s @ [?k])" "npairs row = int (rows_of c (ps_keys s @ [?k]))"
    using l c(2) by (auto simp: row_def linked_def first_of_snoc rows_of_snoc first_of_None)
  then have "linked ((ps_sects s)[c := row]) (ps_keys s @ [?k])"
    using l c(2) by (auto simp: linked_def nth_list_update first_of_snoc rows_of_snoc first_of_None)
  with c show ?thesis by (simp add: s' links_ok_def)
qed

lemma links_key_line:
  assumes "key_line scap kcap p len s = Inr s'" "links_ok s"
  shows "links_ok s'"
proof -
  from assms(1) obtain b p' v where "finish_key scap p s b p' v = Inr s'"
    unfolding key_line_def bindR_eq_Inr by (auto split: prod.splits)
  then obtain s1 s2 q where s1: "apply_default_section scap (s\<lparr>ps_buf := b, ps_p := p'\<rparr>) = Inr s1"
    and s2: "link_key (Buf p) v s1 = Inr s2" and s': "s' = s2\<lparr>ps_p := q\<rparr>"
    unfolding finish_key_def bindR_eq_Inr by auto
  have "links_ok (s\<lparr>ps_buf := b, ps_p := p'\<rparr>)" using assms(2) by (simp add: links_ok_def)
  from links_default [OF s1 this] have "links_ok s2" using links_link_key [OF s2] by blast
  then show ?thesis by (simp add: s' links_ok_def)
qed

lemma links_p: "links_ok (s\<lparr>ps_p := p\<rparr>) = links_ok s"
  and links_b: "links_ok (s\<lparr>ps_buf := b\<rparr>) = links_ok s"
  by (simp_all add: links_ok_def)

lemma links_step:
  assumes "ini_step scap kcap s = Inr s'" "links_ok s"
  shows "links_ok s'"
  using assms
  by (auto simp: ini_step_def section_line_def name_line_def Let_def res_simps links_p links_b
      dest: links_key_line links_enter split: if_splits)

lemma links_loop: "ini_loop bs scap kcap s = Inr s' \<Longrightarrow> links_ok s \<Longrightarrow> links_ok s'"
proof (induction bs scap kcap s rule: ini_loop.induct)
  case (1 bs scap kcap s)
  from "1.prems"(1) obtain s1 where s1: "ini_step scap kcap s = Inr s1"
    by (auto simp: ini_loop.simps [of bs] split: sum.splits)
  have l: "links_ok s1" by (rule links_step [OF s1 "1.prems"(2)])
  show ?case
    using "1.IH" [OF s1] "1.prems"(1) l s1
    by (auto simp: ini_loop.simps [of bs _ _ s] split: if_splits)
qed

section \<open>What the queries answer\<close>

text \<open>The contents of a database: its section names, and the pairs of each section in order.\<close>

definition db_sections :: "dbdesc \<Rightarrow> string list" where
  "db_sections db = map (\<lambda>s. deref (pbuf db) (psname s)) (psections db)"

definition db_pairs :: "dbdesc \<Rightarrow> nat \<Rightarrow> (string \<times> string) list" where
  "db_pairs db i = map (\<lambda>k. (deref (pbuf db) (pkname k), deref (pbuf db) (pkvalue k)))
                     (filter (\<lambda>k. psect k = i) (pkeys db))"

definition db_linked :: "dbdesc \<Rightarrow> bool" where
  "db_linked db = linked (psections db) (pkeys db)"

text \<open>The index of the first element that satisfies P, -1 where none does.\<close>

fun find_pos :: "('a \<Rightarrow> bool) \<Rightarrow> 'a list \<Rightarrow> int" where
  "find_pos P [] = -1"
| "find_pos P (x # xs) = (if P x then 0 else (let r = find_pos P xs in if r < 0 then r else r + 1))"

lemma find_pos_lower: "-1 \<le> find_pos P xs"
  by (induction xs) (auto simp: Let_def)

lemma find_pos_none: "find_pos P xs < 0 \<longleftrightarrow> (\<forall>x \<in> set xs. \<not> P x)"
  by (induction xs) (auto simp: Let_def)

lemma find_pos_hit:
  "0 \<le> find_pos P xs \<Longrightarrow> nat (find_pos P xs) < length xs \<and> P (xs ! nat (find_pos P xs)) \<and>
     (\<forall>x \<in> set (take (nat (find_pos P xs)) xs). \<not> P x)"
proof (induction xs)
  case Nil
  then show ?case by simp
next
  case (Cons x xs)
  show ?case
  proof (cases "P x")
    case False
    then have "0 \<le> find_pos P xs" "find_pos P (x # xs) = find_pos P xs + 1"
      using Cons.prems by (auto simp: Let_def split: if_splits)
    with Cons.IH False show ?thesis by (simp add: nat_add_distrib)
  qed simp
qed

lemma find_find_pos:
  "find P xs = (if 0 \<le> find_pos P xs then Some (xs ! nat (find_pos P xs)) else None)"
proof (induction xs)
  case (Cons x xs)
  then show ?case by (cases "P x") (auto simp: Let_def nat_add_distrib)
qed simp

lemma find_section_loop_pos:
  "find_section_loop b nm i ss =
     (let r = find_pos (strcaseeq nm) (map (\<lambda>s. deref b (psname s)) ss) in if r < 0 then r else i + r)"
  by (induction b nm i ss rule: find_section_loop.induct) (auto simp: Let_def)

lemma find_key_loop_pos:
  "find_key_loop b i nm j ks =
     (let r = find_pos (\<lambda>k. strcaseeq nm (deref b (pkname k))) (filter (\<lambda>k. psect k = i) ks)
      in if r < 0 then r else j + r)"
  by (induction b i nm j ks rule: find_key_loop.induct) (auto simp: Let_def)

lemma pair_scan_nth:
  "pair_scan i kidx j ks =
     (let xs = filter (\<lambda>k. psect k = i) ks
      in if j \<le> kidx \<and> kidx - j < int (length xs) then Some (xs ! nat (kidx - j)) else None)"
proof (induction i kidx j ks rule: pair_scan.induct)
  case (1 i kidx j)
  then show ?case by simp
next
  case (2 i kidx j k ks)
  have "nat (kidx - j) = Suc (nat (kidx - (j + 1)))" if "j < kidx" using that by simp
  with 2 show ?case by (auto simp: Let_def)
qed

lemma filter_drop_first:
  assumes "first_of i ks = Some n"
  shows "filter (\<lambda>k. psect k = i) (drop n ks) = filter (\<lambda>k. psect k = i) ks"
proof -
  have n: "n = length (takeWhile (\<lambda>k. psect k \<noteq> i) ks)"
    using assms by (auto simp: first_of_def split: if_splits)
  have "filter (\<lambda>k. psect k = i) (takeWhile (\<lambda>k. psect k \<noteq> i) ks) = []"
    using set_takeWhileD by (fastforce simp: filter_empty_conv)
  then show ?thesis
    unfolding n by (metis append_Nil dropWhile_eq_drop filter_append takeWhile_dropWhile_id)
qed

lemma length_db_pairs: "length (db_pairs db i) = rows_of i (pkeys db)"
  by (simp add: db_pairs_def rows_of_def)

lemma linked_row:
  assumes "db_linked db" "i < length (psections db)"
  shows "section_at db (int i) = Inr (psections db ! i)"
    and "npairs (psections db ! i) = int (length (db_pairs db i))"
    and "db_pairs db i \<noteq> [] \<Longrightarrow>
      \<exists>n. first_pair (psections db ! i) = Inr n \<and> first_of i (pkeys db) = Some n"
    and "db_pairs db i = [] \<Longrightarrow> first_pair (psections db ! i) = Inl Null_deref"
proof -
  show "section_at db (int i) = Inr (psections db ! i)"
    using assms(2) by (simp add: section_at_def)
  show "npairs (psections db ! i) = int (length (db_pairs db i))"
    using assms by (simp add: db_linked_def linked_def length_db_pairs)
  have p: "ppairs (psections db ! i) = first_of i (pkeys db)"
    using assms by (simp add: db_linked_def linked_def)
  have z: "db_pairs db i = [] \<longleftrightarrow> rows_of i (pkeys db) = 0"
    using length_db_pairs [of db i] by (metis length_0_conv)
  show "\<exists>n. first_pair (psections db ! i) = Inr n \<and> first_of i (pkeys db) = Some n"
    if "db_pairs db i \<noteq> []"
    using that p z by (simp add: first_pair_def first_of_def)
  show "first_pair (psections db ! i) = Inl Null_deref" if "db_pairs db i = []"
    using that p z by (simp add: first_pair_def first_of_def)
qed

lemma find_section_answer:
  "inidb_find_section (Some db) nm = find_pos (strcaseeq nm) (db_sections db)"
  by (simp add: inidb_find_section_def find_section_loop_pos db_sections_def Let_def)

lemma find_pos_map: "find_pos P (map f xs) = find_pos (\<lambda>x. P (f x)) xs"
  by (induction xs) auto

lemma find_key_answer:
  assumes "db_linked db" "i < length (psections db)" "db_pairs db i \<noteq> []"
  shows "inidb_find_key (Some db) (int i) nm = Inr (find_pos (\<lambda>(k, v). strcaseeq nm k) (db_pairs db i))"
proof -
  obtain n where n: "first_pair (psections db ! i) = Inr n" "first_of i (pkeys db) = Some n"
    using linked_row(3) [OF assms] by blast
  have "0 < length (psections db)" using assms(2) by linarith
  then show ?thesis
    using n assms(2)
    by (auto simp: inidb_find_key_def find_key_loop_pos filter_drop_first db_pairs_def
        find_pos_map Let_def)
qed

lemma pair_string_answer:
  assumes "db_linked db" "i < length (psections db)" "j < length (db_pairs db i)"
  shows "pair_string pkname (Some db) (int i) (int j) =
      (let s = fst (db_pairs db i ! j) in Inr (int (length s), Some s))"
    and "pair_string pkvalue (Some db) (int i) (int j) =
      (let s = snd (db_pairs db i ! j) in Inr (int (length s), Some s))"
proof -
  have "db_pairs db i \<noteq> []" using assms(3) by auto
  then obtain n where n: "first_pair (psections db ! i) = Inr n" "first_of i (pkeys db) = Some n"
    using linked_row(3) [OF assms(1,2)] by blast
  let ?xs = "filter (\<lambda>k. psect k = i) (pkeys db)"
  have j: "j < length ?xs" using assms(3) by (simp add: db_pairs_def)
  then have p: "pair_at db (int i) (int j) = Inr (Some (?xs ! j))"
    using linked_row(1,2) [OF assms(1,2)] n assms(3) filter_drop_first [OF n(2)]
    by (simp add: pair_at_def pair_scan_nth Let_def)
  show "pair_string pkname (Some db) (int i) (int j) =
      (let s = fst (db_pairs db i ! j) in Inr (int (length s), Some s))"
    using p j by (simp add: pair_string_def db_pairs_def Let_def)
  show "pair_string pkvalue (Some db) (int i) (int j) =
      (let s = snd (db_pairs db i ! j) in Inr (int (length s), Some s))"
    using p j by (simp add: pair_string_def db_pairs_def Let_def)
qed

lemma number_of_keys_answer:
  assumes "db_linked db" "i < length (psections db)"
  shows "inidb_get_number_of_keys (Some db) (int i) = Inr (int (length (db_pairs db i)))"
  using linked_row(1,2) [OF assms] by (simp add: inidb_get_number_of_keys_def)

lemma length_db_sections: "length (db_sections db) = length (psections db)"
  by (simp add: db_sections_def)

section \<open>Opening a file\<close>

text \<open>The pairs of section i in the tables of the specification.\<close>

definition spec_pairs :: "ini_tables \<Rightarrow> nat \<Rightarrow> (string \<times> string) list" where
  "spec_pairs t i = map snd (filter (\<lambda>x. fst x = i) (t_keys t))"

lemma inidb_open_parsed:
  assumes "inidb_open os path = Inr (Some db)"
  obtains c s where "os_file os path = Some c"
    and "parse_ini_file (length c) (length c div 4) (length c div 4) (c @ [NUL]) = Inr s"
    and "db = \<lparr>pbuf = ps_buf s, bufsize = length c, psections = ps_sects s, pkeys = ps_keys s\<rparr>"
  using assms
  by (auto simp: inidb_open_def create_db_structure_def Let_def res_simps
      split: option.splits if_splits)

lemma inidb_open_linked:
  assumes "inidb_open os path = Inr (Some db)"
  shows "db_linked db"
proof -
  obtain c s where "parse_ini_file (length c) (length c div 4) (length c div 4) (c @ [NUL]) = Inr s"
    and db: "db = \<lparr>pbuf = ps_buf s, bufsize = length c, psections = ps_sects s, pkeys = ps_keys s\<rparr>"
    using inidb_open_parsed [OF assms] by blast
  then have "links_ok s" unfolding parse_ini_file_def using links_loop links_init by blast
  then show ?thesis by (simp add: db db_linked_def links_ok_def)
qed

lemma inidb_open_contents:
  assumes "os_file os path = Some c" "NUL \<notin> set c" "lf_end c"
    and "inidb_open os path = Inr (Some db)"
  shows "db_sections db = t_secs (spec_tables c)" and "db_pairs db i = spec_pairs (spec_tables c) i"
proof -
  obtain s where "parse_ini_file (length c) (length c div 4) (length c div 4) (c @ [NUL]) = Inr s"
    and db: "db = \<lparr>pbuf = ps_buf s, bufsize = length c, psections = ps_sects s, pkeys = ps_keys s\<rparr>"
    using inidb_open_parsed [OF assms(4)] assms(1) by (metis option.inject)
  then have t: "tables_of s = spec_tables c"
    using loop_outcome_cases [OF parse_outcome [OF assms(2,3), of "length c div 4" "length c div 4"]]
    by simp
  show "db_sections db = t_secs (spec_tables c)"
    by (simp add: db db_sections_def tables_of_def flip: t)
  have "map snd (filter (\<lambda>x. fst x = i) (map (\<lambda>k. (psect k, g k)) ks)) =
      map g (filter (\<lambda>k. psect k = i) ks)" for ks :: "key_row list" and g :: "key_row \<Rightarrow> string \<times> string"
    by (induction ks) auto
  then show "db_pairs db i = spec_pairs (spec_tables c) i"
    by (simp add: db db_pairs_def spec_pairs_def tables_of_def flip: t)
qed

lemma inidb_open_succeeds:
  assumes "os_file os path = Some c" "NUL \<notin> set c" "lf_end c" "list_all valued (spec_items c)"
    and "t_keys (spec_tables c) \<noteq> []" and "\<And>n. os_malloc os n" "os_read_all os path"
  shows "\<exists>db. inidb_open os path = Inr (Some db)"
proof -
  obtain s where s: "parse_ini_file (length c) (length c div 4) (length c div 4) (c @ [NUL]) = Inr s"
      "tables_of s = spec_tables c"
    using loop_outcome_cases [OF parse_outcome [OF assms(2,3)]] valued_fits [OF assms(3,4)] by blast
  then have "ps_keys s \<noteq> []" using assms(5) by (auto simp: tables_of_def simp flip: s(2))
  with s assms show ?thesis by (simp add: inidb_open_def create_db_structure_def Let_def)
qed

section \<open>The interface the readers of settings use\<close>

text \<open>
  The files keydefs.c and launchpad.c use a database through four calls: find a section, find a
  key in it, count its keys, read a pair by index. The laws are about sections that have keys.
\<close>

locale key_database =
  fixes ok :: "'db \<Rightarrow> bool"
    and sections :: "'db \<Rightarrow> string list"
    and pairs :: "'db \<Rightarrow> nat \<Rightarrow> (string \<times> string) list"
    and find_section :: "'db \<Rightarrow> string \<Rightarrow> int"
    and find_key :: "'db \<Rightarrow> int \<Rightarrow> string \<Rightarrow> int res"
    and key_count :: "'db \<Rightarrow> int \<Rightarrow> int res"
    and key_name :: "'db \<Rightarrow> int \<Rightarrow> int \<Rightarrow> (int \<times> string option) res"
    and key_value :: "'db \<Rightarrow> int \<Rightarrow> int \<Rightarrow> (int \<times> string option) res"
  assumes find_section: "ok db \<Longrightarrow> find_section db nm = find_pos (strcaseeq nm) (sections db)"
    and find_key: "ok db \<Longrightarrow> i < length (sections db) \<Longrightarrow> pairs db i \<noteq> [] \<Longrightarrow>
      find_key db (int i) nm = Inr (find_pos (\<lambda>(k, v). strcaseeq nm k) (pairs db i))"
    and key_count: "ok db \<Longrightarrow> i < length (sections db) \<Longrightarrow>
      key_count db (int i) = Inr (int (length (pairs db i)))"
    and key_name: "ok db \<Longrightarrow> i < length (sections db) \<Longrightarrow> j < length (pairs db i) \<Longrightarrow>
      key_name db (int i) (int j) = Inr (int (length (fst (pairs db i ! j))), Some (fst (pairs db i ! j)))"
    and key_value: "ok db \<Longrightarrow> i < length (sections db) \<Longrightarrow> j < length (pairs db i) \<Longrightarrow>
      key_value db (int i) (int j) = Inr (int (length (snd (pairs db i ! j))), Some (snd (pairs db i ! j)))"
begin

definition lookup :: "'db \<Rightarrow> int \<Rightarrow> string \<Rightarrow> (int \<times> string option) res" where
  "lookup db sidx nm = bindR (find_key db sidx nm)
     (\<lambda>k. if 0 \<le> k then key_value db sidx k else Inr (0, None))"

lemma section_found:
  assumes "ok db" "0 \<le> find_section db nm"
  shows "nat (find_section db nm) < length (sections db) \<and>
    strcaseeq nm (sections db ! nat (find_section db nm))"
  using assms find_pos_hit [of "strcaseeq nm" "sections db"] by (simp add: find_section)

lemma lookup_first:
  assumes "ok db" "i < length (sections db)" "pairs db i \<noteq> []"
  shows "lookup db (int i) nm =
    (case find (\<lambda>(k, v). strcaseeq nm k) (pairs db i) of
       None \<Rightarrow> Inr (0, None) | Some (k, v) \<Rightarrow> Inr (int (length v), Some v))"
proof -
  let ?P = "\<lambda>(k, v). strcaseeq nm k" and ?r = "find_pos (\<lambda>(k, v). strcaseeq nm k) (pairs db i)"
  have fk: "find_key db (int i) nm = Inr ?r" by (rule find_key [OF assms])
  show ?thesis
  proof (cases "0 \<le> ?r")
    case True
    then have "nat ?r < length (pairs db i)"
      using find_pos_hit [of ?P "pairs db i"] by blast
    from key_value [OF assms(1,2) this] True fk show ?thesis
      by (simp add: lookup_def find_find_pos split: prod.splits)
  next
    case False
    with fk show ?thesis by (simp add: lookup_def find_find_pos)
  qed
qed

end

interpretation inidb: key_database
  "\<lambda>db. db_linked db" db_sections db_pairs
  "\<lambda>db. inidb_find_section (Some db)" "\<lambda>db. inidb_find_key (Some db)"
  "\<lambda>db. inidb_get_number_of_keys (Some db)" "\<lambda>db. inidb_get_key_name (Some db)"
  "\<lambda>db. inidb_get_key_value (Some db)"
  by unfold_locales
    (simp_all add: find_section_answer find_key_answer number_of_keys_answer length_db_sections
      inidb_get_key_name_def inidb_get_key_value_def pair_string_answer Let_def)

end
