(* ===== verification/IniRender.thy ===== *)
theory IniRender
  imports IniQuery
begin

text \<open>
  Writing an .ini file and reading it back: the text of a list of items, in the form the
  configuration files of the program have, and the items the parser of src/inifile.c finds in it.
\<close>

fun render_item :: "ini_item \<Rightarrow> string" where
  "render_item (Sec nm) = ''['' @ nm @ '']'' @ [LF]"
| "render_item (Pair k v) = k @ '' = '' @ v @ [LF]"

definition render :: "ini_item list \<Rightarrow> string" where
  "render is = concat (map render_item is)"

definition plain :: "string \<Rightarrow> bool" where
  "plain s = (s \<noteq> [] \<and> NUL \<notin> set s \<and> LF \<notin> set s \<and> CR \<notin> set s)"

fun writable :: "ini_item \<Rightarrow> bool" where
  "writable (Sec nm) = (plain nm \<and> CHR '']'' \<notin> set nm)"
| "writable (Pair k v) =
     (plain k \<and> plain v \<and> CHR ''='' \<notin> set k \<and>
      hd k \<notin> {CHR '' '', TAB, CHR ''['', CHR '';'', CHR ''#''} \<and> \<not> le_space (last k) \<and>
      \<not> is_ws (hd v) \<and> \<not> le_space (last v) \<and> v \<noteq> emptystring)"

lemma rstrip_keep: "s \<noteq> [] \<Longrightarrow> \<not> le_space (last s) \<Longrightarrow> rstrip s = s"
  by (cases s rule: rev_cases) (simp_all add: rstrip_snoc)

lemma rstrip_blank: "rstrip (s @ '' '') = rstrip s"
  by (simp add: rstrip_snoc)

lemma sec_len_name:
  "plain nm \<Longrightarrow> CHR '']'' \<notin> set nm \<Longrightarrow> sec_len (nm @ CHR '']'' # r) (-1) = int (length nm)"
proof -
  have step: "sec_len (nm @ CHR '']'' # r) n = n + int (length nm)"
    if "0 < n" "LF \<notin> set nm" "CR \<notin> set nm" "CHR '']'' \<notin> set nm" for n nm
    using that by (induction nm arbitrary: n) auto
  assume "plain nm" "CHR '']'' \<notin> set nm"
  then show ?thesis
    using step [of 1 "tl nm"] by (cases nm) (auto simp: plain_def)
qed

lemma after_line_none: "LF \<notin> set s \<Longrightarrow> after_line (s @ LF # r) = r"
  unfolding after_line_def by (subst dropWhile_append2) auto

lemma spec_line_section:
  assumes "writable (Sec nm)"
  shows "spec_line (render_item (Sec nm) @ r) = (Some (Sec nm), r)"
proof -
  have "plain nm" "CHR '']'' \<notin> set nm" using assms by simp_all
  then have "0 < length nm" "sec_len (nm @ CHR '']'' # LF # r) (-1) = int (length nm)"
    using sec_len_name by (auto simp: plain_def)
  moreover have "after_line (LF # r) = r" using after_line_none [of "[]" r] by simp
  ultimately show ?thesis
    by (simp add: spec_line_def spec_section_def is_ws_def nat_add_distrib)
qed

lemma spec_value_written:
  assumes "plain v" "\<not> le_space (last v)"
  shows "spec_value (v @ LF # r) = (v, r)"
proof -
  have "\<forall>c \<in> set v. c \<noteq> LF \<and> c \<noteq> CR" using assms(1) by (auto simp: plain_def)
  then have "takeWhile (\<lambda>c. c \<noteq> LF \<and> c \<noteq> CR) (v @ LF # r) = v"
    by (subst takeWhile_append2) auto
  then show ?thesis
    using assms rstrip_keep [of v] by (simp add: spec_value_def plain_def)
qed

lemma spec_name_pair:
  assumes w: "writable (Pair k v)" and r: "r = [] \<or> hd r \<noteq> LF"
  shows "spec_name (render_item (Pair k v) @ r) = (Some (Pair k v), r)"
proof -
  let ?t = "render_item (Pair k v) @ r"
  have t: "?t = k @ CHR '' '' # CHR ''='' # CHR '' '' # v @ LF # r" by simp
  have "\<forall>c \<in> set k. c \<noteq> CHR ''='' \<and> c \<noteq> LF \<and> c \<noteq> CR" using w by (auto simp: plain_def)
  then have tw: "takeWhile (\<lambda>c. c \<noteq> CHR ''='' \<and> c \<noteq> LF \<and> c \<noteq> CR) ?t = k @ '' ''"
    unfolding t by (subst takeWhile_append2) auto
  have ne: "k \<noteq> []" "v \<noteq> []" using w by (auto simp: plain_def)
  then have key: "spec_key ?t = k"
    unfolding spec_key_def Let_def tw using rstrip_blank [of k] rstrip_keep [of k] w by simp
  have "dropWhile is_ws (v @ LF # r) = v @ LF # r" using w ne by (cases v) simp_all
  then have behind: "spec_behind k ?t = v @ LF # r"
    using ne by (simp add: spec_behind_def t is_ws_def)
  have "spec_value (v @ LF # r) = (v, r)" using w by (intro spec_value_written) auto
  then show ?thesis
    unfolding spec_name_def Let_def key behind using ne r by (auto simp: skip_newline_def)
qed

lemma spec_line_pair:
  assumes w: "writable (Pair k v)" and r: "r = [] \<or> hd r \<noteq> LF"
  shows "spec_line (render_item (Pair k v) @ r) = (Some (Pair k v), r)"
proof -
  obtain c cs where k: "k = c # cs" using w by (cases k) (auto simp: plain_def)
  have c: "\<not> is_ws c" "c \<notin> {LF, CHR ''['', CHR '';'', CHR ''#''}"
    using w by (auto simp: k plain_def is_ws_def)
  define u where "u = cs @ '' = '' @ v @ LF # r"
  have t: "render_item (Pair k v) @ r = c # u" by (simp add: k u_def)
  then have "spec_name (c # u) = (Some (Pair k v), r)" using spec_name_pair [OF assms] by simp
  then show ?thesis
    unfolding t using c by (simp add: spec_line_def)
qed

lemma render_hd: "writable i \<Longrightarrow> render_item i \<noteq> [] \<and> hd (render_item i) \<noteq> LF"
  using hd_in_set by (cases i) (fastforce simp: plain_def hd_append)+

lemma render_start: "list_all writable is \<Longrightarrow> render is = [] \<or> hd (render is) \<noteq> LF"
  using render_hd by (cases "is") (auto simp: render_def)

lemma spec_items_render: "list_all writable is \<Longrightarrow> spec_items (render is) = is"
proof (induction "is")
  case Nil
  then show ?case by (simp add: render_def spec_items.simps)
next
  case (Cons i "is")
  have t: "render (i # is) = render_item i @ render is" by (simp add: render_def)
  have "spec_line (render (i # is)) = (Some i, render is)"
    unfolding t using Cons.prems spec_line_section spec_line_pair render_start by (cases i) auto
  moreover have "render (i # is) \<noteq> []" unfolding t using Cons.prems render_hd [of i] by simp
  ultimately show ?case using Cons by (simp add: spec_items.simps [of "render (i # is)"])
qed

lemma render_text:
  assumes "list_all writable is"
  shows "NUL \<notin> set (render is)" and "lf_end (render is)" and "list_all valued is"
proof -
  have item: "NUL \<notin> set (render_item i) \<and> render_item i \<noteq> [] \<and> last (render_item i) = LF \<and> valued i"
    if "writable i" for i
    using that by (cases i) (auto simp: plain_def valued_def)
  show "NUL \<notin> set (render is)" "list_all valued is"
    using assms item by (auto simp: render_def list_all_iff)
  show "lf_end (render is)"
    using assms
  proof (induction "is")
    case (Cons i "is")
    then have "lf_end (render is)" "last (render_item i) = LF" using item by auto
    then show ?case by (simp add: render_def lf_end_def last_append) blast
  qed (simp add: render_def lf_end_def)
qed

section \<open>Properties\<close>

text \<open>C1: On every text without NUL that ends with a newline, the pointer parser (with table
  capacities scap and kcap) stays inside its buffer and builds exactly the tables of the
  specification when they fit; otherwise it writes behind a table, and does nothing worse.\<close>
theorem ini_parse_refines_spec:
  assumes "NUL \<notin> set c" and "lf_end c"
  shows "case parse_ini_file (length c) scap kcap (c @ [NUL]) of
           Inr s \<Rightarrow> fits scap kcap (spec_tables c) \<and> tables_of s = spec_tables c
         | Inl e \<Rightarrow> e = Table_overflow \<and> \<not> fits scap kcap (spec_tables c)"
  using loop_outcome_cases [OF parse_outcome [OF assms, of scap kcap]] by auto

theorem ini_parse_refines_spec_witness:
  "case parse_ini_file (length (''[s]'' @ [LF] @ ''a=b'' @ [LF])) 2 2
          ((''[s]'' @ [LF] @ ''a=b'' @ [LF]) @ [NUL]) of
     Inr s \<Rightarrow> fits 2 2 (spec_tables (''[s]'' @ [LF] @ ''a=b'' @ [LF])) \<and>
             tables_of s = spec_tables (''[s]'' @ [LF] @ ''a=b'' @ [LF])
   | Inl e \<Rightarrow> e = Table_overflow \<and> \<not> fits 2 2 (spec_tables (''[s]'' @ [LF] @ ''a=b'' @ [LF]))"
  by (rule ini_parse_refines_spec) (simp_all add: lf_end_def)

text \<open>C10: Writing items and reading them back: a file that consists of section headers and
  name = value lines opens as a database whose section names and pairs are the tables of these
  items; the tables inidb\_open allocates for the file's size are large enough for it.\<close>
theorem ini_write_read:
  assumes "list_all writable is" and "t_keys (foldl item_step empty_tables is) \<noteq> []"
    and "os_file os path = Some (render is)" and "\<And>n. os_malloc os n" and "os_read_all os path"
  shows "\<exists>db. inidb_open os path = Inr (Some db) \<and>
           db_sections db = t_secs (foldl item_step empty_tables is) \<and>
           (\<forall>i. db_pairs db i = spec_pairs (foldl item_step empty_tables is) i)"
proof -
  note rt = render_text [OF assms(1)]
  have t: "spec_tables (render is) = foldl item_step empty_tables is"
    by (simp add: spec_tables_def spec_items_render [OF assms(1)])
  obtain db where "inidb_open os path = Inr (Some db)"
    using inidb_open_succeeds [OF assms(3) rt(1,2)] spec_items_render [OF assms(1)] rt(3)
      assms(2,4,5) t by auto
  with inidb_open_contents [OF assms(3) rt(1,2)] t show ?thesis by auto
qed

theorem ini_write_read_witness:
  "\<exists>db. inidb_open \<lparr>os_file = (\<lambda>p. Some (render [Sec ''A'', Pair ''k'' ''v''])),
                   os_read_all = (\<lambda>p. True), os_malloc = (\<lambda>n. True)\<rparr> ''x.ini'' = Inr (Some db) \<and>
     db_sections db = [''A''] \<and> db_pairs db 0 = [(''k'', ''v'')]"
proof -
  have sec: "le_space CHR ''k'' = False" "le_space CHR ''v'' = False" by (simp_all add: le_space_def)
  have "list_all writable [Sec ''A'', Pair ''k'' ''v'']"
    by (simp add: plain_def is_ws_def emptystring_def sec)
  from ini_write_read [OF this, of "\<lparr>os_file = (\<lambda>p. Some (render [Sec ''A'', Pair ''k'' ''v''])),
        os_read_all = (\<lambda>p. True), os_malloc = (\<lambda>n. True)\<rparr>" "''x.ini''"]
  obtain db where "inidb_open \<lparr>os_file = (\<lambda>p. Some (render [Sec ''A'', Pair ''k'' ''v''])),
      os_read_all = (\<lambda>p. True), os_malloc = (\<lambda>n. True)\<rparr> ''x.ini'' = Inr (Some db)"
    and "db_sections db = t_secs (foldl item_step empty_tables [Sec ''A'', Pair ''k'' ''v''])"
    and "\<And>i. db_pairs db i = spec_pairs (foldl item_step empty_tables [Sec ''A'', Pair ''k'' ''v'']) i"
    by (auto simp: empty_tables_def)
  then show ?thesis by (auto simp: empty_tables_def spec_pairs_def)
qed

text \<open>C11: Whatever the bytes of a file are: when inidb\_open returns a database, the links of its
  tables are right. Every key belongs to a section of the table, and every section's npairs is
  the number of its keys and its ppairs the first of them, a null pointer if there is none.\<close>
theorem inidb_open_links:
  assumes "inidb_open os path = Inr (Some db)"
  shows "(\<forall>k \<in> set (pkeys db). psect k < length (psections db)) \<and>
    (\<forall>i < length (psections db).
       npairs (psections db ! i) = int (length (db_pairs db i)) \<and>
       (case ppairs (psections db ! i) of
          None \<Rightarrow> db_pairs db i = []
        | Some n \<Rightarrow> n < length (pkeys db) \<and> psect (pkeys db ! n) = i \<and>
                    (\<forall>m < n. psect (pkeys db ! m) \<noteq> i)))"
proof -
  have l: "linked (psections db) (pkeys db)"
    using inidb_open_linked [OF assms] by (simp add: db_linked_def)
  have "n < length (pkeys db) \<and> psect (pkeys db ! n) = i \<and> (\<forall>m < n. psect (pkeys db ! m) \<noteq> i)"
    if "first_of i (pkeys db) = Some n" for i n
    by (rule first_of_Some [OF that])
  moreover have "db_pairs db i = []" if "first_of i (pkeys db) = None" for i
    using that length_db_pairs [of db i] by (simp add: first_of_None)
  ultimately show ?thesis
    using l by (auto simp: linked_def length_db_pairs split: option.splits)
qed

theorem inidb_open_links_witness:
  "\<exists>db. inidb_open \<lparr>os_file = (\<lambda>p. Some (''a=b'' @ [LF])), os_read_all = (\<lambda>p. True),
                   os_malloc = (\<lambda>n. True)\<rparr> ''x'' = Inr (Some db) \<and>
     (\<forall>k \<in> set (pkeys db). psect k < length (psections db))"
proof -
  have "(case inidb_open \<lparr>os_file = (\<lambda>p. Some (''a=b'' @ [LF])), os_read_all = (\<lambda>p. True),
      os_malloc = (\<lambda>n. True)\<rparr> ''x'' of Inr (Some db) \<Rightarrow> True | _ \<Rightarrow> False)"
    by code_simp
  then obtain db where "inidb_open \<lparr>os_file = (\<lambda>p. Some (''a=b'' @ [LF])), os_read_all = (\<lambda>p. True),
      os_malloc = (\<lambda>n. True)\<rparr> ''x'' = Inr (Some db)"
    by (auto split: sum.splits option.splits)
  with inidb_open_links [OF this] show ?thesis by blast
qed

text \<open>A look-up in an opened file: inidb\_find\_key and inidb\_get\_key\_value, called one after
  the other as retrieve\_key\_value does, give the value of the first pair of the section whose
  name is the requested one up to case, and nothing when there is no such pair; provided the
  section has at least one key.\<close>
theorem inidb_lookup_first:
  assumes "inidb_open os path = Inr (Some db)" and "i < length (psections db)"
    and "db_pairs db i \<noteq> []"
  shows "bindR (inidb_find_key (Some db) (int i) nm)
      (\<lambda>k. if 0 \<le> k then inidb_get_key_value (Some db) (int i) k else Inr (0, None)) =
    (case find (\<lambda>(k, v). strcaseeq nm k) (db_pairs db i) of
       None \<Rightarrow> Inr (0, None) | Some (k, v) \<Rightarrow> Inr (int (length v), Some v))"
  using inidb.lookup_first [OF inidb_open_linked [OF assms(1)]] assms(2,3)
  by (simp add: inidb.lookup_def length_db_sections)

theorem inidb_lookup_first_witness:
  "\<exists>db. inidb_open \<lparr>os_file = (\<lambda>p. Some (''a=b'' @ [LF] @ ''A=c'' @ [LF])), os_read_all = (\<lambda>p. True),
                   os_malloc = (\<lambda>n. True)\<rparr> ''x'' = Inr (Some db) \<and>
     bindR (inidb_find_key (Some db) 0 ''A'')
       (\<lambda>k. if 0 \<le> k then inidb_get_key_value (Some db) 0 k else Inr (0, None)) = Inr (1, Some ''b'')"
proof -
  let ?os = "\<lparr>os_file = (\<lambda>p. Some (''a=b'' @ [LF] @ ''A=c'' @ [LF])), os_read_all = (\<lambda>p. True),
              os_malloc = (\<lambda>n. True)\<rparr>"
  have "(case inidb_open ?os ''x'' of Inr (Some db) \<Rightarrow> 0 < length (psections db) \<and>
      db_pairs db 0 = [(''a'', ''b''), (''A'', ''c'')] | _ \<Rightarrow> False)"
    by code_simp
  then obtain db where db: "inidb_open ?os ''x'' = Inr (Some db)" "0 < length (psections db)"
      "db_pairs db 0 = [(''a'', ''b''), (''A'', ''c'')]"
    by (auto split: sum.splits option.splits)
  have "strcaseeq ''A'' ''a''" by code_simp
  with inidb_lookup_first [OF db(1,2), of "''A''"] db(3)
  have "bindR (inidb_find_key (Some db) 0 ''A'')
       (\<lambda>k. if 0 \<le> k then inidb_get_key_value (Some db) 0 k else Inr (0, None)) = Inr (1, Some ''b'')"
    by (simp cong: if_cong)
  with db(1) show ?thesis by blast
qed

end
