(* ===== verification/KeyCodes.thy ===== *)
theory KeyCodes
  imports CString
begin

text \<open>
  The numeric constants of src/include/keydefs.h and src/include/launchpad.h: keypad and fiveway
  codes of the Kindle DX Graphite (KPKEY), codes that only a Kindle 3 produces (K3KEY), and the
  limits and tags of the program. The KEY constants are the ones of the kernel's linux/input.h
  that src/asciitab.c uses; keydefs.h notes that its own values agree with that header.
\<close>

section \<open>Key codes\<close>

definition KPKEY_1 :: int where "KPKEY_1 = 2"
definition KPKEY_2 :: int where "KPKEY_2 = 3"
definition KPKEY_3 :: int where "KPKEY_3 = 4"
definition KPKEY_4 :: int where "KPKEY_4 = 5"
definition KPKEY_5 :: int where "KPKEY_5 = 6"
definition KPKEY_6 :: int where "KPKEY_6 = 7"
definition KPKEY_7 :: int where "KPKEY_7 = 8"
definition KPKEY_8 :: int where "KPKEY_8 = 9"
definition KPKEY_9 :: int where "KPKEY_9 = 10"
definition KPKEY_0 :: int where "KPKEY_0 = 11"
definition KPKEY_Q :: int where "KPKEY_Q = 16"
definition KPKEY_W :: int where "KPKEY_W = 17"
definition KPKEY_E :: int where "KPKEY_E = 18"
definition KPKEY_R :: int where "KPKEY_R = 19"
definition KPKEY_T :: int where "KPKEY_T = 20"
definition KPKEY_Y :: int where "KPKEY_Y = 21"
definition KPKEY_U :: int where "KPKEY_U = 22"
definition KPKEY_I :: int where "KPKEY_I = 23"
definition KPKEY_O :: int where "KPKEY_O = 24"
definition KPKEY_P :: int where "KPKEY_P = 25"
definition KPKEY_A :: int where "KPKEY_A = 30"
definition KPKEY_S :: int where "KPKEY_S = 31"
definition KPKEY_D :: int where "KPKEY_D = 32"
definition KPKEY_F :: int where "KPKEY_F = 33"
definition KPKEY_G :: int where "KPKEY_G = 34"
definition KPKEY_H :: int where "KPKEY_H = 35"
definition KPKEY_J :: int where "KPKEY_J = 36"
definition KPKEY_K :: int where "KPKEY_K = 37"
definition KPKEY_L :: int where "KPKEY_L = 38"
definition KPKEY_DEL :: int where "KPKEY_DEL = 14"
definition KPKEY_Z :: int where "KPKEY_Z = 44"
definition KPKEY_X :: int where "KPKEY_X = 45"
definition KPKEY_C :: int where "KPKEY_C = 46"
definition KPKEY_V :: int where "KPKEY_V = 47"
definition KPKEY_B :: int where "KPKEY_B = 48"
definition KPKEY_N :: int where "KPKEY_N = 49"
definition KPKEY_M :: int where "KPKEY_M = 50"
definition KPKEY_DOT :: int where "KPKEY_DOT = 52"
definition KPKEY_SLASH :: int where "KPKEY_SLASH = 53"
definition KPKEY_ENTER :: int where "KPKEY_ENTER = 28"
definition KPKEY_SHIFT :: int where "KPKEY_SHIFT = 42"
definition KPKEY_ALT :: int where "KPKEY_ALT = 56"
definition KPKEY_SPACE :: int where "KPKEY_SPACE = 57"
definition KPKEY_AA :: int where "KPKEY_AA = 90"
definition KPKEY_SYM :: int where "KPKEY_SYM = 94"
definition KPKEY_VPLUS :: int where "KPKEY_VPLUS = 115"
definition KPKEY_VMINUS :: int where "KPKEY_VMINUS = 114"
definition KPKEY_HOME :: int where "KPKEY_HOME = 98"
definition KPKEY_PGBCK :: int where "KPKEY_PGBCK = 109"
definition KPKEY_PGFWD :: int where "KPKEY_PGFWD = 124"
definition KPKEY_MENU :: int where "KPKEY_MENU = 139"
definition KPKEY_BACK :: int where "KPKEY_BACK = 91"
definition KPKEY_FW_LEFT :: int where "KPKEY_FW_LEFT = 105"
definition KPKEY_FW_RIGHT :: int where "KPKEY_FW_RIGHT = 106"
definition KPKEY_FW_UP :: int where "KPKEY_FW_UP = 122"
definition KPKEY_FW_DOWN :: int where "KPKEY_FW_DOWN = 123"
definition KPKEY_FW_PRESS :: int where "KPKEY_FW_PRESS = 92"
definition K3KEY_AA :: int where "K3KEY_AA = 190"
definition K3KEY_SYM :: int where "K3KEY_SYM = 126"
definition K3KEY_HOME :: int where "K3KEY_HOME = 102"
definition K3KEY_BACK :: int where "K3KEY_BACK = 158"
definition K3KEY_PGFWD :: int where "K3KEY_PGFWD = 191"
definition K3KEY_LPGBCK :: int where "K3KEY_LPGBCK = 193"
definition K3KEY_LPGFWD :: int where "K3KEY_LPGFWD = 104"
definition K3KEY_VPLUS :: int where "K3KEY_VPLUS = 115"
definition K3KEY_VMINUS :: int where "K3KEY_VMINUS = 114"
definition K3KEY_FW_UP :: int where "K3KEY_FW_UP = 103"
definition K3KEY_FW_DOWN :: int where "K3KEY_FW_DOWN = 108"
definition K3KEY_FW_PRESS :: int where "K3KEY_FW_PRESS = 194"
definition K3KEY_FW_LEFT :: int where "K3KEY_FW_LEFT = KPKEY_FW_LEFT"
definition K3KEY_FW_RIGHT :: int where "K3KEY_FW_RIGHT = KPKEY_FW_RIGHT"

definition KEY_ESC :: int where "KEY_ESC = 1"
definition KEY_MINUS :: int where "KEY_MINUS = 12"
definition KEY_EQUAL :: int where "KEY_EQUAL = 13"
definition KEY_BACKSPACE :: int where "KEY_BACKSPACE = 14"
definition KEY_TAB :: int where "KEY_TAB = 15"
definition KEY_LEFTBRACE :: int where "KEY_LEFTBRACE = 26"
definition KEY_RIGHTBRACE :: int where "KEY_RIGHTBRACE = 27"
definition KEY_SEMICOLON :: int where "KEY_SEMICOLON = 39"
definition KEY_APOSTROPHE :: int where "KEY_APOSTROPHE = 40"
definition KEY_GRAVE :: int where "KEY_GRAVE = 41"
definition KEY_BACKSLASH :: int where "KEY_BACKSLASH = 43"
definition KEY_COMMA :: int where "KEY_COMMA = 51"

section \<open>Limits and tags\<close>

definition MAXKEYS :: nat where "MAXKEYS = 96"
definition MAXCODE :: nat where "MAXCODE = 255"
definition MAXPATH :: nat where "MAXPATH = 256"
definition MAXNAME :: nat where "MAXNAME = 16"
definition MAXSEQ :: nat where "MAXSEQ = 8"
definition ACTION_SENDKEYS :: int where "ACTION_SENDKEYS = 0"
definition ACTION_SHELL_COMMAND :: int where "ACTION_SHELL_COMMAND = 1"
definition ACTION_KINDLE_KEYS :: int where "ACTION_KINDLE_KEYS = 2"
definition ACTION_KINDLE_SCRIPT :: int where "ACTION_KINDLE_SCRIPT = 3"
definition SENDMODE_NORMAL :: int where "SENDMODE_NORMAL = 0"
definition SENDMODE_SHIFT :: int where "SENDMODE_SHIFT = 1"
definition SENDMODE_ALT :: int where "SENDMODE_ALT = 2"

lemmas key_codes =
  KPKEY_1_def KPKEY_2_def KPKEY_3_def KPKEY_4_def KPKEY_5_def KPKEY_6_def KPKEY_7_def KPKEY_8_def
  KPKEY_9_def KPKEY_0_def KPKEY_Q_def KPKEY_W_def KPKEY_E_def KPKEY_R_def KPKEY_T_def KPKEY_Y_def
  KPKEY_U_def KPKEY_I_def KPKEY_O_def KPKEY_P_def KPKEY_A_def KPKEY_S_def KPKEY_D_def KPKEY_F_def
  KPKEY_G_def KPKEY_H_def KPKEY_J_def KPKEY_K_def KPKEY_L_def KPKEY_DEL_def KPKEY_Z_def
  KPKEY_X_def KPKEY_C_def KPKEY_V_def KPKEY_B_def KPKEY_N_def KPKEY_M_def KPKEY_DOT_def
  KPKEY_SLASH_def KPKEY_ENTER_def KPKEY_SHIFT_def KPKEY_ALT_def KPKEY_SPACE_def KPKEY_AA_def
  KPKEY_SYM_def KPKEY_VPLUS_def KPKEY_VMINUS_def KPKEY_HOME_def KPKEY_PGBCK_def KPKEY_PGFWD_def
  KPKEY_MENU_def KPKEY_BACK_def KPKEY_FW_LEFT_def KPKEY_FW_RIGHT_def KPKEY_FW_UP_def
  KPKEY_FW_DOWN_def KPKEY_FW_PRESS_def K3KEY_AA_def K3KEY_SYM_def K3KEY_HOME_def K3KEY_BACK_def
  K3KEY_PGFWD_def K3KEY_LPGBCK_def K3KEY_LPGFWD_def K3KEY_VPLUS_def K3KEY_VMINUS_def
  K3KEY_FW_UP_def K3KEY_FW_DOWN_def K3KEY_FW_PRESS_def K3KEY_FW_LEFT_def K3KEY_FW_RIGHT_def
  KEY_ESC_def KEY_MINUS_def KEY_EQUAL_def KEY_BACKSPACE_def KEY_TAB_def KEY_LEFTBRACE_def
  KEY_RIGHTBRACE_def KEY_SEMICOLON_def KEY_APOSTROPHE_def KEY_GRAVE_def KEY_BACKSLASH_def
  KEY_COMMA_def MAXKEYS_def MAXCODE_def MAXPATH_def MAXNAME_def MAXSEQ_def ACTION_SENDKEYS_def
  ACTION_SHELL_COMMAND_def ACTION_KINDLE_KEYS_def ACTION_KINDLE_SCRIPT_def SENDMODE_NORMAL_def
  SENDMODE_SHIFT_def SENDMODE_ALT_def

end
