(* ===== verification/AsciiTab.thy ===== *)
theory AsciiTab
  imports KeyCodes
begin

text \<open>
  src/asciitab.c: for every ASCII character the keypad code that enters it, the way the code is
  sent (plain, with shift, with alt), and the moves that reach it in the symbols popup of the
  Kindle framework, for the DX Graphite and for the Kindle 3. A pointer into a popup table is
  the row's index.
\<close>

section \<open>Tables\<close>

record kindle_syms =
  hsteps :: int
  vsteps :: int

record ascii_char =
  code :: int
  sendmode :: int
  kindle_fwork_sequence :: "nat option"

definition mk_ascii :: "int \<times> int \<times> nat option \<Rightarrow> ascii_char" where
  "mk_ascii r = (case r of (c, m, p) \<Rightarrow>
     \<lparr>code = c, sendmode = m, kindle_fwork_sequence = p\<rparr>)"

definition kdxg_s :: "kindle_syms list" where
  "kdxg_s = map (\<lambda>(h, v). \<lparr>hsteps = h, vsteps = v\<rparr>) [
    (-1, -1), (0, -1), (1, -1), (2, -1), (3, -1), (4, -1), (5, -1), (6, -1), (7, -1), (8, -1), (9, -1),
    (-1, 0), (0, 0), (1, 0), (2, 0), (3, 0), (4, 0), (5, 0), (6, 0), (7, 0), (8, 0), (9, 0),
    (-1, 1), (0, 1), (1, 1), (2, 1), (3, 1), (4, 1), (5, 1), (6, 1), (7, 1), (8, 1)]"

definition k3_s :: "kindle_syms list" where
  "k3_s = map (\<lambda>(h, v). \<lparr>hsteps = h, vsteps = v\<rparr>) [
    (-1, -1), (0, -1), (1, -1), (2, -1), (3, -1), (4, -1), (5, -1), (6, -1), (7, -1), (8, -1), (9, -1),
    (10, -1), (-1, 0), (0, 0), (1, 0), (2, 0), (3, 0), (4, 0), (5, 0), (6, 0), (7, 0), (8, 0),
    (9, 0), (10, 0), (-1, 1), (0, 1), (1, 1), (2, 1), (3, 1), (4, 1), (5, 1), (6, 1), (7, 1),
    (8, 1), (9, 1), (10, 1), (-1, 2), (0, 2), (1, 2), (2, 2), (3, 2), (4, 2), (5, 2), (6, 2),
    (7, 2), (8, 2), (9, 2), (10, 2)]"

definition kdxg_asciitab :: "ascii_char list" where
  "kdxg_asciitab = map mk_ascii [
    (KPKEY_SPACE, SENDMODE_NORMAL, None), (KPKEY_SPACE, SENDMODE_NORMAL, None),
    (KPKEY_SPACE, SENDMODE_NORMAL, None), (KPKEY_SPACE, SENDMODE_NORMAL, None),
    (KPKEY_SPACE, SENDMODE_NORMAL, None), (KPKEY_SPACE, SENDMODE_NORMAL, None),
    (KPKEY_SPACE, SENDMODE_NORMAL, None), (KPKEY_SPACE, SENDMODE_NORMAL, None),
    (KEY_BACKSPACE, SENDMODE_NORMAL, None), (KEY_TAB, SENDMODE_NORMAL, None),
    (KPKEY_SPACE, SENDMODE_NORMAL, None), (KPKEY_SPACE, SENDMODE_NORMAL, None),
    (KPKEY_SPACE, SENDMODE_NORMAL, None), (KPKEY_ENTER, SENDMODE_NORMAL, None),
    (KPKEY_SPACE, SENDMODE_NORMAL, None), (KPKEY_SPACE, SENDMODE_NORMAL, None),
    (KPKEY_SPACE, SENDMODE_NORMAL, None), (KPKEY_SPACE, SENDMODE_NORMAL, None),
    (KPKEY_SPACE, SENDMODE_NORMAL, None), (KPKEY_SPACE, SENDMODE_NORMAL, None),
    (KPKEY_SPACE, SENDMODE_NORMAL, None), (KPKEY_SPACE, SENDMODE_NORMAL, None),
    (KPKEY_SPACE, SENDMODE_NORMAL, None), (KPKEY_SPACE, SENDMODE_NORMAL, None),
    (KPKEY_SPACE, SENDMODE_NORMAL, None), (KPKEY_SPACE, SENDMODE_NORMAL, None),
    (KPKEY_SPACE, SENDMODE_NORMAL, None), (KEY_ESC, SENDMODE_NORMAL, None),
    (KPKEY_SPACE, SENDMODE_NORMAL, None), (KPKEY_SPACE, SENDMODE_NORMAL, None),
    (KPKEY_SPACE, SENDMODE_NORMAL, None), (KPKEY_SPACE, SENDMODE_NORMAL, None),
    (KPKEY_SPACE, SENDMODE_NORMAL, None), (KPKEY_1, SENDMODE_SHIFT, Some 13),
    (KEY_APOSTROPHE, SENDMODE_SHIFT, Some 0), (KPKEY_3, SENDMODE_SHIFT, Some 16),
    (KPKEY_4, SENDMODE_SHIFT, Some 28), (KPKEY_5, SENDMODE_SHIFT, Some 27),
    (KPKEY_7, SENDMODE_SHIFT, Some 22), (KEY_APOSTROPHE, SENDMODE_NORMAL, Some 1),
    (KPKEY_9, SENDMODE_SHIFT, Some 7), (KPKEY_0, SENDMODE_SHIFT, Some 8),
    (KPKEY_8, SENDMODE_SHIFT, Some 5), (KEY_EQUAL, SENDMODE_SHIFT, Some 4),
    (KEY_COMMA, SENDMODE_NORMAL, Some 12), (KEY_MINUS, SENDMODE_NORMAL, Some 3),
    (KPKEY_DOT, SENDMODE_NORMAL, Some 24), (KPKEY_SLASH, SENDMODE_NORMAL, Some 14),
    (KPKEY_0, SENDMODE_NORMAL, None), (KPKEY_1, SENDMODE_NORMAL, None),
    (KPKEY_2, SENDMODE_NORMAL, None), (KPKEY_3, SENDMODE_NORMAL, None),
    (KPKEY_4, SENDMODE_NORMAL, None), (KPKEY_5, SENDMODE_NORMAL, None),
    (KPKEY_6, SENDMODE_NORMAL, None), (KPKEY_7, SENDMODE_NORMAL, None),
    (KPKEY_8, SENDMODE_NORMAL, None), (KPKEY_9, SENDMODE_NORMAL, None),
    (KEY_SEMICOLON, SENDMODE_SHIFT, Some 23), (KEY_SEMICOLON, SENDMODE_NORMAL, Some 25),
    (KEY_COMMA, SENDMODE_SHIFT, Some 9), (KEY_EQUAL, SENDMODE_NORMAL, Some 15),
    (KPKEY_DOT, SENDMODE_SHIFT, Some 10), (KPKEY_SLASH, SENDMODE_SHIFT, Some 11),
    (KPKEY_2, SENDMODE_SHIFT, Some 2), (KPKEY_A, SENDMODE_SHIFT, None),
    (KPKEY_B, SENDMODE_SHIFT, None), (KPKEY_C, SENDMODE_SHIFT, None),
    (KPKEY_D, SENDMODE_SHIFT, None), (KPKEY_E, SENDMODE_SHIFT, None),
    (KPKEY_F, SENDMODE_SHIFT, None), (KPKEY_G, SENDMODE_SHIFT, None),
    (KPKEY_H, SENDMODE_SHIFT, None), (KPKEY_I, SENDMODE_SHIFT, None),
    (KPKEY_J, SENDMODE_SHIFT, None), (KPKEY_K, SENDMODE_SHIFT, None),
    (KPKEY_L, SENDMODE_SHIFT, None), (KPKEY_M, SENDMODE_SHIFT, None),
    (KPKEY_N, SENDMODE_SHIFT, None), (KPKEY_O, SENDMODE_SHIFT, None),
    (KPKEY_P, SENDMODE_SHIFT, None), (KPKEY_Q, SENDMODE_SHIFT, None),
    (KPKEY_R, SENDMODE_SHIFT, None), (KPKEY_S, SENDMODE_SHIFT, None),
    (KPKEY_T, SENDMODE_SHIFT, None), (KPKEY_U, SENDMODE_SHIFT, None),
    (KPKEY_V, SENDMODE_SHIFT, None), (KPKEY_W, SENDMODE_SHIFT, None),
    (KPKEY_X, SENDMODE_SHIFT, None), (KPKEY_Y, SENDMODE_SHIFT, None),
    (KPKEY_Z, SENDMODE_SHIFT, None), (KEY_LEFTBRACE, SENDMODE_NORMAL, Some 29),
    (KEY_BACKSLASH, SENDMODE_NORMAL, None), (KEY_RIGHTBRACE, SENDMODE_NORMAL, Some 30),
    (KPKEY_6, SENDMODE_SHIFT, Some 6), (KEY_MINUS, SENDMODE_SHIFT, Some 26),
    (KEY_GRAVE, SENDMODE_NORMAL, Some 20), (KPKEY_A, SENDMODE_NORMAL, None),
    (KPKEY_B, SENDMODE_NORMAL, None), (KPKEY_C, SENDMODE_NORMAL, None),
    (KPKEY_D, SENDMODE_NORMAL, None), (KPKEY_E, SENDMODE_NORMAL, None),
    (KPKEY_F, SENDMODE_NORMAL, None), (KPKEY_G, SENDMODE_NORMAL, None),
    (KPKEY_H, SENDMODE_NORMAL, None), (KPKEY_I, SENDMODE_NORMAL, None),
    (KPKEY_J, SENDMODE_NORMAL, None), (KPKEY_K, SENDMODE_NORMAL, None),
    (KPKEY_L, SENDMODE_NORMAL, None), (KPKEY_M, SENDMODE_NORMAL, None),
    (KPKEY_N, SENDMODE_NORMAL, None), (KPKEY_O, SENDMODE_NORMAL, None),
    (KPKEY_P, SENDMODE_NORMAL, None), (KPKEY_Q, SENDMODE_NORMAL, None),
    (KPKEY_R, SENDMODE_NORMAL, None), (KPKEY_S, SENDMODE_NORMAL, None),
    (KPKEY_T, SENDMODE_NORMAL, None), (KPKEY_U, SENDMODE_NORMAL, None),
    (KPKEY_V, SENDMODE_NORMAL, None), (KPKEY_W, SENDMODE_NORMAL, None),
    (KPKEY_X, SENDMODE_NORMAL, None), (KPKEY_Y, SENDMODE_NORMAL, None),
    (KPKEY_Z, SENDMODE_NORMAL, None), (KEY_LEFTBRACE, SENDMODE_SHIFT, Some 18),
    (KEY_BACKSLASH, SENDMODE_SHIFT, Some 17), (KEY_RIGHTBRACE, SENDMODE_SHIFT, Some 19),
    (KEY_GRAVE, SENDMODE_SHIFT, Some 21), (KPKEY_DEL, SENDMODE_NORMAL, Some 31)]"

definition k3_asciitab :: "ascii_char list" where
  "k3_asciitab = map mk_ascii [
    (KPKEY_SPACE, SENDMODE_NORMAL, None), (KPKEY_SPACE, SENDMODE_NORMAL, None),
    (KPKEY_SPACE, SENDMODE_NORMAL, None), (KPKEY_SPACE, SENDMODE_NORMAL, None),
    (KPKEY_SPACE, SENDMODE_NORMAL, None), (KPKEY_SPACE, SENDMODE_NORMAL, None),
    (KPKEY_SPACE, SENDMODE_NORMAL, None), (KPKEY_SPACE, SENDMODE_NORMAL, None),
    (KEY_BACKSPACE, SENDMODE_NORMAL, None), (KEY_TAB, SENDMODE_NORMAL, None),
    (KPKEY_SPACE, SENDMODE_NORMAL, None), (KPKEY_SPACE, SENDMODE_NORMAL, None),
    (KPKEY_SPACE, SENDMODE_NORMAL, None), (KPKEY_ENTER, SENDMODE_NORMAL, None),
    (KPKEY_SPACE, SENDMODE_NORMAL, None), (KPKEY_SPACE, SENDMODE_NORMAL, None),
    (KPKEY_SPACE, SENDMODE_NORMAL, None), (KPKEY_SPACE, SENDMODE_NORMAL, None),
    (KPKEY_SPACE, SENDMODE_NORMAL, None), (KPKEY_SPACE, SENDMODE_NORMAL, None),
    (KPKEY_SPACE, SENDMODE_NORMAL, None), (KPKEY_SPACE, SENDMODE_NORMAL, None),
    (KPKEY_SPACE, SENDMODE_NORMAL, None), (KPKEY_SPACE, SENDMODE_NORMAL, None),
    (KPKEY_SPACE, SENDMODE_NORMAL, None), (KPKEY_SPACE, SENDMODE_NORMAL, None),
    (KPKEY_SPACE, SENDMODE_NORMAL, None), (KEY_ESC, SENDMODE_NORMAL, None),
    (KPKEY_SPACE, SENDMODE_NORMAL, None), (KPKEY_SPACE, SENDMODE_NORMAL, None),
    (KPKEY_SPACE, SENDMODE_NORMAL, None), (KPKEY_SPACE, SENDMODE_NORMAL, None),
    (KPKEY_SPACE, SENDMODE_NORMAL, None), (KPKEY_1, SENDMODE_SHIFT, Some 24),
    (KEY_APOSTROPHE, SENDMODE_SHIFT, Some 3), (KPKEY_3, SENDMODE_SHIFT, Some 26),
    (KPKEY_4, SENDMODE_SHIFT, Some 27), (KPKEY_5, SENDMODE_SHIFT, Some 28),
    (KPKEY_7, SENDMODE_SHIFT, Some 30), (KEY_APOSTROPHE, SENDMODE_NORMAL, Some 15),
    (KPKEY_9, SENDMODE_SHIFT, Some 32), (KPKEY_0, SENDMODE_SHIFT, Some 33),
    (KPKEY_8, SENDMODE_SHIFT, Some 31), (KEY_EQUAL, SENDMODE_SHIFT, Some 35),
    (KEY_COMMA, SENDMODE_NORMAL, Some 13), (KEY_MINUS, SENDMODE_NORMAL, Some 46),
    (KPKEY_DOT, SENDMODE_NORMAL, Some 14), (KPKEY_SLASH, SENDMODE_NORMAL, Some 16),
    (KPKEY_0, SENDMODE_NORMAL, Some 45), (KPKEY_1, SENDMODE_NORMAL, Some 36),
    (KPKEY_2, SENDMODE_NORMAL, Some 37), (KPKEY_3, SENDMODE_NORMAL, Some 38),
    (KPKEY_4, SENDMODE_NORMAL, Some 39), (KPKEY_5, SENDMODE_NORMAL, Some 40),
    (KPKEY_6, SENDMODE_NORMAL, Some 41), (KPKEY_7, SENDMODE_NORMAL, Some 42),
    (KPKEY_8, SENDMODE_NORMAL, Some 43), (KPKEY_9, SENDMODE_NORMAL, Some 44),
    (KEY_SEMICOLON, SENDMODE_SHIFT, Some 0), (KEY_SEMICOLON, SENDMODE_NORMAL, Some 12),
    (KEY_COMMA, SENDMODE_SHIFT, Some 1), (KEY_EQUAL, SENDMODE_NORMAL, Some 47),
    (KPKEY_DOT, SENDMODE_SHIFT, Some 2), (KPKEY_SLASH, SENDMODE_SHIFT, Some 4),
    (KPKEY_2, SENDMODE_SHIFT, Some 25), (KPKEY_A, SENDMODE_SHIFT, None),
    (KPKEY_B, SENDMODE_SHIFT, None), (KPKEY_C, SENDMODE_SHIFT, None),
    (KPKEY_D, SENDMODE_SHIFT, None), (KPKEY_E, SENDMODE_SHIFT, None),
    (KPKEY_F, SENDMODE_SHIFT, None), (KPKEY_G, SENDMODE_SHIFT, None),
    (KPKEY_H, SENDMODE_SHIFT, None), (KPKEY_I, SENDMODE_SHIFT, None),
    (KPKEY_J, SENDMODE_SHIFT, None), (KPKEY_K, SENDMODE_SHIFT, None),
    (KPKEY_L, SENDMODE_SHIFT, None), (KPKEY_M, SENDMODE_SHIFT, None),
    (KPKEY_N, SENDMODE_SHIFT, None), (KPKEY_O, SENDMODE_SHIFT, None),
    (KPKEY_P, SENDMODE_SHIFT, None), (KPKEY_Q, SENDMODE_SHIFT, None),
    (KPKEY_R, SENDMODE_SHIFT, None), (KPKEY_S, SENDMODE_SHIFT, None),
    (KPKEY_T, SENDMODE_SHIFT, None), (KPKEY_U, SENDMODE_SHIFT, None),
    (KPKEY_V, SENDMODE_SHIFT, None), (KPKEY_W, SENDMODE_SHIFT, None),
    (KPKEY_X, SENDMODE_SHIFT, None), (KPKEY_Y, SENDMODE_SHIFT, None),
    (KPKEY_Z, SENDMODE_SHIFT, None), (KEY_LEFTBRACE, SENDMODE_NORMAL, Some 17),
    (KEY_BACKSLASH, SENDMODE_NORMAL, Some 19), (KEY_RIGHTBRACE, SENDMODE_NORMAL, Some 18),
    (KPKEY_6, SENDMODE_SHIFT, Some 29), (KEY_MINUS, SENDMODE_SHIFT, Some 34),
    (KEY_GRAVE, SENDMODE_NORMAL, Some 8), (KPKEY_A, SENDMODE_NORMAL, None),
    (KPKEY_B, SENDMODE_NORMAL, None), (KPKEY_C, SENDMODE_NORMAL, None),
    (KPKEY_D, SENDMODE_NORMAL, None), (KPKEY_E, SENDMODE_NORMAL, None),
    (KPKEY_F, SENDMODE_NORMAL, None), (KPKEY_G, SENDMODE_NORMAL, None),
    (KPKEY_H, SENDMODE_NORMAL, None), (KPKEY_I, SENDMODE_NORMAL, None),
    (KPKEY_J, SENDMODE_NORMAL, None), (KPKEY_K, SENDMODE_NORMAL, None),
    (KPKEY_L, SENDMODE_NORMAL, None), (KPKEY_M, SENDMODE_NORMAL, None),
    (KPKEY_N, SENDMODE_NORMAL, None), (KPKEY_O, SENDMODE_NORMAL, None),
    (KPKEY_P, SENDMODE_NORMAL, None), (KPKEY_Q, SENDMODE_NORMAL, None),
    (KPKEY_R, SENDMODE_NORMAL, None), (KPKEY_S, SENDMODE_NORMAL, None),
    (KPKEY_T, SENDMODE_NORMAL, None), (KPKEY_U, SENDMODE_NORMAL, None),
    (KPKEY_V, SENDMODE_NORMAL, None), (KPKEY_W, SENDMODE_NORMAL, None),
    (KPKEY_X, SENDMODE_NORMAL, None), (KPKEY_Y, SENDMODE_NORMAL, None),
    (KPKEY_Z, SENDMODE_NORMAL, None), (KEY_LEFTBRACE, SENDMODE_SHIFT, Some 5),
    (KEY_BACKSLASH, SENDMODE_SHIFT, Some 7), (KEY_RIGHTBRACE, SENDMODE_SHIFT, Some 6),
    (KEY_GRAVE, SENDMODE_SHIFT, Some 9), (KPKEY_DEL, SENDMODE_NORMAL, None)]"

section \<open>Access\<close>

text \<open>asciichar & 0x7f selects the row; the argument k3 is is_this_kindle3() \<noteq> 0.\<close>

definition ascii_row :: "bool \<Rightarrow> char \<Rightarrow> ascii_char" where
  "ascii_row k3 c = (if k3 then k3_asciitab else kdxg_asciitab) ! (of_char c mod 128)"

definition char_kindle_fw_sequence :: "bool \<Rightarrow> char \<Rightarrow> kindle_syms option" where
  "char_kindle_fw_sequence k3 c =
     map_option (\<lambda>i. (if k3 then k3_s else kdxg_s) ! i) (kindle_fwork_sequence (ascii_row k3 c))"

definition char_keypad_code :: "bool \<Rightarrow> char \<Rightarrow> short" where
  "char_keypad_code k3 c = word_of_int (code (ascii_row k3 c))"

text \<open>The function returns the code of the row, not its send mode.\<close>

definition char_send_mode :: "bool \<Rightarrow> char \<Rightarrow> int" where
  "char_send_mode k3 c = code (ascii_row k3 c)"

section \<open>The popup layouts\<close>

text \<open>
  The layouts the comments of the tables draw, with NUL for what is not ASCII; when the popup
  opens, its cursor is on the comma, the second symbol of the second row.
\<close>

definition kdxg_popup :: "string list" where
  "kdxg_popup = [[CHR 0x22, CHR 0x27] @ ''@-+*^()<>'',
                 ''?,!/=#|{}'' @ [CHR 0x60] @ ''~'',
                 ''&:.;_%$[]'' @ [CHR 0x5C]]"

definition k3_popup :: "string list" where
  "k3_popup = ['':<>'' @ [CHR 0x22] @ ''?{}|'' @ [CHR 0x60] @ ''~'' @ [NUL, NUL],
               '';,.'' @ [CHR 0x27] @ ''/[]'' @ [CHR 0x5C] @ [NUL, NUL, NUL, NUL],
               ''!@#$%^&*()_+'',
               ''1234567890-='']"

definition popup_symbol :: "string list \<Rightarrow> kindle_syms \<Rightarrow> char option" where
  "popup_symbol rows p =
     (let y = vsteps p + 1; x = hsteps p + 1 in
      if 0 \<le> y \<and> y < int (length rows) \<and> 0 \<le> x \<and> x < int (length (rows ! nat y))
      then Some (rows ! nat y ! nat x) else None)"

definition ascii_chars :: "char list" where
  "ascii_chars = map char_of [0..<128::nat]"

lemma set_ascii_chars: "set ascii_chars = {c. (of_char c :: nat) < 128}"
proof -
  have "c \<in> char_of ` {0..<128::nat}" if "(of_char c :: nat) < 128" for c
  proof
    show "c = char_of (of_char c :: nat)" by simp
    show "(of_char c :: nat) \<in> {0..<128}" using that by simp
  qed
  then show ?thesis by (auto simp: ascii_chars_def)
qed

lemma ascii_check: "list_all P ascii_chars \<Longrightarrow> (of_char c :: nat) < 128 \<Longrightarrow> P c"
  using set_ascii_chars by (auto simp: list_all_iff)

lemma ascii_fold: "\<exists>d. (of_char d :: nat) < 128 \<and> ascii_row k3 c = ascii_row k3 d \<and>
    (of_char c mod 128 :: nat) = of_char d"
proof -
  have "(of_char (char_of (of_char c mod 128 :: nat) :: char) :: nat) = of_char c mod 128"
    by (simp add: of_char_of)
  then show ?thesis
    by (intro exI [of _ "char_of (of_char c mod 128 :: nat)"]) (simp add: ascii_row_def)
qed

lemma table_lengths [simp]:
  "length kdxg_asciitab = 128" "length k3_asciitab = 128" "length kdxg_s = 32" "length k3_s = 48"
  by code_simp+

text \<open>The rows with a popup entry, with the character they belong to.\<close>

definition popup_rows :: "ascii_char list \<Rightarrow> (char \<times> nat) list" where
  "popup_rows tab = List.map_filter (\<lambda>(c, r). map_option (Pair c) (kindle_fwork_sequence r)) (zip ascii_chars tab)"

lemma popup_rows_all:
  assumes "length tab = 128"
  shows "list_all (\<lambda>(c, i). P c i) (popup_rows tab) =
    list_all (\<lambda>c. case kindle_fwork_sequence (tab ! (of_char c mod 128)) of None \<Rightarrow> True | Some i \<Rightarrow> P c i) ascii_chars"
proof -
  have "list_all (\<lambda>(c, i). P c i) (List.map_filter (\<lambda>(c, r). map_option (Pair c) (kindle_fwork_sequence r)) ps) =
      list_all (\<lambda>(c, r). case kindle_fwork_sequence r of None \<Rightarrow> True | Some i \<Rightarrow> P c i) ps" for ps
    by (induction ps) (auto simp: List.map_filter_simps split: option.splits)
  then have "list_all (\<lambda>(c, i). P c i) (popup_rows tab) =
      list_all (\<lambda>(c, r). case kindle_fwork_sequence r of None \<Rightarrow> True | Some i \<Rightarrow> P c i) (zip ascii_chars tab)"
    by (simp only: popup_rows_def)
  also have "\<dots> = list_all (\<lambda>c. case kindle_fwork_sequence (tab ! (of_char c mod 128)) of None \<Rightarrow> True | Some i \<Rightarrow> P c i) ascii_chars"
    using assms by (simp add: list_all_length ascii_chars_def cong: option.case_cong)
  finally show ?thesis .
qed

lemma kdxg_popup_check: "list_all (\<lambda>c. of_char c = (127 :: nat) \<or>
    (case char_kindle_fw_sequence False c of None \<Rightarrow> True
     | Some p \<Rightarrow> popup_symbol kdxg_popup p = Some c)) ascii_chars"
proof -
  have "list_all (\<lambda>(c, i). c = CHR 0x7F \<or> popup_symbol kdxg_popup (kdxg_s ! i) = Some c) (popup_rows kdxg_asciitab)"
    by code_simp
  then have "list_all (\<lambda>c. case kindle_fwork_sequence (kdxg_asciitab ! (of_char c mod 128)) of None \<Rightarrow> True
      | Some i \<Rightarrow> c = CHR 0x7F \<or> popup_symbol kdxg_popup (kdxg_s ! i) = Some c) ascii_chars"
    by (simp only: popup_rows_all [OF table_lengths(1)])
  then show ?thesis
    by (auto simp: list_all_iff char_kindle_fw_sequence_def ascii_row_def split: option.splits)
qed

lemma k3_popup_check: "list_all (\<lambda>c.
    case char_kindle_fw_sequence True c of None \<Rightarrow> True
     | Some p \<Rightarrow> popup_symbol k3_popup p = Some c) ascii_chars"
proof -
  have "list_all (\<lambda>(c, i). popup_symbol k3_popup (k3_s ! i) = Some c) (popup_rows k3_asciitab)"
    by code_simp
  then have "list_all (\<lambda>c. case kindle_fwork_sequence (k3_asciitab ! (of_char c mod 128)) of None \<Rightarrow> True
      | Some i \<Rightarrow> popup_symbol k3_popup (k3_s ! i) = Some c) ascii_chars"
    by (simp only: popup_rows_all [OF table_lengths(2)])
  then show ?thesis
    by (auto simp: list_all_iff char_kindle_fw_sequence_def ascii_row_def split: option.splits)
qed

lemma table_range_check: "list_all (\<lambda>r. 0 < code r \<and> code r < 128 \<and> sendmode r \<in> {0, 1, 2} \<and>
    (case kindle_fwork_sequence r of None \<Rightarrow> True | Some i \<Rightarrow> i < 32)) kdxg_asciitab"
  "list_all (\<lambda>r. 0 < code r \<and> code r < 128 \<and> sendmode r \<in> {0, 1, 2} \<and>
    (case kindle_fwork_sequence r of None \<Rightarrow> True | Some i \<Rightarrow> i < 48)) k3_asciitab"
  by code_simp+

section \<open>Properties\<close>

text \<open>The moves of the Kindle 3 table are right for every character: where a row has a popup
  entry, walking its steps from the comma of the drawn popup layout ends on that character.\<close>
theorem k3_popup_moves:
  "case char_kindle_fw_sequence True c of
     None \<Rightarrow> True
   | Some p \<Rightarrow> popup_symbol k3_popup p = Some (char_of (of_char c mod 128 :: nat))"
proof -
  obtain d where d: "(of_char d :: nat) < 128" "ascii_row True c = ascii_row True d"
      "(of_char c mod 128 :: nat) = of_char d"
    using ascii_fold by blast
  have "char_kindle_fw_sequence True c = char_kindle_fw_sequence True d"
    using d(2) by (simp add: char_kindle_fw_sequence_def)
  moreover have "case char_kindle_fw_sequence True d of None \<Rightarrow> True
     | Some p \<Rightarrow> popup_symbol k3_popup p = Some d"
    by (rule ascii_check [OF k3_popup_check d(1)])
  ultimately show ?thesis using d(3) by (simp split: option.splits)
qed

text \<open>The moves of the DX Graphite table are right for every character but one: the entry of
  the backslash was put into the row of DEL, so DEL moves to the backslash of the popup and the
  backslash itself has no entry.\<close>
theorem kdxg_popup_moves:
  "(if of_char c mod 128 = (127 :: nat)
    then char_kindle_fw_sequence False c = Some (kdxg_s ! 31) \<and>
         popup_symbol kdxg_popup (kdxg_s ! 31) = Some CHR 0x5C
    else case char_kindle_fw_sequence False c of
           None \<Rightarrow> True
         | Some p \<Rightarrow> popup_symbol kdxg_popup p = Some (char_of (of_char c mod 128 :: nat))) \<and>
   char_kindle_fw_sequence False CHR 0x5C = None"
proof -
  obtain d where d: "(of_char d :: nat) < 128" "ascii_row False c = ascii_row False d"
      "(of_char c mod 128 :: nat) = of_char d"
    using ascii_fold by blast
  have same: "char_kindle_fw_sequence False c = char_kindle_fw_sequence False d"
    using d(2) by (simp add: char_kindle_fw_sequence_def)
  have del: "kindle_fwork_sequence (kdxg_asciitab ! 127) = Some 31"
    "popup_symbol kdxg_popup (kdxg_s ! 31) = Some CHR 0x5C"
    "char_kindle_fw_sequence False CHR 0x5C = None"
    by code_simp+
  then have "char_kindle_fw_sequence False d = Some (kdxg_s ! 31)" if "of_char d = (127 :: nat)"
    using that by (simp add: char_kindle_fw_sequence_def ascii_row_def)
  with del same d(3) ascii_check [OF kdxg_popup_check d(1)] show ?thesis
    by (auto split: option.splits)
qed

text \<open>char\_send\_mode does not return the send mode its table has: it returns the keypad code
  (that char\_keypad\_code returns as a short) for every character, so for instance the
  exclamation mark, whose row says it needs shift, is reported with the mode of alt.\<close>
theorem char_send_mode_is_code:
  "char_send_mode k3 c = sint (char_keypad_code k3 c) \<and>
   sendmode (ascii_row k3 CHR ''!'') = SENDMODE_SHIFT \<and>
   char_send_mode k3 CHR ''!'' = SENDMODE_ALT"
proof -
  have "sint (word_of_int v :: short) = v" if "0 < v" "v < 128" for v
    using that by simp
  moreover have "0 < code (ascii_row k3 c) \<and> code (ascii_row k3 c) < 128"
    using table_range_check by (simp add: ascii_row_def list_all_length)
  moreover have "sendmode (ascii_row k3 CHR ''!'') = SENDMODE_SHIFT \<and>
      char_send_mode k3 CHR ''!'' = SENDMODE_ALT"
    by (cases k3) (simp_all, code_simp+)
  ultimately show ?thesis by (simp add: char_send_mode_def char_keypad_code_def)
qed

end
