(* ===== verification/KeyDefs.thy ===== *)
theory KeyDefs
  imports KeyCodes IniRender
begin

text \<open>
  src/keydefs.c: the names of the input keys and their codes, from the built-in table or from the
  [InputKeys] section of keydefs.ini, the numeric forms a code can be written in, and the
  substitution of Kindle 3 codes by the DX Graphite codes that the rest of the program knows.
  ptab and pcodes are the two arrays the functions fill: the rows of key names, and for every
  code the index of its row (-1 for none).
\<close>

section \<open>Tables\<close>

record input_key =
  input_key_code :: int
  input_key_name :: string

definition default_input_keys :: "(int \<times> string) list" where
  "default_input_keys = [(KPKEY_1, ''1''), (KPKEY_2, ''2''), (KPKEY_3, ''3''), (KPKEY_4, ''4''),
    (KPKEY_5, ''5''), (KPKEY_6, ''6''), (KPKEY_7, ''7''), (KPKEY_8, ''8''),
    (KPKEY_9, ''9''), (KPKEY_0, ''0''), (KPKEY_Q, ''Q''), (KPKEY_W, ''W''),
    (KPKEY_E, ''E''), (KPKEY_R, ''R''), (KPKEY_T, ''T''), (KPKEY_Y, ''Y''),
    (KPKEY_U, ''U''), (KPKEY_I, ''I''), (KPKEY_O, ''O''), (KPKEY_P, ''P''),
    (KPKEY_A, ''A''), (KPKEY_S, ''S''), (KPKEY_D, ''D''), (KPKEY_F, ''F''),
    (KPKEY_G, ''G''), (KPKEY_H, ''H''), (KPKEY_J, ''J''), (KPKEY_K, ''K''),
    (KPKEY_L, ''L''), (KPKEY_DEL, ''Del''), (KPKEY_Z, ''Z''), (KPKEY_X, ''X''),
    (KPKEY_C, ''C''), (KPKEY_V, ''V''), (KPKEY_B, ''B''), (KPKEY_N, ''N''),
    (KPKEY_M, ''M''), (KPKEY_DOT, ''Dot''), (KPKEY_SLASH, ''Slash''), (KPKEY_ENTER, ''Enter''),
    (KPKEY_SHIFT, ''Shift''), (KPKEY_ALT, ''Alt''), (KPKEY_SPACE, ''Space''), (KPKEY_AA, ''aA''),
    (KPKEY_SYM, ''Sym''), (KPKEY_VPLUS, ''VPlus''), (KPKEY_VMINUS, ''VMinus''), (KPKEY_HOME, ''Home''),
    (KPKEY_PGBCK, ''<''), (KPKEY_PGFWD, ''>''), (KPKEY_MENU, ''Menu''), (KPKEY_BACK, ''Back''),
    (KPKEY_FW_LEFT, ''FW_Left''), (KPKEY_FW_RIGHT, ''FW_Right''), (KPKEY_FW_UP, ''FW_Up''), (KPKEY_FW_DOWN, ''FW_Down''),
    (KPKEY_FW_PRESS, ''FW_Press''), (K3KEY_AA, ''k3_aA''), (K3KEY_SYM, ''k3_Sym''), (K3KEY_HOME, ''k3_Home''),
    (K3KEY_BACK, ''k3_Back''), (K3KEY_PGFWD, ''k3_>''), (K3KEY_LPGBCK, ''lk3_<''), (K3KEY_LPGFWD, ''lk3_>''),
    (K3KEY_VPLUS, ''VPlus''), (K3KEY_VMINUS, ''VMinus''), (K3KEY_FW_UP, ''k3_FW_Up''), (K3KEY_FW_DOWN, ''k3_FW_Down''),
    (K3KEY_FW_PRESS, ''k3_FW_Press'')]"

definition default_key_alias :: "(int \<times> int) list" where
  "default_key_alias = [(K3KEY_AA, KPKEY_AA), (K3KEY_SYM, KPKEY_SYM), (K3KEY_HOME, KPKEY_HOME),
    (K3KEY_BACK, KPKEY_BACK), (K3KEY_PGFWD, KPKEY_PGFWD), (K3KEY_LPGBCK, KPKEY_PGBCK),
    (K3KEY_LPGFWD, KPKEY_PGFWD), (K3KEY_VPLUS, KPKEY_VPLUS), (K3KEY_VMINUS, KPKEY_VMINUS),
    (K3KEY_FW_UP, KPKEY_FW_UP), (K3KEY_FW_DOWN, KPKEY_FW_DOWN), (K3KEY_FW_PRESS, KPKEY_FW_PRESS)]"

definition input_key_row :: "int \<times> string \<Rightarrow> input_key" where
  "input_key_row r = \<lparr>input_key_code = fst r, input_key_name = snd r\<rparr>"

text \<open>A row of the array after memset with zeros.\<close>

definition zero_key :: input_key where
  "zero_key = \<lparr>input_key_code = 0, input_key_name = []\<rparr>"

section \<open>Code numbers\<close>

text \<open>An int of 32 bits wraps in the shifts and sums of the octal loop.\<close>

definition wrap32 :: "int \<Rightarrow> int" where
  "wrap32 v = (v + 2 ^ 31) mod 2 ^ 32 - 2 ^ 31"

definition is_octal :: "char \<Rightarrow> bool" where
  "is_octal c = (48 \<le> (of_char c :: nat) \<and> (of_char c :: nat) \<le> 55)"

definition octal_value :: "string \<Rightarrow> int" where
  "octal_value s = foldl (\<lambda>rc c. wrap32 (rc * 8 + int (digit_val c))) 0 (takeWhile is_octal s)"

text \<open>
  sscanf with "%x" on a text that begins with 0x: the value of the hexadecimal digits, limited
  to the largest unsigned number and stored into an int; no digits leave the variable at rc.
\<close>

definition hex_value :: "string \<Rightarrow> int" where
  "hex_value s = foldl (\<lambda>n c. 16 * n + int (xdigit_val c)) 0 s"

definition sscanf_x :: "int \<Rightarrow> string \<Rightarrow> int" where
  "sscanf_x rc s = (let ds = takeWhile is_xdigit (drop 2 s) in
     if ds = [] then rc else wrap32 (min (hex_value ds) (2 ^ 32 - 1)))"

definition char_at :: "string \<Rightarrow> nat \<Rightarrow> char" where
  "char_at s i = (if i < length s then s ! i else NUL)"

definition convert_key_code :: "string \<Rightarrow> int" where
  "convert_key_code s =
     (let rc = (if char_at s 0 = CHR 0x27 then of_char (char_at s 1)
                else if char_at s 0 = CHR ''0''
                then (if tolower (char_at s 1) = CHR ''x'' then sscanf_x (-1) s else octal_value s)
                else atoi s)
      in if rc < 0 \<or> rc > int MAXCODE then -1 else rc)"

section \<open>The built-in table\<close>

definition get_default_input_keydefs :: "input_key list \<times> int list \<times> int" where
  "get_default_input_keydefs =
     (let n = length default_input_keys;
          ptab = map input_key_row default_input_keys @ replicate (MAXKEYS - n) zero_key;
          pcodes = foldl (\<lambda>cs (i, r). cs[nat (fst r) := int i]) (replicate (Suc MAXCODE) (-1))
                     (enumerate 0 default_input_keys)
      in (ptab, pcodes, int n))"

section \<open>The keydefs.ini file\<close>

text \<open>
  One turn of the loop over the keys of the section: the name is copied to a buffer of MAXNAME
  characters and the value to one of MAXPATH, whatever their length.
\<close>

type_synonym keydefs_state = "input_key list \<times> int list \<times> int"

definition keydefs_entry :: "nat \<Rightarrow> string \<Rightarrow> string \<Rightarrow> keydefs_state \<Rightarrow> keydefs_state" where
  "keydefs_entry i tmpname tmpbuf st = (case st of (ptab, pcodes, rc) \<Rightarrow>
     (let code = convert_key_code tmpbuf in
      if 0 \<le> code
      then (if pcodes ! nat code = -1
            then (ptab[i := \<lparr>input_key_code = code, input_key_name = take (MAXNAME - 1) tmpname\<rparr>],
                  pcodes[nat code := int i], rc + 1)
            else st)
      else st))"

definition keydefs_row :: "dbdesc \<Rightarrow> int \<Rightarrow> nat \<Rightarrow> keydefs_state \<Rightarrow> keydefs_state res" where
  "keydefs_row db s_idx i st =
     bindR (inidb_get_key_name (Some db) s_idx (int i)) (\<lambda>(nlen, nm).
     bindR (guardR (length (case nm of None \<Rightarrow> [] | Some s \<Rightarrow> s) < MAXNAME) Buffer_overflow) (\<lambda>_.
       if 0 < nlen
       then bindR (inidb_get_key_value (Some db) s_idx (int i)) (\<lambda>(vlen, val).
            bindR (guardR (length (case val of None \<Rightarrow> [] | Some s \<Rightarrow> s) < MAXPATH) Buffer_overflow) (\<lambda>_.
              if 0 < vlen then Inr (keydefs_entry i (the nm) (the val) st) else Inr st))
       else Inr st))"

definition KEYDEFS_FILE :: string where "KEYDEFS_FILE = ''keydefs.ini''"

definition get_input_keydefs ::
    "os \<Rightarrow> string \<Rightarrow> input_key list \<Rightarrow> int list \<Rightarrow> keydefs_state res" where
  "get_input_keydefs os proc_dir ptab pcodes =
     bindR (guardR (length (proc_dir @ KEYDEFS_FILE) < MAXPATH) Buffer_overflow) (\<lambda>_.
     bindR (inidb_open os (proc_dir @ KEYDEFS_FILE)) (\<lambda>pdb.
       case pdb of
         None \<Rightarrow> Inr (ptab, pcodes, 0)
       | Some db \<Rightarrow>
           (let s_idx = inidb_find_section (Some db) ''InputKeys'' in
            if 0 \<le> s_idx
            then bindR (inidb_get_number_of_keys (Some db) s_idx) (\<lambda>n.
                 bindR (foldR (keydefs_row db s_idx) [0..<min (nat n) MAXKEYS] (ptab, pcodes, 0)) (\<lambda>st.
                 bindR (inidb_close (Some db)) (\<lambda>_. Inr st)))
            else bindR (inidb_close (Some db)) (\<lambda>_. Inr (ptab, pcodes, 0)))))"

section \<open>Substitution\<close>

fun substitute :: "int \<Rightarrow> (int \<times> int) list \<Rightarrow> int" where
  "substitute c [] = c"
| "substitute c (r # rs) = (if c = fst r then snd r else substitute c rs)"

definition get_key_substitute_code :: "int \<Rightarrow> int" where
  "get_key_substitute_code c = substitute c default_key_alias"

section \<open>Lemmas\<close>

lemma substitute_cases: "substitute c rs = c \<or> (c, substitute c rs) \<in> set rs"
  by (induction rs) auto

lemma alias_closed: "list_all (\<lambda>r. substitute (snd r) default_key_alias = snd r) default_key_alias"
  by code_simp

lemma convert_range: "-1 \<le> convert_key_code s \<and> convert_key_code s \<le> int MAXCODE"
  by (auto simp: convert_key_code_def Let_def)

lemma convert_nat: "0 \<le> convert_key_code s \<Longrightarrow> nat (convert_key_code s) < Suc MAXCODE"
  using convert_range [of s] by linarith

text \<open>The table after the rows below n: every code points to its row, and rc counts the codes.\<close>

definition keytab_ok :: "nat \<Rightarrow> keydefs_state \<Rightarrow> bool" where
  "keytab_ok n st = (case st of (ptab, pcodes, rc) \<Rightarrow>
     length ptab = MAXKEYS \<and> length pcodes = Suc MAXCODE \<and>
     (\<forall>c < Suc MAXCODE. pcodes ! c = -1 \<or>
        0 \<le> pcodes ! c \<and> pcodes ! c < int n \<and> input_key_code (ptab ! nat (pcodes ! c)) = int c) \<and>
     rc = int (card {c. c < Suc MAXCODE \<and> pcodes ! c \<noteq> -1}))"

definition no_keys :: keydefs_state where
  "no_keys = (replicate MAXKEYS zero_key, replicate (Suc MAXCODE) (-1), 0)"

lemma keytab_init: "keytab_ok 0 no_keys"
proof -
  have "{c. c < Suc MAXCODE \<and> replicate (Suc MAXCODE) (-1 :: int) ! c \<noteq> -1} = {}"
    by (auto simp del: replicate_Suc)
  then show ?thesis by (simp add: keytab_ok_def no_keys_def del: replicate_Suc)
qed

lemma keytab_more: "keytab_ok n st \<Longrightarrow> n \<le> m \<Longrightarrow> keytab_ok m st"
  by (fastforce simp: keytab_ok_def split: prod.splits)

lemma keytab_entry:
  assumes "keytab_ok i st" "i < MAXKEYS"
  shows "keytab_ok (Suc i) (keydefs_entry i nm val st)"
proof -
  obtain ptab pcodes rc where st: "st = (ptab, pcodes, rc)" by (cases st)
  define cd where "cd = convert_key_code val"
  show ?thesis
  proof (cases "0 \<le> cd \<and> pcodes ! nat cd = -1")
    case False
    then have "keydefs_entry i nm val st = st"
      by (auto simp: keydefs_entry_def st cd_def Let_def)
    with keytab_more [OF assms(1), of "Suc i"] show ?thesis by simp
  next
    case True
    define r where "r = \<lparr>input_key_code = cd, input_key_name = take (MAXNAME - 1) nm\<rparr>"
    have e: "keydefs_entry i nm val st = (ptab[i := r], pcodes[nat cd := int i], rc + 1)"
      using True by (simp add: keydefs_entry_def st cd_def r_def Let_def)
    have lt: "nat cd < Suc MAXCODE" using True convert_nat cd_def by simp
    have len: "length ptab = MAXKEYS" "length pcodes = Suc MAXCODE"
      using assms(1) by (simp_all add: keytab_ok_def st)
    let ?A = "{c. c < Suc MAXCODE \<and> pcodes ! c \<noteq> -1}"
    have "{c. c < Suc MAXCODE \<and> pcodes[nat cd := int i] ! c \<noteq> -1} = insert (nat cd) ?A"
      using lt len by (auto simp: nth_list_update)
    moreover have "nat cd \<notin> ?A" "finite ?A" using True by auto
    ultimately have "card {c. c < Suc MAXCODE \<and> pcodes[nat cd := int i] ! c \<noteq> -1} = Suc (card ?A)"
      by simp
    moreover have "pcodes[nat cd := int i] ! c = -1 \<or>
        0 \<le> pcodes[nat cd := int i] ! c \<and> pcodes[nat cd := int i] ! c < int (Suc i) \<and>
        input_key_code (ptab[i := r] ! nat (pcodes[nat cd := int i] ! c)) = int c"
      if c: "c < Suc MAXCODE" for c
    proof (cases "c = nat cd")
      case c': True
      with True len lt assms(2) show ?thesis by (simp add: r_def)
    next
      case False
      have "pcodes ! c = -1 \<or> 0 \<le> pcodes ! c \<and> pcodes ! c < int i \<and>
          input_key_code (ptab ! nat (pcodes ! c)) = int c"
        using assms(1) c by (simp add: keytab_ok_def st)
      with False show ?thesis by (auto simp: nth_list_update)
    qed
    ultimately show ?thesis
      unfolding e keytab_ok_def using len assms(1) by (simp add: keytab_ok_def st)
  qed
qed

lemma keytab_row:
  assumes "keydefs_row db s i st = Inr st'" "keytab_ok i st" "i < MAXKEYS"
  shows "keytab_ok (Suc i) st'"
  using assms keytab_entry [OF assms(2,3)] keytab_more [OF assms(2), of "Suc i"]
  by (auto simp: keydefs_row_def res_simps split: prod.splits if_splits)

lemma keytab_rows:
  "foldR (keydefs_row db s) [0..<n] no_keys = Inr st \<Longrightarrow> n \<le> MAXKEYS \<Longrightarrow> keytab_ok n st"
proof (induction n arbitrary: st)
  case 0
  then show ?case using keytab_init by simp
next
  case (Suc n)
  then obtain st1 where "foldR (keydefs_row db s) [0..<n] no_keys = Inr st1"
      "keydefs_row db s n st1 = Inr st"
    by (auto simp: foldR_append res_simps)
  with Suc keytab_row show ?case by simp
qed

lemma keytab_file:
  assumes "get_input_keydefs os dir (fst no_keys) (fst (snd no_keys)) = Inr st"
  shows "keytab_ok MAXKEYS st"
proof -
  have e: "(fst no_keys, fst (snd no_keys), 0) = no_keys" by (simp add: no_keys_def)
  have "keytab_ok MAXKEYS st"
    if "foldR (keydefs_row db s) [0..<min n MAXKEYS] no_keys = Inr st" for db s n
    using keytab_rows [OF that] keytab_more by simp
  moreover have "keytab_ok MAXKEYS no_keys" by (rule keytab_more [OF keytab_init]) simp
  ultimately show ?thesis
    using assms e
    by (auto simp: get_input_keydefs_def Let_def res_simps split: option.splits if_splits)
qed

text \<open>The loop on a section whose pairs all define a code of their own.\<close>

definition good_pairs :: "(string \<times> string) list \<Rightarrow> bool" where
  "good_pairs ps = (length ps \<le> MAXKEYS \<and> distinct (map (convert_key_code \<circ> snd) ps) \<and>
     list_all (\<lambda>(k, v). k \<noteq> [] \<and> length k < MAXNAME \<and> v \<noteq> [] \<and> length v < MAXPATH \<and>
                        0 \<le> convert_key_code v) ps)"

definition pair_row :: "string \<times> string \<Rightarrow> input_key" where
  "pair_row p = \<lparr>input_key_code = convert_key_code (snd p), input_key_name = fst p\<rparr>"

definition pair_codes :: "(string \<times> string) list \<Rightarrow> int list" where
  "pair_codes ps = foldl (\<lambda>cs (i, p). cs[nat (convert_key_code (snd p)) := int i])
     (replicate (Suc MAXCODE) (-1)) (enumerate 0 ps)"

lemma pair_codes_snoc:
  "pair_codes (ps @ [p]) = (pair_codes ps)[nat (convert_key_code (snd p)) := int (length ps)]"
  by (simp add: pair_codes_def enumerate_append_eq)

lemma length_pair_codes: "length (pair_codes ps) = Suc MAXCODE"
proof (induction ps rule: rev_induct)
  case Nil
  show ?case unfolding pair_codes_def by (simp del: replicate_Suc)
next
  case (snoc p ps)
  then show ?case by (simp add: pair_codes_snoc)
qed

lemma pair_codes_fresh:
  assumes "\<forall>p \<in> set ps. convert_key_code (snd p) \<noteq> int c" "c < Suc MAXCODE"
    "\<forall>p \<in> set ps. 0 \<le> convert_key_code (snd p)"
  shows "pair_codes ps ! c = -1"
  using assms(1,3)
proof (induction ps rule: rev_induct)
  case Nil
  show ?case using assms(2) unfolding pair_codes_def by (simp del: replicate_Suc)
next
  case (snoc p ps)
  then have "nat (convert_key_code (snd p)) \<noteq> c" by auto
  with snoc show ?case by (simp add: pair_codes_snoc)
qed

lemma keydefs_row_pair:
  assumes "db_linked db" "s < length (psections db)" "i < length (db_pairs db s)"
    and "db_pairs db s ! i = (k, v)" "k \<noteq> []" "length k < MAXNAME" "v \<noteq> []" "length v < MAXPATH"
  shows "keydefs_row db (int s) i st = Inr (keydefs_entry i k v st)"
  using inidb.key_name [OF assms(1), of s i] inidb.key_value [OF assms(1), of s i] assms
  by (simp add: keydefs_row_def length_db_sections)

lemma keydefs_rows_pairs:
  assumes db: "db_linked db" "s < length (psections db)" "db_pairs db s = ps" and good: "good_pairs ps"
  shows "n \<le> length ps \<Longrightarrow> foldR (keydefs_row db (int s)) [0..<n] no_keys =
    Inr (map pair_row (take n ps) @ replicate (MAXKEYS - n) zero_key, pair_codes (take n ps), int n)"
proof (induction n)
  case 0
  show ?case by (simp add: no_keys_def pair_codes_def del: replicate_Suc)
next
  case (Suc n)
  obtain k v where kv: "ps ! n = (k, v)" by fastforce
  have n: "n < length ps" "n < MAXKEYS" using Suc.prems good by (auto simp: good_pairs_def)
  have all: "k \<noteq> [] \<and> length k < MAXNAME \<and> v \<noteq> [] \<and> length v < MAXPATH \<and> 0 \<le> convert_key_code v"
    using good n kv by (auto simp: good_pairs_def list_all_length)
  have row: "keydefs_row db (int s) n st = Inr (keydefs_entry n k v st)" for st
    using keydefs_row_pair [OF db(1,2)] db(3) n kv all by simp
  have tk: "take (Suc n) ps = take n ps @ [(k, v)]" using n kv by (simp add: take_Suc_conv_app_nth)
  have pos: "\<forall>p \<in> set (take n ps). 0 \<le> convert_key_code (snd p)"
    using good by (fastforce simp: good_pairs_def list_all_iff dest: in_set_takeD)
  have ne: "\<forall>p \<in> set (take n ps). convert_key_code (snd p) \<noteq> convert_key_code v"
  proof
    fix p assume "p \<in> set (take n ps)"
    then obtain j where j: "j < n" "p = ps ! j" using n by (auto simp: in_set_conv_nth)
    have "distinct (map (convert_key_code \<circ> snd) ps)" using good by (simp add: good_pairs_def)
    then have "map (convert_key_code \<circ> snd) ps ! j \<noteq> map (convert_key_code \<circ> snd) ps ! n"
      using j(1) n(1) by (subst nth_eq_iff_index_eq) auto
    then show "convert_key_code (snd p) \<noteq> convert_key_code v" using j n(1) kv by simp
  qed
  have fresh: "pair_codes (take n ps) ! nat (convert_key_code v) = -1"
    using pair_codes_fresh [of "take n ps" "nat (convert_key_code v)"] ne pos all convert_nat by simp
  have len: "length (map pair_row (take n ps)) = n" using n by simp
  have rep: "replicate (MAXKEYS - n) zero_key = zero_key # replicate (MAXKEYS - Suc n) zero_key"
    using n(2) by (metis Suc_diff_Suc replicate_Suc)
  have name: "take (MAXNAME - 1) k = k" using all by (simp add: MAXNAME_def)
  have upd: "(map pair_row (take n ps) @ replicate (MAXKEYS - n) zero_key)[n := r] =
      map pair_row (take n ps) @ r # replicate (MAXKEYS - Suc n) zero_key" for r
    unfolding rep list_update_append using len by simp
  have entry: "keydefs_entry n k v (a, b, c) = (a[n := pair_row (k, v)], b[nat (convert_key_code v) := int n], c + 1)"
    if "b ! nat (convert_key_code v) = -1" for a b c
    unfolding keydefs_entry_def prod.case Let_def name pair_row_def using that all by simp
  have lt: "length (take n ps) = n" using n(1) by simp
  have IH: "foldR (keydefs_row db (int s)) [0..<n] no_keys = Inr (map pair_row (take n ps) @
      replicate (MAXKEYS - n) zero_key, pair_codes (take n ps), int n)"
    using Suc by simp
  show ?case
    unfolding tk pair_codes_snoc lt upt_Suc_append [OF le0 [of n]] foldR_append IH
    by (simp add: row entry [OF fresh] upd)
qed

lemma show_nat_hd: "0 < n \<Longrightarrow> hd (show_nat n) \<noteq> CHR ''0''"
proof (induction n rule: show_nat.induct)
  case (1 n)
  show ?case
  proof (cases "n < 10")
    case True
    have "of_char (digit_char n) \<noteq> (of_char CHR ''0'' :: nat)" using True "1.prems" by simp
    then have "digit_char n \<noteq> CHR ''0''" by metis
    with True show ?thesis by (simp add: show_nat.simps [of n])
  next
    case False
    with 1 have "hd (show_nat (n div 10)) \<noteq> CHR ''0''" by simp
    with False show ?thesis by (simp add: show_nat.simps [of n])
  qed
qed

lemma convert_decimal:
  assumes "n \<le> MAXCODE"
  shows "convert_key_code (show_nat n) = int n"
proof (cases "n = 0")
  case True
  have "convert_key_code (show_nat 0) = 0" by code_simp
  with True show ?thesis by simp
next
  case False
  obtain c cs where s: "show_nat n = c # cs" by (cases "show_nat n") auto
  have "is_digit c" using show_nat_digits [of n] by (simp add: s)
  then have "c \<noteq> CHR 0x27" by (auto simp: is_digit_def)
  moreover have "c \<noteq> CHR ''0''" using show_nat_hd [of n] False by (simp add: s)
  moreover have "char_at (show_nat n) 0 = c" by (simp add: char_at_def s)
  moreover have "atoi (show_nat n) = int n"
    using atoi_show_nat [of "[]" n] assms by (simp add: clamp32_def MAXCODE_def)
  ultimately show ?thesis using assms by (simp add: convert_key_code_def Let_def)
qed

section \<open>Properties\<close>

text \<open>The built-in table: every one of the 256 codes either has no row, or its index leads to a
  row of the table with that code; and every row's code leads to a row with the same code.\<close>
theorem default_keydefs_table:
  "case get_default_input_keydefs of (ptab, pcodes, n) \<Rightarrow>
     length ptab = MAXKEYS \<and> length pcodes = Suc MAXCODE \<and> n = int (length default_input_keys) \<and>
     list_all (\<lambda>(c, i). i = -1 \<or> 0 \<le> i \<and> i < n \<and> input_key_code (ptab ! nat i) = int c) (enumerate 0 pcodes) \<and>
     list_all (\<lambda>r. pcodes ! nat (input_key_code r) \<noteq> -1) (take (nat n) ptab)"
  by code_simp

text \<open>Substituting codes twice is the same as substituting them once, and a code that is not one
  of the Kindle 3 codes of the table stays as it is.\<close>
theorem substitute_code_idempotent:
  "get_key_substitute_code (get_key_substitute_code c) = get_key_substitute_code c \<and>
   (c \<in> fst ` set default_key_alias \<or> get_key_substitute_code c = c)"
proof -
  have "substitute c default_key_alias = c \<or>
      (c, substitute c default_key_alias) \<in> set default_key_alias" by (rule substitute_cases)
  then show ?thesis
    using alias_closed by (force simp: get_key_substitute_code_def list_all_iff)
qed

text \<open>Reading keydefs.ini into zeroed tables, whatever the file holds: when it succeeds, every
  code points to a row with that code, and the count returned is the number of codes defined.\<close>
theorem input_keydefs_consistent:
  assumes "get_input_keydefs os dir (replicate MAXKEYS zero_key) (replicate (Suc MAXCODE) (-1))
    = Inr (ptab, pcodes, rc)"
  shows "length ptab = MAXKEYS \<and> length pcodes = Suc MAXCODE \<and>
    (\<forall>c < Suc MAXCODE. pcodes ! c = -1 \<or>
       0 \<le> pcodes ! c \<and> pcodes ! c < int MAXKEYS \<and> input_key_code (ptab ! nat (pcodes ! c)) = int c) \<and>
    rc = int (card {c. c < Suc MAXCODE \<and> pcodes ! c \<noteq> -1})"
  using keytab_file [of os dir "(ptab, pcodes, rc)"] assms
  by (simp add: keytab_ok_def no_keys_def)

definition sample_os :: "string \<Rightarrow> os" where
  "sample_os c = \<lparr>os_file = (\<lambda>p. Some c), os_read_all = (\<lambda>p. True), os_malloc = (\<lambda>n. True)\<rparr>"

text \<open>Two keys with one code: the second is dropped, and the third stays in row 2.\<close>

definition sample_keydefs :: string where
  "sample_keydefs = render [Sec ''InputKeys'', Pair ''A'' ''30'', Pair ''B'' ''30'', Pair ''C'' ''0x2e'']"

lemma sample_keydefs_run:
  "case get_input_keydefs (sample_os sample_keydefs) ''/'' (replicate MAXKEYS zero_key)
          (replicate (Suc MAXCODE) (-1)) of
     Inr (ptab, pcodes, rc) \<Rightarrow> rc = 2 \<and> pcodes ! 46 = 2 \<and> input_key_name (ptab ! 2) = ''C'' \<and>
                                input_key_name (ptab ! 1) = []
   | Inl e \<Rightarrow> False"
  by code_simp

theorem input_keydefs_consistent_witness:
  "\<exists>ptab pcodes. get_input_keydefs (sample_os sample_keydefs) ''/'' (replicate MAXKEYS zero_key)
       (replicate (Suc MAXCODE) (-1)) = Inr (ptab, pcodes, 2) \<and>
     (2 :: int) = int (card {c. c < Suc MAXCODE \<and> pcodes ! c \<noteq> -1})"
proof -
  obtain ptab pcodes where run: "get_input_keydefs (sample_os sample_keydefs) ''/''
      (replicate MAXKEYS zero_key) (replicate (Suc MAXCODE) (-1)) = Inr (ptab, pcodes, 2)"
    using sample_keydefs_run by (auto split: sum.splits simp del: replicate_Suc)
  from input_keydefs_consistent [OF run] run show ?thesis by blast
qed

text \<open>Reading a good keydefs.ini: when the [InputKeys] section of the opened file has at most
  MAXKEYS pairs with names and values that fit their buffers, and every value is a code of its
  own, then row i of the table is the i-th pair, its code leads back to row i, and the count is
  the number of pairs.\<close>
theorem input_keydefs_rows:
  assumes "inidb_open os (dir @ KEYDEFS_FILE) = Inr (Some db)"
    and "length (dir @ KEYDEFS_FILE) < MAXPATH"
    and "inidb_find_section (Some db) ''InputKeys'' = int s" and "s < length (psections db)"
    and "good_pairs (db_pairs db s)"
  shows "get_input_keydefs os dir (replicate MAXKEYS zero_key) (replicate (Suc MAXCODE) (-1)) =
    Inr (map pair_row (db_pairs db s) @ replicate (MAXKEYS - length (db_pairs db s)) zero_key,
         pair_codes (db_pairs db s), int (length (db_pairs db s)))"
proof -
  note l = inidb_open_linked [OF assms(1)]
  have "inidb_get_number_of_keys (Some db) (int s) = Inr (int (length (db_pairs db s)))"
    by (rule number_of_keys_answer [OF l assms(4)])
  moreover have "min (length (db_pairs db s)) MAXKEYS = length (db_pairs db s)"
    using assms(5) by (simp add: good_pairs_def)
  ultimately show ?thesis
    using keydefs_rows_pairs [OF l assms(4) refl assms(5), of "length (db_pairs db s)"] assms(1-3)
    by (simp add: get_input_keydefs_def inidb_close_def no_keys_def del: replicate_Suc)
qed

definition two_keydefs :: string where
  "two_keydefs = ''[InputKeys]'' @ [LF] @ ''A=30'' @ [LF] @ ''B=0x30'' @ [LF]"

lemma two_keydefs_open:
  "case inidb_open (sample_os two_keydefs) (''/'' @ KEYDEFS_FILE) of
     Inr (Some db) \<Rightarrow> inidb_find_section (Some db) ''InputKeys'' = int 0 \<and> 0 < length (psections db) \<and>
                      db_pairs db 0 = [(''A'', ''30''), (''B'', ''0x30'')]
   | _ \<Rightarrow> False"
  by code_simp

theorem input_keydefs_rows_witness:
  "get_input_keydefs (sample_os two_keydefs) ''/'' (replicate MAXKEYS zero_key)
      (replicate (Suc MAXCODE) (-1)) =
    Inr (map pair_row [(''A'', ''30''), (''B'', ''0x30'')] @ replicate (MAXKEYS - 2) zero_key,
         pair_codes [(''A'', ''30''), (''B'', ''0x30'')], 2)"
proof -
  obtain db where db: "inidb_open (sample_os two_keydefs) (''/'' @ KEYDEFS_FILE) = Inr (Some db)"
      "inidb_find_section (Some db) ''InputKeys'' = int 0" "0 < length (psections db)"
      "db_pairs db 0 = [(''A'', ''30''), (''B'', ''0x30'')]"
    using two_keydefs_open by (auto split: sum.splits option.splits)
  have good: "good_pairs (db_pairs db 0)" unfolding db(4) by code_simp
  have "length (''/'' @ KEYDEFS_FILE) < MAXPATH" by code_simp
  from input_keydefs_rows [OF db(1) this db(2,3) good] show ?thesis
    unfolding db(4) by (simp del: replicate_Suc)
qed

text \<open>The numbers of keydefs.ini: a conversion never leaves the range -1 to 255, a printed decimal
  number up to 255 is read back as itself, and a quoted character gives its character code.\<close>
theorem key_code_numbers:
  "-1 \<le> convert_key_code s \<and> convert_key_code s \<le> int MAXCODE \<and>
   convert_key_code (show_nat (n mod Suc MAXCODE)) = int (n mod Suc MAXCODE) \<and>
   convert_key_code (CHR 0x27 # c # s) = of_char c"
proof -
  have "0 \<le> (of_char c :: int)" "(of_char c :: int) \<le> 255"
    using nat_of_char_less_256 [of c] of_nat_of_char [where 'a = int, of c] by linarith+
  then have "convert_key_code (CHR 0x27 # c # s) = of_char c"
    by (simp add: convert_key_code_def char_at_def MAXCODE_def)
  moreover have "n mod Suc MAXCODE < Suc MAXCODE" by (rule mod_less_divisor) (rule zero_less_Suc)
  then have "convert_key_code (show_nat (n mod Suc MAXCODE)) = int (n mod Suc MAXCODE)"
    by (intro convert_decimal) (rule less_Suc_eq_le [THEN iffD1])
  ultimately show ?thesis using convert_range by blast
qed

end
