(* ===== verification/Rce.thy ===== *)
theory Rce
  imports CString
begin

unbundle bit_operations_syntax

text \<open>
  src/rce.c: the remote command entry. Settings from the configuration files, the socket the
  commands come from, and the loop that receives datagrams: a datagram equal to the enable or
  disable string switches the listener, any other one is run as a shell command while the
  listener is enabled. The C library's address functions and the results of the system calls are
  parameters.
\<close>

section \<open>Settings\<close>

record rce_settings =
  autoenable :: int
  enable_string :: "char list"    \<comment> \<open>64 characters\<close>
  disable_string :: "char list"   \<comment> \<open>64 characters\<close>
  iface_ip :: "32 word"
  mc_group :: "32 word"
  rce_port :: "16 word"

text \<open>What the functions use of the network: inet_addr, the interface list of SIOCGIFCONF (None if
  the socket or the ioctl fails), and the outcome of each call of rce_init.\<close>

record network =
  inet_addr :: "string \<Rightarrow> 32 word"
  if_list :: "(string \<times> 32 word) list option"
  new_socket :: int
  reuse_ok :: bool
  bind_ok :: bool
  join_ok :: bool

text \<open>Byte order of the little-endian target.\<close>

definition htons :: "16 word \<Rightarrow> 16 word" where
  "htons w = push_bit 8 w OR drop_bit 8 w"

definition ntohl :: "32 word \<Rightarrow> 32 word" where
  "ntohl w = push_bit 24 w OR push_bit 8 (w AND 0xFF00) OR
             (drop_bit 8 w AND 0xFF00) OR drop_bit 24 w"

definition INADDR_ANY :: "32 word" where "INADDR_ANY = 0"

definition initial_rce :: rce_settings where
  "initial_rce = \<lparr>autoenable = 0, enable_string = replicate 64 NUL, disable_string = replicate 64 NUL,
     iface_ip = 0, mc_group = 0, rce_port = 0\<rparr>"

definition set_rce_defaults :: "network \<Rightarrow> rce_settings \<Rightarrow> rce_settings" where
  "set_rce_defaults net r = r\<lparr>autoenable := 0,
     enable_string := (enable_string r)[0 := NUL], disable_string := (disable_string r)[0 := NUL],
     iface_ip := INADDR_ANY, mc_group := inet_addr net ''239.1.2.3'', rce_port := htons 10000\<rparr>"

definition set_rce_autoenable :: "string \<Rightarrow> rce_settings \<Rightarrow> rce_settings" where
  "set_rce_autoenable p r =
     r\<lparr>autoenable := (if strcaseeq p ''true'' \<or> strcaseeq p ''yes'' \<or> p = ''1'' then 1 else 0)\<rparr>"

definition set_rce_enable_string :: "string \<Rightarrow> rce_settings \<Rightarrow> rce_settings" where
  "set_rce_enable_string p r = r\<lparr>enable_string := strncpy (enable_string r) p (64 - 1)\<rparr>"

definition set_rce_disable_string :: "string \<Rightarrow> rce_settings \<Rightarrow> rce_settings" where
  "set_rce_disable_string p r = r\<lparr>disable_string := strncpy (disable_string r) p (64 - 1)\<rparr>"

definition get_iface_ipaddr :: "network \<Rightarrow> string \<Rightarrow> 32 word" where
  "get_iface_ipaddr net p =
     (case if_list net of
        None \<Rightarrow> INADDR_ANY
      | Some ifs \<Rightarrow> (case find (\<lambda>i. strcaseeq p (fst i)) ifs of None \<Rightarrow> INADDR_ANY | Some i \<Rightarrow> snd i))"

definition get_ip_addr :: "network \<Rightarrow> string \<Rightarrow> 32 word" where
  "get_ip_addr net pIP =
     (if pIP \<noteq> [] \<and> is_digit (hd pIP) then inet_addr net pIP else get_iface_ipaddr net pIP)"

definition set_rce_interface :: "network \<Rightarrow> string \<Rightarrow> rce_settings \<Rightarrow> rce_settings" where
  "set_rce_interface net p r = r\<lparr>iface_ip := get_ip_addr net p\<rparr>"

definition set_rce_mcgroup :: "network \<Rightarrow> string \<Rightarrow> rce_settings \<Rightarrow> rce_settings" where
  "set_rce_mcgroup net p r = r\<lparr>mc_group := get_ip_addr net p\<rparr>"

text \<open>strtol with base 0: blanks, a sign, and the prefix that tells the base.\<close>

definition is_odigit :: "char \<Rightarrow> bool" where
  "is_odigit c = (48 \<le> (of_char c :: nat) \<and> (of_char c :: nat) \<le> 55)"

definition base_value :: "int \<Rightarrow> string \<Rightarrow> int" where
  "base_value b ds = foldl (\<lambda>n c. b * n + int (xdigit_val c)) 0 ds"

definition strtol0 :: "string \<Rightarrow> int" where
  "strtol0 s = (let t = dropWhile is_space s;
                    neg = (t \<noteq> [] \<and> hd t = CHR ''-'');
                    u = (if t \<noteq> [] \<and> (hd t = CHR ''-'' \<or> hd t = CHR ''+'') then tl t else t);
                    v = (if 2 < length u \<and> hd u = CHR ''0'' \<and> tolower (u ! 1) = CHR ''x'' \<and> is_xdigit (u ! 2)
                         then base_value 16 (takeWhile is_xdigit (drop 2 u))
                         else if u \<noteq> [] \<and> hd u = CHR ''0'' then base_value 8 (takeWhile is_odigit u)
                         else base_value 10 (takeWhile is_digit u))
                in clamp32 (if neg then - v else v))"

definition set_rce_port :: "string \<Rightarrow> rce_settings \<Rightarrow> rce_settings" where
  "set_rce_port p r = r\<lparr>rce_port := htons (word_of_int (strtol0 p))\<rparr>"

section \<open>The socket\<close>

text \<open>rc is set to the socket only in the branch that joins a multicast group.\<close>

definition rce_init :: "network \<Rightarrow> rce_settings \<Rightarrow> int" where
  "rce_init net r =
     (let ul = ntohl (mc_group r); doing_unicast = (drop_bit 24 ul AND 0xFF < 224) in
      if new_socket net < 0 then -1
      else if \<not> reuse_ok net then -1
      else if \<not> bind_ok net then -1
      else if \<not> doing_unicast then (if \<not> join_ok net then -1 else new_socket net)
      else -1)"

text \<open>Whether rce_start creates the thread.\<close>

definition rce_start :: "rce_settings \<Rightarrow> bool" where
  "rce_start r = (autoenable r \<noteq> 0 \<or> enable_string r ! 0 \<noteq> NUL)"

section \<open>The receive loop\<close>

definition MAXLEN :: nat where "MAXLEN = 1024"

text \<open>The message buffer of MAXLEN + 1 characters after recvfrom has stored the n bytes of a
  datagram and the NUL behind them.\<close>

definition message_of :: "char list \<Rightarrow> char list" where
  "message_of d = d @ replicate (MAXLEN + 1 - length d) NUL"

text \<open>One received datagram: the new value of is_enabled, and the command given to system, if any.
  Writes behind the message buffer are faults.\<close>

definition rce_message :: "rce_settings \<Rightarrow> bool \<Rightarrow> char list \<Rightarrow> (bool \<times> string option) res" where
  "rce_message r is_enabled d =
     (let n = length d; message = message_of d in
      bindR (guardR (n < MAXLEN + 1) Buffer_overflow) (\<lambda>_.
        if is_enabled
        then (if cstr message = cstr (disable_string r) then Inr (False, None)
              else if cstr message \<noteq> cstr (enable_string r)
              then (if message ! (n - 1) \<noteq> CHR ''&''
                    then bindR (guardR (n + 1 < MAXLEN + 1) Buffer_overflow)
                      (\<lambda>_. Inr (True, Some (cstr (message[n := CHR ''&'', n + 1 := NUL]))))
                    else Inr (True, Some (cstr message)))
              else Inr (True, None))
        else if cstr message = cstr (enable_string r) then Inr (True, None)
        else Inr (False, None)))"

text \<open>The listener's life: is_enabled at the start, then the datagrams. recvfrom returns at most
  MAXLEN - 1 bytes, and calls that return nothing or an error are passed over.\<close>

record listener =
  is_enabled :: bool
  commands :: "string list"   \<comment> \<open>those run by system, in order\<close>

definition rce_start_state :: "rce_settings \<Rightarrow> listener" where
  "rce_start_state r = \<lparr>is_enabled = (autoenable r \<noteq> 0), commands = []\<rparr>"

definition receive :: "rce_settings \<Rightarrow> char list \<Rightarrow> listener \<Rightarrow> listener res" where
  "receive r d l =
     (let m = take (MAXLEN - 1) d in
      if m = [] then Inr l
      else bindR (rce_message r (is_enabled l) m) (\<lambda>(e, cmd).
        Inr \<lparr>is_enabled = e,
             commands = commands l @ (case cmd of None \<Rightarrow> [] | Some s \<Rightarrow> [s])\<rparr>))"

definition rce_process :: "rce_settings \<Rightarrow> char list list \<Rightarrow> listener res" where
  "rce_process r ds = foldR (receive r) ds (rce_start_state r)"

section \<open>Lemmas\<close>

text \<open>The strings: the last of the 64 characters is never written, so a string always ends.\<close>

definition ended :: "char list \<Rightarrow> bool" where
  "ended b = (length b = 64 \<and> b ! 63 = NUL)"

lemma strncpy_ended: "ended b \<Longrightarrow> ended (strncpy b p 63)"
  by (cases "length p < 63") (auto simp: ended_def length_strncpy strncpy_def nth_append)

lemma cstr_strncpy_63:
  assumes "ended b" "NUL \<notin> set p"
  shows "cstr (strncpy b p 63) = take 63 p"
proof (cases "length p < 63")
  case True
  then show ?thesis using assms(2) by (simp add: cstr_strncpy_terminated)
next
  case False
  have "drop 63 b = [NUL]"
    using assms(1) by (intro nth_equalityI) (auto simp: ended_def)
  moreover have "NUL \<notin> set (take 63 p)" using assms(2) by (meson in_set_takeD)
  ultimately show ?thesis
    using False by (simp add: strncpy_def cstr_no_nul)
qed

lemma cstr_message: "length d \<le> MAXLEN \<Longrightarrow> cstr (message_of d) = cstr d"
proof -
  assume "length d \<le> MAXLEN"
  then obtain k where k: "MAXLEN + 1 - length d = Suc k" by (cases "MAXLEN + 1 - length d") auto
  have "takeWhile (\<lambda>c. c \<noteq> NUL) (d @ NUL # xs) = takeWhile (\<lambda>c. c \<noteq> NUL) d" for xs
    by (induction d) auto
  then show ?thesis unfolding message_of_def k cstr_def by simp
qed

lemma receive_total: "\<exists>l'. receive r d l = Inr l'"
proof -
  have "length (take (MAXLEN - 1) d) + 1 < MAXLEN + 1" by (simp add: MAXLEN_def)
  then show ?thesis by (auto simp: receive_def rce_message_def Let_def)
qed

lemma process_total: "\<exists>l. rce_process r ds = Inr l"
proof -
  have "\<exists>l. foldR (receive r) ds (rce_start_state r) = Inr l \<and> True"
    by (rule foldR_total) (simp_all add: receive_total)
  then show ?thesis by (simp add: rce_process_def)
qed

text \<open>The buffers' contents for a datagram that is a C string.\<close>

lemma cstr_with_amp:
  assumes "NUL \<notin> set d" "length d < MAXLEN"
  shows "cstr ((message_of d)[length d := CHR ''&'', length d + 1 := NUL]) = d @ ''&''"
proof -
  obtain k where k: "MAXLEN + 1 - length d = Suc (Suc k)"
    using assms(2) that [of "MAXLEN - 1 - length d"] by (simp add: Suc_diff_Suc)
  have "(message_of d)[length d := CHR ''&'', length d + 1 := NUL] =
      (d @ ''&'') @ NUL # replicate k NUL"
    unfolding message_of_def k by (simp add: list_update_append)
  moreover have "NUL \<notin> set (d @ ''&'')" using assms(1) by simp
  ultimately show ?thesis using cstr_no_nul by metis
qed

text \<open>What the listener does, without the buffers.\<close>

definition background :: "string \<Rightarrow> string" where
  "background m = (if last m = CHR ''&'' then m else m @ ''&'')"

fun listen :: "string \<Rightarrow> string \<Rightarrow> listener \<Rightarrow> string list \<Rightarrow> listener" where
  "listen on off l [] = l"
| "listen on off l (m # ms) = listen on off
     (if is_enabled l
      then (if m = off then l\<lparr>is_enabled := False\<rparr>
            else if m = on then l
            else l\<lparr>commands := commands l @ [background m]\<rparr>)
      else if m = on then l\<lparr>is_enabled := True\<rparr> else l) ms"

definition datagram :: "string \<Rightarrow> bool" where
  "datagram m = (m \<noteq> [] \<and> NUL \<notin> set m \<and> length m < MAXLEN)"

lemma receive_datagram:
  assumes "datagram m"
  shows "receive r m l = Inr (listen (cstr (enable_string r)) (cstr (disable_string r)) l [m])"
proof -
  have m: "take (MAXLEN - 1) m = m" "m \<noteq> []" "NUL \<notin> set m" "length m < MAXLEN"
    using assms by (auto simp: datagram_def)
  have c: "cstr (message_of m) = m" using cstr_message [of m] m by (simp add: cstr_id)
  have l: "message_of m ! (length m - 1) = last m"
    using m(2) by (simp add: message_of_def nth_append last_conv_nth)
  have amp: "cstr ((message_of m)[length m := CHR ''&'', Suc (length m) := NUL]) = m @ ''&''"
    using cstr_with_amp [OF m(3,4)] by simp
  define M where "M = message_of m"
  define on where "on = cstr (enable_string r)"
  define off where "off = cstr (disable_string r)"
  show ?thesis
    using m(2,4) c l amp
    unfolding receive_def m(1) rce_message_def Let_def M_def [symmetric] on_def [symmetric] off_def [symmetric]
    by (cases "is_enabled l"; cases "m = off"; cases "m = on"; cases "last m = CHR ''&''"; cases l)
      (auto simp: background_def guardR_def)
qed

lemma process_listen:
  assumes "list_all datagram ms"
  shows "foldR (receive r) ms l = Inr (listen (cstr (enable_string r)) (cstr (disable_string r)) l ms)"
  using assms
proof (induction ms arbitrary: l)
  case Nil
  then show ?case by simp
next
  case (Cons m ms)
  then show ?case using receive_datagram [of m r l] by simp
qed

section \<open>The listener as a machine\<close>

definition listener_init :: "rce_settings \<Rightarrow> listener \<Rightarrow> bool" where
  "listener_init r l = (l = rce_start_state r)"

definition listener_step :: "rce_settings \<Rightarrow> listener \<Rightarrow> listener \<Rightarrow> bool" where
  "listener_step r l l' = (\<exists>d. datagram d \<and> receive r d l = Inr l')"

definition commands_ok :: "listener \<Rightarrow> bool" where
  "commands_ok l = (\<forall>c \<in> set (commands l). c \<noteq> [] \<and> last c = CHR ''&'' \<and> length c \<le> MAXLEN)"

interpretation listener: machine "listener_init r" "listener_step r" commands_ok
proof
  show "commands_ok l" if "listener_init r l" for l
    using that by (simp add: listener_init_def rce_start_state_def commands_ok_def)
  show "commands_ok l'" if "commands_ok l" "listener_step r l l'" for l l'
  proof -
    obtain d where d: "datagram d" "receive r d l = Inr l'"
      using \<open>listener_step r l l'\<close> by (auto simp: listener_step_def)
    then have "set (commands l') \<subseteq> insert (background d) (set (commands l))"
      using receive_datagram [OF d(1), of r l] by (auto split: if_splits)
    moreover have "background d \<noteq> [] \<and> last (background d) = CHR ''&'' \<and>
        length (background d) \<le> MAXLEN"
      using d(1) by (auto simp: background_def datagram_def)
    ultimately show ?thesis using \<open>commands_ok l\<close> by (auto simp: commands_ok_def)
  qed
qed

section \<open>Properties\<close>

text \<open>C9: The receive loop is memory safe and does what a listener should: on datagrams of 1 to
  MAXLEN - 1 characters without NUL it ends without a fault, switches on and off at the enable
  and disable strings only, and runs every other datagram received while enabled, in order, as a
  background command.\<close>
theorem rce_process_listens:
  assumes "list_all datagram ms"
  shows "rce_process r ms = Inr (listen (cstr (enable_string r)) (cstr (disable_string r))
    \<lparr>is_enabled = (autoenable r \<noteq> 0), commands = []\<rparr> ms)"
  using process_listen [OF assms] by (simp add: rce_process_def rce_start_state_def)

theorem rce_process_listens_witness:
  "rce_process (set_rce_enable_string ''on'' initial_rce) [''ls'', ''on'', ''ls'', ''ps &''] =
    Inr \<lparr>is_enabled = True, commands = [''ls&'', ''ps &'']\<rparr>"
proof -
  have "list_all datagram [''ls'', ''on'', ''ls'', ''ps &'']" by (simp add: datagram_def MAXLEN_def)
  moreover have "cstr (enable_string (set_rce_enable_string ''on'' initial_rce)) = ''on''"
    "cstr (disable_string (set_rce_enable_string ''on'' initial_rce)) = []"
    "autoenable (set_rce_enable_string ''on'' initial_rce) = 0"
    by code_simp+
  ultimately show ?thesis
    using rce_process_listens [of "[''ls'', ''on'', ''ls'', ''ps &'']" "set_rce_enable_string ''on'' initial_rce"]
    by (simp add: background_def)
qed

text \<open>Whatever is received, datagrams with NULs or of any length included: the loop never leaves
  its buffers, and while the listener was not auto-enabled and no datagram equals the enable
  string, no command is run.\<close>
theorem rce_silent_until_enabled:
  assumes "autoenable r = 0"
    and "\<forall>d \<in> set ds. cstr (take (MAXLEN - 1) d) \<noteq> cstr (enable_string r) \<or> d = []"
  shows "rce_process r ds = Inr \<lparr>is_enabled = False, commands = []\<rparr>"
proof -
  have step: "receive r d l = Inr l" if "\<not> is_enabled l" "d \<in> set ds" for d l
  proof -
    have "length (take (MAXLEN - 1) d) \<le> MAXLEN" by simp
    with cstr_message [OF this] that assms(2) show ?thesis
      by (cases l) (auto simp: receive_def rce_message_def Let_def)
  qed
  have "foldR (receive r) xs l = Inr l" if "\<not> is_enabled l" "set xs \<subseteq> set ds" for xs l
    using that(2) by (induction xs) (simp_all add: step that(1))
  then show ?thesis using assms(1) by (simp add: rce_process_def rce_start_state_def)
qed

theorem rce_silent_until_enabled_witness:
  "rce_process (set_rce_enable_string ''on'' initial_rce) [''reboot'', []] =
    Inr \<lparr>is_enabled = False, commands = []\<rparr>"
proof -
  have "cstr (enable_string (set_rce_enable_string ''on'' initial_rce)) = ''on''"
    "autoenable (set_rce_enable_string ''on'' initial_rce) = 0"
    by code_simp+
  then show ?thesis
    by (intro rce_silent_until_enabled) (simp_all add: MAXLEN_def)
qed

text \<open>In every state the listener reaches on datagrams that are C strings, all the commands it
  has run end with an ampersand and fit the message buffer.\<close>
theorem rce_commands_in_background:
  assumes "reach (listener_init r) (listener_step r) l"
  shows "\<forall>c \<in> set (commands l). last c = CHR ''&'' \<and> length c \<le> MAXLEN"
  using listener.reach_inv [OF assms] by (simp add: commands_ok_def)

theorem rce_commands_in_background_witness:
  "\<exists>l :: listener. commands l = [''ls&''] \<and> (\<forall>c \<in> set (commands l). last c = CHR ''&'' \<and> length c \<le> MAXLEN)"
proof -
  define r where "r = set_rce_autoenable ''yes'' (set_rce_enable_string ''on'' initial_rce)"
  have r: "cstr (enable_string r) = ''on''" "cstr (disable_string r) = []" "autoenable r = 1"
    unfolding r_def by code_simp+
  define l where "l = \<lparr>is_enabled = True, commands = [''ls&'']\<rparr>"
  have "datagram ''ls''" by (simp add: datagram_def MAXLEN_def)
  then have "receive r ''ls'' (rce_start_state r) = Inr l"
    using receive_datagram [of "''ls''" r] r by (simp add: rce_start_state_def background_def l_def)
  then have "listener_step r (rce_start_state r) l"
    using \<open>datagram ''ls''\<close> by (auto simp: listener_step_def)
  moreover have "reach (listener_init r) (listener_step r) (rce_start_state r)"
    by (rule reach_init) (simp add: listener_init_def)
  ultimately have "reach (listener_init r) (listener_step r) l" using reach_step by metis
  from rce_commands_in_background [OF this]
  have "commands l = [''ls&''] \<and> (\<forall>c \<in> set (commands l). last c = CHR ''&'' \<and> length c \<le> MAXLEN)"
    by (simp add: l_def)
  then show ?thesis by blast
qed

text \<open>rce\_init never returns a socket for a unicast group address (first byte below 224), whatever
  the system calls answer: the socket is created and bound, and -1 is returned.\<close>
theorem rce_init_unicast_fails:
  assumes "drop_bit 24 (ntohl (mc_group r)) AND 0xFF < 224"
  shows "rce_init net r = -1"
  using assms by (simp add: rce_init_def Let_def)

theorem rce_init_unicast_fails_witness:
  "rce_init \<lparr>inet_addr = (\<lambda>s. 0), if_list = None, new_socket = 5, reuse_ok = True, bind_ok = True,
            join_ok = True\<rparr> (initial_rce\<lparr>mc_group := 0x0101A8C0\<rparr>) = -1"
  by (rule rce_init_unicast_fails) code_simp

text \<open>The strings of the settings: the buffer of the enable string always ends with a NUL (the
  last character is never written), so what is stored of a setting is its first 63 characters,
  whatever longer string was there before.\<close>
theorem rce_enable_string_stored:
  assumes "length (enable_string r) = 64" and "enable_string r ! 63 = NUL" and "NUL \<notin> set p"
  shows "cstr (enable_string (set_rce_enable_string p r)) = take 63 p \<and>
    length (enable_string (set_rce_enable_string p r)) = 64 \<and>
    enable_string (set_rce_enable_string p r) ! 63 = NUL"
proof -
  have e: "ended (enable_string r)" using assms by (simp add: ended_def)
  with strncpy_ended [OF e, of p] cstr_strncpy_63 [OF e assms(3)] show ?thesis
    by (simp add: set_rce_enable_string_def ended_def)
qed

theorem rce_enable_string_stored_witness:
  "cstr (enable_string (set_rce_enable_string ''on'' (set_rce_enable_string ''enable'' initial_rce))) = ''on''"
proof -
  have "length (enable_string (set_rce_enable_string ''enable'' initial_rce)) = 64"
    "enable_string (set_rce_enable_string ''enable'' initial_rce) ! 63 = NUL"
    by code_simp+
  from rce_enable_string_stored [OF this, of "''on''"] show ?thesis by simp
qed

end
