(* ===== verification/Config.thy ===== *)
theory Config
  imports KeyDefs Rce
begin

text \<open>
  The configuration half of src/launchpad.c: the statics the .ini files set, the parsing of hotkey
  sequences and of their commands, the processing of one file, the directory scan of
  launchpad_init, and the functions the rest of the program asks. The diagnostic output is left
  out. The framebuffer that launchpad_init opens belongs to the theories of the screen.
\<close>

section \<open>The statics\<close>

record action =
  act_type :: int
  act_sequence :: "short list"    \<comment> \<open>the first len codes of the array\<close>
  command :: string
  dispname :: string

record config =
  kbd_input :: "char list"        \<comment> \<open>buffers of MAXPATH characters\<close>
  fw_input :: "char list"
  k3_vol_input :: "char list"
  script_dir :: "char list"
  introducer :: int
  trailer :: int
  hot_interval :: int
  key_delay :: int
  n_input_keys :: int
  input_key_codes :: "int list"
  input_keys :: "input_key list"
  pactions :: "action list option"  \<comment> \<open>the first nactions rows; None is the null pointer\<close>
  rce :: rce_settings

definition path_buffer :: "string \<Rightarrow> char list" where
  "path_buffer s = s @ replicate (MAXPATH - length s) NUL"

definition initial_config :: config where
  "initial_config = \<lparr>kbd_input = path_buffer ''/dev/input/event0'',
     fw_input = path_buffer ''/dev/input/event1'', k3_vol_input = path_buffer ''/dev/input/event2'',
     script_dir = path_buffer [], introducer = KPKEY_SHIFT, trailer = KPKEY_ENTER,
     hot_interval = 500, key_delay = 300, n_input_keys = 0,
     input_key_codes = replicate (Suc MAXCODE) 0, input_keys = replicate MAXKEYS zero_key,
     pactions = None, rce = initial_rce\<rparr>"

definition actions :: "config \<Rightarrow> action list" where
  "actions c = (case pactions c of None \<Rightarrow> [] | Some as \<Rightarrow> as)"

section \<open>Look-ups\<close>

text \<open>
  The value is copied into the caller's buffer of MAXPATH characters; the result is its length and
  the buffer's new contents, None where nothing was copied.
\<close>

definition retrieve_key_value :: "dbdesc \<Rightarrow> int \<Rightarrow> string \<Rightarrow> (int \<times> string option) res" where
  "retrieve_key_value db s_idx pkey =
     bindR (inidb_find_key (Some db) s_idx pkey) (\<lambda>k_idx.
       if 0 \<le> k_idx
       then bindR (inidb_get_key_value (Some db) s_idx k_idx) (\<lambda>(rc, val).
            bindR (guardR (length (case val of None \<Rightarrow> [] | Some s \<Rightarrow> s) < MAXPATH) Buffer_overflow)
              (\<lambda>_. Inr (rc, val)))
       else Inr (0, None))"

fun find_key_row :: "string \<Rightarrow> input_key list \<Rightarrow> int" where
  "find_key_row pkey [] = -1"
| "find_key_row pkey (k # ks) =
     (if strcaseeq (input_key_name k) pkey then input_key_code k else find_key_row pkey ks)"

definition find_input_key_code :: "config \<Rightarrow> string \<Rightarrow> int" where
  "find_input_key_code c pkey = find_key_row pkey (take (nat (n_input_keys c)) (input_keys c))"

definition input_key_name_of :: "config \<Rightarrow> int \<Rightarrow> string option" where
  "input_key_name_of c code =
     (if 0 \<le> code \<and> code \<le> int MAXCODE
      then (if input_key_codes c ! nat code \<noteq> -1
            then Some (input_key_name (input_keys c ! nat (input_key_codes c ! nat code)))
            else None)
      else None)"

section \<open>Sequences and commands\<close>

text \<open>
  At most MAXSEQ tokens are looked at; a token that is no key name makes the sequence empty.
\<close>

fun sequence_codes :: "config \<Rightarrow> nat \<Rightarrow> string \<Rightarrow> short list \<Rightarrow> short list" where
  "sequence_codes c 0 rest acc = acc"
| "sequence_codes c (Suc n) rest acc =
     (case strtok (\<lambda>x. x = CHR '' '') rest of
        None \<Rightarrow> acc
      | Some (p, rest') \<Rightarrow>
          (let code = find_input_key_code c p in
           if code \<noteq> -1 then sequence_codes c n rest' (acc @ [word_of_int code]) else []))"

text \<open>The codes and the displayed name; the row was zeroed before.\<close>

definition parse_action_sequence :: "config \<Rightarrow> string \<Rightarrow> (short list \<times> string) res" where
  "parse_action_sequence c buf =
     bindR (guardR (length buf < MAXPATH) Buffer_overflow) (\<lambda>_.
       let codes = sequence_codes c MAXSEQ buf [] in
       Inr (codes, if 0 < length codes then take (MAXNAME - 1) buf else []))"

definition parse_action_command :: "config \<Rightarrow> string \<Rightarrow> (int \<times> string) res" where
  "parse_action_command c buf =
     (let ch = char_at buf 0;
          t = (if ch = CHR ''!'' then ACTION_SHELL_COMMAND
               else if ch = CHR ''#'' then ACTION_KINDLE_KEYS
               else if ch = CHR ''@'' then ACTION_KINDLE_SCRIPT
               else ACTION_SENDKEYS);
          p = (if ch \<in> {CHR ''!'', CHR ''#'', CHR ''@'', CHR 0x5C} then drop 1 buf else buf);
          cmd = (if t = ACTION_KINDLE_SCRIPT \<and> char_at p 0 \<noteq> CHR ''/''
                 then cstr (script_dir c) @ ''/'' @ p else p)
      in bindR (guardR (length cmd < MAXPATH) Buffer_overflow) (\<lambda>_. Inr (t, cmd)))"

section \<open>One .ini file\<close>

text \<open>A setting that is present with a value is given to f, together with its length.\<close>

definition with_value ::
    "dbdesc \<Rightarrow> int \<Rightarrow> string \<Rightarrow> (string \<Rightarrow> config \<Rightarrow> config) \<Rightarrow> config \<Rightarrow> config res" where
  "with_value db s_idx key f c =
     bindR (retrieve_key_value db s_idx key) (\<lambda>(len, val).
       Inr (if 0 < len then f (case val of None \<Rightarrow> [] | Some s \<Rightarrow> s) c else c))"

text \<open>strncpy(dst, tmpbuf, (len < MAXPATH) ? len : MAXPATH-1) with len the value's length.\<close>

definition set_path :: "char list \<Rightarrow> string \<Rightarrow> char list" where
  "set_path dst s = strncpy dst s (if length s < MAXPATH then length s else MAXPATH - 1)"

definition set_introducer :: "string \<Rightarrow> config \<Rightarrow> config" where
  "set_introducer s c = (let code = find_input_key_code c s in
     if code \<noteq> -1 then c\<lparr>introducer := code\<rparr> else c)"

definition set_trailer :: "string \<Rightarrow> config \<Rightarrow> config" where
  "set_trailer s c = (let code = find_input_key_code c s in
     if code \<noteq> -1 then c\<lparr>trailer := code\<rparr> else c\<lparr>trailer := -1\<rparr>)"

definition process_settings :: "dbdesc \<Rightarrow> int \<Rightarrow> config \<Rightarrow> config res" where
  "process_settings db s c =
     bindR (with_value db s ''Introducer'' set_introducer c) (\<lambda>c.
     bindR (with_value db s ''Trailer'' set_trailer c) (\<lambda>c.
     bindR (with_value db s ''HotInterval'' (\<lambda>v c. c\<lparr>hot_interval := atoi v\<rparr>) c) (\<lambda>c.
     bindR (with_value db s ''ScriptDirectory''
       (\<lambda>v c. c\<lparr>script_dir := set_path (script_dir c) v\<rparr>) c) (\<lambda>c.
     bindR (with_value db s ''KeyboardInput''
       (\<lambda>v c. c\<lparr>kbd_input := set_path (kbd_input c) v\<rparr>) c) (\<lambda>c.
     bindR (with_value db s ''FivewayInput''
       (\<lambda>v c. c\<lparr>fw_input := set_path (fw_input c) v\<rparr>) c) (\<lambda>c.
     with_value db s ''InterKeyDelay'' (\<lambda>v c. c\<lparr>key_delay := atoi v\<rparr>) c))))))"

text \<open>One pair of the [Actions] section: a new row, unless the sequence is bad or already there.\<close>

definition new_action :: "config \<Rightarrow> short list \<Rightarrow> string \<Rightarrow> string \<Rightarrow> config res" where
  "new_action c codes disp val =
     bindR (parse_action_command c val) (\<lambda>(t, cmd).
       Inr (if 0 < length cmd
            then c\<lparr>pactions := Some (actions c @ [\<lparr>act_type = t, act_sequence = codes,
                                      command = cmd, dispname = disp\<rparr>])\<rparr>
            else c))"

definition action_value :: "dbdesc \<Rightarrow> int \<Rightarrow> nat \<Rightarrow> short list \<Rightarrow> string \<Rightarrow> config \<Rightarrow> config res" where
  "action_value db s i codes disp c =
     bindR (inidb_get_key_value (Some db) s (int i)) (\<lambda>(vlen, val).
     bindR (guardR (length (case val of None \<Rightarrow> [] | Some x \<Rightarrow> x) < MAXPATH) Buffer_overflow) (\<lambda>_.
       if 0 < vlen then new_action c codes disp (the val) else Inr c))"

definition action_row :: "dbdesc \<Rightarrow> int \<Rightarrow> nat \<Rightarrow> config \<Rightarrow> config res" where
  "action_row db s i c =
     bindR (inidb_get_key_name (Some db) s (int i)) (\<lambda>(nlen, nm).
     bindR (guardR (length (case nm of None \<Rightarrow> [] | Some x \<Rightarrow> x) < MAXPATH) Buffer_overflow) (\<lambda>_.
       if 0 < nlen
       then bindR (parse_action_sequence c (the nm)) (\<lambda>(codes, disp).
            if 0 < length codes \<and> \<not> list_ex (\<lambda>a. act_sequence a = codes) (actions c)
            then action_value db s i codes disp c
            else Inr c)
       else Inr c))"

definition sizeof_action :: nat where "sizeof_action = 296"

text \<open>
  The [Actions] section: the table is allocated or enlarged for all n pairs; when that fails, the
  database is closed and its pointer set to null (None), with the error code left at -1.
\<close>

definition process_actions ::
    "os \<Rightarrow> dbdesc \<Rightarrow> int \<Rightarrow> config \<Rightarrow> (config \<times> dbdesc option \<times> int) res" where
  "process_actions os db s c =
     bindR (inidb_get_number_of_keys (Some db) s) (\<lambda>n.
       if 0 < n
       then (if os_malloc os (sizeof_action * (nat n + length (actions c)))
             then bindR (foldR (action_row db s) [0..<nat n] (c\<lparr>pactions := Some (actions c)\<rparr>))
                    (\<lambda>c. Inr (c, Some db, 1))
             else bindR (inidb_close (Some db)) (\<lambda>_. Inr (c, None, -1)))
       else Inr (c, Some db, -1))"

definition process_rce :: "network \<Rightarrow> dbdesc \<Rightarrow> int \<Rightarrow> config \<Rightarrow> config res" where
  "process_rce net db s c =
     bindR (with_value db s ''AutoEnable'' (\<lambda>v c. c\<lparr>rce := set_rce_autoenable v (rce c)\<rparr>) c) (\<lambda>c.
     bindR (with_value db s ''enableRCE'' (\<lambda>v c. c\<lparr>rce := set_rce_enable_string v (rce c)\<rparr>) c) (\<lambda>c.
     bindR (with_value db s ''disableRCE'' (\<lambda>v c. c\<lparr>rce := set_rce_disable_string v (rce c)\<rparr>) c) (\<lambda>c.
     bindR (with_value db s ''Interface'' (\<lambda>v c. c\<lparr>rce := set_rce_interface net v (rce c)\<rparr>) c) (\<lambda>c.
     bindR (with_value db s ''MulticastGroup'' (\<lambda>v c. c\<lparr>rce := set_rce_mcgroup net v (rce c)\<rparr>) c) (\<lambda>c.
     with_value db s ''Port'' (\<lambda>v c. c\<lparr>rce := set_rce_port v (rce c)\<rparr>) c)))))"

text \<open>A section handled only where it exists.\<close>

definition in_section :: "dbdesc \<Rightarrow> string \<Rightarrow> (int \<Rightarrow> 'a res) \<Rightarrow> 'a res \<Rightarrow> 'a res" where
  "in_section db nm f none =
     (let s = inidb_find_section (Some db) nm in if 0 \<le> s then f s else none)"

definition process_ini_file :: "os \<Rightarrow> network \<Rightarrow> string \<Rightarrow> config \<Rightarrow> (config \<times> int) res" where
  "process_ini_file os net path c =
     bindR (inidb_open os path) (\<lambda>pdb.
       case pdb of
         None \<Rightarrow> Inr (c, -1)
       | Some db \<Rightarrow>
           bindR (in_section db ''Settings'' (\<lambda>s. process_settings db s c) (Inr c)) (\<lambda>c.
           bindR (in_section db ''Actions'' (\<lambda>s. process_actions os db s c) (Inr (c, Some db, -1)))
             (\<lambda>(c, pdb, rc).
           bindR (case pdb of
                    None \<Rightarrow> Inr c   \<comment> \<open>inidb_find_section(NULL) is -1\<close>
                  | Some db \<Rightarrow> in_section db ''RemoteCommandEntry'' (\<lambda>s. process_rce net db s c) (Inr c))
             (\<lambda>c.
           bindR (inidb_close pdb) (\<lambda>_. Inr (c, rc))))))"

section \<open>Initialisation\<close>

text \<open>
  The key tables: keydefs.ini, or the built-in table where it defines no key. Both tables are
  the same arrays, which get_default_input_keydefs clears first.
\<close>

definition init_keys :: "os \<Rightarrow> string \<Rightarrow> config \<Rightarrow> config res" where
  "init_keys os proc_dir c =
     bindR (get_input_keydefs os proc_dir (replicate MAXKEYS zero_key) (replicate (Suc MAXCODE) (-1)))
       (\<lambda>(ptab, pcodes, n). Inr (if n = 0
          then (case get_default_input_keydefs of (ptab, pcodes, n) \<Rightarrow>
                  c\<lparr>input_keys := ptab, input_key_codes := pcodes, n_input_keys := n\<rparr>)
          else c\<lparr>input_keys := ptab, input_key_codes := pcodes, n_input_keys := n\<rparr>))"

text \<open>The entries of the directory: their names and whether they are regular files.\<close>

definition is_ini :: "string \<Rightarrow> bool" where
  "is_ini nm = (3 < length nm \<and> drop (length nm - 4) nm = ''.ini'')"

definition ini_path :: "string \<Rightarrow> string \<Rightarrow> string" where
  "ini_path path nm = path @ (if last path \<noteq> CHR ''/'' then ''/'' else []) @ nm"

definition init_entry ::
    "os \<Rightarrow> network \<Rightarrow> string \<Rightarrow> string \<times> bool \<Rightarrow> config \<times> int \<Rightarrow> (config \<times> int) res" where
  "init_entry os net path d st = (case st of (c, rc) \<Rightarrow> (case d of (nm, regular) \<Rightarrow>
     (if regular \<and> is_ini nm
      then bindR (guardR (path \<noteq> []) Buffer_overread) (\<lambda>_.
           bindR (guardR (length (ini_path path nm) < MAXPATH) Buffer_overflow) (\<lambda>_.
             process_ini_file os net (ini_path path nm) c))
      else Inr st)))"

text \<open>rc is the number of actions, or -1 when the directory cannot be opened (None).\<close>

definition launchpad_init ::
    "os \<Rightarrow> network \<Rightarrow> string \<Rightarrow> (string \<times> bool) list option \<Rightarrow> string \<Rightarrow> config \<Rightarrow> (config \<times> int) res" where
  "launchpad_init os net proc_dir dir path c =
     bindR (init_keys os proc_dir c) (\<lambda>c.
     let c = c\<lparr>rce := set_rce_defaults net (rce c)\<rparr> in
       case dir of
         None \<Rightarrow> Inr (c, -1)
       | Some entries \<Rightarrow>
           bindR (foldR (init_entry os net path) entries (c, -1)) (\<lambda>(c, _).
             Inr (c, int (length (actions c)))))"

definition launchpad_deinit :: "config \<Rightarrow> config" where
  "launchpad_deinit c = c\<lparr>pactions := None\<rparr>"

section \<open>Finding an action\<close>

datatype action_ref = Row action | Screenshot   \<comment> \<open>Screenshot is the pointer -1\<close>

definition triple_shift :: "short list" where
  "triple_shift = [word_of_int KPKEY_SHIFT, word_of_int KPKEY_SHIFT]"

definition find_sequence_action :: "config \<Rightarrow> short list \<Rightarrow> action_ref option" where
  "find_sequence_action c pseq =
     (case find (\<lambda>a. act_sequence a = pseq) (actions c) of
        Some a \<Rightarrow> Some (Row a)
      | None \<Rightarrow> if pseq = triple_shift then Some Screenshot else None)"

end
