(* ===== verification/ConfigProps.thy ===== *)
theory ConfigProps
  imports Config
begin

text \<open>
  What holds of the configuration half of src/launchpad.c: the codes of the key tables stay in
  range, a sequence is the list of the codes of its tokens, the action table has distinct
  sequences that find\_sequence\_action finds again, and what a path setting leaves in its buffer.
\<close>

section \<open>Key codes\<close>

definition code_ok :: "int \<Rightarrow> bool" where
  "code_ok v = (0 \<le> v \<and> v \<le> int MAXCODE)"

definition keys_ok :: "config \<Rightarrow> bool" where
  "keys_ok c = list_all (\<lambda>k. code_ok (input_key_code k)) (input_keys c)"

text \<open>
  The interface through which sequences and scripts name keys: a look-up that gives -1 or a code
  of the table. The laws make the conversion to short harmless.
\<close>

locale key_lookup =
  fixes ok :: "'c \<Rightarrow> bool" and find_code :: "'c \<Rightarrow> string \<Rightarrow> int"
  assumes in_range: "ok c \<Longrightarrow> find_code c nm = -1 \<or> code_ok (find_code c nm)"
begin

lemma short_code: "ok c \<Longrightarrow> sint (word_of_int (find_code c nm) :: short) = find_code c nm"
  using in_range [of c nm] by (auto simp: code_ok_def MAXCODE_def)

lemma short_unknown: "ok c \<Longrightarrow> (word_of_int (find_code c nm) :: short) = -1 \<longleftrightarrow> find_code c nm = -1"
proof -
  assume ok: "ok c"
  have "(word_of_int (find_code c nm) :: short) = -1 \<longleftrightarrow> sint (word_of_int (find_code c nm) :: short) = sint (-1 :: short)"
    by (metis signed_word_eqI)
  with short_code [OF ok] show ?thesis by simp
qed

end

lemma find_key_row_range:
  "list_all (\<lambda>k. code_ok (input_key_code k)) ks \<Longrightarrow>
     find_key_row nm ks = -1 \<or> code_ok (find_key_row nm ks)"
  by (induction ks) auto

lemma find_code_range: "keys_ok c \<Longrightarrow> find_input_key_code c nm = -1 \<or> code_ok (find_input_key_code c nm)"
  unfolding find_input_key_code_def keys_ok_def
  by (rule find_key_row_range) (auto simp: list_all_iff dest: in_set_takeD)

interpretation keys: key_lookup keys_ok find_input_key_code
  by unfold_locales (rule find_code_range)

text \<open>init\_keys establishes the range.\<close>

definition rows_ok :: "keydefs_state \<Rightarrow> bool" where
  "rows_ok st = list_all (\<lambda>k. code_ok (input_key_code k)) (fst st)"

lemma rows_ok_entry: "rows_ok st \<Longrightarrow> rows_ok (keydefs_entry i nm v st)"
proof -
  assume ok: "rows_ok st"
  obtain a b n where st: "st = (a, b, n)" by (cases st)
  have "list_all P (xs[i := x])" if "list_all P xs" "P x" for P :: "input_key \<Rightarrow> bool" and xs x
    using that set_update_subset_insert [of xs i x] by (auto simp: list_all_iff)
  then show ?thesis
    using ok convert_range [of v]
    by (simp add: st rows_ok_def keydefs_entry_def Let_def code_ok_def)
qed

lemma rows_ok_row: "keydefs_row db s i st = Inr st' \<Longrightarrow> rows_ok st \<Longrightarrow> rows_ok st'"
  by (auto simp: keydefs_row_def res_simps rows_ok_entry split: prod.splits if_splits)

lemma rows_ok_zero: "rows_ok (replicate MAXKEYS zero_key, cs, n)"
  by (simp add: rows_ok_def list_all_iff zero_key_def code_ok_def)

lemma rows_ok_file:
  assumes "get_input_keydefs os dir (replicate MAXKEYS zero_key) cs = Inr st"
  shows "rows_ok st"
proof -
  have "rows_ok st" if "foldR (keydefs_row db s) is (replicate MAXKEYS zero_key, cs, 0) = Inr st" for db s "is"
    using foldR_invariant [OF that, of rows_ok] rows_ok_zero rows_ok_row by blast
  with assms rows_ok_zero show ?thesis
    by (auto simp: get_input_keydefs_def Let_def res_simps split: option.splits if_splits)
qed

lemma default_rows_ok: "rows_ok (get_default_input_keydefs)"
  by code_simp

lemma init_keys_ok:
  assumes "init_keys os dir c = Inr c'"
  shows "keys_ok c'"
proof -
  obtain ptab pcodes n where read: "get_input_keydefs os dir (replicate MAXKEYS zero_key)
      (replicate (Suc MAXCODE) (-1)) = Inr (ptab, pcodes, n)"
    using assms unfolding init_keys_def bindR_eq_Inr by (metis surj_pair)
  obtain ptab' pcodes' n' where def: "get_default_input_keydefs = (ptab', pcodes', n')"
    by (cases get_default_input_keydefs)
  have "input_keys c' = ptab \<or> input_keys c' = ptab'"
    using assms unfolding init_keys_def read def bindR.simps prod.case by (auto split: if_splits)
  moreover have "rows_ok (ptab', pcodes', n')" using default_rows_ok unfolding def .
  ultimately show ?thesis using rows_ok_file [OF read] by (auto simp: keys_ok_def rows_ok_def)
qed

section \<open>Sequences\<close>

lemma sequence_codes_tokens:
  "sequence_codes c n s acc =
     (let codes = map (find_input_key_code c) (take n (tokens (\<lambda>x. x = CHR '' '') s))
      in if list_all (\<lambda>v. v \<noteq> -1) codes then acc @ map word_of_int codes else [])"
proof (induction n arbitrary: s acc)
  case 0
  then show ?case by simp
next
  case (Suc n)
  show ?case
  proof (cases "strtok (\<lambda>x. x = CHR '' '') s")
    case None
    then show ?thesis by (simp add: tokens.simps [of _ s])
  next
    case (Some p)
    obtain t r where p: "p = (t, r)" by (cases p)
    have "tokens (\<lambda>x. x = CHR '' '') s = t # tokens (\<lambda>x. x = CHR '' '') r"
      using Some p by (simp add: tokens.simps [of _ s])
    with Some p Suc [of r] show ?thesis by (simp add: Let_def)
  qed
qed

lemma sequence_length: "length (sequence_codes c n s []) \<le> n"
  by (simp add: sequence_codes_tokens Let_def)

section \<open>The action table\<close>

definition action_ok :: "action \<Rightarrow> bool" where
  "action_ok a = (0 < length (act_sequence a) \<and> length (act_sequence a) \<le> MAXSEQ \<and>
     command a \<noteq> [] \<and> length (command a) < MAXPATH \<and> length (dispname a) < MAXNAME)"

definition table_ok :: "config \<Rightarrow> bool" where
  "table_ok c = (list_all action_ok (actions c) \<and> distinct (map act_sequence (actions c)))"

lemma parse_sequence_facts:
  "parse_action_sequence c s = Inr (codes, disp) \<Longrightarrow>
     length codes \<le> MAXSEQ \<and> length disp < MAXNAME"
  using sequence_length [of c MAXSEQ s]
  by (auto simp: parse_action_sequence_def res_simps Let_def MAXNAME_def)

lemma parse_command_facts:
  "parse_action_command c s = Inr (t, cmd) \<Longrightarrow> length cmd < MAXPATH"
  unfolding parse_action_command_def Let_def
  by (auto simp only: bindR_eq_Inr guardR_eq_Inr sum.inject prod.inject)

lemma new_action_ok:
  assumes "new_action c codes disp v = Inr c'" "table_ok c"
    and "0 < length codes" "length codes \<le> MAXSEQ" "length disp < MAXNAME"
    and "\<not> list_ex (\<lambda>a. act_sequence a = codes) (actions c)"
  shows "table_ok c'"
proof -
  obtain t cmd where cmd: "parse_action_command c v = Inr (t, cmd)"
    and c': "c' = (if 0 < length cmd
            then c\<lparr>pactions := Some (actions c @ [\<lparr>act_type = t, act_sequence = codes,
                                      command = cmd, dispname = disp\<rparr>])\<rparr> else c)"
    using assms(1) by (auto simp: new_action_def bindR_eq_Inr)
  have "length cmd < MAXPATH" by (rule parse_command_facts [OF cmd])
  with assms(2-6) show ?thesis
    unfolding c' by (auto simp: table_ok_def action_ok_def actions_def list_ex_iff)
qed

lemma action_row_ok:
  assumes "action_row db s i c = Inr c'" "table_ok c"
  shows "table_ok c'"
proof -
  consider "c' = c"
    | nm codes disp where "parse_action_sequence c nm = Inr (codes, disp)" "0 < length codes"
      "\<not> list_ex (\<lambda>a. act_sequence a = codes) (actions c)" "action_value db s i codes disp c = Inr c'"
    using assms(1) by (auto simp: action_row_def res_simps split: if_splits)
  then show ?thesis
  proof cases
    case 1
    with assms(2) show ?thesis by simp
  next
    case 2
    then consider "c' = c" | v where "new_action c codes disp v = Inr c'"
      by (auto simp: action_value_def res_simps split: if_splits)
    then show ?thesis
      using assms(2) 2 parse_sequence_facts [OF 2(1)] new_action_ok by cases blast+
  qed
qed

lemma table_ok_cong: "pactions c' = pactions c \<Longrightarrow> table_ok c \<Longrightarrow> table_ok c'"
  by (simp add: table_ok_def actions_def)

lemma with_value_pactions:
  "with_value db s k f c = Inr c' \<Longrightarrow> (\<And>v c. pactions (f v c) = pactions c) \<Longrightarrow> pactions c' = pactions c"
  by (auto simp: with_value_def res_simps split: if_splits)

lemma settings_pactions: "process_settings db s c = Inr c' \<Longrightarrow> pactions c' = pactions c"
  unfolding process_settings_def bindR_eq_Inr
  by (auto simp: set_introducer_def set_trailer_def Let_def dest!: with_value_pactions)

lemma rce_pactions: "process_rce net db s c = Inr c' \<Longrightarrow> pactions c' = pactions c"
  unfolding process_rce_def bindR_eq_Inr by (auto dest!: with_value_pactions)

lemma actions_ok:
  assumes "process_actions os db s c = Inr (c', pdb, rc)" "table_ok c"
  shows "table_ok c'"
proof -
  have start: "table_ok (c\<lparr>pactions := Some (actions c)\<rparr>)"
    using assms(2) by (simp add: table_ok_def actions_def)
  have "table_ok c''" if "foldR (action_row db s) is (c\<lparr>pactions := Some (actions c)\<rparr>) = Inr c''" for "is" c''
    using foldR_invariant [OF that, of table_ok] start action_row_ok by blast
  with assms show ?thesis
    by (auto simp: process_actions_def res_simps split: if_splits)
qed

lemma file_ok:
  assumes "process_ini_file os net path c = Inr (c', rc)" "table_ok c"
  shows "table_ok c'"
proof (cases "c' = c")
  case True
  with assms(2) show ?thesis by simp
next
  case False
  then obtain db c1 c2 pdb n where
    1: "in_section db ''Settings'' (\<lambda>s. process_settings db s c) (Inr c) = Inr c1" and
    2: "in_section db ''Actions'' (\<lambda>s. process_actions os db s c1) (Inr (c1, Some db, -1)) = Inr (c2, pdb, n)" and
    3: "(case pdb of None \<Rightarrow> Inr c2
        | Some db \<Rightarrow> in_section db ''RemoteCommandEntry'' (\<lambda>s. process_rce net db s c2) (Inr c2)) = Inr c'"
    using assms(1) unfolding process_ini_file_def bindR_eq_Inr
    by (auto simp: bindR_eq_Inr split: option.splits)
  have "table_ok c1"
    using 1 settings_pactions table_ok_cong [OF _ assms(2)]
    by (auto simp: in_section_def Let_def split: if_splits)
  then have "table_ok c2"
    using 2 actions_ok by (auto simp: in_section_def Let_def split: if_splits)
  then show ?thesis
    using 3 rce_pactions table_ok_cong
    by (auto simp: in_section_def Let_def split: if_splits option.splits)
qed

lemma init_pactions: "init_keys os dir c = Inr c' \<Longrightarrow> pactions c' = pactions c"
  unfolding init_keys_def bindR_eq_Inr by (auto split: prod.splits if_splits)

lemma init_entry_ok: "init_entry os net path d st = Inr st' \<Longrightarrow> table_ok (fst st) \<Longrightarrow> table_ok (fst st')"
  unfolding init_entry_def
  by (auto simp: bindR_eq_Inr split: prod.splits if_splits) (metis file_ok surjective_pairing)

lemma launchpad_init_table:
  assumes "launchpad_init os net dir entries path c = Inr (c', rc)" "pactions c = None"
  shows "table_ok c'" and "entries \<noteq> None \<Longrightarrow> rc = int (length (actions c'))"
proof -
  obtain c1 where c1: "init_keys os dir c = Inr c1"
    and rest: "(case entries of
         None \<Rightarrow> Inr (c1\<lparr>rce := set_rce_defaults net (rce c1)\<rparr>, -1)
       | Some es \<Rightarrow>
           bindR (foldR (init_entry os net path) es (c1\<lparr>rce := set_rce_defaults net (rce c1)\<rparr>, -1))
             (\<lambda>(c, _). Inr (c, int (length (actions c))))) = Inr (c', rc)"
    using assms(1) unfolding launchpad_init_def bindR_eq_Inr Let_def by auto
  have start: "table_ok (c1\<lparr>rce := set_rce_defaults net (rce c1)\<rparr>)"
    using init_pactions [OF c1] assms(2) by (simp add: table_ok_def actions_def)
  have "table_ok (fst st)"
    if "foldR (init_entry os net path) es (c1\<lparr>rce := set_rce_defaults net (rce c1)\<rparr>, -1) = Inr st" for es st
    using foldR_invariant [OF that, of "\<lambda>st. table_ok (fst st)"] start init_entry_ok by fastforce
  with rest start show "table_ok c'"
    by (fastforce simp: bindR_eq_Inr split: option.splits prod.splits)
  show "rc = int (length (actions c'))" if "entries \<noteq> None"
    using rest that by (auto simp: bindR_eq_Inr split: prod.splits)
qed

text \<open>A row of the section whose strings fit the buffers, in terms of the pair.\<close>

lemma action_row_pair:
  assumes "db_linked db" "s < length (psections db)" "i < length (db_pairs db s)"
    and "db_pairs db s ! i = (k, v)" "k \<noteq> []" "length k < MAXPATH" "v \<noteq> []" "length v < MAXPATH"
  shows "action_row db (int s) i c =
    bindR (parse_action_sequence c k) (\<lambda>(codes, disp).
      if 0 < length codes \<and> \<not> list_ex (\<lambda>a. act_sequence a = codes) (actions c)
      then new_action c codes disp v else Inr c)"
proof -
  have "action_value db (int s) i codes disp c = new_action c codes disp v" for codes disp
    using inidb.key_value [OF assms(1), of s i] assms
    by (simp add: action_value_def length_db_sections)
  then show ?thesis
    using inidb.key_name [OF assms(1), of s i] assms
    by (simp add: action_row_def length_db_sections cong: if_cong)
qed

section \<open>Paths\<close>

lemma cstr_set_path:
  assumes "NUL \<notin> set s" "length s < MAXPATH"
  shows "cstr (set_path dst s) = s @ cstr (drop (length s) dst)"
  using assms by (simp add: set_path_def cstr_strncpy_exact)

section \<open>Properties\<close>

text \<open>C6: After launchpad\_init, whatever files the directory holds: the hotkey sequences of the
  action table are pairwise different and have 1 to MAXSEQ codes, every command and displayed
  name fits its buffer, and the returned number is the number of actions.\<close>
theorem launchpad_init_actions:
  assumes "launchpad_init os net dir (Some entries) path c = Inr (c', rc)" and "pactions c = None"
  shows "distinct (map act_sequence (actions c')) \<and> rc = int (length (actions c')) \<and>
    (\<forall>a \<in> set (actions c'). 0 < length (act_sequence a) \<and> length (act_sequence a) \<le> MAXSEQ \<and>
       0 < length (command a) \<and> length (command a) < MAXPATH \<and> length (dispname a) < MAXNAME)"
proof -
  have t: "table_ok c'" and rc: "rc = int (length (actions c'))"
    using launchpad_init_table [OF assms] by simp_all
  then show ?thesis by (auto simp: table_ok_def action_ok_def list_all_iff)
qed

definition sample_dir_os :: os where
  "sample_dir_os = \<lparr>os_file = (\<lambda>p. if p = ''/x.ini'' then Some (''[Actions]'' @ [LF] @ ''A B=!ls'' @ [LF]) else None),
     os_read_all = (\<lambda>p. True), os_malloc = (\<lambda>n. True)\<rparr>"

definition no_network :: network where
  "no_network = \<lparr>inet_addr = (\<lambda>s. 0), if_list = None, new_socket = -1, reuse_ok = False,
     bind_ok = False, join_ok = False\<rparr>"

lemma sample_dir_db:
  "case inidb_open sample_dir_os ''/x.ini'' of
     Inr (Some db) \<Rightarrow> inidb_find_section (Some db) ''Settings'' = -1 \<and>
       inidb_find_section (Some db) ''Actions'' = 0 \<and>
       inidb_find_section (Some db) ''RemoteCommandEntry'' = -1 \<and> 0 < length (psections db) \<and>
       db_pairs db 0 = [(''A B'', ''!ls'')]
   | _ \<Rightarrow> False"
  by code_simp

lemma sample_sequence:
  "case get_default_input_keydefs of (ptab, pcodes, n) \<Rightarrow>
     parse_action_sequence (initial_config\<lparr>input_keys := ptab, input_key_codes := pcodes,
       n_input_keys := n\<rparr>) ''A B'' = Inr ([30, 48], ''A B'')"
  by code_simp

lemma sample_dir_run:
  "\<exists>c. launchpad_init sample_dir_os no_network ''/'' (Some [(''x.ini'', True)]) ''/'' initial_config = Inr (c, 1) \<and>
     map act_sequence (actions c) = [[30, 48]]"
proof -
  obtain db where db: "inidb_open sample_dir_os ''/x.ini'' = Inr (Some db)"
      "inidb_find_section (Some db) ''Settings'' = -1" "inidb_find_section (Some db) ''Actions'' = 0"
      "inidb_find_section (Some db) ''RemoteCommandEntry'' = -1" "0 < length (psections db)"
      "db_pairs db 0 = [(''A B'', ''!ls'')]"
    using sample_dir_db by (auto split: sum.splits option.splits)
  note linked = inidb_open_linked [OF db(1)]
  obtain ptab pcodes n where def: "get_default_input_keydefs = (ptab, pcodes, n)"
    by (cases get_default_input_keydefs)
  define c1 where "c1 = initial_config\<lparr>input_keys := ptab, input_key_codes := pcodes, n_input_keys := n\<rparr>"
  define c2 where "c2 = c1\<lparr>rce := set_rce_defaults no_network (rce c1), pactions := Some []\<rparr>"
  have "inidb_open sample_dir_os (''/'' @ KEYDEFS_FILE) = Inr None"
    by (simp add: inidb_open_def sample_dir_os_def KEYDEFS_FILE_def)
  moreover have "length (''/'' @ KEYDEFS_FILE) < MAXPATH" by code_simp
  ultimately have keys: "init_keys sample_dir_os ''/'' initial_config = Inr c1"
    by (simp add: init_keys_def get_input_keydefs_def def c1_def)
  have "parse_action_sequence c1 ''A B'' = Inr ([30, 48], ''A B'')"
    using sample_sequence by (simp add: def c1_def)
  moreover have "find_input_key_code c2 = find_input_key_code c1"
    by (rule ext) (simp add: find_input_key_code_def c2_def)
  ultimately have seq: "parse_action_sequence c2 ''A B'' = Inr ([30, 48], ''A B'')"
    unfolding parse_action_sequence_def sequence_codes_tokens by (simp only:)
  have row: "action_row db 0 0 c2 = new_action c2 [30, 48] ''A B'' ''!ls''"
    using action_row_pair [OF linked db(5), of 0 "''A B''" "''!ls''" c2] db(6) seq
    by (simp add: MAXPATH_def actions_def c2_def)
  define c3 where "c3 = c2\<lparr>pactions := Some [\<lparr>act_type = ACTION_SHELL_COMMAND, act_sequence = [30, 48],
        command = ''ls'', dispname = ''A B''\<rparr>]\<rparr>"
  have "parse_action_command c2 ''!ls'' = Inr (ACTION_SHELL_COMMAND, ''ls'')"
    by (simp add: parse_action_command_def char_at_def key_codes)
  then have "new_action c2 [30, 48] ''A B'' ''!ls'' = Inr c3"
    by (simp add: new_action_def actions_def c2_def c3_def)
  moreover have "inidb_get_number_of_keys (Some db) 0 = Inr 1"
    using number_of_keys_answer [OF linked db(5)] db(6) by simp
  moreover define c4 where "c4 = c1\<lparr>rce := set_rce_defaults no_network (rce c1)\<rparr>"
  moreover have "c4\<lparr>pactions := Some (actions c4)\<rparr> = c2"
    by (simp add: c4_def c2_def c1_def actions_def initial_config_def)
  moreover have "os_malloc sample_dir_os n" for n by (simp add: sample_dir_os_def)
  ultimately have acts: "process_actions sample_dir_os db 0 c4 = Inr (c3, Some db, 1)"
    using row by (simp add: process_actions_def)
  have neg: "(0 \<le> (-1 :: int)) = False" by simp
  have run: "process_ini_file sample_dir_os no_network ''/x.ini'' c4 = Inr (c3, 1)"
    by (simp only: process_ini_file_def in_section_def inidb_close_def db(1-4) bindR.simps option.case
        Let_def neg if_False order_refl if_True prod.case acts)
  have "init_entry sample_dir_os no_network ''/'' (''x.ini'', True) (c4, -1) = Inr (c3, 1)"
    using run by (simp add: init_entry_def is_ini_def ini_path_def MAXPATH_def)
  then have "launchpad_init sample_dir_os no_network ''/'' (Some [(''x.ini'', True)]) ''/'' initial_config
      = Inr (c3, int (length (actions c3)))"
    using keys by (simp add: launchpad_init_def Let_def flip: c4_def)
  then show ?thesis by (simp add: actions_def c3_def)
qed

theorem launchpad_init_actions_witness:
  "\<exists>c. launchpad_init sample_dir_os no_network ''/'' (Some [(''x.ini'', True)]) ''/'' initial_config = Inr (c, 1) \<and>
     map act_sequence (actions c) = [[30, 48]] \<and> (\<forall>a \<in> set (actions c). 0 < length (command a))"
proof -
  obtain c where c: "launchpad_init sample_dir_os no_network ''/'' (Some [(''x.ini'', True)]) ''/'' initial_config = Inr (c, 1)"
      "map act_sequence (actions c) = [[30, 48]]"
    using sample_dir_run by (elim exE conjE) (rule that)
  have "pactions initial_config = None" by (simp add: initial_config_def)
  from launchpad_init_actions [OF c(1) this] have "\<forall>a \<in> set (actions c). 0 < length (command a)"
    by simp
  with c show ?thesis by (intro exI conjI)
qed

text \<open>Every configured action is found by its own sequence: in a table as launchpad\_init leaves
  it, the look-up of the codes of a row gives that row and no other.\<close>
theorem action_found_by_sequence:
  assumes "distinct (map act_sequence (actions c))" and "a \<in> set (actions c)"
  shows "find_sequence_action c (act_sequence a) = Some (Row a)"
proof -
  have "find (\<lambda>b. act_sequence b = act_sequence a) (actions c) \<noteq> None"
    using assms(2) by (auto simp: find_None_iff)
  then obtain b where b: "find (\<lambda>b. act_sequence b = act_sequence a) (actions c) = Some b" by auto
  then have "act_sequence b = act_sequence a" "b \<in> set (actions c)"
    by (auto simp: find_Some_iff)
  with assms have "b = a" by (auto simp: distinct_map inj_on_def)
  with b show ?thesis by (simp add: find_sequence_action_def)
qed

definition sample_actions :: "action list" where
  "sample_actions = [\<lparr>act_type = ACTION_SHELL_COMMAND, act_sequence = [30, 31], command = ''ls'', dispname = ''A S''\<rparr>,
     \<lparr>act_type = ACTION_SENDKEYS, act_sequence = [30], command = ''B'', dispname = ''A''\<rparr>]"

theorem action_found_by_sequence_witness:
  "find_sequence_action (initial_config\<lparr>pactions := Some sample_actions\<rparr>) [30] =
    Some (Row (sample_actions ! 1))"
  using action_found_by_sequence [of "initial_config\<lparr>pactions := Some sample_actions\<rparr>" "sample_actions ! 1"]
  by (simp add: actions_def sample_actions_def)

text \<open>A hotkey sequence of a configuration file becomes the list of the codes of its tokens, the
  first MAXSEQ of them; when one of these is no key name, the sequence is rejected as a whole.\<close>
theorem action_sequence_codes:
  assumes "length s < MAXPATH"
  shows "parse_action_sequence c s =
    (let codes = map (find_input_key_code c) (take MAXSEQ (tokens (\<lambda>x. x = CHR '' '') s));
         seq = (if list_all (\<lambda>v. v \<noteq> -1) codes then map word_of_int codes else [])
     in Inr (seq, if seq = [] then [] else take (MAXNAME - 1) s))"
  using assms by (simp add: parse_action_sequence_def sequence_codes_tokens Let_def)

theorem action_sequence_codes_witness:
  "\<exists>c. parse_action_sequence c ''A B'' = Inr ([30, 48], ''A B'')"
proof -
  define c where "c = initial_config\<lparr>n_input_keys := 2, input_keys :=
    [\<lparr>input_key_code = 30, input_key_name = ''A''\<rparr>, \<lparr>input_key_code = 48, input_key_name = ''B''\<rparr>]\<rparr>"
  have "map (find_input_key_code c) (take MAXSEQ (tokens (\<lambda>x. x = CHR '' '') ''A B'')) = [30, 48]"
    unfolding c_def by code_simp
  moreover have "length ''A B'' < MAXPATH" by (simp add: MAXPATH_def)
  ultimately have "parse_action_sequence c ''A B'' = Inr ([30, 48], take (MAXNAME - 1) ''A B'')"
    using action_sequence_codes [of "''A B''" c] by (simp add: Let_def)
  then show ?thesis by (auto simp: MAXNAME_def)
qed

text \<open>Setting a path (KeyboardInput, FivewayInput, ScriptDirectory) copies the characters of the
  value and no NUL: the setting is followed by whatever the buffer's old string had beyond its
  length, so a shorter path than the old one is not stored as written.\<close>
theorem path_setting_keeps_tail:
  assumes "NUL \<notin> set s" and "length s < MAXPATH"
  shows "cstr (set_path dst s) = s @ cstr (drop (length s) dst)"
  by (rule cstr_set_path [OF assms])

theorem path_setting_keeps_tail_witness:
  "cstr (set_path (kbd_input initial_config) ''/dev/kbd'') = ''/dev/kbdut/event0''"
proof -
  have tail: "cstr (drop (length ''/dev/kbd'') (kbd_input initial_config)) = ''ut/event0''" by code_simp
  have "NUL \<notin> set ''/dev/kbd''" "length ''/dev/kbd'' < MAXPATH" by (simp_all add: MAXPATH_def)
  from path_setting_keeps_tail [OF this, of "kbd_input initial_config", unfolded tail]
  show ?thesis by simp
qed

text \<open>The codes the input key table can name stay in the range of the table, whatever keydefs.ini
  holds, so storing them in a short array loses nothing: a name found is found with its code.\<close>
theorem key_codes_fit_short:
  assumes "init_keys os dir c = Inr c'"
  shows "sint (word_of_int (find_input_key_code c' nm) :: short) = find_input_key_code c' nm"
  by (rule keys.short_code [OF init_keys_ok [OF assms]])

theorem key_codes_fit_short_witness:
  "\<exists>c. init_keys \<lparr>os_file = (\<lambda>p. None), os_read_all = (\<lambda>p. True), os_malloc = (\<lambda>n. True)\<rparr> ''/''
      initial_config = Inr c \<and>
     sint (word_of_int (find_input_key_code c ''Home'') :: short) = find_input_key_code c ''Home''"
proof -
  let ?os = "\<lparr>os_file = (\<lambda>p. None), os_read_all = (\<lambda>p. True), os_malloc = (\<lambda>n. True)\<rparr> :: os"
  have "isOk (init_keys ?os ''/'' initial_config)"
    by (simp add: init_keys_def get_input_keydefs_def inidb_open_def KEYDEFS_FILE_def MAXPATH_def
        split: prod.splits)
  then obtain c where "init_keys ?os ''/'' initial_config = Inr c" by (auto simp: isOk_iff)
  with key_codes_fit_short [OF this] show ?thesis by blast
qed

end
