(* ===== verification/Effects.thy ===== *)
theory Effects
  imports CString
begin

text \<open>
  What the program does to the outside, as values: the order of the list is the order of the
  calls. The texts written to the kernel's key files, the delays, the display updates and the
  shell commands.
\<close>

datatype effect =
    Fiveway string                  \<comment> \<open>written to /proc/fiveway\<close>
  | Keypad string                   \<comment> \<open>written to /proc/keypad\<close>
  | Delay int                       \<comment> \<open>msdelay, in milliseconds\<close>
  | Update int int int int int      \<comment> \<open>an area update: its effect, and the corners x1 y1 x2 y2\<close>
  | Flash_thread int int int int int int   \<comment> \<open>a thread created for flash\_thread: count, x0, y0, w, h, delay\<close>
  | Shell string                    \<comment> \<open>a command given to system\<close>
  | Screenshot_file string "8 word list"   \<comment> \<open>do_screenshot on a path, and the bytes it writes\<close>

text \<open>Parts of a list of effects.\<close>

fun key_text :: "effect \<Rightarrow> string option" where
  "key_text (Fiveway s) = Some s"
| "key_text (Keypad s) = Some s"
| "key_text _ = None"

fun shell_text :: "effect \<Rightarrow> string option" where
  "shell_text (Shell s) = Some s"
| "shell_text _ = None"

end
