(* ===== verification/SendKeys.thy ===== *)
theory SendKeys
  imports ConfigProps AsciiTab Effects
begin

text \<open>
  Sending keys: send_key and its callers of src/main.c, and the two interpreters of command texts
  of src/launchpad.c, process_kindle_script and process_sendkeys_command. What they do to the
  outside is a list of effects, in order: texts written to /proc/fiveway and /proc/keypad, and
  delays.
\<close>

section \<open>The open devices\<close>

record fds =
  fd_kbd :: int
  fd_fw :: int
  fd_k3_vol :: int
  fd_prockeypad :: int
  fd_procfiveway :: int

definition is_this_kindle3 :: "fds \<Rightarrow> bool" where
  "is_this_kindle3 f = (fd_kbd f \<noteq> -1 \<and> fd_fw f \<noteq> -1 \<and> fd_k3_vol f \<noteq> -1)"

section \<open>Single keys\<close>

definition send_line :: "string \<Rightarrow> short \<Rightarrow> string" where
  "send_line mode kc = mode @ '' '' @ show_int (sint kc) @ [LF]"

definition is_fiveway_name :: "string option \<Rightarrow> bool" where
  "is_fiveway_name nm = (case nm of None \<Rightarrow> False
     | Some s \<Rightarrow> strncaseeq s ''FW_'' 3 \<or> strncaseeq s ''k3_FW_'' 6)"

definition sendmode_name :: "int \<Rightarrow> string" where
  "sendmode_name mode = (if mode = SENDMODE_SHIFT then ''sendshift''
                         else if mode = SENDMODE_ALT then ''sendalt'' else ''send'')"

definition send_key :: "config \<Rightarrow> fds \<Rightarrow> short \<Rightarrow> int \<Rightarrow> effect list" where
  "send_key c f kc mode =
     (if is_fiveway_name (input_key_name_of c (sint kc))
      then (if fd_procfiveway f \<noteq> -1 then [Fiveway (send_line ''send'' kc)] else [])
      else (if fd_prockeypad f \<noteq> -1 then [Keypad (send_line (sendmode_name mode) kc)] else []))"

definition send_keys :: "config \<Rightarrow> fds \<Rightarrow> short list \<Rightarrow> effect list" where
  "send_keys c f codes = concat (map (\<lambda>kc. send_key c f kc SENDMODE_NORMAL) codes)"

definition mask7 :: "char \<Rightarrow> char" where
  "mask7 ch = char_of (of_char ch mod 128 :: nat)"

text \<open>One character: its code, in the mode char_send_mode gives for it.\<close>

definition send_char :: "config \<Rightarrow> fds \<Rightarrow> char \<Rightarrow> effect list" where
  "send_char c f ch = send_key c f (char_keypad_code (is_this_kindle3 f) ch)
                        (char_send_mode (is_this_kindle3 f) ch)"

fun send_ascii_string :: "config \<Rightarrow> fds \<Rightarrow> string \<Rightarrow> effect list" where
  "send_ascii_string c f [] = []"
| "send_ascii_string c f [p] = send_char c f (mask7 p) @ [Delay (key_delay c)]"
| "send_ascii_string c f (p # q # ps) =
     (if mask7 p = CHR 0x5C
      then send_char c f (mask7 q) @ [Delay (key_delay c)] @ send_ascii_string c f ps
      else send_char c f (mask7 p) @ [Delay (key_delay c)] @ send_ascii_string c f (q # ps))"

section \<open>Characters through the symbols popup\<close>

definition sw :: "bool \<Rightarrow> int \<Rightarrow> int \<Rightarrow> short" where
  "sw k3 dx k = word_of_int (if k3 then k else dx)"

text \<open>n times a key, each followed by the delay.\<close>

definition steps :: "config \<Rightarrow> fds \<Rightarrow> int \<Rightarrow> short \<Rightarrow> effect list" where
  "steps c f n kc = concat (replicate (nat n)
     (send_key c f kc SENDMODE_NORMAL @ [Delay (key_delay c)]))"

text \<open>The result is the effects and the number of events the framework injects.\<close>

definition send_kindle_input_key :: "config \<Rightarrow> fds \<Rightarrow> char \<Rightarrow> effect list \<times> int" where
  "send_kindle_input_key c f ch0 =
     (let ch = mask7 ch0; k3 = is_this_kindle3 f; wait = [Delay (key_delay c)] in
      case char_kindle_fw_sequence k3 ch of
        Some p \<Rightarrow>
          (let nhorz = \<bar>hsteps p\<bar>; nvert = \<bar>vsteps p\<bar>;
               chorz = (if hsteps p < 0 then sw k3 KPKEY_FW_LEFT K3KEY_FW_LEFT
                        else sw k3 KPKEY_FW_RIGHT K3KEY_FW_RIGHT);
               cvert = (if vsteps p < 0 then sw k3 KPKEY_FW_UP K3KEY_FW_UP
                        else sw k3 KPKEY_FW_DOWN K3KEY_FW_DOWN)
           in (steps c f 1 (sw k3 KPKEY_SYM K3KEY_SYM) @ steps c f nhorz chorz @ steps c f nvert cvert @
               steps c f 1 (sw k3 KPKEY_FW_PRESS K3KEY_FW_PRESS) @
               (if k3 then steps c f 1 (word_of_int K3KEY_SYM) else []),
               nhorz + nvert + 1))
      | None \<Rightarrow> (send_char c f ch, 0))"

fun send_kindle_ascii_string :: "config \<Rightarrow> fds \<Rightarrow> string \<Rightarrow> effect list \<times> int" where
  "send_kindle_ascii_string c f [] = ([], 0)"
| "send_kindle_ascii_string c f (ch # s) =
     (let (e, n) = send_kindle_input_key c f ch; (es, m) = send_kindle_ascii_string c f s
      in (e @ [Delay (key_delay c)] @ es, n + m))"

section \<open>Kindle scripts\<close>

definition is_blank :: "char \<Rightarrow> bool" where
  "is_blank ch = (ch = CHR '' '' \<or> ch = TAB \<or> ch = LF)"

text \<open>A token without its first character and without the last of the rest: the character before
  the end is overwritten (the quote itself when nothing follows it).\<close>

definition unquote :: "string \<Rightarrow> string" where
  "unquote tok = butlast (drop 1 tok)"

definition key_token :: "config \<Rightarrow> fds \<Rightarrow> string \<Rightarrow> effect list \<times> int" where
  "key_token c f tok =
     (let kc = (word_of_int (find_input_key_code c tok) :: short) in
      if kc \<noteq> -1
      then (send_key c f kc
              (if length tok = 1 \<and> (65 :: nat) \<le> of_char (hd tok) \<and> of_char (hd tok) \<le> (90 :: nat)
               then SENDMODE_SHIFT else SENDMODE_NORMAL), 0)
      else send_kindle_input_key c f (char_at tok 0))"

definition script_token :: "config \<Rightarrow> fds \<Rightarrow> string \<Rightarrow> effect list \<times> int" where
  "script_token c f tok =
     (if char_at tok 0 = CHR 0x27
      then (case key_token c f (unquote tok) of (e, n) \<Rightarrow> (e @ [Delay (key_delay c)], n))
      else if char_at tok 0 = CHR 0x22 then send_kindle_ascii_string c f (unquote tok)
      else send_kindle_ascii_string c f tok)"

text \<open>The tokens between the first and the last one; at most 64 are collected, and then the last of
  these is dropped.\<close>

definition script_tokens :: "string \<Rightarrow> string list" where
  "script_tokens p = butlast (take 64 (drop 1 (tokens is_blank p)))"

fun run_tokens :: "config \<Rightarrow> fds \<Rightarrow> string list \<Rightarrow> effect list \<times> int" where
  "run_tokens c f [] = ([], 0)"
| "run_tokens c f (t # ts) =
     (let (e, n) = script_token c f t; (es, m) = run_tokens c f ts in (e @ es, n + m))"

definition process_kindle_script :: "config \<Rightarrow> fds \<Rightarrow> string \<Rightarrow> (effect list \<times> int) res" where
  "process_kindle_script c f p =
     bindR (guardR (length p < MAXPATH) Buffer_overflow)
       (\<lambda>_. Inr (run_tokens c f (script_tokens p)))"

section \<open>The sendkeys command\<close>

text \<open>The buffer of MAXPATH characters, cleared before the command is copied into it.\<close>

definition sendkeys_buffer :: "string \<Rightarrow> char list" where
  "sendkeys_buffer p = p @ replicate (MAXPATH - length p) NUL"

text \<open>The end of a quoted token: a backslash skips the character behind it, a NUL too.\<close>

function quote_end :: "char list \<Rightarrow> nat \<Rightarrow> nat res" where
  "quote_end b q = (if q < length b
     then (if b ! q = CHR 0x22 \<or> b ! q = NUL then Inr q
           else if b ! q = CHR 0x5C then quote_end b (q + 2)
           else quote_end b (q + 1))
     else Inl Buffer_overread)"
  by pat_completeness auto
termination by (relation "measure (\<lambda>(b, q). length b - q)") auto

declare quote_end.simps [simp del]

definition word_end :: "char list \<Rightarrow> nat \<Rightarrow> nat res" where
  "word_end b q = scan le_space b q"

text \<open>A token at q: its effects, the buffer and the pointer behind it.\<close>

definition sendkeys_token :: "config \<Rightarrow> fds \<Rightarrow> char list \<Rightarrow> nat \<Rightarrow> (effect list \<times> char list \<times> nat) res" where
  "sendkeys_token c f b q =
     (if b ! q = CHR 0x22
      then bindR (quote_end b (q + 1)) (\<lambda>e.
        let b' = (if b ! e = CHR 0x22 then b[e := NUL] else b)
        in Inr (send_ascii_string c f (cstr (drop (q + 1) b')), b', e))
      else bindR (word_end b q) (\<lambda>e.
        let b' = (if b ! e \<noteq> NUL then b[e := NUL] else b);
            tok = cstr (drop q b');
            kc = (word_of_int (find_input_key_code c tok) :: short)
        in Inr (if kc \<noteq> -1 then send_key c f kc SENDMODE_NORMAL else send_ascii_string c f tok,
                b', e)))"

lemma quote_end_ge: "quote_end b q = Inr e \<Longrightarrow> q \<le> e \<and> e < length b"
proof (induction b q rule: quote_end.induct)
  case (1 b q)
  then show ?case by (fastforce simp: quote_end.simps [of b q] split: if_splits)
qed

lemma word_end_ge: "word_end b q = Inr e \<Longrightarrow> q \<le> e \<and> e < length b"
  by (auto simp: word_end_def dest: scan_ge)

lemma sendkeys_token_ge: "sendkeys_token c f b q = Inr (es, b', e) \<Longrightarrow> q \<le> e \<and> length b' = length b"
  by (auto simp: sendkeys_token_def Let_def res_simps split: if_splits dest: quote_end_ge word_end_ge)

function sendkeys_loop :: "config \<Rightarrow> fds \<Rightarrow> nat \<Rightarrow> char list \<Rightarrow> nat \<Rightarrow> effect list res" where
  "sendkeys_loop c f plimit b q =
     (if q < plimit
      then (if le_space (b ! q) then sendkeys_loop c f plimit b (q + 1)
            else (case sendkeys_token c f b q of
                    Inl e \<Rightarrow> Inl e
                  | Inr (es, b', q') \<Rightarrow> mapR ((@) es) (sendkeys_loop c f plimit b' (q' + 1))))
      else Inr [])"
  by pat_completeness auto
termination
  by (relation "measure (\<lambda>(c, f, l, b, q). l - q)") (auto dest: sendkeys_token_ge)

declare sendkeys_loop.simps [simp del]

definition process_sendkeys_command :: "config \<Rightarrow> fds \<Rightarrow> string \<Rightarrow> effect list res" where
  "process_sendkeys_command c f p =
     bindR (guardR (length p < MAXPATH) Buffer_overflow)
       (\<lambda>_. sendkeys_loop c f (length p) (sendkeys_buffer p) 0)"

end
