(* ===== verification/SendProps.thy ===== *)
theory SendProps
  imports SendKeys
begin

text \<open>
  What holds of the key senders: the lines written carry the code, the keys sent for a popup
  symbol move the popup's cursor onto it, and the sendkeys interpreter runs a command written as
  a list of key names and quoted texts item by item, inside its buffer.
\<close>

section \<open>The popup\<close>

definition popup_keys :: "bool \<Rightarrow> kindle_syms \<Rightarrow> short list" where
  "popup_keys k3 p =
     [sw k3 KPKEY_SYM K3KEY_SYM] @
     replicate (nat \<bar>hsteps p\<bar>) (if hsteps p < 0 then sw k3 KPKEY_FW_LEFT K3KEY_FW_LEFT
                                 else sw k3 KPKEY_FW_RIGHT K3KEY_FW_RIGHT) @
     replicate (nat \<bar>vsteps p\<bar>) (if vsteps p < 0 then sw k3 KPKEY_FW_UP K3KEY_FW_UP
                                 else sw k3 KPKEY_FW_DOWN K3KEY_FW_DOWN) @
     [sw k3 KPKEY_FW_PRESS K3KEY_FW_PRESS] @ (if k3 then [word_of_int K3KEY_SYM] else [])"

text \<open>The cursor of the popup under the fiveway keys of the device; other keys leave it.\<close>

definition move :: "bool \<Rightarrow> short \<Rightarrow> int \<times> int \<Rightarrow> int \<times> int" where
  "move k3 k pos = (case pos of (x, y) \<Rightarrow>
     if k = sw k3 KPKEY_FW_LEFT K3KEY_FW_LEFT then (x - 1, y)
     else if k = sw k3 KPKEY_FW_RIGHT K3KEY_FW_RIGHT then (x + 1, y)
     else if k = sw k3 KPKEY_FW_UP K3KEY_FW_UP then (x, y - 1)
     else if k = sw k3 KPKEY_FW_DOWN K3KEY_FW_DOWN then (x, y + 1)
     else pos)"

definition walk :: "bool \<Rightarrow> short list \<Rightarrow> int \<times> int \<Rightarrow> int \<times> int" where
  "walk k3 ks pos = foldl (\<lambda>pos k. move k3 k pos) pos ks"

lemma walk_append: "walk k3 (xs @ ys) pos = walk k3 ys (walk k3 xs pos)"
  by (simp add: walk_def)

lemma walk_replicate:
  assumes "\<And>x y. move k3 k (x, y) = (x + dx, y + dy)"
  shows "walk k3 (replicate n k) (x, y) = (x + int n * dx, y + int n * dy)"
proof (induction n arbitrary: x y)
  case 0
  then show ?case by (simp add: walk_def)
next
  case (Suc n)
  have "walk k3 (replicate (Suc n) k) (x, y) = walk k3 (replicate n k) (move k3 k (x, y))"
    by (simp add: walk_def)
  then show ?case by (simp add: assms Suc.IH algebra_simps)
qed

lemma moves:
  "move k3 (sw k3 KPKEY_FW_LEFT K3KEY_FW_LEFT) (x, y) = (x + -1, y + 0)"
  "move k3 (sw k3 KPKEY_FW_RIGHT K3KEY_FW_RIGHT) (x, y) = (x + 1, y + 0)"
  "move k3 (sw k3 KPKEY_FW_UP K3KEY_FW_UP) (x, y) = (x + 0, y + -1)"
  "move k3 (sw k3 KPKEY_FW_DOWN K3KEY_FW_DOWN) (x, y) = (x + 0, y + 1)"
  "move k3 (sw k3 KPKEY_FW_PRESS K3KEY_FW_PRESS) (x, y) = (x, y)"
  "move k3 (sw k3 KPKEY_SYM K3KEY_SYM) (x, y) = (x, y)"
  by (cases k3; simp add: move_def sw_def key_codes)+

lemma walk_simps:
  "walk k3 [] pos = pos"
  "walk k3 (k # ks) pos = walk k3 ks (move k3 k pos)"
  "walk k3 (replicate n (sw k3 KPKEY_FW_LEFT K3KEY_FW_LEFT)) (x, y) = (x - int n, y)"
  "walk k3 (replicate n (sw k3 KPKEY_FW_RIGHT K3KEY_FW_RIGHT)) (x, y) = (x + int n, y)"
  "walk k3 (replicate n (sw k3 KPKEY_FW_UP K3KEY_FW_UP)) (x, y) = (x, y - int n)"
  "walk k3 (replicate n (sw k3 KPKEY_FW_DOWN K3KEY_FW_DOWN)) (x, y) = (x, y + int n)"
  using walk_replicate [OF moves(1)] walk_replicate [OF moves(2)] walk_replicate [OF moves(3)]
    walk_replicate [OF moves(4)]
  by (simp_all add: walk_def)

lemma walk_popup: "walk k3 (popup_keys k3 p) (0, 0) = (hsteps p, vsteps p)"
proof -
  have "walk k3 (if k3 then [word_of_int K3KEY_SYM] else []) (x, y) = (x, y)" for x y
    using moves(6) [of k3 x y] by (cases k3) (simp_all add: walk_simps sw_def)
  then show ?thesis
    unfolding popup_keys_def
    by (cases "hsteps p < 0"; cases "vsteps p < 0") (simp_all add: walk_append walk_simps moves)
qed

definition is_fiveway_key :: "bool \<Rightarrow> short \<Rightarrow> bool" where
  "is_fiveway_key k3 k = (k \<in> {sw k3 KPKEY_FW_LEFT K3KEY_FW_LEFT, sw k3 KPKEY_FW_RIGHT K3KEY_FW_RIGHT,
     sw k3 KPKEY_FW_UP K3KEY_FW_UP, sw k3 KPKEY_FW_DOWN K3KEY_FW_DOWN, sw k3 KPKEY_FW_PRESS K3KEY_FW_PRESS})"

lemma count_fiveway:
  "int (length (filter (is_fiveway_key k3) (popup_keys k3 p))) = \<bar>hsteps p\<bar> + \<bar>vsteps p\<bar> + 1"
proof -
  have no: "\<not> is_fiveway_key k3 (sw k3 KPKEY_SYM K3KEY_SYM)" "\<not> is_fiveway_key True (word_of_int K3KEY_SYM)"
    by (cases k3; simp add: is_fiveway_key_def sw_def key_codes)+
  show ?thesis
    by (cases k3) (use no in \<open>auto simp: popup_keys_def is_fiveway_key_def\<close>)
qed

section \<open>Texts of commands\<close>

datatype command_item = Key string | Text string

fun item_text :: "command_item \<Rightarrow> string" where
  "item_text (Key w) = w @ '' ''"
| "item_text (Text s) = [CHR 0x22] @ s @ [CHR 0x22] @ '' ''"

fun item_ok :: "config \<Rightarrow> command_item \<Rightarrow> bool" where
  "item_ok c (Key w) = (w \<noteq> [] \<and> (\<forall>x \<in> set w. \<not> le_space x) \<and> hd w \<noteq> CHR 0x22 \<and>
                        find_input_key_code c w \<noteq> -1)"
| "item_ok c (Text s) = (NUL \<notin> set s \<and> CHR 0x22 \<notin> set s \<and> CHR 0x5C \<notin> set s)"

fun item_effects :: "config \<Rightarrow> fds \<Rightarrow> command_item \<Rightarrow> effect list" where
  "item_effects c f (Key w) = send_key c f (word_of_int (find_input_key_code c w)) SENDMODE_NORMAL"
| "item_effects c f (Text s) = send_ascii_string c f s"

lemma quote_end_text:
  "drop q b = s @ CHR 0x22 # r \<Longrightarrow> NUL \<notin> set s \<Longrightarrow> CHR 0x22 \<notin> set s \<Longrightarrow> CHR 0x5C \<notin> set s \<Longrightarrow>
     quote_end b q = Inr (q + length s)"
proof (induction s arbitrary: q)
  case Nil
  then show ?case using drop_nonempty_less [of q b] by (fastforce simp: quote_end.simps [of b q])
next
  case (Cons x s)
  then have "q < length b" "b ! q = x" "drop (Suc q) b = s @ CHR 0x22 # r"
    using drop_nonempty_less [of q b x "s @ CHR 0x22 # r"] by auto
  with Cons show ?case by (auto simp: quote_end.simps [of b q])
qed

lemma word_end_text:
  assumes "drop q b = w @ x # r" "\<forall>y \<in> set w. \<not> le_space y" "le_space x"
  shows "word_end b q = Inr (q + length w)"
proof -
  have "takeWhile (\<lambda>y. \<not> le_space y) (w @ x # r) = w" using assms(2,3) by (simp add: takeWhile_append2)
  then show ?thesis using assms by (simp add: word_end_def scan_drop)
qed

lemma drop_after_write:
  assumes "drop q b = w @ x # r"
  shows "drop q (b[q + length w := NUL]) = w @ NUL # r"
    and "drop (q + length w + 1) (b[q + length w := NUL]) = r"
proof -
  have "drop q (b[q + length w := NUL]) = (drop q b)[length w := NUL]"
    by (simp add: drop_update_swap)
  then show "drop q (b[q + length w := NUL]) = w @ NUL # r"
    by (simp add: assms list_update_append)
  then have "drop (length w + 1) (drop q (b[q + length w := NUL])) = r" by simp
  then show "drop (q + length w + 1) (b[q + length w := NUL]) = r"
    by (simp add: add.commute add.left_commute)
qed

lemma sendkeys_token_key:
  assumes "keys_ok c" "item_ok c (Key w)" "drop q b = w @ CHR '' '' # r"
  shows "sendkeys_token c f b q = Inr (item_effects c f (Key w), b[q + length w := NUL], q + length w)"
proof -
  obtain x xs where w: "w = x # xs" using assms(2) by (cases w) auto
  have "b ! q = x" using assms(3) drop_nonempty_less [of q b x] w by auto
  then have nq: "b ! q \<noteq> CHR 0x22" using assms(2) w by auto
  have e: "word_end b q = Inr (q + length w)" using word_end_text [OF assms(3)] assms(2) by simp
  have "drop (q + length w) b = CHR '' '' # r" using drop_text [OF assms(3), of "length w"] by simp
  then have be: "b ! (q + length w) = CHR '' ''"
    using drop_nonempty_less [of "q + length w" b "CHR '' ''" r] by simp
  have "NUL \<notin> set w" using assms(2) by fastforce
  then have tok: "cstr (drop q (b[q + length w := NUL])) = w"
    using drop_after_write(1) [OF assms(3)] by (simp add: cstr_no_nul)
  have "(word_of_int (find_input_key_code c w) :: short) \<noteq> -1"
    using keys.short_unknown [OF assms(1)] assms(2) by simp
  then show ?thesis using nq e be tok by (simp add: sendkeys_token_def Let_def)
qed

lemma sendkeys_token_text:
  assumes "item_ok c (Text s)" "drop q b = CHR 0x22 # s @ CHR 0x22 # r"
  shows "sendkeys_token c f b q =
    Inr (item_effects c f (Text s), b[q + 1 + length s := NUL], q + 1 + length s)"
proof -
  have b: "b ! q = CHR 0x22" "drop (q + 1) b = s @ CHR 0x22 # r"
    using assms(2) drop_nonempty_less [of q b] by auto
  have e: "quote_end b (q + 1) = Inr (q + 1 + length s)"
    using quote_end_text [OF b(2)] assms(1) by simp
  have "drop (q + 1 + length s) b = CHR 0x22 # r" using drop_text [OF b(2), of "length s"] by simp
  then have be: "b ! (q + 1 + length s) = CHR 0x22"
    using drop_nonempty_less [of "q + 1 + length s" b "CHR 0x22" r] by simp
  have "NUL \<notin> set s" using assms(1) by simp
  then have "cstr (drop (q + 1) (b[q + 1 + length s := NUL])) = s"
    using drop_after_write(1) [OF b(2)] by (simp add: cstr_no_nul)
  then show ?thesis using b(1) e be by (simp add: sendkeys_token_def Let_def)
qed

lemma sendkeys_loop_items:
  assumes "keys_ok c"
  shows "list_all (item_ok c) is \<Longrightarrow> drop q b = concat (map item_text is) @ t \<Longrightarrow>
    plimit = q + length (concat (map item_text is)) \<Longrightarrow>
    sendkeys_loop c f plimit b q = Inr (concat (map (item_effects c f) is))"
proof (induction "is" arbitrary: q b)
  case Nil
  then show ?case by (simp add: sendkeys_loop.simps)
next
  case (Cons i "is")
  let ?rest = "concat (map item_text is) @ t"
  show ?case
  proof (cases i)
    case (Key w)
    have d: "drop q b = w @ CHR '' '' # ?rest" using Cons.prems(2) Key by simp
    obtain x xs where w: "w = x # xs" using Cons.prems(1) Key by (cases w) auto
    have nq: "\<not> le_space (b ! q)" using d w Cons.prems(1) Key drop_nonempty_less [of q b x] by auto
    note tok = sendkeys_token_key [OF assms _ d, of f]
    have "sendkeys_loop c f plimit (b[q + length w := NUL]) (q + length w + 1)
        = Inr (concat (map (item_effects c f) is))"
      using Cons.IH [of "q + length w + 1" "b[q + length w := NUL]"] Cons.prems Key
        drop_after_write(2) [OF d] by simp
    with tok nq Cons.prems Key show ?thesis by (subst sendkeys_loop.simps) simp
  next
    case (Text s)
    have d: "drop q b = CHR 0x22 # s @ CHR 0x22 # CHR '' '' # ?rest" using Cons.prems(2) Text by simp
    have bq: "b ! q = CHR 0x22" "drop (q + 1) b = s @ CHR 0x22 # CHR '' '' # ?rest"
      using d drop_nonempty_less [of q b] by auto
    let ?b = "b[q + 1 + length s := NUL]" and ?q = "q + 1 + length s + 1"
    have d2: "drop ?q ?b = CHR '' '' # ?rest" by (rule drop_after_write(2) [OF bq(2)])
    have b2: "?b ! ?q = CHR '' ''" "drop (?q + 1) ?b = ?rest"
      using d2 drop_nonempty_less [of ?q ?b] by auto
    have "sendkeys_loop c f plimit ?b (?q + 1) = Inr (concat (map (item_effects c f) is))"
      using Cons.IH [of "?q + 1" ?b] Cons.prems Text b2(2) by simp
    then have "sendkeys_loop c f plimit ?b ?q = Inr (concat (map (item_effects c f) is))"
      using b2(1) Cons.prems(3) Text by (subst sendkeys_loop.simps) simp
    moreover have "\<not> le_space CHR 0x22" by (simp add: le_space_def)
    ultimately show ?thesis
      using sendkeys_token_text [OF _ d, of c f] bq(1) Cons.prems Text
      by (subst sendkeys_loop.simps) simp
  qed
qed

section \<open>The buffer of the command\<close>

text \<open>Two NULs at the end: no scan runs over both.\<close>

definition closed_buffer :: "char list \<Rightarrow> bool" where
  "closed_buffer b = (2 \<le> length b \<and> b ! (length b - 1) = NUL \<and> b ! (length b - 2) = NUL)"

lemma quote_end_total:
  "closed_buffer b \<Longrightarrow> q < length b \<Longrightarrow> \<exists>e. quote_end b q = Inr e"
proof (induction b q rule: quote_end.induct)
  case (1 b q)
  have c: "CHR 0x5C \<noteq> NUL" by simp
  have "q + 2 < length b" if "b ! q \<noteq> NUL"
  proof -
    have "q \<noteq> length b - 1" "q \<noteq> length b - 2" using that "1.prems"(1) by (auto simp: closed_buffer_def)
    then show ?thesis using "1.prems" by (simp add: closed_buffer_def)
  qed
  then show ?case using 1 c by (auto simp: quote_end.simps [of b q])
qed

lemma word_end_total: "closed_buffer b \<Longrightarrow> q < length b \<Longrightarrow> \<exists>e. word_end b q = Inr e"
proof -
  assume a: "closed_buffer b" "q < length b"
  have "NUL \<in> set (drop q b)"
  proof -
    have "drop q b ! (length b - 1 - q) = NUL" "length b - 1 - q < length (drop q b)"
      using a by (auto simp: closed_buffer_def)
    then show ?thesis by (metis nth_mem)
  qed
  moreover have "le_space NUL" by simp
  ultimately have "\<exists>x \<in> set (drop q b). le_space x" by blast
  then show ?thesis by (simp add: word_end_def scan_drop)
qed

lemma closed_buffer_write: "closed_buffer b \<Longrightarrow> closed_buffer (b[i := NUL])"
  by (cases "i < length b") (auto simp: closed_buffer_def nth_list_update)

lemma sendkeys_token_total:
  assumes "closed_buffer b" "q + 1 < length b"
  shows "\<exists>es b' e. sendkeys_token c f b q = Inr (es, b', e) \<and> closed_buffer b' \<and> length b' = length b"
proof (cases "b ! q = CHR 0x22")
  case True
  then show ?thesis
    using quote_end_total [OF assms] closed_buffer_write [OF assms(1)]
    by (auto simp: sendkeys_token_def Let_def assms(1))
next
  case False
  then show ?thesis
    using word_end_total [OF assms(1), of q] assms(2) closed_buffer_write [OF assms(1)]
    by (auto simp: sendkeys_token_def Let_def assms(1))
qed

lemma sendkeys_loop_total:
  "closed_buffer b \<Longrightarrow> plimit < length b \<Longrightarrow> \<exists>es. sendkeys_loop c f plimit b q = Inr es"
proof (induction c f plimit b q rule: sendkeys_loop.induct)
  case (1 c f plimit b q)
  show ?case
  proof (cases "q < plimit \<and> \<not> le_space (b ! q)")
    case True
    then obtain es b' e where t: "sendkeys_token c f b q = Inr (es, b', e)" "closed_buffer b'"
        "length b' = length b"
      using sendkeys_token_total [OF "1.prems"(1), of q c f] "1.prems"(2) by auto
    then show ?thesis
      using "1.IH"(2) [OF _ _ t(1)] True "1.prems"(2) by (subst sendkeys_loop.simps) fastforce
  next
    case False
    then show ?thesis using "1.IH"(1) "1.prems" by (subst sendkeys_loop.simps) auto
  qed
qed

section \<open>Properties\<close>

text \<open>A key sent is one line that fits the buffer it is formatted in: the name of a mode, a blank
  and the decimal code, which atoi reads back from the line; it goes to the fiveway file exactly
  when the key's name begins with FW\_ or k3\_FW\_, and nothing is written to a file not open.\<close>
theorem send_key_line:
  "case send_key c f kc mode of
     [] \<Rightarrow> (if is_fiveway_name (input_key_name_of c (sint kc)) then fd_procfiveway f = -1
            else fd_prockeypad f = -1)
   | [Fiveway s] \<Rightarrow> is_fiveway_name (input_key_name_of c (sint kc)) \<and>
                    s = ''send '' @ drop 5 s \<and> atoi (drop 5 s) = sint kc \<and> last s = LF
   | [Keypad s] \<Rightarrow> \<not> is_fiveway_name (input_key_name_of c (sint kc)) \<and>
                   (let m = length (sendmode_name mode) + 1 in
                    s = sendmode_name mode @ '' '' @ drop m s \<and> atoi (drop m s) = sint kc \<and> last s = LF)
   | _ \<Rightarrow> False"
proof -
  have range: "- (2 ^ 31) \<le> sint kc" "sint kc < 2 ^ 31"
    using sint_greater_eq [of kc] sint_less [of kc] by simp_all
  have "atoi (show_int (sint kc) @ [LF]) = sint kc"
    by (rule atoi_show_int [OF range]) (simp add: is_digit_def)
  then show ?thesis by (simp add: send_key_def send_line_def Let_def)
qed

text \<open>C16: Entering a symbol through the popup: the keys sent are the popup key, the moves, the press
  and (Kindle 3) the key that closes the popup; they move the cursor from the comma to a place
  where the drawn popup of the Kindle 3 shows the character; and the number returned counts the
  fiveway keys among them, the events the caller must skip.\<close>
theorem popup_entry_keys:
  assumes "char_kindle_fw_sequence (is_this_kindle3 f) (mask7 ch) = Some p"
  shows "send_kindle_input_key c f ch =
      (concat (map (\<lambda>k. send_key c f k SENDMODE_NORMAL @ [Delay (key_delay c)])
                (popup_keys (is_this_kindle3 f) p)),
       int (length (filter (is_fiveway_key (is_this_kindle3 f)) (popup_keys (is_this_kindle3 f) p)))) \<and>
    walk (is_this_kindle3 f) (popup_keys (is_this_kindle3 f) p) (0, 0) = (hsteps p, vsteps p) \<and>
    (if is_this_kindle3 f then popup_symbol k3_popup p = Some (mask7 ch) else True)"
proof -
  have "send_kindle_input_key c f ch =
      (concat (map (\<lambda>k. send_key c f k SENDMODE_NORMAL @ [Delay (key_delay c)])
                (popup_keys (is_this_kindle3 f) p)), \<bar>hsteps p\<bar> + \<bar>vsteps p\<bar> + 1)"
    using assms
    by (cases "is_this_kindle3 f"; cases "hsteps p < 0"; cases "vsteps p < 0")
      (simp_all add: send_kindle_input_key_def popup_keys_def steps_def Let_def)
  moreover have "popup_symbol k3_popup p = Some (mask7 ch)" if "is_this_kindle3 f"
  proof -
    have "(of_char (mask7 ch) :: nat) < 128" by (simp add: mask7_def of_char_of)
    from ascii_check [OF k3_popup_check this] assms that show ?thesis by simp
  qed
  ultimately show ?thesis by (simp add: count_fiveway walk_popup)
qed

definition k3_fds :: fds where
  "k3_fds = \<lparr>fd_kbd = 3, fd_fw = 4, fd_k3_vol = 5, fd_prockeypad = 6, fd_procfiveway = 7\<rparr>"

theorem popup_entry_keys_witness:
  "char_kindle_fw_sequence True CHR ''@'' = Some (k3_s ! 25) \<and>
   walk True (popup_keys True (k3_s ! 25)) (0, 0) = (0, 1) \<and>
   popup_symbol k3_popup (k3_s ! 25) = Some CHR ''@''"
proof -
  have k: "is_this_kindle3 k3_fds" by (simp add: is_this_kindle3_def k3_fds_def)
  have p: "char_kindle_fw_sequence True CHR ''@'' = Some (k3_s ! 25)" "mask7 CHR ''@'' = CHR ''@''"
    "hsteps (k3_s ! 25) = 0" "vsteps (k3_s ! 25) = 1"
    by code_simp+
  then have "char_kindle_fw_sequence (is_this_kindle3 k3_fds) (mask7 CHR ''@'') = Some (k3_s ! 25)"
    using k by simp
  from popup_entry_keys [OF this] show ?thesis using p k by simp
qed

text \<open>C17: A sendkeys command written as key names and quoted texts, each followed by a blank, is run
  item by item in order: a key name sends its key, a text is sent character by character.\<close>
theorem sendkeys_command_items:
  assumes "init_keys os dir c0 = Inr c" and "list_all (item_ok c) is"
    and "length (concat (map item_text is)) < MAXPATH"
  shows "process_sendkeys_command c f (concat (map item_text is)) =
    Inr (concat (map (item_effects c f) is))"
proof -
  have "sendkeys_loop c f (length (concat (map item_text is)))
      (sendkeys_buffer (concat (map item_text is))) 0 = Inr (concat (map (item_effects c f) is))"
    by (rule sendkeys_loop_items [OF init_keys_ok [OF assms(1)] assms(2), where q = 0])
      (simp_all add: sendkeys_buffer_def)
  then show ?thesis using assms(3) by (simp add: process_sendkeys_command_def)
qed

theorem sendkeys_command_items_witness:
  "\<exists>c. init_keys \<lparr>os_file = (\<lambda>p. None), os_read_all = (\<lambda>p. True), os_malloc = (\<lambda>n. True)\<rparr> ''/''
      initial_config = Inr c \<and>
    process_sendkeys_command c k3_fds (''Home '' @ [CHR 0x22] @ ''hi'' @ [CHR 0x22] @ '' '') =
      Inr (item_effects c k3_fds (Key ''Home'') @ item_effects c k3_fds (Text ''hi''))"
proof -
  let ?os = "\<lparr>os_file = (\<lambda>p. None), os_read_all = (\<lambda>p. True), os_malloc = (\<lambda>n. True)\<rparr> :: os"
  obtain ptab pcodes n where def: "get_default_input_keydefs = (ptab, pcodes, n)"
    by (cases get_default_input_keydefs)
  define c where "c = initial_config\<lparr>input_keys := ptab, input_key_codes := pcodes, n_input_keys := n\<rparr>"
  have init: "init_keys ?os ''/'' initial_config = Inr c"
    by (simp add: init_keys_def get_input_keydefs_def inidb_open_def KEYDEFS_FILE_def MAXPATH_def
        def c_def)
  have "case get_default_input_keydefs of (ptab, pcodes, n) \<Rightarrow>
      find_key_row ''Home'' (take (nat n) ptab) = 98"
    by code_simp
  then have "find_input_key_code c ''Home'' = 98" by (simp add: def c_def find_input_key_code_def)
  then have ok: "list_all (item_ok c) [Key ''Home'', Text ''hi'']" by (simp add: le_space_def)
  have "length (concat (map item_text [Key ''Home'', Text ''hi''])) < MAXPATH" by (simp add: MAXPATH_def)
  from sendkeys_command_items [OF init ok this, of k3_fds] init show ?thesis
    by (intro exI [of _ c]) simp
qed

text \<open>C37: The sendkeys interpreter ends and stays inside its buffer for every command of up to
  MAXPATH - 2 characters, whatever its quotes and backslashes.\<close>
theorem sendkeys_command_safe:
  assumes "length p + 2 \<le> MAXPATH"
  shows "\<exists>es. process_sendkeys_command c f p = Inr es"
proof -
  have "closed_buffer (sendkeys_buffer p)" "length p < length (sendkeys_buffer p)"
    using assms by (auto simp: closed_buffer_def sendkeys_buffer_def nth_append)
  with sendkeys_loop_total assms show ?thesis by (auto simp: process_sendkeys_command_def)
qed

theorem sendkeys_command_safe_witness:
  "\<exists>es. process_sendkeys_command initial_config k3_fds (CHR 0x22 # replicate 252 CHR ''a'' @ [CHR 0x5C]) = Inr es"
  by (rule sendkeys_command_safe) (simp add: MAXPATH_def)

end
