(* ===== verification/Pixop.thy ===== *)
theory Pixop
  imports Prelude "HOL-Library.Signed_Division"
begin

unbundle bit_operations_syntax

text \<open>
  src/pixop.c: rectangles of 4-bit pixels, two in a byte. A pixmap's surface is a list of bytes;
  offsets into it are computed with C's integers, and every row that is set or copied is checked
  against the bytes there are. Every sum, difference and product of ints is checked, and one that
  leaves the range of int is the fault Int\_overflow.
\<close>

section \<open>Memory\<close>

record pixmap =
  width :: int
  height :: int
  surf :: "8 word list"

definition mem_set :: "8 word list \<Rightarrow> int \<Rightarrow> 8 word \<Rightarrow> int \<Rightarrow> 8 word list res" where
  "mem_set m off v n =
     (if 0 \<le> off \<and> off + n \<le> int (length m)
      then Inr (take (nat off) m @ replicate (nat n) v @ drop (nat off + nat n) m)
      else Inl Buffer_overflow)"

definition mem_get :: "8 word list \<Rightarrow> int \<Rightarrow> int \<Rightarrow> 8 word list res" where
  "mem_get m off n =
     (if 0 \<le> off \<and> off + n \<le> int (length m) then Inr (take (nat n) (drop (nat off) m))
      else Inl Buffer_overread)"

definition mem_put :: "8 word list \<Rightarrow> int \<Rightarrow> 8 word list \<Rightarrow> 8 word list res" where
  "mem_put m off d =
     (if 0 \<le> off \<and> off + int (length d) \<le> int (length m)
      then Inr (take (nat off) m @ d @ drop (nat off + length d) m)
      else Inl Buffer_overflow)"

text \<open>The bytes of a row: (width + 1)/2.\<close>

definition row_bytes :: "int \<Rightarrow> int" where
  "row_bytes w = (w + 1) sdiv 2"

section \<open>Loops over the rows\<close>

fun fill_rows :: "nat \<Rightarrow> 8 word list \<Rightarrow> int \<Rightarrow> int \<Rightarrow> 8 word \<Rightarrow> int \<Rightarrow> 8 word list res" where
  "fill_rows 0 m dp stride v n = Inr m"
| "fill_rows (Suc ht) m dp stride v n =
     bindR (mem_set m dp v n) (\<lambda>m. fill_rows ht m (dp + stride) stride v n)"

fun copy_rows ::
    "nat \<Rightarrow> 8 word list \<Rightarrow> int \<Rightarrow> int \<Rightarrow> 8 word list \<Rightarrow> int \<Rightarrow> int \<Rightarrow> int \<Rightarrow> 8 word list res" where
  "copy_rows 0 m dp dst_stride s sp src_stride n = Inr m"
| "copy_rows (Suc k) m dp dst_stride s sp src_stride n =
     bindR (mem_get s sp n) (\<lambda>d. bindR (mem_put m dp d) (\<lambda>m.
       copy_rows k m (dp + dst_stride) dst_stride s (sp + src_stride) src_stride n))"

section \<open>The operations\<close>

text \<open>Clipping at the left or upper edge, and at the right or lower one.\<close>

definition clip_low :: "int \<Rightarrow> int \<Rightarrow> (int \<times> int) res" where
  "clip_low pos len = (if pos < 0 then mapR (Pair 0) (int_sum len pos) else Inr (pos, len))"

definition clip_high :: "int \<Rightarrow> int \<Rightarrow> int \<Rightarrow> int res" where
  "clip_high pos len bound =
     bindR (int_sum pos len) (\<lambda>e. if bound < e then int_diff bound pos else Inr len)"

definition row_stride :: "int \<Rightarrow> int res" where
  "row_stride w = mapR (\<lambda>k. k sdiv 2) (int_sum w 1)"

text \<open>Each gives the changed destination and the number of pixels; a null destination or source is
  the caller's case.\<close>

definition pix_fill :: "pixmap \<Rightarrow> int \<Rightarrow> int \<Rightarrow> int \<Rightarrow> int \<Rightarrow> int \<Rightarrow> (pixmap \<times> int) res" where
  "pix_fill dst bx by wd ht color =
     bindR (clip_low (bx AND NOT 1) wd) (\<lambda>(bx, wd).
     bindR (clip_low by ht) (\<lambda>(by, ht).
     bindR (clip_high bx wd (width dst)) (\<lambda>wd.
     bindR (clip_high by ht (height dst)) (\<lambda>ht.
       if wd \<le> 0 \<or> ht \<le> 0 then Inr (dst, 0)
       else let c = color AND 0x0F; c = c OR push_bit 4 c in
         bindR (row_stride (width dst)) (\<lambda>dst_stride.
         bindR (row_stride wd) (\<lambda>fill_stride.
         bindR (int_prod by dst_stride) (\<lambda>start.
         bindR (fill_rows (nat ht) (surf dst) (start + bx sdiv 2) dst_stride (word_of_int c) fill_stride) (\<lambda>m.
         bindR (int_prod (ht * fill_stride) 2) (\<lambda>n. Inr (dst\<lparr>surf := m\<rparr>, n))))))))))"

definition pix_blt :: "pixmap \<Rightarrow> int \<Rightarrow> int \<Rightarrow> pixmap \<Rightarrow> (pixmap \<times> int) res" where
  "pix_blt dst bx by src =
     (let bx = (bx AND NOT 1) sdiv 2 in
      bindR (row_stride (width dst)) (\<lambda>dst_stride.
      bindR (row_stride (width src)) (\<lambda>src_stride.
      bindR (if bx < 0 then int_diff 0 bx else Inr 0) (\<lambda>src_bx.
      bindR (clip_low bx src_stride) (\<lambda>(bx, n_bytes).
      bindR (clip_high bx n_bytes dst_stride) (\<lambda>n_bytes.
        if n_bytes \<le> 0 then Inr (dst, 0)
        else
          bindR (if by < 0 then int_diff 0 by else Inr 0) (\<lambda>src_by.
          bindR (clip_low by (height src)) (\<lambda>(by, n_lines).
          bindR (clip_high by n_lines (height dst)) (\<lambda>n_lines.
            if n_lines \<le> 0 then Inr (dst, 0)
            else
              bindR (int_prod by dst_stride) (\<lambda>dst_start.
              bindR (int_prod src_by src_stride) (\<lambda>src_start.
              bindR (copy_rows (nat n_lines) (surf dst) (dst_start + bx) dst_stride
                       (surf src) (src_start + src_bx) src_stride n_bytes) (\<lambda>m.
              bindR (int_prod (n_lines * n_bytes) 2) (\<lambda>n. Inr (dst\<lparr>surf := m\<rparr>, n))))))))))))))"

definition pixmap_xtract :: "pixmap \<Rightarrow> int \<Rightarrow> int \<Rightarrow> pixmap \<Rightarrow> (pixmap \<times> int) res" where
  "pixmap_xtract dst bx by src =
     (if bx < 0 \<or> by < 0 then Inr (dst, 0)
      else let bx = (bx AND NOT 1) sdiv 2 in
        bindR (row_stride (width dst)) (\<lambda>dst_stride.
        bindR (row_stride (width src)) (\<lambda>src_stride.
        bindR (int_diff src_stride bx) (\<lambda>available.
        let n_bytes = (if available < dst_stride then available else dst_stride) in
        if n_bytes \<le> 0 then Inr (dst, 0)
        else
          bindR (int_diff (height src) by) (\<lambda>lines_left.
          let n_lines = (if height dst \<le> lines_left then height dst else lines_left) in
          if n_lines \<le> 0 then Inr (dst, 0)
          else
            bindR (int_prod by src_stride) (\<lambda>src_start.
            bindR (copy_rows (nat n_lines) (surf dst) 0 dst_stride
                     (surf src) (src_start + bx) src_stride n_bytes) (\<lambda>m.
            bindR (int_prod (n_lines * n_bytes) 2) (\<lambda>n. Inr (dst\<lparr>surf := m\<rparr>, n)))))))))"

text \<open>The count of bytes is (width+1 /2) * height, which C reads as width * height.\<close>

fun invert_bytes :: "nat \<Rightarrow> 8 word list \<Rightarrow> nat \<Rightarrow> 8 word list res" where
  "invert_bytes 0 m i = Inr m"
| "invert_bytes (Suc n) m i =
     (if i < length m then invert_bytes n (m[i := NOT (m ! i)]) (Suc i) else Inl Buffer_overflow)"

definition pixmap_invert :: "pixmap \<Rightarrow> pixmap res" where
  "pixmap_invert p =
     bindR (int_sum (width p) (1 sdiv 2)) (\<lambda>w.
     bindR (int_prod w (height p)) (\<lambda>nbytes.
     bindR (invert_bytes (nat nbytes) (surf p) 0) (\<lambda>m. Inr (p\<lparr>surf := m\<rparr>))))"

text \<open>The callers allocate for a part of the screen; the sizes and their product stay in int.\<close>

definition sizeof_pixmap :: int where "sizeof_pixmap = 12"

definition pixbuf_alloc :: "(nat \<Rightarrow> bool) \<Rightarrow> int \<Rightarrow> int \<Rightarrow> pixmap option" where
  "pixbuf_alloc malloc w h =
     (let n = row_bytes w * h; size = n + sizeof_pixmap in
      if malloc (nat size) then Some \<lparr>width = w, height = h, surf = replicate (nat n) 0\<rparr> else None)"

section \<open>Lemmas\<close>

text \<open>A pixmap whose surface has all the bytes its size says, and whose sizes leave room in an int.\<close>

definition size_ok :: "int \<Rightarrow> int \<Rightarrow> bool" where
  "size_ok w h = (0 \<le> w \<and> w < 2 ^ 28 \<and> 0 \<le> h \<and> h < 2 ^ 28 \<and> row_bytes w * h < 2 ^ 28)"

definition pixmap_ok :: "pixmap \<Rightarrow> bool" where
  "pixmap_ok p = (size_ok (width p) (height p) \<and> row_bytes (width p) * height p \<le> int (length (surf p)))"

text \<open>Coordinates and lengths whose sums are ints.\<close>

definition moderate :: "int \<Rightarrow> bool" where
  "moderate x = (- (2 ^ 30) \<le> x \<and> x < 2 ^ 30)"

lemma pixmap_okD:
  "pixmap_ok p \<Longrightarrow> 0 \<le> width p" "pixmap_ok p \<Longrightarrow> width p < 2 ^ 28"
  "pixmap_ok p \<Longrightarrow> 0 \<le> height p" "pixmap_ok p \<Longrightarrow> height p < 2 ^ 28"
  "pixmap_ok p \<Longrightarrow> row_bytes (width p) * height p < 2 ^ 28"
  "pixmap_ok p \<Longrightarrow> row_bytes (width p) * height p \<le> int (length (surf p))"
  by (simp_all add: pixmap_ok_def size_ok_def)

lemma even_part: "bx AND NOT 1 = bx - bx mod 2" for bx :: int
proof -
  have "bx AND NOT 1 = push_bit 1 (drop_bit 1 bx)"
  proof (rule bit_eqI)
    fix n :: nat
    have "n = 0 \<or> 1 + (n - 1) = n" by auto
    then show "bit (bx AND NOT 1) n \<longleftrightarrow> bit (push_bit 1 (drop_bit 1 bx)) n"
      by (auto simp only: bit_and_iff bit_not_iff bit_push_bit_iff bit_drop_bit_eq bit_1_iff
          possible_bit_int comp_def)
  qed
  also have "\<dots> = bx - bx mod 2"
    by (simp add: push_bit_eq_mult drop_bit_eq_div minus_mod_eq_mult_div mult.commute)
  finally show ?thesis .
qed

lemma row_bytes_nonneg: "0 \<le> w \<Longrightarrow> row_bytes w = (w + 1) div 2"
  by (simp add: row_bytes_def signed_divide_int_def)

lemma half_even: "(bx AND NOT 1) sdiv 2 = bx div 2" for bx :: int
proof -
  have "(2 * k) sdiv 2 = k" for k :: int
    by (cases "0 \<le> k") (auto simp: signed_divide_int_def sgn_if abs_if)
  then show ?thesis unfolding even_part minus_mod_eq_mult_div by simp
qed

subsection \<open>What a row operation leaves alone\<close>

text \<open>Two surfaces of one size that differ in the bytes from lo to hi at most.\<close>

definition same_outside :: "int \<Rightarrow> int \<Rightarrow> 8 word list \<Rightarrow> 8 word list \<Rightarrow> bool" where
  "same_outside lo hi m m' \<longleftrightarrow>
     length m' = length m \<and> (\<forall>i < length m. int i < lo \<or> hi \<le> int i \<longrightarrow> m' ! i = m ! i)"

lemma same_refl: "same_outside lo hi m m"
  by (simp add: same_outside_def)

lemma same_trans: "same_outside lo hi a b \<Longrightarrow> same_outside lo hi b c \<Longrightarrow> same_outside lo hi a c"
  by (simp add: same_outside_def)

lemma same_mono: "same_outside lo hi a b \<Longrightarrow> lo' \<le> lo \<Longrightarrow> hi \<le> hi' \<Longrightarrow> same_outside lo' hi' a b"
  by (auto simp: same_outside_def)

lemma mem_put_some:
  assumes "0 \<le> off" "off + int (length d) \<le> int (length m)"
  shows "\<exists>m'. mem_put m off d = Inr m' \<and> length m' = length m \<and>
    (\<forall>i < length m. m' ! i = (if off \<le> int i \<and> int i < off + int (length d)
                              then d ! nat (int i - off) else m ! i))"
proof -
  obtain k where k: "off = int k" using assms(1) nonneg_int_cases by blast
  let ?m = "take k m @ d @ drop (k + length d) m"
  have "length ?m = length m" using assms(2) k by simp
  moreover have "?m ! i = (if k \<le> i \<and> i < k + length d then d ! (i - k) else m ! i)" if "i < length m" for i
    using that assms(2) k by (auto simp: nth_append min_def)
  ultimately show ?thesis
    using assms(2) k by (simp add: mem_put_def nat_diff_distrib' )
qed

lemma mem_set_put: "0 \<le> n \<Longrightarrow> mem_set m off v n = mem_put m off (replicate (nat n) v)"
  by (simp add: mem_set_def mem_put_def)

lemma mem_get_some:
  assumes "0 \<le> off" "0 \<le> n" "off + n \<le> int (length s)"
  shows "\<exists>d. mem_get s off n = Inr d \<and> int (length d) = n \<and> (\<forall>j < length d. d ! j = s ! (nat off + j))"
  using assms by (simp add: mem_get_def)

text \<open>The state of the destination after k rows: the bytes of row j are given by f j.\<close>

definition rows_written ::
    "nat \<Rightarrow> int \<Rightarrow> int \<Rightarrow> int \<Rightarrow> (nat \<Rightarrow> int \<Rightarrow> 8 word) \<Rightarrow> 8 word list \<Rightarrow> 8 word list \<Rightarrow> bool" where
  "rows_written k dp stride n f m m' \<longleftrightarrow> length m' = length m \<and>
     (\<forall>i < length m.
        (\<forall>j < k. dp + int j * stride \<le> int i \<and> int i < dp + int j * stride + n \<longrightarrow>
                 m' ! i = f j (int i - dp - int j * stride)) \<and>
        ((\<forall>j < k. int i < dp + int j * stride \<or> dp + int j * stride + n \<le> int i) \<longrightarrow> m' ! i = m ! i))"

lemma copy_rows_written:
  assumes "0 \<le> n" "n \<le> dst_stride" "0 \<le> dp" "0 \<le> sp" "0 \<le> src_stride"
    and "k = 0 \<or> dp + int (k - 1) * dst_stride + n \<le> int (length m)"
    and "k = 0 \<or> sp + int (k - 1) * src_stride + n \<le> int (length s)"
  shows "\<exists>m'. copy_rows k m dp dst_stride s sp src_stride n = Inr m' \<and>
    rows_written k dp dst_stride n (\<lambda>j b. s ! nat (sp + int j * src_stride + b)) m m'"
  using assms
proof (induction k arbitrary: m dp sp)
  case 0
  then show ?case by (simp add: rows_written_def)
next
  case (Suc k)
  have lst: "dp + int k * dst_stride + n \<le> int (length m)" "sp + int k * src_stride + n \<le> int (length s)"
    using Suc.prems(6,7) by simp_all
  have ge: "0 \<le> int k * dst_stride" "0 \<le> int k * src_stride" using Suc.prems by simp_all
  obtain d where d: "mem_get s sp n = Inr d" "int (length d) = n" "\<And>j. j < length d \<Longrightarrow> d ! j = s ! (nat sp + j)"
    using mem_get_some [of sp n s] Suc.prems lst ge by auto
  obtain m1 where m1: "mem_put m dp d = Inr m1" "length m1 = length m"
      "\<And>i. i < length m \<Longrightarrow> m1 ! i = (if dp \<le> int i \<and> int i < dp + n then d ! nat (int i - dp) else m ! i)"
    using mem_put_some [of dp d m] Suc.prems lst ge d(2) by auto
  have next_rows: "k = 0 \<or> dp + dst_stride + int (k - 1) * dst_stride + n \<le> int (length m1)"
      "k = 0 \<or> sp + src_stride + int (k - 1) * src_stride + n \<le> int (length s)"
    using lst m1(2) by (cases k; simp add: algebra_simps)+
  obtain m' where m': "copy_rows k m1 (dp + dst_stride) dst_stride s (sp + src_stride) src_stride n = Inr m'"
      and w: "rows_written k (dp + dst_stride) dst_stride n
        (\<lambda>j b. s ! nat (sp + src_stride + int j * src_stride + b)) m1 m'"
    using Suc.IH [of "dp + dst_stride" "sp + src_stride" m1] Suc.prems next_rows by auto
  have "rows_written (Suc k) dp dst_stride n (\<lambda>j b. s ! nat (sp + int j * src_stride + b)) m m'"
    unfolding rows_written_def
  proof (intro conjI allI impI)
    show "length m' = length m" using w m1(2) by (simp add: rows_written_def)
  next
    fix i j assume i: "i < length m" and j: "j < Suc k"
      and inr: "dp + int j * dst_stride \<le> int i \<and> int i < dp + int j * dst_stride + n"
    show "m' ! i = s ! nat (sp + int j * src_stride + (int i - dp - int j * dst_stride))"
    proof (cases j)
      case 0
      have "m' ! i = m1 ! i"
      proof -
        have "int i < dp + dst_stride + int l * dst_stride" for l
        proof -
          have "0 \<le> int l * dst_stride" using Suc.prems by simp
          moreover have "int i < dp + n" using inr 0 by simp
          ultimately show ?thesis using Suc.prems(2) by linarith
        qed
        then show ?thesis using w i m1(2) by (auto simp: rows_written_def)
      qed
      moreover have "m1 ! i = d ! nat (int i - dp)" using m1(3) i inr 0 by simp
      moreover have "nat (int i - dp) < length d" using inr 0 d(2) by (auto simp: nat_less_iff)
      moreover have "nat sp + nat (int i - dp) = nat (sp + (int i - dp))"
        using Suc.prems inr 0 by (simp add: nat_add_distrib)
      ultimately show ?thesis using d(3) 0 by simp
    next
      case (Suc l)
      then have "dp + dst_stride + int l * dst_stride \<le> int i"
          "int i < dp + dst_stride + int l * dst_stride + n" "l < k"
        using inr j by (simp_all add: algebra_simps)
      then have "m' ! i = s ! nat (sp + src_stride + int l * src_stride
          + (int i - (dp + dst_stride) - int l * dst_stride))"
        using w i m1(2) by (simp add: rows_written_def)
      then show ?thesis by (simp add: Suc algebra_simps)
    qed
  next
    fix i assume i: "i < length m" and out: "\<forall>j < Suc k. int i < dp + int j * dst_stride \<or> dp + int j * dst_stride + n \<le> int i"
    have "int i < dp + dst_stride + int j * dst_stride \<or> dp + dst_stride + int j * dst_stride + n \<le> int i"
      if "j < k" for j
      using out [rule_format, of "Suc j"] that by (simp add: algebra_simps)
    then have "m' ! i = m1 ! i" using w i m1(2) by (auto simp: rows_written_def)
    moreover have "m1 ! i = m ! i" using m1(3) i out [rule_format, of 0] by auto
    ultimately show "m' ! i = m ! i" by simp
  qed
  then show ?case using d(1) m1(1) m' by simp
qed

lemma fill_copy:
  assumes "0 \<le> n"
  shows "fill_rows k m dp stride v n = copy_rows k m dp stride (replicate (nat n) v) 0 0 n"
proof -
  have "mem_get (replicate (nat n) v) 0 n = Inr (replicate (nat n) v)"
    using assms by (simp add: mem_get_def)
  then show ?thesis
    by (induction k arbitrary: m dp) (simp_all add: mem_set_put [OF assms])
qed

lemma rows_same:
  assumes w: "rows_written k dp stride n f m m'" and "0 \<le> stride" "0 \<le> n" "lo \<le> dp"
    and hi: "k = 0 \<or> dp + int (k - 1) * stride + n \<le> hi"
  shows "same_outside lo hi m m'"
  unfolding same_outside_def
proof (intro conjI allI impI)
  show "length m' = length m" using w by (simp add: rows_written_def)
next
  fix i assume i: "i < length m" and out: "int i < lo \<or> hi \<le> int i"
  have "int i < dp + int j * stride \<or> dp + int j * stride + n \<le> int i" if j: "j < k" for j
  proof -
    have "0 \<le> int j * stride" "int j * stride \<le> int (k - 1) * stride"
      using assms(2) j by (simp_all add: mult_right_mono)
    then show ?thesis using out hi j assms(3,4) by linarith
  qed
  then show "m' ! i = m ! i" using w i by (auto simp: rows_written_def)
qed

lemma row_fits:
  assumes "0 \<le> y" "0 \<le> x" "0 \<le> S" "k = 0 \<or> y + int k \<le> H" "x + n \<le> S" "H * S \<le> L"
  shows "k = 0 \<or> y * S + x + int (k - 1) * S + n \<le> (y + int k) * S"
    and "k = 0 \<or> y * S + x + int (k - 1) * S + n \<le> L"
proof -
  have a: "y * S + x + int (k - 1) * S + n \<le> (y + int k) * S" if "k \<noteq> 0"
  proof -
    obtain j where "k = Suc j" using \<open>k \<noteq> 0\<close> by (cases k) auto
    then have "(y + int k) * S = y * S + int (k - 1) * S + S" by (simp add: algebra_simps)
    then show ?thesis using assms(5) by linarith
  qed
  then show "k = 0 \<or> y * S + x + int (k - 1) * S + n \<le> (y + int k) * S" by blast
  show "k = 0 \<or> y * S + x + int (k - 1) * S + n \<le> L"
  proof (cases "k = 0")
    case False
    have "(y + int k) * S \<le> H * S" using assms(3,4) False by (intro mult_right_mono) auto
    with a [OF False] assms(6) have "y * S + x + int (k - 1) * S + n \<le> L" by linarith
    then show ?thesis by blast
  qed simp
qed

lemma fill_rows_ok:
  assumes "0 \<le> y" "0 \<le> x" "0 \<le> n" "x + n \<le> S" "k = 0 \<or> y + int k \<le> H" "H * S \<le> int (length m)"
  shows "\<exists>m'. fill_rows k m (y * S + x) S v n = Inr m' \<and>
    rows_written k (y * S + x) S n (\<lambda>j b. v) m m' \<and> same_outside (y * S) ((y + int k) * S) m m'"
proof -
  have S: "0 \<le> S" using assms by linarith
  note fits = row_fits [OF assms(1,2) S assms(5,4,6)]
  obtain m' where m': "copy_rows k m (y * S + x) S (replicate (nat n) v) 0 0 n = Inr m'"
    and w: "rows_written k (y * S + x) S n (\<lambda>j b. replicate (nat n) v ! nat (0 + int j * 0 + b)) m m'"
    using copy_rows_written [of n S "y * S + x" 0 0 k m "replicate (nat n) v"] assms S fits(2) by auto
  have "rows_written k (y * S + x) S n (\<lambda>j b. v) m m'"
    using w by (auto simp: rows_written_def)
  moreover have "same_outside (y * S) ((y + int k) * S) m m'"
    by (rule rows_same [OF w S assms(3) _ fits(1)]) (use assms in simp)
  ultimately show ?thesis using m' by (simp add: fill_copy [OF assms(3)])
qed

lemma copy_rows_ok:
  assumes "0 \<le> y" "0 \<le> x" "0 \<le> n" "x + n \<le> S" "k = 0 \<or> y + int k \<le> H" "H * S \<le> int (length m)"
    and "0 \<le> y'" "0 \<le> x'" "x' + n \<le> S'" "k = 0 \<or> y' + int k \<le> H'" "H' * S' \<le> int (length s)"
  shows "\<exists>m'. copy_rows k m (y * S + x) S s (y' * S' + x') S' n = Inr m' \<and>
    rows_written k (y * S + x) S n (\<lambda>j b. s ! nat (y' * S' + x' + int j * S' + b)) m m' \<and>
    same_outside (y * S) ((y + int k) * S) m m'"
proof -
  have S: "0 \<le> S" "0 \<le> S'" using assms by linarith+
  note fits = row_fits [OF assms(1,2) S(1) assms(5,4,6)]
  note fits' = row_fits [OF assms(7,8) S(2) assms(10,9,11)]
  have nonneg: "0 \<le> y * S + x" "0 \<le> y' * S' + x'" using assms S by simp_all
  obtain m' where m': "copy_rows k m (y * S + x) S s (y' * S' + x') S' n = Inr m'"
    and w: "rows_written k (y * S + x) S n (\<lambda>j b. s ! nat (y' * S' + x' + int j * S' + b)) m m'"
    using copy_rows_written [of n S "y * S + x" "y' * S' + x'" S' k m s] assms S fits(2) fits'(2) nonneg
    by auto
  moreover have "same_outside (y * S) ((y + int k) * S) m m'"
    by (rule rows_same [OF w S(1) assms(3) _ fits(1)]) (use assms in simp)
  ultimately show ?thesis by blast
qed

subsection \<open>The operations on well-formed pixmaps\<close>

definition touches :: "int \<Rightarrow> int \<Rightarrow> pixmap \<Rightarrow> pixmap \<Rightarrow> bool" where
  "touches y0 y1 p q \<longleftrightarrow> width q = width p \<and> height q = height p \<and>
     same_outside (y0 * row_bytes (width p)) (y1 * row_bytes (width p)) (surf p) (surf q)"

lemma touches_refl: "touches y0 y1 p p"
  by (simp add: touches_def same_refl)

lemma touches_trans: "touches y0 y1 p q \<Longrightarrow> touches y0 y1 q r \<Longrightarrow> touches y0 y1 p r"
  by (auto simp: touches_def intro: same_trans)

lemma touches_ok: "touches y0 y1 p q \<Longrightarrow> pixmap_ok p \<Longrightarrow> pixmap_ok q"
  by (simp add: touches_def pixmap_ok_def same_outside_def)

lemma touches_mono:
  "touches y0 y1 p q \<Longrightarrow> pixmap_ok p \<Longrightarrow> y0' \<le> y0 \<Longrightarrow> y1 \<le> y1' \<Longrightarrow> touches y0' y1' p q"
proof -
  assume a: "touches y0 y1 p q" "pixmap_ok p" "y0' \<le> y0" "y1 \<le> y1'"
  have "0 \<le> row_bytes (width p)" using pixmap_okD(1) [OF a(2)] by (simp add: row_bytes_nonneg)
  then have "y0' * row_bytes (width p) \<le> y0 * row_bytes (width p)"
      "y1 * row_bytes (width p) \<le> y1' * row_bytes (width p)"
    using a(3,4) by (simp_all add: mult_right_mono)
  then show ?thesis using a(1) same_mono unfolding touches_def by blast
qed

text \<open>The sums of an operation on coordinates that are ints.\<close>

lemma in_intD: "in_int x \<Longrightarrow> - (2 ^ 31) \<le> x" "in_int x \<Longrightarrow> x < 2 ^ 31"
  by (simp_all add: in_int_def)

lemma moderate_in_int: "moderate x \<Longrightarrow> in_int x"
  by (simp add: moderate_def in_int_def)

lemma clip_low_eq:
  "in_int len \<Longrightarrow> clip_low pos len = (if in_int (len + min pos 0) then Inr (max 0 pos, len + min pos 0) else Inl Int_overflow)"
  by (simp add: clip_low_def int_sum_def)

lemma clip_high_eq:
  assumes "0 \<le> pos" "in_int pos" "0 \<le> bound" "in_int bound"
  shows "clip_high pos len bound = (if in_int (pos + len) then Inr (min len (bound - pos)) else Inl Int_overflow)"
proof -
  have "in_int (bound - pos)" using assms by (auto simp: in_int_def)
  then show ?thesis by (auto simp: clip_high_def int_sum_def int_diff_def)
qed

lemma row_stride_eq: "0 \<le> w \<Longrightarrow> w < 2 ^ 28 \<Longrightarrow> row_stride w = Inr (row_bytes w)"
  by (simp add: row_stride_def int_sum_def row_bytes_def in_int_def)

lemma row_bytes_bound: "0 \<le> w \<Longrightarrow> w < 2 ^ 28 \<Longrightarrow> 0 \<le> row_bytes w \<and> row_bytes w \<le> 2 ^ 27"
  by (simp add: row_bytes_nonneg)

lemma in_int_small: "0 \<le> x \<Longrightarrow> x \<le> 2 ^ 29 \<Longrightarrow> in_int x"
  by (simp add: in_int_def)

lemma even_in_int: "in_int bx \<Longrightarrow> in_int (bx AND NOT 1)"
  unfolding even_part in_int_def by (simp, presburger)

lemma product_in_int:
  assumes "0 \<le> a" "a \<le> h" "0 \<le> n" "n \<le> S" "S * h < 2 ^ 28"
  shows "in_int (a * n)" "in_int (a * n * 2)"
proof -
  have "a * n \<le> h * S" using assms by (intro mult_mono) auto
  moreover have "0 \<le> a * n" using assms by simp
  ultimately show "in_int (a * n)" "in_int (a * n * 2)" using assms(5) by (simp_all add: in_int_def mult.commute)
qed

definition fill_sums :: "int \<Rightarrow> int \<Rightarrow> int \<Rightarrow> int \<Rightarrow> bool" where
  "fill_sums bx by wd ht =
     (let e = bx AND NOT 1 in in_int (wd + min e 0) \<and> in_int (ht + min by 0) \<and>
        in_int (max 0 e + (wd + min e 0)) \<and> in_int (max 0 by + (ht + min by 0)))"

lemma moderate_fill: "moderate bx \<Longrightarrow> moderate by \<Longrightarrow> moderate wd \<Longrightarrow> moderate ht \<Longrightarrow> fill_sums bx by wd ht"
proof -
  assume m: "moderate bx" "moderate by" "moderate wd" "moderate ht"
  have "moderate (bx AND NOT 1)" using m(1) unfolding even_part moderate_def by (simp, presburger)
  with m show ?thesis by (auto simp: fill_sums_def Let_def moderate_def in_int_def)
qed

lemma pix_fill_outcome:
  assumes ok: "pixmap_ok dst" and ints: "in_int bx" "in_int by" "in_int wd" "in_int ht"
  shows "if fill_sums bx by wd ht
    then \<exists>dst' n. pix_fill dst bx by wd ht color = Inr (dst', n) \<and>
      touches (max 0 by) (min (by + ht) (height dst)) dst dst'
    else pix_fill dst bx by wd ht color = Inl Int_overflow"
proof -
  define S where "S = row_bytes (width dst)"
  define e where "e = bx AND NOT 1"
  define x where "x = max 0 e"
  define y where "y = max 0 by"
  define wd' where "wd' = wd + min e 0"
  define ht' where "ht' = ht + min by 0"
  define w where "w = min wd' (width dst - x)"
  define h where "h = min ht' (height dst - y)"
  note dims = pixmap_okD [OF ok]
  have bounds: "in_int (width dst)" "in_int (height dst)" using dims by (simp_all add: in_int_def)
  have xy: "0 \<le> x" "0 \<le> y" "in_int x" "in_int y"
    using even_in_int [OF ints(1)] ints(2) by (auto simp: x_def y_def e_def in_int_def)
  have sums: "fill_sums bx by wd ht = (in_int wd' \<and> in_int ht' \<and> in_int (x + wd') \<and> in_int (y + ht'))"
    by (simp add: fill_sums_def Let_def e_def x_def y_def wd'_def ht'_def)
  note clips0 = clip_low_eq [OF ints(3), of e] clip_low_eq [OF ints(4), of "by"]
    clip_high_eq [OF xy(1,3) dims(1) bounds(1), of wd'] clip_high_eq [OF xy(2,4) dims(3) bounds(2), of ht']
  note clips = clips0 [folded x_def y_def wd'_def ht'_def w_def h_def]
  show ?thesis
  proof (cases "fill_sums bx by wd ht")
    case False
    then show ?thesis unfolding sums pix_fill_def e_def [symmetric] by (auto simp: clips)
  next
    case fits: True
    show ?thesis
    proof (cases "w \<le> 0 \<or> h \<le> 0")
      case True
      then show ?thesis using fits unfolding sums pix_fill_def e_def [symmetric] by (auto simp: clips touches_refl)
    next
      case False
      have "e mod 2 = 0" unfolding e_def even_part by presburger
      then have ev: "x mod 2 = 0" by (auto simp: x_def max_def)
      have half: "x sdiv 2 = x div 2" using xy(1) by (simp add: signed_divide_int_def sgn_if)
      have w: "x + w \<le> width dst" "0 < w" "w \<le> width dst" using False xy by (auto simp: w_def)
      then have rw: "row_bytes w = (w + 1) div 2" by (simp add: row_bytes_nonneg)
      have inside: "x div 2 + row_bytes w \<le> S"
        unfolding S_def rw row_bytes_nonneg [OF dims(1)] using w(1) ev by presburger
      have rw0: "0 \<le> row_bytes w" "row_bytes w \<le> S" using w(2) inside xy(1) by (simp_all add: rw)
      have h: "0 < h" "y + h \<le> height dst" "h \<le> height dst" "y \<le> height dst" using False xy by (auto simp: h_def)
      define c where "c = color AND 0x0F"
      define v where "v = (word_of_int (c OR push_bit 4 c) :: 8 word)"
      have L: "height dst * S \<le> int (length (surf dst))" "S * height dst < 2 ^ 28" "0 \<le> x div 2" "0 \<le> S"
        using dims(6,5) xy(1) rw0 by (simp_all add: mult.commute S_def)
      obtain m' where m': "fill_rows (nat h) (surf dst) (y * S + x div 2) S v (row_bytes w) = Inr m'"
        "same_outside (y * S) ((y + int (nat h)) * S) (surf dst) m'"
        using fill_rows_ok [of y "x div 2" "row_bytes w" S "nat h" "height dst" "surf dst" v] xy(2) rw0 inside L h
        by auto
      have strides: "row_stride (width dst) = Inr S" "row_stride w = Inr (row_bytes w)"
        using dims w by (simp_all add: row_stride_eq S_def)
      have prods: "in_int (y * S)" "in_int (h * row_bytes w * 2)"
        using product_in_int [of y "height dst" S S] product_in_int [of h "height dst" "row_bytes w" S] xy(2) h L rw0
        by simp_all
      have "y + int (nat h) = min (by + ht) (height dst)" using False by (auto simp: h_def y_def ht'_def)
      moreover have "pix_fill dst bx by wd ht color = Inr (dst\<lparr>surf := m'\<rparr>, h * row_bytes w * 2)"
        using fits False prods m'(1)
        unfolding sums pix_fill_def e_def [symmetric] by (simp add: clips strides int_prod_def half c_def [symmetric] v_def [symmetric])
      ultimately show ?thesis using fits m'(2) by (auto simp: touches_def S_def y_def)
    qed
  qed
qed

lemma pix_fill_ok:
  assumes "pixmap_ok dst" "moderate bx" "moderate by" "moderate wd" "moderate ht"
  shows "\<exists>dst' n. pix_fill dst bx by wd ht color = Inr (dst', n) \<and>
    touches (max 0 by) (min (by + ht) (height dst)) dst dst'"
  using pix_fill_outcome [of dst bx "by" wd ht color] assms moderate_fill moderate_in_int by simp

lemma pix_blt_clipped:
  assumes ok: "pixmap_ok dst" "pixmap_ok src" and ints: "in_int bx" "in_int by"
  defines "S \<equiv> row_bytes (width dst)" and "S' \<equiv> row_bytes (width src)" and "e \<equiv> bx div 2"
  defines "nb \<equiv> min (S' + min e 0) (S - max 0 e)" and "h \<equiv> min (height src + min by 0) (height dst - max 0 by)"
  shows "pix_blt dst bx by src =
    (if nb \<le> 0 then Inr (dst, 0)
     else if in_int (- by) \<and> in_int (max 0 by + (height src + min by 0))
     then if h \<le> 0 then Inr (dst, 0)
       else mapR (\<lambda>m. (dst\<lparr>surf := m\<rparr>, h * nb * 2))
         (copy_rows (nat h) (surf dst) (max 0 by * S + max 0 e) S (surf src) (max 0 (- by) * S' + max 0 (- e)) S' nb)
     else Inl Int_overflow)"
proof -
  note dims = pixmap_okD [OF ok(1)] and dims' = pixmap_okD [OF ok(2)]
  have S: "0 \<le> S" "S \<le> 2 ^ 27" "0 \<le> S'" "S' \<le> 2 ^ 27"
    using row_bytes_bound [OF dims(1,2)] row_bytes_bound [OF dims'(1,2)] by (simp_all add: S_def S'_def)
  have strides: "row_stride (width dst) = Inr S" "row_stride (width src) = Inr S'"
    using dims dims' by (simp_all add: row_stride_eq S_def S'_def)
  have e: "- (2 ^ 30) \<le> e" "e < 2 ^ 30" using ints(1) by (simp_all add: e_def in_int_def) presburger+
  have bnd: "in_int S" "in_int S'" "in_int (S' + min e 0)" "in_int (max 0 e)" "in_int (max 0 e + (S' + min e 0))"
      "in_int (height src)" "in_int (height dst)" "in_int (max 0 by)" "in_int (height src + min by 0)"
    using S e dims(3,4) dims'(3,4) ints(2) by (auto simp: in_int_def)
  have neg: "(if e < 0 then int_diff 0 e else Inr 0) = Inr (max 0 (- e))"
      "(if by < 0 then int_diff 0 by else Inr 0) = (if in_int (- by) then Inr (max 0 (- by)) else Inl Int_overflow)"
    using e ints(2) by (auto simp: int_diff_def in_int_def)
  note clips = clip_low_eq [OF bnd(2), of e] clip_high_eq [OF _ bnd(4) S(1) bnd(1), of "S' + min e 0"]
    clip_low_eq [OF bnd(6), of "by"] clip_high_eq [OF _ bnd(8) dims(3) bnd(7), of "height src + min by 0"]
  have prods: "in_int (max 0 by * S)" "in_int (max 0 (- by) * S')" "in_int (h * nb * 2)"
    if "0 < nb" "0 < h"
  proof -
    have h: "h \<le> height dst" "max 0 by \<le> height dst" "max 0 (- by) \<le> height src"
      using that by (auto simp: h_def)
    have n: "nb \<le> S" using that by (auto simp: nb_def)
    have L: "S * height dst < 2 ^ 28" "S' * height src < 2 ^ 28" using dims(5) dims'(5) by (simp_all add: S_def S'_def)
    show "in_int (max 0 by * S)" using product_in_int(1) [of "max 0 by" "height dst" S S] h S L by simp
    show "in_int (max 0 (- by) * S')" using product_in_int(1) [of "max 0 (- by)" "height src" S' S'] h S L by simp
    show "in_int (h * nb * 2)" using product_in_int(2) [of h "height dst" nb S] h(1) n that L by simp
  qed
  have body: "pix_blt dst bx by src =
      (if nb \<le> 0 then Inr (dst, 0)
       else bindR (if in_int (- by) then Inr (max 0 (- by)) else Inl Int_overflow) (\<lambda>src_by.
         bindR (if in_int (max 0 by + (height src + min by 0)) then Inr h else Inl Int_overflow) (\<lambda>n_lines.
           if n_lines \<le> 0 then Inr (dst, 0)
           else bindR (int_prod (max 0 by) S) (\<lambda>dst_start.
             bindR (int_prod src_by S') (\<lambda>src_start.
             bindR (copy_rows (nat n_lines) (surf dst) (dst_start + max 0 e) S
                       (surf src) (src_start + max 0 (- e)) S' nb) (\<lambda>m.
             bindR (int_prod (n_lines * nb) 2) (\<lambda>n. Inr (dst\<lparr>surf := m\<rparr>, n))))))))"
    unfolding pix_blt_def half_even e_def [symmetric] Let_def
    by (simp add: strides neg clips bnd nb_def h_def)
  show ?thesis
  proof (cases "0 < nb \<and> 0 < h")
    case True
    then show ?thesis
      unfolding body using prods
      by (cases "copy_rows (nat h) (surf dst) (max 0 by * S + max 0 e) S (surf src) (max 0 (- by) * S' + max 0 (- e)) S' nb")
        (simp_all add: int_prod_def)
  next
    case False
    then show ?thesis unfolding body by auto
  qed
qed

definition blt_sums :: "int \<Rightarrow> int \<Rightarrow> bool" where
  "blt_sums by ht = (in_int (- by) \<and> in_int (max 0 by + (ht + min by 0)))"

lemma pix_blt_outcome:
  assumes ok: "pixmap_ok dst" "pixmap_ok src" and ints: "in_int bx" "in_int by"
  shows "(\<exists>dst' n. pix_blt dst bx by src = Inr (dst', n) \<and>
      touches (max 0 by) (min (by + height src) (height dst)) dst dst') \<or>
    pix_blt dst bx by src = Inl Int_overflow \<and> \<not> blt_sums by (height src)"
proof -
  define S where "S = row_bytes (width dst)"
  define S' where "S' = row_bytes (width src)"
  define e where "e = bx div 2"
  define nb where "nb = min (S' + min e 0) (S - max 0 e)"
  define h where "h = min (height src + min by 0) (height dst - max 0 by)"
  note body = pix_blt_clipped [OF ok ints, folded S_def S'_def e_def, folded nb_def h_def]
  show ?thesis
  proof (cases "nb \<le> 0 \<or> h \<le> 0 \<or> \<not> blt_sums by (height src)")
    case True
    then show ?thesis unfolding body blt_sums_def by (auto simp: touches_refl)
  next
    case False
    have "height dst * S \<le> int (length (surf dst))" "height src * S' \<le> int (length (surf src))"
      using pixmap_okD(6) ok by (simp_all add: S_def S'_def mult.commute)
    moreover have "0 \<le> nb" "max 0 e + nb \<le> S" "max 0 (- e) + nb \<le> S'"
      using False by (auto simp: nb_def)
    moreover have ht: "int (nat h) = h" using False by simp
    moreover have "max 0 by + h \<le> height dst" "max 0 (- by) + h \<le> height src"
      unfolding h_def by linarith+
    ultimately obtain m' where m': "copy_rows (nat h) (surf dst) (max 0 by * S + max 0 e) S (surf src)
          (max 0 (- by) * S' + max 0 (- e)) S' nb = Inr m'"
        "same_outside (max 0 by * S) ((max 0 by + int (nat h)) * S) (surf dst) m'"
      using copy_rows_ok [of "max 0 by" "max 0 e" nb S "nat h" "height dst" "surf dst" "max 0 (- by)" "max 0 (- e)" S'
          "height src" "surf src"] by auto
    have "max 0 by + int (nat h) = min (by + height src) (height dst)" using False by (auto simp: h_def)
    then show ?thesis
      unfolding body using False m' by (auto simp: touches_def S_def blt_sums_def)
  qed
qed

lemma moderate_blt: "moderate by \<Longrightarrow> pixmap_ok src \<Longrightarrow> blt_sums by (height src)"
  using pixmap_okD(3,4) [of src] by (auto simp: blt_sums_def moderate_def in_int_def)

lemma pix_blt_ok:
  assumes "pixmap_ok dst" "pixmap_ok src" "moderate bx" "moderate by"
  shows "\<exists>dst' n. pix_blt dst bx by src = Inr (dst', n) \<and>
    touches (max 0 by) (min (by + height src) (height dst)) dst dst'"
  using pix_blt_outcome [OF assms(1,2), of bx "by"] assms moderate_in_int moderate_blt by blast

lemma pixmap_xtract_clipped:
  assumes ok: "pixmap_ok dst" "pixmap_ok src" and ints: "in_int bx" "in_int by"
  defines "S \<equiv> row_bytes (width dst)" and "S' \<equiv> row_bytes (width src)"
  defines "nb \<equiv> min (S' - bx div 2) S" and "h \<equiv> min (height dst) (height src - by)"
  shows "pixmap_xtract dst bx by src =
    (if bx < 0 \<or> by < 0 \<or> nb \<le> 0 \<or> h \<le> 0 then Inr (dst, 0)
     else mapR (\<lambda>m. (dst\<lparr>surf := m\<rparr>, h * nb * 2))
       (copy_rows (nat h) (surf dst) 0 S (surf src) (by * S' + bx div 2) S' nb))"
proof (cases "bx < 0 \<or> by < 0")
  case True
  then show ?thesis by (auto simp: pixmap_xtract_def)
next
  case False
  note dims = pixmap_okD [OF ok(1)] and dims' = pixmap_okD [OF ok(2)]
  have S: "0 \<le> S" "S \<le> 2 ^ 27" "0 \<le> S'" "S' \<le> 2 ^ 27"
    using row_bytes_bound [OF dims(1,2)] row_bytes_bound [OF dims'(1,2)] by (simp_all add: S_def S'_def)
  have strides: "row_stride (width dst) = Inr S" "row_stride (width src) = Inr S'"
    using dims dims' by (simp_all add: row_stride_eq S_def S'_def)
  have diffs: "in_int (S' - bx div 2)" "in_int (height src - by)"
    using S False ints dims'(3,4) by (auto simp: in_int_def)
  have prods: "in_int (by * S')" "in_int (h * nb * 2)" if "0 < nb" "0 < h"
  proof -
    have "0 \<le> by" "by \<le> height src" "h \<le> height dst" "nb \<le> S" using that False by (auto simp: h_def nb_def)
    then show "in_int (by * S')" "in_int (h * nb * 2)"
      using product_in_int(1) [of "by" "height src" S' S'] product_in_int(2) [of h "height dst" nb S] S that dims(5) dims'(5)
      by (simp_all add: S_def S'_def)
  qed
  have clip: "(if S' - bx div 2 < S then S' - bx div 2 else S) = nb"
      "(if height dst \<le> height src - by then height dst else height src - by) = h"
    by (auto simp: nb_def h_def)
  show ?thesis
  proof (cases "0 < nb \<and> 0 < h")
    case True
    then show ?thesis
      unfolding pixmap_xtract_def half_even Let_def using False prods diffs
      by (cases "copy_rows (nat h) (surf dst) 0 S (surf src) (by * S' + bx div 2) S' nb")
        (simp_all add: strides int_diff_def int_prod_def clip)
  next
    case no: False
    then show ?thesis
      unfolding pixmap_xtract_def half_even Let_def using False diffs by (auto simp: strides int_diff_def clip)
  qed
qed

lemma pixmap_xtract_ok:
  assumes ok: "pixmap_ok dst" "pixmap_ok src" and ints: "in_int bx" "in_int by"
  shows "\<exists>dst' n. pixmap_xtract dst bx by src = Inr (dst', n) \<and> pixmap_ok dst' \<and>
    width dst' = width dst \<and> height dst' = height dst"
proof -
  define S where "S = row_bytes (width dst)"
  define S' where "S' = row_bytes (width src)"
  define nb where "nb = min (S' - bx div 2) S"
  define h where "h = min (height dst) (height src - by)"
  note body = pixmap_xtract_clipped [OF ok ints, folded S_def S'_def, folded nb_def h_def]
  show ?thesis
  proof (cases "bx < 0 \<or> by < 0 \<or> nb \<le> 0 \<or> h \<le> 0")
    case True
    then show ?thesis unfolding body using ok(1) by auto
  next
    case False
    then have "0 \<le> bx div 2" by simp
    moreover have "height dst * S \<le> int (length (surf dst))" "height src * S' \<le> int (length (surf src))"
      using pixmap_okD(6) ok by (simp_all add: S_def S'_def mult.commute)
    moreover have "0 \<le> by" "0 \<le> nb" "0 + nb \<le> S" "bx div 2 + nb \<le> S'"
        "0 + int (nat h) \<le> height dst" "by + int (nat h) \<le> height src"
      using False by (auto simp: nb_def h_def)
    ultimately obtain m' where m': "copy_rows (nat h) (surf dst) 0 S (surf src) (by * S' + bx div 2) S' nb = Inr m'"
        "length m' = length (surf dst)"
      using copy_rows_ok [of 0 0 nb S "nat h" "height dst" "surf dst" "by" "bx div 2" S' "height src" "surf src"]
      by (auto simp: same_outside_def)
    then show ?thesis
      unfolding body using False ok(1) by (auto simp: pixmap_ok_def)
  qed
qed

text \<open>Rows of the full width, one after the other, are one block of bytes.\<close>

lemma rows_block:
  assumes w: "rows_written k dp S S (\<lambda>j b. s ! nat (sp + int j * S + b)) m m'"
    and i: "i < length m" "dp \<le> int i" "int i < dp + int k * S"
  shows "m' ! i = s ! nat (sp + (int i - dp))"
proof -
  have "0 < S"
  proof (rule ccontr)
    assume "\<not> 0 < S"
    then have "int k * S \<le> 0" by (simp add: mult_nonneg_nonpos)
    with i show False by linarith
  qed
  define j where "j = nat ((int i - dp) div S)"
  have "0 \<le> (int i - dp) div S" using i(2) \<open>0 < S\<close> by (simp add: pos_imp_zdiv_nonneg_iff)
  moreover have "(int i - dp) div S < int k"
  proof (rule ccontr)
    assume "\<not> (int i - dp) div S < int k"
    then have "int k * S \<le> (int i - dp) div S * S" using \<open>0 < S\<close> by simp
    also have "\<dots> \<le> int i - dp" using \<open>0 < S\<close> by (simp add: minus_mod_eq_div_mult [symmetric])
    finally show False using i(3) by linarith
  qed
  ultimately have j: "int j = (int i - dp) div S" "j < k" by (auto simp: j_def)
  have "int j * S \<le> int i - dp" "int i - dp < int j * S + S"
    using \<open>0 < S\<close> unfolding j(1)
    using pos_mod_bound [OF \<open>0 < S\<close>, of "int i - dp"] by (simp_all add: minus_mod_eq_div_mult [symmetric])
  then have "m' ! i = s ! nat (sp + int j * S + (int i - dp - int j * S))"
    using w i(1) j(2) by (auto simp: rows_written_def)
  then show ?thesis by (simp add: algebra_simps)
qed

lemma pix_blt_full:
  assumes ok: "pixmap_ok dst" "pixmap_ok src" and w: "width src = width dst" "0 < row_bytes (width dst)"
    and y: "0 \<le> by" "by + height src \<le> height dst" "0 < height src"
  shows "\<exists>dst' n. pix_blt dst 0 by src = Inr (dst', n) \<and> touches by (by + height src) dst dst' \<and>
    (\<forall>i < length (surf dst). by * row_bytes (width dst) \<le> int i \<and>
        int i < (by + height src) * row_bytes (width dst) \<longrightarrow>
        surf dst' ! i = surf src ! nat (int i - by * row_bytes (width dst)))"
proof -
  define S where "S = row_bytes (width dst)"
  have L: "height dst * S \<le> int (length (surf dst))" "height src * S \<le> int (length (surf src))"
    using pixmap_okD(6) [OF ok(1)] pixmap_okD(6) [OF ok(2)] w(1) by (simp_all add: S_def mult.commute)
  have h: "int (nat (height src)) = height src" using y by simp
  have ints: "in_int 0" "in_int by" "in_int (- by)" "in_int (by + height src)"
    using y pixmap_okD(4) [OF ok(1)] by (simp_all add: in_int_def)
  obtain m' where m': "copy_rows (nat (height src)) (surf dst) (by * S + 0) S (surf src) (0 * S + 0) S S = Inr m'"
      "rows_written (nat (height src)) (by * S + 0) S S (\<lambda>j b. surf src ! nat (0 * S + 0 + int j * S + b)) (surf dst) m'"
      "same_outside (by * S) ((by + int (nat (height src))) * S) (surf dst) m'"
    using copy_rows_ok [of "by" 0 S S "nat (height src)" "height dst" "surf dst" 0 0 S "height src" "surf src"]
      L y w(2) by (auto simp: S_def)
  have "pix_blt dst 0 by src = Inr (dst\<lparr>surf := m'\<rparr>, height src * S * 2)"
    using pix_blt_clipped [OF ok ints(1,2)] m'(1) y w ints by (simp add: S_def)
  moreover have "surf src ! nat (int i - by * S) = m' ! i"
    if "i < length (surf dst)" "by * S \<le> int i" "int i < (by + height src) * S" for i
    using rows_block [of "nat (height src)" "by * S" S "surf src" 0 "surf dst" m' i] m'(2) that h
    by (simp add: algebra_simps)
  ultimately show ?thesis using m'(3) h by (auto simp: touches_def S_def)
qed

lemma pixmap_xtract_full:
  assumes ok: "pixmap_ok dst" "pixmap_ok src" and w: "width dst = width src" "0 < row_bytes (width src)"
    and y: "0 \<le> by" "by + height dst \<le> height src" "0 < height dst"
  shows "\<exists>dst' n. pixmap_xtract dst 0 by src = Inr (dst', n) \<and> pixmap_ok dst' \<and>
    width dst' = width dst \<and> height dst' = height dst \<and> length (surf dst') = length (surf dst) \<and>
    (\<forall>i < length (surf dst). int i < height dst * row_bytes (width dst) \<longrightarrow>
        surf dst' ! i = surf src ! nat (int i + by * row_bytes (width dst)))"
proof -
  define S where "S = row_bytes (width src)"
  have L: "height dst * S \<le> int (length (surf dst))" "height src * S \<le> int (length (surf src))"
    using pixmap_okD(6) [OF ok(1)] pixmap_okD(6) [OF ok(2)] w(1) by (simp_all add: S_def mult.commute)
  have h: "int (nat (height dst)) = height dst" using y by simp
  have ints: "in_int 0" "in_int by" using y pixmap_okD(4) [OF ok(2)] by (simp_all add: in_int_def)
  obtain m' where m': "copy_rows (nat (height dst)) (surf dst) (0 * S + 0) S (surf src) (by * S + 0) S S = Inr m'"
      "rows_written (nat (height dst)) (0 * S + 0) S S (\<lambda>j b. surf src ! nat (by * S + 0 + int j * S + b)) (surf dst) m'"
    using copy_rows_ok [of 0 0 S S "nat (height dst)" "height dst" "surf dst" "by" 0 S "height src" "surf src"]
      L y w(2) by (auto simp: S_def)
  have len: "length m' = length (surf dst)" using m'(2) by (simp add: rows_written_def)
  have "pixmap_xtract dst 0 by src = Inr (dst\<lparr>surf := m'\<rparr>, height dst * S * 2)"
    using pixmap_xtract_clipped [OF ok ints] m'(1) y w by (simp add: S_def)
  moreover have "surf src ! nat (int i + by * S) = m' ! i"
    if "i < length (surf dst)" "int i < height dst * S" for i
    using rows_block [of "nat (height dst)" 0 S "surf src" "by * S" "surf dst" m' i] m'(2) that h
    by (simp add: algebra_simps)
  ultimately show ?thesis using len ok(1) w(1) by (auto simp: pixmap_ok_def S_def)
qed

lemma pixbuf_alloc_ok:
  assumes "pixbuf_alloc malloc w h = Some p" "size_ok w h"
  shows "pixmap_ok p" "width p = w" "height p = h" "int (length (surf p)) = row_bytes w * h"
proof -
  have "p = \<lparr>width = w, height = h, surf = replicate (nat (row_bytes w * h)) 0\<rparr>"
    using assms(1) by (auto simp: pixbuf_alloc_def Let_def split: if_splits)
  moreover have "0 \<le> row_bytes w * h" using assms(2) by (simp add: size_ok_def row_bytes_nonneg)
  ultimately show "pixmap_ok p" "width p = w" "height p = h" "int (length (surf p)) = row_bytes w * h"
    using assms by (simp_all add: pixmap_ok_def)
qed

lemma invert_bytes_overrun: "length m < i + n \<Longrightarrow> i \<le> length m \<Longrightarrow> invert_bytes n m i = Inl Buffer_overflow"
  by (induction n m i rule: invert_bytes.induct) auto

section \<open>Properties\<close>

text \<open>C38: The pixmap operations stay inside the surfaces for all ints as coordinates and lengths, negative
  ones and ones beyond the edges included, on pixmaps whose sizes are below 2^28: filling and copying
  change no byte outside the rows of the rectangle and keep the sizes, and extracting never faults. A
  filling faults exactly when one of its clipping sums leaves the range of int, which C leaves
  undefined, and a copy only then; below 2^30 no sum does.\<close>
theorem pixmap_operations_in_bounds:
  assumes "pixmap_ok dst" and "pixmap_ok src" and "in_int bx" and "in_int by" and "in_int wd" and "in_int ht"
  shows "(if fill_sums bx by wd ht
      then \<exists>d n. pix_fill dst bx by wd ht color = Inr (d, n) \<and> touches (max 0 by) (min (by + ht) (height dst)) dst d
      else pix_fill dst bx by wd ht color = Inl Int_overflow) \<and>
    ((\<exists>d n. pix_blt dst bx by src = Inr (d, n) \<and> touches (max 0 by) (min (by + height src) (height dst)) dst d) \<or>
      pix_blt dst bx by src = Inl Int_overflow \<and> \<not> blt_sums by (height src)) \<and>
    (\<exists>d n. pixmap_xtract dst bx by src = Inr (d, n) \<and> pixmap_ok d \<and> width d = width dst \<and> height d = height dst) \<and>
    (moderate bx \<and> moderate by \<and> moderate wd \<and> moderate ht \<longrightarrow> fill_sums bx by wd ht \<and> blt_sums by (height src))"
  using pix_fill_outcome [OF assms(1,3-6)] pix_blt_outcome [OF assms(1-4)] pixmap_xtract_ok [OF assms(1-4)]
    moderate_fill moderate_blt [OF _ assms(2)] by blast

theorem pixmap_operations_in_bounds_witness:
  "(\<exists>d n. pix_blt \<lparr>width = 3, height = 2, surf = [1, 2, 3, 4]\<rparr> (-2) (-1)
      \<lparr>width = 4, height = 3, surf = [5, 6, 7, 8, 9, 10]\<rparr> = Inr (d, n) \<and> height d = 2) \<and>
   pix_fill \<lparr>width = 3, height = 2, surf = [1, 2, 3, 4]\<rparr> 2 0 (2 ^ 31 - 1) 1 0 = Inl Int_overflow"
proof -
  let ?d = "\<lparr>width = 3, height = 2, surf = [1, 2, 3, 4]\<rparr>" and ?s = "\<lparr>width = 4, height = 3, surf = [5, 6, 7, 8, 9, 10]\<rparr>"
  have ok: "pixmap_ok ?d" "pixmap_ok ?s"
    by (simp_all add: pixmap_ok_def size_ok_def row_bytes_nonneg)
  have ints: "in_int (-2)" "in_int (-1)" "in_int 0" "in_int 1" "in_int 2" "in_int (2 ^ 31 - 1)" "moderate (-1)"
    by (simp_all add: in_int_def moderate_def)
  have "(2 :: int) AND NOT 1 = 2" by simp
  then have "\<not> fill_sums 2 0 (2 ^ 31 - 1) 1" "blt_sums (-1) (height ?s)"
    using moderate_blt [OF ints(7) ok(2)] by (simp_all add: fill_sums_def in_int_def)
  then show ?thesis
    using pixmap_operations_in_bounds [OF ok ints(1,2,3,3), of 0] pixmap_operations_in_bounds [OF ok ints(5,3,6,4), of 0]
    by (auto simp: touches_def)
qed

text \<open>pixmap\_invert counts width * height bytes, not the (width+1)/2 * height the surface has:
  on every buffer that pixbuf\_alloc gives for two columns or more it writes past the end.\<close>
theorem pixmap_invert_overruns:
  assumes "pixbuf_alloc malloc w h = Some p" and "2 \<le> w" and "1 \<le> h" and "size_ok w h"
  shows "pixmap_invert p = Inl Buffer_overflow"
proof -
  note p = pixbuf_alloc_ok [OF assms(1,4)]
  have one: "(1 :: int) sdiv 2 = 0" by code_simp
  have ints: "in_int w" "in_int (w * h)"
  proof -
    have "w * h \<le> (2 * row_bytes w) * h" using assms(2,3) by (intro mult_right_mono) (simp_all add: row_bytes_nonneg)
    moreover have "0 \<le> w * h" using assms(2,3) by simp
    moreover have "row_bytes w * h < 2 ^ 28" "0 \<le> w" "w < 2 ^ 28" using assms(4) by (simp_all add: size_ok_def)
    ultimately show "in_int w" "in_int (w * h)" unfolding in_int_def by (simp_all add: mult.assoc)
  qed
  have "row_bytes w < w" using assms(2) by (simp add: row_bytes_nonneg)
  then have "row_bytes w * h < w * h" using assms(3) by (simp add: mult_strict_right_mono)
  then have "length (surf p) < nat (w * h)" using p(4) assms(2,3) by linarith
  then have "invert_bytes (nat (w * h)) (surf p) 0 = Inl Buffer_overflow"
    by (intro invert_bytes_overrun) simp_all
  then show ?thesis using p(2,3) assms(2,3) by (simp add: pixmap_invert_def one int_sum_def int_prod_def ints)
qed

theorem pixmap_invert_overruns_witness:
  "pixmap_invert \<lparr>width = 2, height = 1, surf = [0]\<rparr> = Inl Buffer_overflow"
proof (rule pixmap_invert_overruns)
  show "pixbuf_alloc (\<lambda>n. True) 2 1 = Some \<lparr>width = 2, height = 1, surf = [0]\<rparr>" by code_simp
qed (simp_all add: size_ok_def row_bytes_nonneg)

end
