(* ===== verification/Screen.thy ===== *)
theory Screen
  imports Pixop Effects
begin

text \<open>
  src/font.c, src/screen.c and src/statusbar.c: glyphs, the mapped framebuffer, the text and flash
  functions on it, and the status bar that is drawn over the lowest rows of the screen and taken
  away again. A null screen pointer is None, and the functions follow it without a check. The
  display updates and delays are effects. The glyph bytes of the font are a parameter.
\<close>

section \<open>The font\<close>

record font =
  code_first :: int
  code_last :: int
  nbytesperchar :: int
  font_pixmap :: pixmap

definition FNTWIDTH :: int where "FNTWIDTH = 12"
definition FNTHEIGHT :: int where "FNTHEIGHT = 22"

definition default_font_table :: "8 word list \<Rightarrow> font" where
  "default_font_table glyphs = \<lparr>code_first = 0, code_last = 255,
     nbytesperchar = FNTHEIGHT * (((FNTWIDTH + 1) * 4) sdiv 8),
     font_pixmap = \<lparr>width = FNTWIDTH, height = FNTHEIGHT, surf = glyphs\<rparr>\<rparr>"

text \<open>A file given to getfngfont: the header of 14 bytes, then the glyphs. None is a file that cannot
  be opened, read or stored; a null path gives the built-in font.\<close>

definition short_at :: "8 word list \<Rightarrow> nat \<Rightarrow> int" where
  "short_at m i = sint (word_of_int (uint (m ! i) + 256 * uint (m ! (i + 1))) :: short)"

definition fng_magic :: "8 word list" where "fng_magic = [0x46, 0x4E, 0x47, 0x20]"

definition getfngfont :: "8 word list option option \<Rightarrow> font \<Rightarrow> font res" where
  "getfngfont path f =
     (case path of
        None \<Rightarrow> Inr f
      | Some None \<Rightarrow> Inr f
      | Some (Some m) \<Rightarrow>
          bindR (guardR (4 \<le> length m) Buffer_overread) (\<lambda>_.
            if take 4 m = fng_magic
            then bindR (guardR (14 \<le> length m) Buffer_overread) (\<lambda>_.
                 Inr \<lparr>code_first = short_at m 10, code_last = short_at m 12,
                      nbytesperchar = short_at m 6 * ((short_at m 4 * 1 * 4) sdiv 8),
                      font_pixmap = \<lparr>width = short_at m 4, height = short_at m 6, surf = drop 14 m\<rparr>\<rparr>)
            else Inr f))"

text \<open>The pixmap of a character: a view of the font's bytes from its glyph on.\<close>

definition get_char_pixmap :: "font \<Rightarrow> int \<Rightarrow> pixmap" where
  "get_char_pixmap f code =
     (let code = code AND 0xFF; code = (if code < code_first f \<or> code_last f < code then code_first f else code)
      in \<lparr>width = width (font_pixmap f), height = height (font_pixmap f),
          surf = drop (nat ((code - code_first f) * nbytesperchar f)) (surf (font_pixmap f))\<rparr>)"

definition get_font_metrics :: "font \<Rightarrow> int \<times> int" where
  "get_font_metrics f = (width (font_pixmap f), height (font_pixmap f))"

section \<open>The framebuffer\<close>

record fbscreen =
  scr_fd :: int
  screensize :: int
  surface :: pixmap

text \<open>The outcome of the system calls: the descriptor (-1 for none), the resolution and bits of
  FBIOGET_VSCREENINFO (None when it fails), and the mapped memory of a size, if it maps.\<close>

record display =
  fb_open :: int
  fb_vinfo :: "(int \<times> int \<times> int) option"
  fb_map :: "int \<Rightarrow> 8 word list option"

definition fbscreen_open :: "display \<Rightarrow> fbscreen option" where
  "fbscreen_open d =
     (if fb_open d \<noteq> -1
      then (let (xres, yres, bits) = (case fb_vinfo d of None \<Rightarrow> (600, 800, 4) | Some v \<Rightarrow> v);
                size = (xres * yres * bits) sdiv 8
            in case fb_map d size of
                 None \<Rightarrow> None
               | Some m \<Rightarrow> Some \<lparr>scr_fd = fb_open d, screensize = size,
                                surface = \<lparr>width = xres, height = yres, surf = m\<rparr>\<rparr>)
      else None)"

definition UMODE_INVERT :: int where "UMODE_INVERT = 21"
definition UMODE_PARTIAL :: int where "UMODE_PARTIAL = 0"
definition UMODE_FULL :: int where "UMODE_FULL = 0"

text \<open>The functions on a screen give the changed screen and the effects.\<close>

type_synonym drawn = "(fbscreen \<times> effect list) res"

definition on_surface :: "fbscreen \<Rightarrow> (pixmap \<Rightarrow> (pixmap \<times> int) res) \<Rightarrow> (fbscreen \<times> int) res" where
  "on_surface s f = mapR (\<lambda>(p, n). (s\<lparr>surface := p\<rparr>, n)) (f (surface s))"

definition screen_update_area :: "int \<Rightarrow> int \<Rightarrow> int \<Rightarrow> int \<Rightarrow> int \<Rightarrow> effect list" where
  "screen_update_area mode x0 y0 w h = [Update mode x0 y0 (x0 + w) (y0 + h)]"

definition screen_rect_at :: "fbscreen \<Rightarrow> int \<Rightarrow> int \<Rightarrow> int \<Rightarrow> int \<Rightarrow> int \<Rightarrow> (fbscreen \<times> int) res" where
  "screen_rect_at s x0 y0 w h color = on_surface s (\<lambda>p. pix_fill p x0 y0 w h color)"

definition screen_put_pixmap :: "fbscreen \<Rightarrow> int \<Rightarrow> int \<Rightarrow> pixmap option \<Rightarrow> (fbscreen \<times> int) res" where
  "screen_put_pixmap s x0 y0 src =
     (case src of None \<Rightarrow> Inr (s, 0) | Some q \<Rightarrow> on_surface s (\<lambda>p. pix_blt p x0 y0 q))"

definition screen_get_pixmap :: "fbscreen \<Rightarrow> int \<Rightarrow> int \<Rightarrow> pixmap option \<Rightarrow> pixmap option res" where
  "screen_get_pixmap s x0 y0 dst =
     (case dst of None \<Rightarrow> Inr None
      | Some q \<Rightarrow> mapR (\<lambda>(q', n). Some q') (pixmap_xtract q x0 y0 (surface s)))"

text \<open>flash\_thread, run to its end: save the area, then count times an inverting update, a delay, the
  saved bytes put back, an update and a delay.\<close>

fun flash_loop :: "nat \<Rightarrow> fbscreen \<Rightarrow> int \<Rightarrow> int \<Rightarrow> int \<Rightarrow> int \<Rightarrow> int \<Rightarrow> pixmap \<Rightarrow> drawn" where
  "flash_loop 0 s x0 y0 w h delay psave = Inr (s, [])"
| "flash_loop (Suc n) s x0 y0 w h delay psave =
     bindR (screen_put_pixmap s x0 y0 (Some psave)) (\<lambda>(s, _).
     bindR (flash_loop n s x0 y0 w h delay psave) (\<lambda>(s, es).
       Inr (s, [Update UMODE_INVERT x0 y0 (x0 + w) (y0 + h), Delay delay,
                Update UMODE_PARTIAL x0 y0 (x0 + w) (y0 + h), Delay delay] @ es)))"

definition flash_whole ::
    "(nat \<Rightarrow> bool) \<Rightarrow> fbscreen \<Rightarrow> int \<Rightarrow> int \<Rightarrow> int \<Rightarrow> int \<Rightarrow> int \<Rightarrow> int \<Rightarrow> drawn" where
  "flash_whole malloc s count x0 y0 w h delay =
     (case pixbuf_alloc malloc w h of
        None \<Rightarrow> Inr (s, [])
      | Some q \<Rightarrow> bindR (screen_get_pixmap s x0 y0 (Some q)) (\<lambda>q'.
          case q' of None \<Rightarrow> Inr (s, []) | Some psave \<Rightarrow> flash_loop (nat count) s x0 y0 w h delay psave))"

text \<open>With the wait flag the caller runs flash\_thread itself; without it a thread is created, whose work
  is the subject of the theory Flash.\<close>

definition screen_flash_area ::
    "(nat \<Rightarrow> bool) \<Rightarrow> fbscreen \<Rightarrow> int \<Rightarrow> int \<Rightarrow> int \<Rightarrow> int \<Rightarrow> int \<Rightarrow> int \<Rightarrow> bool \<Rightarrow> drawn" where
  "screen_flash_area malloc s count x0 y0 w h delay waitflag =
     (if waitflag then flash_whole malloc s count x0 y0 w h delay
      else Inr (s, [Flash_thread count x0 y0 w h delay]))"

text \<open>The characters drawn by screen_string_at: the loop draws one even when n is 0, and fetches the
  glyph behind the one drawn before it looks at n.\<close>

fun string_loop :: "font \<Rightarrow> nat \<Rightarrow> fbscreen \<Rightarrow> int \<Rightarrow> int \<Rightarrow> char list \<Rightarrow> fbscreen res" where
  "string_loop f n s x y (c # d # cs) =
     bindR (on_surface s (\<lambda>p. pix_blt p x y (get_char_pixmap f (of_char c)))) (\<lambda>(s, _).
       if 1 < n then string_loop f (n - 1) s (x + width (font_pixmap f)) y (d # cs) else Inr s)"
| "string_loop f n s x y cs = Inl Buffer_overread"

definition screen_string_at :: "font \<Rightarrow> fbscreen \<Rightarrow> int \<Rightarrow> int \<Rightarrow> string \<Rightarrow> (fbscreen \<times> int) res" where
  "screen_string_at f s x0 y0 str =
     (let len = int (length str); w = width (font_pixmap f); nlines = height (font_pixmap f) in
      if y0 + nlines \<le> height (surface s)
      then (if x0 + w \<le> width (surface s)
            then bindR (guardR (w - 2 \<noteq> 0) Div_zero) (\<lambda>_.
                 let n = (width (surface s) - x0) sdiv (w - 2); n = (if len < n then len else n) in
                 bindR (string_loop f (nat n) s x0 y0 (str @ [NUL])) (\<lambda>s. Inr (s, n)))
            else Inr (s, 0))
      else Inr (s, 0))"

section \<open>The status bar\<close>

definition STATUSBAR_HEIGHT :: int where "STATUSBAR_HEIGHT = 30"

text \<open>A null screen pointer is followed by all of them.\<close>

definition with_screen :: "fbscreen option \<Rightarrow> (fbscreen \<Rightarrow> 'a res) \<Rightarrow> 'a res" where
  "with_screen ps f = (case ps of None \<Rightarrow> Inl Null_deref | Some s \<Rightarrow> f s)"

definition bar_top :: "fbscreen \<Rightarrow> int" where
  "bar_top s = height (surface s) - STATUSBAR_HEIGHT"

definition statusbar_show ::
    "(nat \<Rightarrow> bool) \<Rightarrow> fbscreen option \<Rightarrow> (fbscreen \<times> pixmap option \<times> effect list) res" where
  "statusbar_show malloc ps = with_screen ps (\<lambda>s.
     bindR (screen_get_pixmap s 0 (bar_top s) (pixbuf_alloc malloc (width (surface s)) STATUSBAR_HEIGHT)) (\<lambda>psav.
     bindR (screen_rect_at s 0 (bar_top s) (width (surface s)) STATUSBAR_HEIGHT 0) (\<lambda>(s, _).
       Inr (s, psav, screen_update_area UMODE_PARTIAL 0 (bar_top s) (width (surface s)) STATUSBAR_HEIGHT))))"

definition statusbar_hide :: "fbscreen option \<Rightarrow> pixmap option \<Rightarrow> drawn" where
  "statusbar_hide ps psav = with_screen ps (\<lambda>s.
     bindR (screen_put_pixmap s 0 (bar_top s) psav) (\<lambda>(s, _).
       Inr (s, screen_update_area UMODE_FULL 0 (bar_top s - 1) (width (surface s)) STATUSBAR_HEIGHT)))"

definition statusbar_text :: "font \<Rightarrow> fbscreen option \<Rightarrow> string \<Rightarrow> drawn" where
  "statusbar_text f ps str = with_screen ps (\<lambda>s.
     bindR (screen_rect_at s 0 (bar_top s) (width (surface s)) STATUSBAR_HEIGHT 0) (\<lambda>(s, _).
     bindR (screen_string_at f s 30 (bar_top s) str) (\<lambda>(s, _). Inr (s, []))))"

definition statusbar_flash :: "(nat \<Rightarrow> bool) \<Rightarrow> fbscreen option \<Rightarrow> int \<Rightarrow> int \<Rightarrow> bool \<Rightarrow> drawn" where
  "statusbar_flash malloc ps count tmo waitflag = with_screen ps (\<lambda>s.
     screen_flash_area malloc s count 0 (bar_top s) (width (surface s)) STATUSBAR_HEIGHT tmo waitflag)"

end
