(* ===== verification/ScreenProps.thy ===== *)
theory ScreenProps
  imports Screen
begin

text \<open>
  The status bar takes nothing away: showing it saves the lowest rows of the screen, everything
  drawn on it stays in these rows, and hiding it puts the saved bytes back. The law is stated as
  an interface (save, change, restore), which the execution of actions uses.
\<close>

section \<open>The interface\<close>

locale saved_area =
  fixes ok :: "'s \<Rightarrow> bool"
    and changed :: "'s \<Rightarrow> 's \<Rightarrow> bool"
    and save :: "'s \<Rightarrow> 'p \<Rightarrow> 's \<Rightarrow> bool"
    and restore :: "'s \<Rightarrow> 'p \<Rightarrow> 's \<Rightarrow> bool"
  assumes changed_refl: "changed s s"
    and changed_trans: "changed s t \<Longrightarrow> changed t u \<Longrightarrow> changed s u"
    and save_changes: "ok s \<Longrightarrow> save s p t \<Longrightarrow> changed s t"
    and restores: "ok s \<Longrightarrow> save s p t \<Longrightarrow> changed s u \<Longrightarrow> restore u p s"
begin

lemma changed_star: "changed\<^sup>*\<^sup>* s t \<Longrightarrow> changed s t"
proof (induction rule: rtranclp_induct)
  case base
  show ?case by (rule changed_refl)
next
  case (step t u)
  then show ?case using changed_trans by blast
qed

lemma restored_after:
  assumes "ok s" "save s p t" "changed\<^sup>*\<^sup>* t u"
  shows "restore u p s"
  using assms restores save_changes changed_star changed_trans by metis

end

section \<open>The status bar's rows\<close>

definition screen_ok :: "fbscreen \<Rightarrow> bool" where
  "screen_ok s = (pixmap_ok (surface s) \<and> 0 < width (surface s) \<and> STATUSBAR_HEIGHT \<le> height (surface s))"

definition bar_changed :: "fbscreen \<Rightarrow> fbscreen \<Rightarrow> bool" where
  "bar_changed s t = (scr_fd t = scr_fd s \<and> screensize t = screensize s \<and>
     touches (bar_top s) (height (surface s)) (surface s) (surface t))"

definition font_ok :: "font \<Rightarrow> bool" where
  "font_ok f = (2 < width (font_pixmap f) \<and> 0 \<le> height (font_pixmap f) \<and>
     height (font_pixmap f) \<le> STATUSBAR_HEIGHT \<and> (\<forall>c. pixmap_ok (get_char_pixmap f c)))"

lemma bar_refl: "bar_changed s s"
  by (simp add: bar_changed_def touches_refl)

lemma bar_size: "bar_changed s t \<Longrightarrow> height (surface t) = height (surface s) \<and>
    width (surface t) = width (surface s) \<and> bar_top t = bar_top s"
  by (simp add: bar_changed_def touches_def bar_top_def)

lemma bar_trans: "bar_changed s t \<Longrightarrow> bar_changed t u \<Longrightarrow> bar_changed s u"
  using bar_size [of s t] by (auto simp: bar_changed_def intro: touches_trans)

lemma bar_ok: "bar_changed s t \<Longrightarrow> screen_ok s \<Longrightarrow> screen_ok t"
  using bar_size [of s t] touches_ok by (auto simp: bar_changed_def screen_ok_def)

text \<open>The built-in font is well formed when it has all its glyph bytes.\<close>

lemma default_font_ok:
  assumes "length glyphs = 256 * 132"
  shows "font_ok (default_font_table glyphs)"
proof -
  have n: "nbytesperchar (default_font_table glyphs) = 132" by code_simp
  have rb: "row_bytes 12 = 6" by (simp add: row_bytes_nonneg)
  have "pixmap_ok (get_char_pixmap (default_font_table glyphs) c)" for c
  proof -
    have "0 \<le> c AND 0xFF" "c AND 0xFF \<le> 0xFF" by (simp_all add: AND_upper2)
    then show ?thesis
      using assms n
      by (simp add: get_char_pixmap_def pixmap_ok_def default_font_table_def FNTWIDTH_def FNTHEIGHT_def
          size_ok_def Let_def rb nat_le_iff)
  qed
  then show ?thesis by (simp add: font_ok_def default_font_table_def FNTWIDTH_def FNTHEIGHT_def
        STATUSBAR_HEIGHT_def)
qed

lemma on_surface_bar:
  assumes "\<exists>p n. f (surface s) = Inr (p, n) \<and> touches y0 y1 (surface s) p"
    and "pixmap_ok (surface s)" "bar_top s \<le> y0" "y1 \<le> height (surface s)"
  shows "\<exists>t n. on_surface s f = Inr (t, n) \<and> bar_changed s t"
  using assms touches_mono [of y0 y1 "surface s"]
  by (auto simp: on_surface_def bar_changed_def)

lemma bar_moderate:
  assumes "screen_ok s"
  shows "moderate 0" "moderate (bar_top s)" "moderate (width (surface s))" "moderate STATUSBAR_HEIGHT"
    "in_int 0" "in_int (bar_top s)"
  using assms pixmap_okD(1-4) [of "surface s"]
  by (auto simp: screen_ok_def moderate_def bar_top_def STATUSBAR_HEIGHT_def in_int_def)

text \<open>The bitmap of the bar that is allocated for a screen.\<close>

lemma bar_size_ok:
  assumes "screen_ok s"
  shows "size_ok (width (surface s)) STATUSBAR_HEIGHT"
proof -
  have ok: "pixmap_ok (surface s)" "STATUSBAR_HEIGHT \<le> height (surface s)" using assms by (simp_all add: screen_ok_def)
  have "row_bytes (width (surface s)) * STATUSBAR_HEIGHT \<le> row_bytes (width (surface s)) * height (surface s)"
    using ok(2) pixmap_okD(1) [OF ok(1)] by (intro mult_left_mono) (simp_all add: row_bytes_nonneg)
  then show ?thesis
    using pixmap_okD [OF ok(1)] by (simp add: size_ok_def) (simp add: STATUSBAR_HEIGHT_def)
qed

lemma rect_bar:
  assumes "screen_ok s"
  shows "\<exists>t n. screen_rect_at s 0 (bar_top s) (width (surface s)) STATUSBAR_HEIGHT c = Inr (t, n) \<and>
    bar_changed s t"
  unfolding screen_rect_at_def
  by (rule on_surface_bar, rule pix_fill_ok)
    (use assms bar_moderate [OF assms] in \<open>auto simp: screen_ok_def bar_top_def moderate_def\<close>)

lemma blt_bar:
  assumes "screen_ok s" "pixmap_ok q" "height q \<le> STATUSBAR_HEIGHT" "moderate x"
  shows "\<exists>t n. on_surface s (\<lambda>p. pix_blt p x (bar_top s) q) = Inr (t, n) \<and> bar_changed s t"
  by (rule on_surface_bar, rule pix_blt_ok)
    (use assms bar_moderate [OF assms(1)] in \<open>auto simp: screen_ok_def bar_top_def\<close>)

lemma char_height: "height (get_char_pixmap f c) = height (font_pixmap f)"
  by (simp add: get_char_pixmap_def Let_def)

lemma string_loop_bar:
  assumes f: "font_ok f"
  shows "screen_ok s \<Longrightarrow> 0 < n \<Longrightarrow> n < length cs \<Longrightarrow> 0 \<le> x \<Longrightarrow> x + int n * width (font_pixmap f) < 2 ^ 30 \<Longrightarrow>
    \<exists>t. string_loop f n s x (bar_top s) cs = Inr t \<and> bar_changed s t"
proof (induction n arbitrary: s x cs)
  case 0
  then show ?case by simp
next
  case (Suc n)
  then obtain c d ds where cs: "cs = c # d # ds"
    by (cases cs; cases "tl cs") auto
  have w: "2 < width (font_pixmap f)" using f by (simp add: font_ok_def)
  then have next_x: "0 \<le> x + width (font_pixmap f)" "x + width (font_pixmap f) + int n * width (font_pixmap f) < 2 ^ 30"
    using Suc.prems(4,5) by (simp_all add: algebra_simps)
  have "0 \<le> int n * width (font_pixmap f)" using w by simp
  then have moderate: "moderate x" using next_x(2) w Suc.prems(4) unfolding moderate_def by linarith
  obtain t m where t: "on_surface s (\<lambda>p. pix_blt p x (bar_top s) (get_char_pixmap f (of_char c))) = Inr (t, m)"
      "bar_changed s t"
    using blt_bar [OF Suc.prems(1), of "get_char_pixmap f (of_char c)" x] f char_height moderate unfolding font_ok_def by metis
  show ?case
  proof (cases n)
    case 0
    then show ?thesis using t cs by simp
  next
    case (Suc k)
    have "bar_top t = bar_top s" using bar_size [OF t(2)] by simp
    moreover obtain u where "string_loop f n t (x + width (font_pixmap f)) (bar_top t) (d # ds) = Inr u"
        "bar_changed t u"
      using Suc.IH [OF bar_ok [OF t(2) Suc.prems(1)], of "d # ds" "x + width (font_pixmap f)"]
        Suc.prems(3) cs \<open>n = Suc k\<close> next_x by auto
    ultimately show ?thesis using t cs Suc bar_trans [OF t(2)] by auto
  qed
qed

lemma text_bar:
  assumes "font_ok f" "screen_ok s" "str \<noteq> []"
  shows "\<exists>t es. statusbar_text f (Some s) str = Inr (t, es) \<and> bar_changed s t"
proof -
  obtain t n where t: "screen_rect_at s 0 (bar_top s) (width (surface s)) STATUSBAR_HEIGHT 0 = Inr (t, n)"
      "bar_changed s t"
    using rect_bar [OF assms(2)] by blast
  have top: "bar_top t = bar_top s" and ok: "screen_ok t"
    using bar_size [OF t(2)] bar_ok [OF t(2) assms(2)] by simp_all
  define w where "w = width (font_pixmap f)"
  have w: "2 < w" using assms(1) by (simp add: font_ok_def w_def)
  have "\<exists>u n. screen_string_at f t 30 (bar_top t) str = Inr (u, n) \<and> bar_changed t u"
  proof (cases "bar_top t + height (font_pixmap f) \<le> height (surface t) \<and> 30 + w \<le> width (surface t)")
    case False
    then show ?thesis
      by (auto simp: screen_string_at_def Let_def w_def bar_refl)
  next
    case True
    define q where "q = (width (surface t) - 30) sdiv (w - 2)"
    define m where "m = (if int (length str) < q then int (length str) else q)"
    have "(w - 2) div (w - 2) \<le> (width (surface t) - 30) div (w - 2)"
      using True w by (intro zdiv_mono1) auto
    then have "0 < q" using True w by (simp add: q_def signed_divide_int_def sgn_if)
    then have m: "0 < nat m" "nat m < length (str @ [NUL])" using assms(3) by (auto simp: m_def)
    have "30 + int (nat m) * w < 2 ^ 30"
    proof -
      let ?W = "width (surface t)"
      have W: "0 \<le> ?W - 30" "?W < 2 ^ 28" using True w ok pixmap_okD(2) [of "surface t"] by (simp_all add: screen_ok_def)
      have "q = (?W - 30) div (w - 2)" using W w by (simp add: q_def signed_divide_int_def sgn_if)
      then have "q * (w - 2) \<le> ?W - 30" using w by (simp add: minus_mod_eq_div_mult [symmetric])
      then have "q * w \<le> 3 * (?W - 30)"
      proof -
        assume le: "q * (w - 2) \<le> ?W - 30"
        have "q * w \<le> q * (3 * (w - 2))" using \<open>0 < q\<close> w by (intro mult_left_mono) auto
        also have "\<dots> = 3 * (q * (w - 2))" by simp
        also have "\<dots> \<le> 3 * (?W - 30)" using le by (intro mult_left_mono) auto
        finally show ?thesis .
      qed
      moreover have "int (nat m) * w \<le> q * w" using m(1) w by (intro mult_right_mono) (auto simp: m_def)
      ultimately show ?thesis using W(2) by simp
    qed
    with string_loop_bar [OF assms(1) ok m, of 30]
    obtain u where "string_loop f (nat m) t 30 (bar_top t) (str @ [NUL]) = Inr u" "bar_changed t u"
      by (auto simp: w_def)
    with True w show ?thesis
      by (auto simp: screen_string_at_def Let_def w_def [symmetric] q_def [symmetric] m_def [symmetric])
  qed
  then obtain u n' where u: "screen_string_at f t 30 (bar_top t) str = Inr (u, n')" "bar_changed t u" by blast
  then show ?thesis using t top bar_trans [OF _ u(2)] by (simp add: statusbar_text_def with_screen_def)
qed

lemma flash_loop_bar:
  assumes "pixmap_ok q" "height q = STATUSBAR_HEIGHT"
  shows "screen_ok s \<Longrightarrow> \<exists>t es. flash_loop n s 0 (bar_top s) w h d q = Inr (t, es) \<and> bar_changed s t"
proof (induction n arbitrary: s)
  case 0
  then show ?case by (simp add: bar_refl)
next
  case (Suc n)
  obtain t k where t: "on_surface s (\<lambda>p. pix_blt p 0 (bar_top s) q) = Inr (t, k)" "bar_changed s t"
    using blt_bar [OF Suc.prems assms(1) _ bar_moderate(1) [OF Suc.prems]] assms(2) by auto
  obtain u es where u: "flash_loop n t 0 (bar_top t) w h d q = Inr (u, es)" "bar_changed t u"
    using Suc.IH [OF bar_ok [OF t(2) Suc.prems]] by blast
  with t(1) bar_size [OF t(2)] bar_trans [OF t(2) u(2)] show ?case by (simp add: screen_put_pixmap_def)
qed

lemma flash_bar:
  assumes "screen_ok s"
  shows "\<exists>t es. statusbar_flash malloc (Some s) count tmo waitflag = Inr (t, es) \<and> bar_changed s t"
proof (cases "pixbuf_alloc malloc (width (surface s)) STATUSBAR_HEIGHT")
  case None
  then show ?thesis by (simp add: statusbar_flash_def with_screen_def screen_flash_area_def flash_whole_def bar_refl)
next
  case (Some q)
  have q: "pixmap_ok q" "height q = STATUSBAR_HEIGHT"
    using pixbuf_alloc_ok [OF Some bar_size_ok [OF assms]] by auto
  have sok: "pixmap_ok (surface s)" using assms by (simp add: screen_ok_def)
  obtain q' n where q': "pixmap_xtract q 0 (bar_top s) (surface s) = Inr (q', n)" "pixmap_ok q'"
      "height q' = STATUSBAR_HEIGHT"
    using pixmap_xtract_ok [OF q(1) sok bar_moderate(5,6) [OF assms]] q(2) by metis
  show ?thesis
    using flash_loop_bar [OF q'(2,3) assms] q' Some
    by (simp add: statusbar_flash_def with_screen_def screen_flash_area_def flash_whole_def screen_get_pixmap_def bar_refl)
qed

lemma show_bar:
  assumes "screen_ok s"
  shows "\<exists>t psav es. statusbar_show malloc (Some s) = Inr (t, psav, es) \<and> bar_changed s t"
proof -
  have "\<exists>p. screen_get_pixmap s 0 (bar_top s) (pixbuf_alloc malloc (width (surface s)) STATUSBAR_HEIGHT) = Inr p"
  proof (cases "pixbuf_alloc malloc (width (surface s)) STATUSBAR_HEIGHT")
    case None
    then show ?thesis by (simp add: screen_get_pixmap_def)
  next
    case (Some q)
    have "pixmap_ok q" using pixbuf_alloc_ok [OF Some bar_size_ok [OF assms]] by simp
    then show ?thesis
      using pixmap_xtract_ok [of q "surface s" 0 "bar_top s"] assms Some bar_moderate(5,6) [OF assms]
      by (auto simp: screen_get_pixmap_def screen_ok_def)
  qed
  with rect_bar [OF assms, of 0] show ?thesis by (auto simp: statusbar_show_def with_screen_def)
qed

section \<open>Showing and hiding\<close>

definition bar_shown :: "fbscreen \<Rightarrow> pixmap \<Rightarrow> fbscreen \<Rightarrow> bool" where
  "bar_shown s p t = (\<exists>malloc es. statusbar_show malloc (Some s) = Inr (t, Some p, es))"

definition bar_hidden :: "fbscreen \<Rightarrow> pixmap \<Rightarrow> fbscreen \<Rightarrow> bool" where
  "bar_hidden s p t = (\<exists>es. statusbar_hide (Some s) (Some p) = Inr (t, es))"

lemma shown_saved:
  assumes ok: "screen_ok s" and sh: "bar_shown s p t"
  shows "pixmap_ok p" "width p = width (surface s)" "height p = STATUSBAR_HEIGHT" "bar_changed s t"
    and "\<And>i. int i < STATUSBAR_HEIGHT * row_bytes (width (surface s)) \<Longrightarrow>
      surf p ! i = surf (surface s) ! nat (int i + bar_top s * row_bytes (width (surface s)))"
proof -
  obtain malloc es where sh: "statusbar_show malloc (Some s) = Inr (t, Some p, es)"
    using sh by (auto simp: bar_shown_def)
  define S where "S = row_bytes (width (surface s))"
  have sok: "pixmap_ok (surface s)" "0 \<le> width (surface s)" "0 < S"
    using ok by (auto simp: screen_ok_def S_def row_bytes_nonneg)
  have H: "0 < STATUSBAR_HEIGHT" by (simp add: STATUSBAR_HEIGHT_def)
  obtain q where q: "pixbuf_alloc malloc (width (surface s)) STATUSBAR_HEIGHT = Some q"
    and get: "screen_get_pixmap s 0 (bar_top s) (Some q) = Inr (Some p)"
    using sh by (auto simp: statusbar_show_def with_screen_def res_simps screen_get_pixmap_def
        split: option.splits)
  note q' = pixbuf_alloc_ok [OF q bar_size_ok [OF ok]]
  have top: "0 \<le> bar_top s" "bar_top s + STATUSBAR_HEIGHT \<le> height (surface s)"
    using ok by (auto simp: screen_ok_def bar_top_def)
  obtain d n where d: "pixmap_xtract q 0 (bar_top s) (surface s) = Inr (d, n)" "pixmap_ok d"
      "width d = width (surface s)" "height d = STATUSBAR_HEIGHT"
      "\<forall>i < length (surf q). int i < STATUSBAR_HEIGHT * S \<longrightarrow>
        surf d ! i = surf (surface s) ! nat (int i + bar_top s * S)"
    using pixmap_xtract_full [OF q'(1) sok(1), of "bar_top s"] q'(2,3) sok(3) top H
    by (auto simp: S_def)
  have p: "p = d" using get d(1) by (simp add: screen_get_pixmap_def)
  show "pixmap_ok p" "width p = width (surface s)" "height p = STATUSBAR_HEIGHT"
    using d p by simp_all
  show "bar_changed s t" using show_bar [OF ok, of malloc] sh by simp
  show "surf p ! i = surf (surface s) ! nat (int i + bar_top s * row_bytes (width (surface s)))"
    if "int i < STATUSBAR_HEIGHT * row_bytes (width (surface s))" for i
  proof -
    have "int i < int (length (surf q))" using that q'(4) by (simp add: mult.commute)
    then show ?thesis using d(5) that p by (simp add: S_def)
  qed
qed

lemma hide_restores:
  assumes ok: "screen_ok s" and sh: "bar_shown s p t" and ch: "bar_changed s u"
  shows "\<exists>es. statusbar_hide (Some u) (Some p) = Inr (s, es)"
proof -
  note saved = shown_saved [OF ok sh]
  define S where "S = row_bytes (width (surface s))"
  have S: "0 < S" using ok by (auto simp: screen_ok_def S_def row_bytes_nonneg)
  have uok: "screen_ok u" by (rule bar_ok [OF ch ok])
  have size: "height (surface u) = height (surface s)" "width (surface u) = width (surface s)"
      "bar_top u = bar_top s"
    using bar_size [OF ch] by simp_all
  have top: "0 \<le> bar_top s" "bar_top s + STATUSBAR_HEIGHT = height (surface s)"
    using ok by (auto simp: screen_ok_def bar_top_def)
  have H: "0 < STATUSBAR_HEIGHT" by (simp add: STATUSBAR_HEIGHT_def)
  have pu: "pixmap_ok (surface u)" using uok by (simp add: screen_ok_def)
  obtain d n where d: "pix_blt (surface u) 0 (bar_top s) p = Inr (d, n)"
      "touches (bar_top s) (height (surface s)) (surface u) d"
      "\<forall>i < length (surf (surface u)). bar_top s * S \<le> int i \<and> int i < height (surface s) * S \<longrightarrow>
         surf d ! i = surf p ! nat (int i - bar_top s * S)"
    using pix_blt_full [OF pu saved(1), of "bar_top s"] saved(2,3) size top S H
    by (auto simp: S_def)
  have len: "length (surf d) = length (surf (surface u))" "length (surf (surface u)) = length (surf (surface s))"
    using d(2) ch by (simp_all add: touches_def same_outside_def bar_changed_def)
  have "surf d ! i = surf (surface s) ! i" if i: "i < length (surf (surface s))" for i
  proof (cases "bar_top s * S \<le> int i \<and> int i < height (surface s) * S")
    case True
    have "0 \<le> bar_top s * S" using top(1) S by simp
    moreover have "height (surface s) * S = bar_top s * S + STATUSBAR_HEIGHT * S"
      using top(2) by (simp flip: distrib_right)
    ultimately have "int (nat (int i - bar_top s * S)) < STATUSBAR_HEIGHT * S"
        "nat (int (nat (int i - bar_top s * S)) + bar_top s * S) = i"
      using True by auto
    then show ?thesis using d(3) True i len saved(5) by (simp add: S_def)
  next
    case False
    then show ?thesis
      using d(2) ch i len size by (auto simp: touches_def same_outside_def bar_changed_def S_def)
  qed
  then have "surf d = surf (surface s)" using len by (simp add: list_eq_iff_nth_eq)
  moreover have "width d = width (surface s)" "height d = height (surface s)"
    using d(2) size by (simp_all add: touches_def)
  ultimately have "d = surface s" by simp
  moreover have "scr_fd u = scr_fd s" "screensize u = screensize s" using ch by (simp_all add: bar_changed_def)
  ultimately have "u\<lparr>surface := d\<rparr> = s" by simp
  then show ?thesis
    using d(1) size(3) by (simp add: statusbar_hide_def with_screen_def screen_put_pixmap_def on_surface_def)
qed

interpretation statusbar: saved_area screen_ok bar_changed bar_shown bar_hidden
proof
  show "bar_changed s s" for s by (rule bar_refl)
  show "bar_changed s u" if "bar_changed s t" "bar_changed t u" for s t u
    using that by (rule bar_trans)
  show "bar_changed s t" if "screen_ok s" "bar_shown s p t" for s t p
    using shown_saved(4) that by blast
  show "bar_hidden u p s" if "screen_ok s" "bar_shown s p t" "bar_changed s u" for s t u p
    using hide_restores [OF that] by (simp add: bar_hidden_def)
qed

section \<open>A session of the bar\<close>

datatype bar_op = Bar_text string | Bar_flash int int bool

fun do_bar_op :: "font \<Rightarrow> (nat \<Rightarrow> bool) \<Rightarrow> bar_op \<Rightarrow> fbscreen \<times> effect list \<Rightarrow> (fbscreen \<times> effect list) res" where
  "do_bar_op f malloc (Bar_text str) (s, es) =
     mapR (\<lambda>(s, es'). (s, es @ es')) (statusbar_text f (Some s) str)"
| "do_bar_op f malloc (Bar_flash count tmo waitflag) (s, es) =
     mapR (\<lambda>(s, es'). (s, es @ es')) (statusbar_flash malloc (Some s) count tmo waitflag)"

text \<open>What the program does with its bar: texts that are not empty, and flashes it waits for.\<close>

fun bar_op_ok :: "bar_op \<Rightarrow> bool" where
  "bar_op_ok (Bar_text str) = (str \<noteq> [])"
| "bar_op_ok (Bar_flash count tmo waitflag) = waitflag"

lemma bar_op_total:
  assumes "font_ok f" "screen_ok s" "bar_op_ok op"
  shows "\<exists>t es'. do_bar_op f malloc op (s, es) = Inr (t, es') \<and> bar_changed s t"
proof (cases op)
  case (Bar_text str)
  then show ?thesis using text_bar [OF assms(1,2), of str] assms(3) by auto
next
  case (Bar_flash count tmo waitflag)
  then show ?thesis using flash_bar [OF assms(2), of malloc count tmo waitflag] by auto
qed

lemma bar_ops_total:
  assumes "font_ok f" "screen_ok s" "list_all bar_op_ok ops"
  shows "\<exists>t es'. foldR (do_bar_op f malloc) ops (s, es) = Inr (t, es') \<and> bar_changed s t"
proof -
  have "\<exists>st. foldR (do_bar_op f malloc) ops (s, es) = Inr st \<and> (screen_ok (fst st) \<and> bar_changed s (fst st))"
  proof (rule foldR_total)
    show "screen_ok (fst (s, es)) \<and> bar_changed s (fst (s, es))" using assms(2) by (simp add: bar_refl)
  next
    fix op and st :: "fbscreen \<times> effect list"
    assume op: "op \<in> set ops" and st: "screen_ok (fst st) \<and> bar_changed s (fst st)"
    obtain u us where "st = (u, us)" by (cases st)
    moreover have "bar_op_ok op" using op assms(3) by (simp add: list_all_iff)
    ultimately show "\<exists>t. do_bar_op f malloc op st = Inr t \<and> (screen_ok (fst t) \<and> bar_changed s (fst t))"
      using bar_op_total [OF assms(1), of u op malloc us] st bar_ok [of u] bar_trans [of s u] by fastforce
  qed
  then show ?thesis by auto
qed

section \<open>Properties\<close>

text \<open>C12: Once the bar is shown and its area saved, any sequence of texts that are not empty and of flashes
  with the wait flag on it stays inside the framebuffer, and hiding it then gives back the screen of
  before, byte for byte. (An empty text reads behind its end, and without the wait flag a thread would
  go on to draw; the program does neither.)\<close>
theorem statusbar_session_restores:
  assumes "font_ok f" and "screen_ok s" and "list_all bar_op_ok ops"
    and "statusbar_show malloc (Some s) = Inr (t, Some p, es)"
  shows "\<exists>u es'. foldR (do_bar_op f malloc) ops (t, es) = Inr (u, es') \<and>
    (\<exists>es''. statusbar_hide (Some u) (Some p) = Inr (s, es''))"
proof -
  have sh: "bar_shown s p t" using assms(4) by (auto simp: bar_shown_def)
  have ch: "bar_changed s t" using statusbar.save_changes [OF assms(2) sh] .
  obtain u es' where u: "foldR (do_bar_op f malloc) ops (t, es) = Inr (u, es')" "bar_changed t u"
    using bar_ops_total [OF assms(1) bar_ok [OF ch assms(2)] assms(3)] by blast
  then have "bar_hidden u p s" using statusbar.restored_after [OF assms(2) sh] by blast
  with u show ?thesis by (auto simp: bar_hidden_def)
qed

definition tiny_screen :: fbscreen where
  "tiny_screen = \<lparr>scr_fd = 5, screensize = 30,
     surface = \<lparr>width = 2, height = 30, surf = replicate 30 0xFF\<rparr>\<rparr>"

theorem statusbar_session_restores_witness:
  "\<exists>t p es u es'. statusbar_show (\<lambda>n. True) (Some tiny_screen) = Inr (t, Some p, es) \<and>
    statusbar_hide (Some u) (Some p) = Inr (tiny_screen, es')"
proof -
  have ok: "screen_ok tiny_screen"
    by (simp add: screen_ok_def tiny_screen_def pixmap_ok_def size_ok_def STATUSBAR_HEIGHT_def row_bytes_def
        signed_divide_int_def)
  obtain t psav es where sh: "statusbar_show (\<lambda>n. True) (Some tiny_screen) = Inr (t, psav, es)"
    using show_bar [OF ok] by blast
  have "psav \<noteq> None"
    using sh by (auto simp: statusbar_show_def with_screen_def res_simps screen_get_pixmap_def
        pixbuf_alloc_def Let_def split: option.splits if_splits)
  then obtain p where p: "statusbar_show (\<lambda>n. True) (Some tiny_screen) = Inr (t, Some p, es)"
    using sh by auto
  have "font_ok (default_font_table (replicate (256 * 132) 0))" by (simp add: default_font_ok)
  from statusbar_session_restores [OF this ok _ p, of "[Bar_text ''hi'', Bar_flash 1 800 True]"] p
  show ?thesis by auto
qed

end
