(* ===== verification/Screenshot.thy ===== *)
theory Screenshot
  imports CString "HOL-Library.Signed_Division"
begin

text \<open>
  src/screenshot.c: the framebuffer written as a .bmp file. The framebuffer device is read like a
  file: a read behind its end gives no bytes and leaves the row buffer as it is. The bytes of the
  row buffer before the first read are a parameter.
\<close>

section \<open>The file's headers\<close>

definition BPP :: int where "BPP = 4"
definition NCOLORS :: int where "NCOLORS = 16"
definition SCREENW :: int where "SCREENW = 600"
definition SCREENH :: int where "SCREENH = 800"
definition IMGSIZE :: int where "IMGSIZE = (SCREENW sdiv (8 sdiv BPP)) * SCREENH"

text \<open>Dots per meter, from 39.3700787 inches per meter, cut to an integer.\<close>

definition K3DPM :: int where "K3DPM = 166 * 393700787 div 10000000"
definition KDXDPM :: int where "KDXDPM = 150 * 393700787 div 10000000"

definition le16 :: "int \<Rightarrow> 8 word list" where
  "le16 v = [word_of_int v, word_of_int (v div 256)]"

definition le32 :: "int \<Rightarrow> 8 word list" where
  "le32 v = le16 v @ le16 (v div 65536)"

definition magichdr :: "8 word list" where "magichdr = [0x42, 0x4D]"

text \<open>filesz, creator1, creator2, bmp_offset: 12 bytes.\<close>

definition bmpfile_header :: "int \<Rightarrow> int \<Rightarrow> 8 word list" where
  "bmpfile_header filesz bmp_offset = le32 filesz @ le16 0 @ le16 0 @ le32 bmp_offset"

text \<open>BITMAPINFOHEADER: 40 bytes.\<close>

definition dib_header :: "int \<Rightarrow> int \<Rightarrow> int \<Rightarrow> int \<Rightarrow> int \<Rightarrow> 8 word list" where
  "dib_header w h bits bytesz res = le32 40 @ le32 w @ le32 h @ le16 1 @ le16 bits @ le32 0 @
     le32 bytesz @ le32 res @ le32 res @ le32 NCOLORS @ le32 0"

definition colortab :: "8 word list" where
  "colortab = concat (map (\<lambda>v. [v, v, v, 0])
     [0xff, 0xee, 0xdd, 0xcc, 0xbb, 0xaa, 0x99, 0x88, 0x77, 0x66, 0x55, 0x44, 0x33, 0x22, 0x11, 0x00])"

definition bmp_offset :: int where "bmp_offset = 2 + 12 + 40 + 64"

section \<open>The rows\<close>

definition read_at :: "8 word list \<Rightarrow> int \<Rightarrow> int \<Rightarrow> 8 word list \<Rightarrow> 8 word list" where
  "read_at dev offset n rowbuf =
     (let d = take (nat n) (drop (nat offset) dev) in d @ drop (length d) rowbuf)"

text \<open>The loop for i from yres - k on: seek, read a row, write it.\<close>

fun ss_rows :: "nat \<Rightarrow> int \<Rightarrow> int \<Rightarrow> int \<Rightarrow> 8 word list \<Rightarrow> 8 word list \<Rightarrow> 8 word list" where
  "ss_rows 0 i imgsize bperrow dev rowbuf = []"
| "ss_rows (Suc k) i imgsize bperrow dev rowbuf =
     (let rowbuf = read_at dev (imgsize - bperrow * (i - 1)) bperrow rowbuf
      in rowbuf @ ss_rows k (i + 1) imgsize bperrow dev rowbuf)"

text \<open>xres, yres, bits per pixel, image size and bytes per row; divisions by zero are faults.\<close>

definition geometry :: "(int \<times> int \<times> int) option \<Rightarrow> (int \<times> int \<times> int \<times> int \<times> int) res" where
  "geometry vinfo =
     (case vinfo of
        None \<Rightarrow> Inr (SCREENW, SCREENH, BPP, IMGSIZE, IMGSIZE sdiv SCREENH)
      | Some (xres, yres, bpp) \<Rightarrow>
          bindR (guardR (bpp \<noteq> 0 \<and> 8 sdiv bpp \<noteq> 0 \<and> yres \<noteq> 0) Div_zero) (\<lambda>_.
            let imgsize = (xres sdiv (8 sdiv bpp)) * yres
            in Inr (xres, yres, bpp, imgsize, imgsize sdiv yres)))"

text \<open>
  The result is the return code and the bytes written to the file (None when it was not opened).
  dev is the framebuffer's contents (None when it cannot be opened), and a row buffer of no bytes
  or fewer is a fault.
\<close>

definition do_screenshot ::
    "8 word list option \<Rightarrow> (int \<times> int \<times> int) option \<Rightarrow> bool \<Rightarrow> (nat \<Rightarrow> 8 word) \<Rightarrow>
     (int \<times> 8 word list option) res" where
  "do_screenshot dev vinfo dest_ok junk =
     (case dev of
        None \<Rightarrow> Inr (1, None)
      | Some fb \<Rightarrow>
          if \<not> dest_ok then Inr (1, None)
          else bindR (geometry vinfo) (\<lambda>(xres, yres, bpp, imgsize, bperrow).
               bindR (guardR (0 < bperrow) Buffer_overflow) (\<lambda>_.
                 Inr (0, Some (magichdr @ bmpfile_header (bmp_offset + IMGSIZE) bmp_offset @
                   dib_header xres yres bpp imgsize (if SCREENW < xres then KDXDPM else K3DPM) @
                   colortab @
                   ss_rows (nat yres) 0 imgsize bperrow fb (map junk [0..<nat bperrow]))))))"

section \<open>Lemmas\<close>

lemma length_read_at: "length rowbuf = nat n \<Longrightarrow> length (read_at dev offset n rowbuf) = nat n"
  by (simp add: read_at_def Let_def)

lemma read_at_inside:
  "0 \<le> n \<Longrightarrow> 0 \<le> offset \<Longrightarrow> offset + n \<le> int (length dev) \<Longrightarrow> length rowbuf = nat n \<Longrightarrow>
     read_at dev offset n rowbuf = take (nat n) (drop (nat offset) dev)"
  by (simp add: read_at_def Let_def nat_le_iff)

lemma read_at_behind: "int (length dev) \<le> offset \<Longrightarrow> read_at dev offset n rowbuf = rowbuf"
  by (simp add: read_at_def nat_le_iff)

lemma length_ss_rows:
  "length rowbuf = nat b \<Longrightarrow> length (ss_rows k i sz b dev rowbuf) = k * nat b"
proof (induction k arbitrary: i rowbuf)
  case (Suc k)
  have "length (read_at dev (sz - b * (i - 1)) b rowbuf) = nat b"
    by (rule length_read_at [OF Suc.prems])
  with Suc.IH show ?case by (simp add: Let_def)
qed simp

text \<open>The row written in turn j, when the read of that turn is inside the device.\<close>

lemma ss_rows_row:
  assumes "0 < b"
  shows "length rowbuf = nat b \<Longrightarrow> j < k \<Longrightarrow> 0 \<le> sz - b * (i + int j - 1) \<Longrightarrow>
    sz - b * (i + int j - 1) + b \<le> int (length dev) \<Longrightarrow>
    take (nat b) (drop (j * nat b) (ss_rows k i sz b dev rowbuf)) =
      take (nat b) (drop (nat (sz - b * (i + int j - 1))) dev)"
proof (induction k arbitrary: i rowbuf j)
  case 0
  then show ?case by simp
next
  case (Suc k)
  let ?r = "read_at dev (sz - b * (i - 1)) b rowbuf"
  have len: "length ?r = nat b" by (rule length_read_at [OF Suc.prems(1)])
  show ?case
  proof (cases j)
    case 0
    then show ?thesis
      using read_at_inside [of b "sz - b * (i - 1)" dev rowbuf] Suc.prems assms len
      by (simp add: Let_def)
  next
    case (Suc l)
    have "i + 1 + int l = i + int j" using Suc by simp
    then show ?thesis
      using Suc.IH [of ?r l "i + 1"] Suc.prems len Suc by (simp add: Let_def)
  qed
qed

lemma length_headers:
  "length (magichdr @ bmpfile_header a b @ dib_header w h bits sz res @ colortab) = 118"
  by (simp add: magichdr_def bmpfile_header_def dib_header_def le32_def le16_def colortab_def)

lemma geometry_rows:
  assumes "geometry vinfo = Inr (xres, yres, bpp, imgsize, bperrow)" "0 < yres"
  shows "imgsize = bperrow * yres"
proof -
  have "(k * yres) sdiv yres = k" for k :: int
    using assms(2) by (simp add: signed_divide_int_def sgn_mult abs_mult mult_sgn_abs)
  then show ?thesis
    using assms
    by (auto simp: geometry_def Let_def res_simps IMGSIZE_def SCREENW_def SCREENH_def BPP_def
        split: option.splits)
qed

text \<open>The first two turns read at the end of the device and behind it.\<close>

lemma ss_rows_behind:
  assumes "length rowbuf = nat b" "int (length dev) = sz" "0 < b" "j < 2" "j < k"
  shows "take (nat b) (drop (j * nat b) (ss_rows k 0 sz b dev rowbuf)) = rowbuf"
proof -
  have buf: "read_at dev (sz - b * (i - 1)) b rowbuf = rowbuf" if "i \<le> 1" for i
    by (rule read_at_behind) (use assms(2,3) that in \<open>simp add: mult_nonneg_nonpos\<close>)
  consider "j = 0" | "j = 1" using assms(4) by linarith
  then show ?thesis
  proof cases
    case 1
    then obtain l where "k = Suc l" using assms(5) by (cases k) auto
    then show ?thesis using 1 buf [of 0] assms(1) by (simp add: Let_def)
  next
    case 2
    then obtain l where "k = Suc (Suc l)" using assms(5) by (cases k; cases "k - 1") auto
    then show ?thesis using 2 buf [of 0] buf [of 1] assms(1) by (simp add: Let_def)
  qed
qed

text \<open>No turn reads the first two lines.\<close>

lemma ss_rows_unseen:
  assumes "0 < b" "sz = b * yres" "drop (2 * nat b) dev' = drop (2 * nat b) dev"
  shows "i + int k \<le> yres \<Longrightarrow> ss_rows k i sz b dev' rowbuf = ss_rows k i sz b dev rowbuf"
proof (induction k arbitrary: i rowbuf)
  case (Suc k)
  have "b * 2 \<le> b * (yres - (i - 1))" using assms(1) Suc.prems by (intro mult_left_mono) auto
  then have "2 * b \<le> sz - b * (i - 1)" by (simp add: assms(2) algebra_simps)
  then have at: "nat (sz - b * (i - 1)) = nat (sz - b * (i - 1) - 2 * b) + 2 * nat b" using assms(1) by simp
  have "drop (nat (sz - b * (i - 1))) dev' = drop (nat (sz - b * (i - 1))) dev"
    unfolding at by (metis assms(3) drop_drop)
  then have "read_at dev' (sz - b * (i - 1)) b rowbuf = read_at dev (sz - b * (i - 1)) b rowbuf"
    by (simp add: read_at_def)
  then show ?case using Suc by (simp add: Let_def)
qed simp

definition file_row :: "8 word list \<Rightarrow> nat \<Rightarrow> nat \<Rightarrow> 8 word list" where
  "file_row out b i = take b (drop (118 + i * b) out)"

definition fb_line :: "8 word list \<Rightarrow> nat \<Rightarrow> nat \<Rightarrow> 8 word list" where
  "fb_line fb b y = take b (drop (y * b) fb)"

lemma screenshot_parts:
  assumes "do_screenshot (Some fb) vinfo True junk = Inr (rc, Some out)"
    and "geometry vinfo = Inr (xres, yres, bpp, imgsize, bperrow)" and "0 < yres"
  shows "0 < bperrow" "rc = 0" "imgsize = bperrow * yres" "length out = 118 + nat yres * nat bperrow"
    "file_row out (nat bperrow) i =
       take (nat bperrow) (drop (i * nat bperrow) (ss_rows (nat yres) 0 imgsize bperrow fb (map junk [0..<nat bperrow])))"
proof -
  let ?h = "magichdr @ bmpfile_header (bmp_offset + IMGSIZE) bmp_offset @
     dib_header xres yres bpp imgsize (if SCREENW < xres then KDXDPM else K3DPM) @ colortab"
  let ?rows = "ss_rows (nat yres) 0 imgsize bperrow fb (map junk [0..<nat bperrow])"
  show "0 < bperrow" "rc = 0" and "imgsize = bperrow * yres"
    using assms(1) geometry_rows [OF assms(2,3)] by (auto simp: do_screenshot_def assms(2) guardR_def split: if_splits)
  have out: "out = ?h @ ?rows"
    using assms(1) by (auto simp: do_screenshot_def assms(2) guardR_def split: if_splits)
  show "length out = 118 + nat yres * nat bperrow"
    using length_headers length_ss_rows [of "map junk [0..<nat bperrow]" bperrow "nat yres" 0 imgsize fb]
    by (simp add: out del: length_append) (simp add: length_headers)
  have "drop (118 + i * nat bperrow) out = drop (i * nat bperrow) ?rows"
    using length_headers out by (metis add.commute append_eq_conv_conj drop_drop)
  then show "file_row out (nat bperrow) i = take (nat bperrow) (drop (i * nat bperrow) ?rows)"
    by (simp add: file_row_def)
qed

section \<open>Properties\<close>

text \<open>C39: A screenshot of a framebuffer of exactly the image's size has its headers and one row for every
  line of the screen, but the rows are two lines off: row i of the file, which a .bmp shows as line yres - 1 - i, is line yres + 1 - i of
  the framebuffer for every i from 2 on. The two lowest rows, 0 and 1, are what the row buffer held
  before the first read; and the two top lines of the framebuffer are nowhere in the file: with any
  other bytes in them the same file is written.\<close>
theorem screenshot_rows_shifted:
  assumes "do_screenshot (Some fb) vinfo True junk = Inr (rc, Some out)"
    and "geometry vinfo = Inr (xres, yres, bpp, imgsize, bperrow)"
    and "int (length fb) = imgsize" and "0 < yres"
  shows "rc = 0 \<and> length out = 118 + nat yres * nat bperrow \<and>
    (\<forall>i < nat yres. file_row out (nat bperrow) i =
       (if i < 2 then map junk [0..<nat bperrow] else fb_line fb (nat bperrow) (nat yres + 1 - i))) \<and>
    (\<forall>fb'. drop (2 * nat bperrow) fb' = drop (2 * nat bperrow) fb \<longrightarrow>
       do_screenshot (Some fb') vinfo True junk = Inr (rc, Some out))"
proof -
  note p = screenshot_parts [OF assms(1,2,4)]
  have early: "file_row out (nat bperrow) i = map junk [0..<nat bperrow]" if "i < nat yres" "i < 2" for i
    unfolding p(5) by (rule ss_rows_behind) (use that assms(3) p(1) in simp_all)
  have late: "file_row out (nat bperrow) i = fb_line fb (nat bperrow) (nat yres + 1 - i)" if "i < nat yres" "2 \<le> i" for i
  proof -
    have off: "imgsize - bperrow * (0 + int i - 1) = (yres + 1 - int i) * bperrow"
      by (simp add: p(3) algebra_simps)
    have lo: "0 \<le> (yres + 1 - int i) * bperrow" using p(1) that by simp
    have "(yres + 1 - int i + 1) * bperrow \<le> yres * bperrow"
      using p(1) that by (intro mult_right_mono) auto
    then have hi: "(yres + 1 - int i) * bperrow + bperrow \<le> int (length fb)"
      using assms(3) p(3) by (simp add: algebra_simps)
    have "nat ((yres + 1 - int i) * bperrow) = (nat yres + 1 - i) * nat bperrow"
      using p(1) that by (simp add: nat_mult_distrib nat_diff_distrib nat_add_distrib)
    then show ?thesis
      unfolding p(5) fb_line_def
      using ss_rows_row [OF p(1), of "map junk [0..<nat bperrow]" i "nat yres" imgsize 0 fb] that off lo hi by simp
  qed
  have "do_screenshot (Some fb') vinfo True junk = Inr (rc, Some out)"
    if "drop (2 * nat bperrow) fb' = drop (2 * nat bperrow) fb" for fb'
    using ss_rows_unseen [OF p(1,3) that, of 0 "nat yres"] assms(1,4)
    by (simp add: do_screenshot_def assms(2))
  with early late p(2,4) show ?thesis by auto
qed

theorem screenshot_rows_shifted_witness:
  "\<exists>out. do_screenshot (Some [1, 2, 3, 4]) (Some (2, 4, 4)) True (\<lambda>i. 9) = Inr (0, Some out) \<and>
     do_screenshot (Some [7, 8, 3, 4]) (Some (2, 4, 4)) True (\<lambda>i. 9) = Inr (0, Some out) \<and>
     file_row out 1 0 = [9] \<and> file_row out 1 2 = [4] \<and> file_row out 1 3 = [3]"
proof -
  have g: "geometry (Some (2, 4, 4)) = Inr (2, 4, 4, 4, 1)" by code_simp
  then obtain out where out: "do_screenshot (Some [1, 2, 3, 4]) (Some (2, 4, 4)) True (\<lambda>i. 9) = Inr (0, Some out)"
    by (simp add: do_screenshot_def)
  from screenshot_rows_shifted [OF this g] out
  have "\<forall>i < 4. file_row out 1 i = (if i < 2 then [9] else fb_line [1, 2, 3, 4] 1 (5 - i))"
      "do_screenshot (Some [7, 8, 3, 4]) (Some (2, 4, 4)) True (\<lambda>i. 9) = Inr (0, Some out)"
    by simp_all
  with out show ?thesis by (simp add: fb_line_def)
qed

end
