(* ===== verification/Actions.thy ===== *)
theory Actions
  imports SendProps ScreenProps Screenshot
begin

text \<open>
  The execution of an action: get_kindle_script_file and execute_action of src/launchpad.c. An
  action announces itself on the status bar, runs its command by type (a script file, a line of
  keys, a shell command, or the sendkeys command), and takes the bar away. What the system
  answers (memory, files, the exit status of system, the framebuffer device as a file) is a
  parameter; null pointers and writes outside the buffer of MAXPATH characters are faults.
\<close>

section \<open>The system\<close>

text \<open>A file that opens: its content, the number of bytes the read stores, and the allocated memory
  as it was.\<close>

record opened_file =
  of_content :: "char list"
  of_got :: nat
  of_heap :: "nat \<Rightarrow> char"

record device =
  dev_malloc :: "nat \<Rightarrow> bool"
  dev_font :: font
  dev_open :: "string \<Rightarrow> opened_file option"
  dev_system :: "string \<Rightarrow> int"
  dev_fb :: "8 word list option"              \<comment> \<open>/dev/fb0, read by do_screenshot\<close>
  dev_vinfo :: "(int \<times> int \<times> int) option"
  dev_dest_ok :: bool
  dev_junk :: "nat \<Rightarrow> 8 word"

section \<open>Script files\<close>

text \<open>The memory of flen + 1 bytes: the terminating NUL is stored only after a complete read.\<close>

definition get_kindle_script_file :: "device \<Rightarrow> string \<Rightarrow> char list option" where
  "get_kindle_script_file d path =
     (case dev_open d path of
        None \<Rightarrow> None
      | Some h \<Rightarrow>
          (let flen = length (of_content h) in
           if dev_malloc d (flen + 1)
           then Some (if of_got h = flen then of_content h @ [NUL]
                      else take (of_got h) (of_content h) @
                           map (of_heap h) [min (of_got h) flen..<flen + 1])
           else None))"

text \<open>The string at the start of some memory.\<close>

definition mem_string :: "char list \<Rightarrow> string res" where
  "mem_string m = (if NUL \<in> set m then Inr (cstr m) else Inl Buffer_overread)"

section \<open>Commands by type\<close>

definition run_script :: "device \<Rightarrow> config \<Rightarrow> fds \<Rightarrow> string \<Rightarrow> (effect list \<times> int) res" where
  "run_script d c f cmd =
     bindR (guardR (length cmd < MAXPATH) Buffer_overflow) (\<lambda>_.
       case get_kindle_script_file d cmd of
         None \<Rightarrow> Inr ([], 0)
       | Some m \<Rightarrow> bindR (mem_string m) (process_kindle_script c f))"

definition keys_line :: "string \<Rightarrow> string" where
  "keys_line cmd = ''send_string '' @ cmd @ '' '' @ [CHR 0x27] @ ''DEL'' @ [CHR 0x27]"

definition run_keys :: "config \<Rightarrow> fds \<Rightarrow> string \<Rightarrow> (effect list \<times> int) res" where
  "run_keys c f cmd =
     bindR (guardR (length (keys_line cmd) < MAXPATH) Buffer_overflow) (\<lambda>_.
       process_kindle_script c f (keys_line cmd))"

section \<open>The status bar around a command\<close>

text \<open>A text on the bar, 400 milliseconds later one flash of 800.\<close>

definition announce :: "device \<Rightarrow> fbscreen option \<Rightarrow> string \<Rightarrow> drawn" where
  "announce d ps str =
     bindR (statusbar_text (dev_font d) ps str) (\<lambda>(s, e1).
     bindR (statusbar_flash (dev_malloc d) (Some s) 1 800 True) (\<lambda>(s, e2).
       Inr (s, e1 @ [Delay 400] @ e2)))"

definition status_word :: "int \<Rightarrow> string" where
  "status_word rc = (if rc = 0 then ''Success!'' else ''Failure.'')"

text \<open>The switch on the type of the action.\<close>

definition run_command ::
    "device \<Rightarrow> config \<Rightarrow> fds \<Rightarrow> fbscreen \<Rightarrow> action \<Rightarrow> (fbscreen \<times> effect list \<times> int) res" where
  "run_command d c f s a =
     (if act_type a = ACTION_KINDLE_SCRIPT
      then mapR (\<lambda>(es, n). (s, es, n)) (run_script d c f (command a))
      else if act_type a = ACTION_KINDLE_KEYS
      then mapR (\<lambda>(es, n). (s, es, n)) (run_keys c f (command a))
      else if act_type a = ACTION_SHELL_COMMAND
      then mapR (\<lambda>(s, es). (s, Shell (command a) # es, 0))
             (announce d (Some s) (status_word (dev_system d (command a))))
      else mapR (\<lambda>es. (s, es, 0)) (process_sendkeys_command c f (command a)))"

definition title :: "action \<Rightarrow> string" where
  "title a = CHR ''^'' # CHR ''['' # dispname a @ '']''"

definition execute_row ::
    "device \<Rightarrow> config \<Rightarrow> fds \<Rightarrow> fbscreen option \<Rightarrow> action \<Rightarrow> (fbscreen \<times> effect list \<times> int) res" where
  "execute_row d c f ps a =
     bindR (statusbar_show (dev_malloc d) ps) (\<lambda>(s, bar, e1).
     bindR (guardR (length (title a) < MAXPATH) Buffer_overflow) (\<lambda>_.
     bindR (announce d (Some s) (title a)) (\<lambda>(s, e2).
     bindR (run_command d c f s a) (\<lambda>(s, e3, n).
     bindR (statusbar_hide (Some s) bar) (\<lambda>(s, e4).
       Inr (s, e1 @ e2 @ e3 @ e4, n))))))"

definition screenshot_path :: string where
  "screenshot_path = ''/mnt/us/screenshot.bmp''"

definition execute_screenshot ::
    "device \<Rightarrow> fbscreen option \<Rightarrow> (fbscreen \<times> effect list \<times> int) res" where
  "execute_screenshot d ps =
     bindR (do_screenshot (dev_fb d) (dev_vinfo d) (dev_dest_ok d) (dev_junk d)) (\<lambda>(rc, out).
     bindR (statusbar_show (dev_malloc d) ps) (\<lambda>(s, bar, e1).
     bindR (announce d (Some s) ''[Screenshot]'') (\<lambda>(s, e2).
     bindR (announce d (Some s) (status_word rc)) (\<lambda>(s, e3).
     bindR (statusbar_hide (Some s) bar) (\<lambda>(s, e4).
       Inr (s, (case out of None \<Rightarrow> [] | Some b \<Rightarrow> [Screenshot_file screenshot_path b])
                 @ e1 @ e2 @ e3 @ e4, 0))))))"

fun execute_action ::
    "device \<Rightarrow> config \<Rightarrow> fds \<Rightarrow> fbscreen option \<Rightarrow> action_ref \<Rightarrow> (fbscreen \<times> effect list \<times> int) res" where
  "execute_action d c f ps Screenshot = execute_screenshot d ps"
| "execute_action d c f ps (Row a) = execute_row d c f ps a"

section \<open>The bar stays in its rows\<close>

definition device_ok :: "device \<Rightarrow> bool" where
  "device_ok d = (font_ok (dev_font d) \<and> (\<forall>n. dev_malloc d n))"

lemma announce_bar:
  assumes "device_ok d" "screen_ok s" "str \<noteq> []"
  shows "\<exists>t es. announce d (Some s) str = Inr (t, es) \<and> bar_changed s t"
proof -
  obtain t e1 where t: "statusbar_text (dev_font d) (Some s) str = Inr (t, e1)" "bar_changed s t"
    using text_bar [OF _ assms(2,3), of "dev_font d"] assms(1) by (auto simp: device_ok_def)
  obtain u e2 where u: "statusbar_flash (dev_malloc d) (Some t) 1 800 True = Inr (u, e2)" "bar_changed t u"
    using flash_bar [OF bar_ok [OF t(2) assms(2)]] by blast
  with t(1) bar_trans [OF t(2) u(2)] show ?thesis by (simp add: announce_def)
qed

lemma status_word_nonempty: "status_word rc \<noteq> []"
  by (simp add: status_word_def)

lemma run_command_bar:
  assumes "device_ok d" "screen_ok s" "run_command d c f s a = Inr (t, es, n)"
  shows "bar_changed s t"
proof -
  obtain u us where "announce d (Some s) (status_word (dev_system d (command a))) = Inr (u, us)"
      "bar_changed s u"
    using announce_bar [OF assms(1,2) status_word_nonempty] by blast
  with assms(3) show ?thesis
    by (auto simp: run_command_def res_simps bar_refl split: if_splits)
qed

lemma show_saves:
  assumes "device_ok d" "screen_ok s"
  shows "\<exists>t p es. statusbar_show (dev_malloc d) (Some s) = Inr (t, Some p, es) \<and> bar_shown s p t"
proof -
  obtain t psav es where sh: "statusbar_show (dev_malloc d) (Some s) = Inr (t, psav, es)"
    using show_bar [OF assms(2)] by blast
  have "psav \<noteq> None"
    using sh assms(1) by (auto simp: statusbar_show_def with_screen_def res_simps screen_get_pixmap_def
        pixbuf_alloc_def device_ok_def Let_def split: option.splits if_splits)
  with sh show ?thesis by (auto simp: bar_shown_def)
qed

lemma shown_ok: "screen_ok s \<Longrightarrow> bar_shown s p t \<Longrightarrow> bar_changed s t \<and> screen_ok t"
  using shown_saved(4) bar_ok by blast

text \<open>Whatever happens between showing and hiding, if it stays on the bar, is undone.\<close>

lemma hidden_again:
  assumes "screen_ok s" "bar_shown s p t" "bar_changed t u"
  shows "\<exists>es. statusbar_hide (Some u) (Some p) = Inr (s, es)"
proof -
  have "bar_hidden u p s"
    using statusbar.restored_after [OF assms(1,2)] assms(3) by blast
  then show ?thesis by (simp add: bar_hidden_def)
qed

section \<open>What an action sends\<close>

definition keys_sent :: "effect list \<Rightarrow> string list" where
  "keys_sent es = List.map_filter key_text es"

definition commands_run :: "effect list \<Rightarrow> string list" where
  "commands_run es = List.map_filter shell_text es"

definition quiet :: "effect list \<Rightarrow> bool" where
  "quiet es = list_all (\<lambda>e. key_text e = None \<and> shell_text e = None) es"

lemma sent_append [simp]:
  "keys_sent (xs @ ys) = keys_sent xs @ keys_sent ys"
  "commands_run (xs @ ys) = commands_run xs @ commands_run ys"
  by (simp_all add: keys_sent_def commands_run_def List.map_filter_def)

lemma sent_quiet: "quiet es \<Longrightarrow> keys_sent es = [] \<and> commands_run es = []"
  by (induction es) (auto simp: quiet_def keys_sent_def commands_run_def List.map_filter_def)

lemma quiet_append [simp]: "quiet (xs @ ys) = (quiet xs \<and> quiet ys)"
  by (simp add: quiet_def)

lemma quiet_flash_loop: "flash_loop n s x y w h d q = Inr (t, es) \<Longrightarrow> quiet es"
proof (induction n arbitrary: s es)
  case 0
  then show ?case by (simp add: quiet_def)
next
  case (Suc n)
  then show ?case by (fastforce simp: res_simps quiet_def)
qed

lemma quiet_announce: "announce d ps str = Inr (t, es) \<Longrightarrow> quiet es"
  by (auto simp: announce_def res_simps statusbar_text_def statusbar_flash_def with_screen_def
      screen_flash_area_def flash_whole_def quiet_def split: option.splits
      dest!: quiet_flash_loop [unfolded quiet_def])

lemma quiet_show: "statusbar_show m ps = Inr (t, p, es) \<Longrightarrow> quiet es"
  by (auto simp: statusbar_show_def with_screen_def res_simps quiet_def screen_update_area_def
      split: option.splits)

lemma quiet_hide: "statusbar_hide ps p = Inr (t, es) \<Longrightarrow> quiet es"
  by (auto simp: statusbar_hide_def with_screen_def res_simps quiet_def screen_update_area_def
      split: option.splits)

text \<open>The command of an action without the screen.\<close>

definition command_outcome :: "device \<Rightarrow> config \<Rightarrow> fds \<Rightarrow> action \<Rightarrow> (effect list \<times> int) res" where
  "command_outcome d c f a =
     (if act_type a = ACTION_KINDLE_SCRIPT then run_script d c f (command a)
      else if act_type a = ACTION_KINDLE_KEYS then run_keys c f (command a)
      else if act_type a = ACTION_SHELL_COMMAND then Inr ([Shell (command a)], 0)
      else mapR (\<lambda>es. (es, 0)) (process_sendkeys_command c f (command a)))"

lemma run_command_outcome:
  assumes "device_ok d" "screen_ok s" "command_outcome d c f a = Inr (es, n)"
  shows "\<exists>t es'. run_command d c f s a = Inr (t, es', n) \<and> keys_sent es' = keys_sent es \<and>
    commands_run es' = commands_run es"
proof -
  obtain u us where u: "announce d (Some s) (status_word (dev_system d (command a))) = Inr (u, us)"
    using announce_bar [OF assms(1,2) status_word_nonempty] by blast
  note sent_quiet [OF quiet_announce [OF u]]
  then have "keys_sent (Shell x # us) = keys_sent [Shell x]"
      "commands_run (Shell x # us) = commands_run [Shell x]" for x
    using sent_append [of "[Shell x]" us] by simp_all
  with assms(3) u show ?thesis
    by (auto simp: command_outcome_def run_command_def res_simps split: if_splits)
qed

lemma command_fault:
  assumes "device_ok d" "screen_ok s" "command_outcome d c f a = Inl e"
  shows "run_command d c f s a = Inl e"
  using assms(3) by (auto simp: command_outcome_def run_command_def split: if_splits)

text \<open>An action on a good screen: the bar is shown and the title announced, and what is left is the
  command and hiding the bar.\<close>

lemma execute_row_start:
  assumes "device_ok d" "screen_ok s" "length (title a) < MAXPATH"
  shows "\<exists>t p u e. bar_shown s p t \<and> bar_changed t u \<and> screen_ok u \<and> quiet e \<and>
    execute_row d c f (Some s) a = bindR (run_command d c f u a) (\<lambda>(v, e3, n).
      bindR (statusbar_hide (Some v) (Some p)) (\<lambda>(v, e4). Inr (v, e @ e3 @ e4, n)))"
proof -
  obtain t p e1 where t: "statusbar_show (dev_malloc d) (Some s) = Inr (t, Some p, e1)" "bar_shown s p t"
    using show_saves [OF assms(1,2)] by blast
  have tok: "screen_ok t" using shown_ok [OF assms(2) t(2)] by simp
  obtain u e2 where u: "announce d (Some t) (title a) = Inr (u, e2)" "bar_changed t u"
    using announce_bar [OF assms(1) tok, of "title a"] by (auto simp: title_def)
  have "quiet (e1 @ e2)" using quiet_show [OF t(1)] quiet_announce [OF u(1)] by simp
  then show ?thesis
    using t u assms(3) bar_ok [OF u(2) tok]
    by (intro exI [of _ t] exI [of _ p] exI [of _ u] exI [of _ "e1 @ e2"])
      (simp add: execute_row_def)
qed

text \<open>An action whose command runs without a fault, on a good screen.\<close>

lemma row_executed:
  assumes "device_ok d" and "screen_ok s" and "length (title a) < MAXPATH"
    and "command_outcome d c f a = Inr (es, n)"
  shows "\<exists>es'. execute_action d c f (Some s) (Row a) = Inr (s, es', n) \<and>
    keys_sent es' = keys_sent es \<and> commands_run es' = commands_run es"
proof -
  obtain t p u e where start: "bar_shown s p t" "bar_changed t u" "screen_ok u" "quiet e"
      "execute_row d c f (Some s) a = bindR (run_command d c f u a) (\<lambda>(v, e3, n).
        bindR (statusbar_hide (Some v) (Some p)) (\<lambda>(v, e4). Inr (v, e @ e3 @ e4, n)))"
    using execute_row_start [OF assms(1-3)] by blast
  obtain v e3 where v: "run_command d c f u a = Inr (v, e3, n)" "keys_sent e3 = keys_sent es"
      "commands_run e3 = commands_run es"
    using run_command_outcome [OF assms(1) start(3) assms(4)] by blast
  have "bar_changed t v"
    using run_command_bar [OF assms(1) start(3) v(1)] start(2) bar_trans by blast
  then obtain e4 where h: "statusbar_hide (Some v) (Some p) = Inr (s, e4)"
    using hidden_again [OF assms(2) start(1)] by blast
  show ?thesis
    using start(5) v h sent_quiet [OF start(4)] sent_quiet [OF quiet_hide [OF h]] by simp
qed

section \<open>Properties\<close>

text \<open>C13: Executing an action whose command runs without a fault leaves every byte of the screen as it
  was before, although the status bar was drawn, flashed and perhaps drawn again; the keys sent
  and the shell commands run are exactly those of its command, in order, and the number of events
  to skip is the command's.\<close>
theorem execute_action_transparent:
  assumes "device_ok d" and "screen_ok s" and "length (title a) < MAXPATH"
    and "command_outcome d c f a = Inr (es, n)"
  shows "\<exists>es'. execute_action d c f (Some s) (Row a) = Inr (s, es', n) \<and>
    keys_sent es' = keys_sent es \<and> commands_run es' = commands_run es"
  by (rule row_executed [OF assms])

text \<open>A device and two actions, for the examples.\<close>

definition blank_font :: font where
  "blank_font = default_font_table (replicate (256 * 132) 0)"

definition sample_device :: device where
  "sample_device = \<lparr>dev_malloc = (\<lambda>n. True), dev_font = blank_font, dev_open = (\<lambda>p. None),
     dev_system = (\<lambda>p. 0), dev_fb = None, dev_vinfo = None, dev_dest_ok = True, dev_junk = (\<lambda>i. 0)\<rparr>"

definition shell_action :: action where
  "shell_action = \<lparr>act_type = ACTION_SHELL_COMMAND, act_sequence = [], command = ''ls'',
     dispname = ''L''\<rparr>"

definition keys_action :: action where
  "keys_action = \<lparr>act_type = ACTION_KINDLE_KEYS, act_sequence = [], command = replicate 240 CHR ''a'',
     dispname = ''K''\<rparr>"

lemma sample_ok: "device_ok sample_device" "screen_ok tiny_screen"
proof -
  show "device_ok sample_device"
    by (simp add: device_ok_def sample_device_def blank_font_def default_font_ok)
  show "screen_ok tiny_screen"
    by (simp add: screen_ok_def tiny_screen_def pixmap_ok_def size_ok_def STATUSBAR_HEIGHT_def row_bytes_def
        signed_divide_int_def)
qed

theorem execute_action_transparent_witness:
  "\<exists>es'. execute_action sample_device initial_config k3_fds (Some tiny_screen) (Row shell_action) =
      Inr (tiny_screen, es', 0) \<and> commands_run es' = [''ls'']"
proof -
  have "length (title shell_action) < MAXPATH" by (simp add: title_def shell_action_def MAXPATH_def)
  moreover have "command_outcome sample_device initial_config k3_fds shell_action = Inr ([Shell ''ls''], 0)"
    by (simp add: command_outcome_def shell_action_def ACTION_KINDLE_SCRIPT_def ACTION_KINDLE_KEYS_def
        ACTION_SHELL_COMMAND_def)
  ultimately show ?thesis
    using execute_action_transparent [OF sample_ok, of shell_action initial_config k3_fds]
    by (auto simp: commands_run_def List.map_filter_def)
qed

text \<open>The other side: when the text of an action's command does not fit (a line of keys that the
  added first and last tokens make longer than the buffer; a script file of MAXPATH bytes or
  more), the execution writes behind its buffer, however well the screen works.\<close>
theorem long_command_overflows:
  assumes "device_ok d" and "screen_ok s" and "length (title a) < MAXPATH"
    and "act_type a = ACTION_KINDLE_KEYS \<and> MAXPATH \<le> length (command a) + 18 \<or>
         act_type a = ACTION_KINDLE_SCRIPT \<and> length (command a) < MAXPATH \<and>
         get_kindle_script_file d (command a) = Some (script @ [NUL]) \<and>
         NUL \<notin> set script \<and> MAXPATH \<le> length script"
  shows "execute_action d c f (Some s) (Row a) = Inl Buffer_overflow"
proof -
  have k: "length (keys_line (command a)) = length (command a) + 18" by (simp add: keys_line_def)
  have "ACTION_KINDLE_KEYS \<noteq> ACTION_KINDLE_SCRIPT"
    by (simp add: ACTION_KINDLE_KEYS_def ACTION_KINDLE_SCRIPT_def)
  then have "command_outcome d c f a = Inl Buffer_overflow"
    using assms(4) k
    by (auto simp: command_outcome_def run_keys_def run_script_def mem_string_def cstr_simps
        process_kindle_script_def)
  then show ?thesis
    using execute_row_start [OF assms(1-3), of c f] command_fault [OF assms(1)] by fastforce
qed

theorem long_command_overflows_witness:
  "execute_action sample_device initial_config k3_fds (Some tiny_screen) (Row keys_action) =
     Inl Buffer_overflow"
  by (rule long_command_overflows [OF sample_ok])
    (simp_all add: keys_action_def title_def MAXPATH_def)

text \<open>The built-in screenshot action: the file holds the bytes do\_screenshot makes of the
  framebuffer before anything is drawn, the screen is left as it was, and no key is sent and no
  command run.\<close>
theorem screenshot_action:
  assumes "device_ok d" and "screen_ok s"
    and "do_screenshot (dev_fb d) (dev_vinfo d) (dev_dest_ok d) (dev_junk d) = Inr (rc, out)"
  shows "\<exists>es. execute_action d c f (Some s) Screenshot =
      Inr (s, (case out of None \<Rightarrow> [] | Some b \<Rightarrow> [Screenshot_file ''/mnt/us/screenshot.bmp'' b]) @ es, 0) \<and>
    keys_sent es = [] \<and> commands_run es = []"
proof -
  obtain t p e1 where t: "statusbar_show (dev_malloc d) (Some s) = Inr (t, Some p, e1)" "bar_shown s p t"
    using show_saves [OF assms(1,2)] by blast
  have tok: "screen_ok t" using shown_ok [OF assms(2) t(2)] by simp
  obtain u e2 where u: "announce d (Some t) ''[Screenshot]'' = Inr (u, e2)" "bar_changed t u"
    using announce_bar [OF assms(1) tok] by blast
  obtain v e3 where v: "announce d (Some u) (status_word rc) = Inr (v, e3)" "bar_changed u v"
    using announce_bar [OF assms(1) bar_ok [OF u(2) tok] status_word_nonempty] by blast
  obtain e4 where h: "statusbar_hide (Some v) (Some p) = Inr (s, e4)"
    using hidden_again [OF assms(2) t(2) bar_trans [OF u(2) v(2)]] by blast
  show ?thesis
    using sent_quiet [OF quiet_show [OF t(1)]] sent_quiet [OF quiet_announce [OF u(1)]]
      sent_quiet [OF quiet_announce [OF v(1)]] sent_quiet [OF quiet_hide [OF h]] t u v h
    by (intro exI [of _ "e1 @ e2 @ e3 @ e4"])
      (simp add: execute_screenshot_def assms(3) screenshot_path_def split: option.splits)
qed

theorem screenshot_action_witness:
  "\<exists>es. execute_action sample_device initial_config k3_fds (Some tiny_screen) Screenshot =
      Inr (tiny_screen, es, 0) \<and> keys_sent es = []"
proof -
  have "do_screenshot (dev_fb sample_device) (dev_vinfo sample_device) (dev_dest_ok sample_device)
      (dev_junk sample_device) = Inr (1, None)"
    by (simp add: do_screenshot_def sample_device_def)
  from screenshot_action [OF sample_ok this, of initial_config k3_fds] show ?thesis by auto
qed

text \<open>A null screen pointer (the framebuffer did not open) is followed by every action.\<close>

lemma no_screen_faults: "execute_action d c f None (Row a) = Inl Null_deref"
  by (simp add: execute_row_def statusbar_show_def with_screen_def)

end
