(* ===== verification/HotKey.thy ===== *)
theory HotKey
  imports Actions
begin

text \<open>
  The hotkey machine of src/main.c: a tap on the introducer key grabs the input devices and starts
  the hotkey mode, in which the codes of the keys pressed are collected until the trailer key or
  the timer ends it; then the action of the collected sequence is executed. The state holds main's
  statics, the kernel's interval timer and the disposition of SIGALRM, the buffers the events are
  read into, the EVIOCGRAB calls made and the effects of the actions. A signal is handled between
  two rounds of the loop (the handlers run while select waits).
\<close>

section \<open>Events and state\<close>

record input_event =
  ev_type :: int
  ev_code :: int
  ev_value :: int

record hotstate =
  introducer_just_pressed :: bool
  hotkey_mode :: bool
  npressed :: int
  hot_sequence :: "short list"           \<comment> \<open>the array of MAXSEQ codes\<close>
  hot_sequence_length :: nat
  input_captured :: bool
  skip_next_events :: int
  keepgoing :: bool
  reinit :: bool
  alarm_set :: bool                      \<comment> \<open>SIGALRM has alarm_handler, not SIG_DFL\<close>
  timer :: int                           \<comment> \<open>milliseconds set in ITIMER_REAL, 0 when not running\<close>
  alive :: bool                          \<comment> \<open>not killed by an unhandled SIGALRM\<close>
  screen :: "fbscreen option"
  kbbuf :: "input_event list"
  fwbuf :: "input_event list"
  k3volbuf :: "input_event list"
  grab_calls :: "(int \<times> bool) list"     \<comment> \<open>EVIOCGRAB ioctls: the descriptor, on or off\<close>
  trace :: "effect list"

text \<open>What does not change while the loop runs; the three values are copied from the configuration.\<close>

record env =
  e_dev :: device
  e_config :: config
  e_fds :: fds
  e_introducer :: int
  e_trailer :: int
  e_hot_interval :: int

section \<open>Capturing and the timer\<close>

definition event_fds :: "fds \<Rightarrow> int list" where
  "event_fds f = filter (\<lambda>fd. fd \<noteq> -1) [fd_kbd f, fd_fw f, fd_k3_vol f]"

definition capture_input :: "env \<Rightarrow> hotstate \<Rightarrow> hotstate" where
  "capture_input env st =
     st\<lparr>grab_calls := grab_calls st @ map (\<lambda>fd. (fd, True)) (event_fds (e_fds env)),
        input_captured := True\<rparr>"

definition release_input :: "env \<Rightarrow> hotstate \<Rightarrow> hotstate" where
  "release_input env st =
     (if input_captured st
      then st\<lparr>grab_calls := grab_calls st @ map (\<lambda>fd. (fd, False)) (event_fds (e_fds env)),
              input_captured := False\<rparr>
      else st)"

text \<open>setitimer refuses a negative time and leaves the timer as it is.\<close>

definition engage_hotkey_timer :: "int \<Rightarrow> hotstate \<Rightarrow> hotstate" where
  "engage_hotkey_timer msecs st =
     st\<lparr>alarm_set := (msecs \<noteq> 0), timer := (if 0 \<le> msecs then msecs else timer st)\<rparr>"

section \<open>The collected sequence\<close>

definition collected :: "hotstate \<Rightarrow> short list" where
  "collected st = take (hot_sequence_length st) (hot_sequence st)"

text \<open>The code shared by the timer and the trailer: the length is reset before the loop that would send
  an unknown sequence back.\<close>

definition run_sequence :: "env \<Rightarrow> hotstate \<Rightarrow> hotstate res" where
  "run_sequence env st =
     (if 0 < hot_sequence_length st
      then (let pa = find_sequence_action (e_config env) (collected st);
                st = st\<lparr>hot_sequence_length := 0\<rparr>
            in case pa of
                 Some a \<Rightarrow> bindR (execute_action (e_dev env) (e_config env) (e_fds env) (screen st) a)
                   (\<lambda>(s, es, n). Inr (st\<lparr>screen := Some s, skip_next_events := n, trace := trace st @ es\<rparr>))
               | None \<Rightarrow> Inr (st\<lparr>trace := trace st @ send_keys (e_config env) (e_fds env) (collected st)\<rparr>))
      else Inr st)"

definition alarm_handler :: "env \<Rightarrow> hotstate \<Rightarrow> hotstate res" where
  "alarm_handler env st =
     (if timer st \<noteq> 0 then Inr st
      else (let st = release_input env (engage_hotkey_timer 0 st) in
            if hotkey_mode st then run_sequence env (st\<lparr>hotkey_mode := False\<rparr>) else Inr st))"

section \<open>Key events\<close>

definition EV_KEY :: int where "EV_KEY = 1"

text \<open>
  main.c does not compare the length with MAXSEQ before it stores a code. C gives no meaning to a
  write behind hot\_sequence, and such a write is the fault Table\_overflow, as every access outside a
  buffer is a fault in this development; what follows it in a real process is not modelled.
\<close>

definition key_pressed :: "env \<Rightarrow> int \<Rightarrow> hotstate \<Rightarrow> hotstate res" where
  "key_pressed env kc st0 =
     (let st = st0\<lparr>npressed := npressed st0 + 1\<rparr> in
      if \<not> hotkey_mode st
      then Inr (st\<lparr>introducer_just_pressed := (npressed st = 1 \<and> kc = e_introducer env)\<rparr>)
      else if kc = e_trailer env
      then run_sequence env ((release_input env (engage_hotkey_timer 0 st))\<lparr>hotkey_mode := False\<rparr>)
      else bindR (guardR (hot_sequence_length st < MAXSEQ) Table_overflow) (\<lambda>_.
        Inr (st\<lparr>hot_sequence := (hot_sequence st)
                   [hot_sequence_length st := word_of_int (get_key_substitute_code kc)],
                hot_sequence_length := hot_sequence_length st + 1\<rparr>)))"

definition key_released :: "env \<Rightarrow> int \<Rightarrow> hotstate \<Rightarrow> hotstate" where
  "key_released env kc st0 =
     (let st = st0\<lparr>npressed := npressed st0 - 1\<rparr> in
      if npressed st = 0 \<and> kc = e_introducer env \<and> introducer_just_pressed st
      then engage_hotkey_timer (e_hot_interval env)
             ((capture_input env (st\<lparr>introducer_just_pressed := False\<rparr>))\<lparr>hotkey_mode := True\<rparr>)
      else st)"

definition process_input_event :: "env \<Rightarrow> input_event \<Rightarrow> hotstate \<Rightarrow> hotstate res" where
  "process_input_event env pev st =
     (if ev_type pev = EV_KEY
      then (if ev_value pev = 1 then key_pressed env (ev_code pev) st
            else if ev_value pev = 0 then Inr (key_released env (ev_code pev) st)
            else Inr st)
      else Inr st)"

section \<open>The select loop\<close>

definition fw_code :: "int \<Rightarrow> bool" where
  "fw_code kc = (kc \<in> {KPKEY_FW_PRESS, KPKEY_FW_UP, KPKEY_FW_RIGHT, KPKEY_FW_DOWN, KPKEY_FW_LEFT,
                        K3KEY_FW_UP, K3KEY_FW_DOWN, K3KEY_FW_PRESS})"

definition vol_code :: "int \<Rightarrow> bool" where
  "vol_code kc = (kc \<in> {K3KEY_VPLUS, K3KEY_VMINUS})"

text \<open>
  A read fills at most two events. The number of bytes is compared as an unsigned number, so that
  the -1 of a failed read passes for two events, the ones left in the buffer.
\<close>

datatype read_result = Events "input_event list" | Failed

fun read_events :: "read_result \<Rightarrow> input_event list \<Rightarrow> input_event list \<times> nat" where
  "read_events (Events evs) buf = (take 2 evs @ drop (length evs) buf, min 2 (length evs))"
| "read_events Failed buf = (buf, 2)"

definition process_events :: "env \<Rightarrow> (int \<Rightarrow> bool) \<Rightarrow> input_event list \<Rightarrow> hotstate \<Rightarrow> hotstate res" where
  "process_events env wanted =
     foldR (\<lambda>ev st. if wanted (ev_code ev) then process_input_event env ev st else Inr st)"

definition read_kbd :: "env \<Rightarrow> read_result option \<Rightarrow> hotstate \<Rightarrow> hotstate res" where
  "read_kbd env r st =
     (case r of
        Some r \<Rightarrow> if fd_kbd (e_fds env) \<noteq> -1
          then (let (buf, n) = read_events r (kbbuf st)
                in process_events env (\<lambda>kc. \<not> fw_code kc) (take n buf) (st\<lparr>kbbuf := buf\<rparr>))
          else Inr st
      | None \<Rightarrow> Inr st)"

definition read_fw :: "env \<Rightarrow> read_result option \<Rightarrow> hotstate \<Rightarrow> hotstate res" where
  "read_fw env r st =
     (case r of
        Some r \<Rightarrow> if fd_fw (e_fds env) \<noteq> -1
          then (let (buf, n) = read_events r (fwbuf st)
                in process_events env fw_code (take n buf) (st\<lparr>fwbuf := buf\<rparr>))
          else Inr st
      | None \<Rightarrow> Inr st)"

definition read_k3_vol :: "env \<Rightarrow> read_result option \<Rightarrow> hotstate \<Rightarrow> hotstate res" where
  "read_k3_vol env r st =
     (case r of
        Some r \<Rightarrow> if fd_k3_vol (e_fds env) \<noteq> -1
          then (let (buf, n) = read_events r (k3volbuf st)
                in process_events env vol_code (take n buf) (st\<lparr>k3volbuf := buf\<rparr>))
          else Inr st
      | None \<Rightarrow> Inr st)"

text \<open>What select answers: the devices that are ready (None: not in the set) and what reading them
  gives; the timeout of a second; or an error.\<close>

datatype selected =
    Ready "read_result option" "read_result option" "read_result option"
  | Timeout
  | Select_error

definition maxfd :: "fds \<Rightarrow> int" where
  "maxfd f = (let m = (if fd_kbd f \<noteq> -1 then fd_kbd f else 0);
                  m = (if fd_fw f \<noteq> -1 \<and> m < fd_fw f then fd_fw f else m)
              in if fd_k3_vol f \<noteq> -1 \<and> m < fd_k3_vol f then fd_k3_vol f else m)"

fun loop_round :: "env \<Rightarrow> selected \<Rightarrow> hotstate \<Rightarrow> hotstate res" where
  "loop_round env sel st =
     (if maxfd (e_fds env) \<noteq> 0
      then (case sel of
              Ready k w v \<Rightarrow> bindR (read_kbd env k st) (\<lambda>st. bindR (read_fw env w st) (read_k3_vol env v))
            | Timeout \<Rightarrow> Inr (st\<lparr>npressed := 0, hot_sequence_length := 0, skip_next_events := 0\<rparr>)
            | Select_error \<Rightarrow> Inr st)
      else Inr st)"

section \<open>Signals\<close>

datatype signal = Sighup | Sigint | Sigterm | Timer_expires | Alarm_from_outside

definition hup_handler :: "hotstate \<Rightarrow> hotstate" where
  "hup_handler st = st\<lparr>reinit := True, keepgoing := False\<rparr>"

definition int_handler :: "hotstate \<Rightarrow> hotstate" where
  "int_handler st = st\<lparr>keepgoing := False\<rparr>"

definition term_handler :: "hotstate \<Rightarrow> hotstate" where
  "term_handler st = st\<lparr>keepgoing := False\<rparr>"

definition deliver_alarm :: "env \<Rightarrow> hotstate \<Rightarrow> hotstate res" where
  "deliver_alarm env st = (if alarm_set st then alarm_handler env st else Inr (st\<lparr>alive := False\<rparr>))"

fun handle_signal :: "env \<Rightarrow> signal \<Rightarrow> hotstate \<Rightarrow> hotstate res" where
  "handle_signal env Sighup st = Inr (hup_handler st)"
| "handle_signal env Sigint st = Inr (int_handler st)"
| "handle_signal env Sigterm st = Inr (term_handler st)"
| "handle_signal env Timer_expires st =
     (if timer st \<noteq> 0 then deliver_alarm env (st\<lparr>timer := 0\<rparr>) else Inr st)"
| "handle_signal env Alarm_from_outside st = deliver_alarm env st"

datatype input = Select selected | Signal signal

fun handle :: "env \<Rightarrow> input \<Rightarrow> hotstate \<Rightarrow> hotstate res" where
  "handle env (Select sel) st = loop_round env sel st"
| "handle env (Signal sg) st = handle_signal env sg st"

fun main_loop :: "env \<Rightarrow> input list \<Rightarrow> hotstate \<Rightarrow> hotstate res" where
  "main_loop env [] st = Inr st"
| "main_loop env (i # is) st =
     (if keepgoing st \<and> alive st then bindR (handle env i st) (main_loop env is) else Inr st)"

end
