(* ===== verification/HotKeyProps.thy ===== *)
theory HotKeyProps
  imports HotKey
begin

text \<open>
  The hotkey machine of HotKey as a step relation, with its invariant: what the modes, the grabbed
  devices, the timer and the collected sequence have to do with each other in every reachable
  state; then what one round trip of the user (introducer, sequence, trailer) does.
\<close>

section \<open>Grabbed devices\<close>

definition grabbed :: "(int \<times> bool) list \<Rightarrow> int \<Rightarrow> bool" where
  "grabbed calls fd = foldl (\<lambda>b (d, on). if d = fd then on else b) False calls"

lemma grabbed_calls [simp]:
  "grabbed (calls @ map (\<lambda>d. (d, on)) ds) fd = (if fd \<in> set ds then on else grabbed calls fd)"
proof (induction ds rule: rev_induct)
  case Nil
  then show ?case by simp
next
  case (snoc d ds)
  then show ?case by (simp add: grabbed_def)
qed

lemma grabbed_none [simp]: "grabbed [] fd = False"
  by (simp add: grabbed_def)

section \<open>The invariant\<close>

definition sequence_ok :: "hotstate \<Rightarrow> bool" where
  "sequence_ok st = (length (hot_sequence st) = MAXSEQ \<and> hot_sequence_length st \<le> MAXSEQ \<and>
     (\<not> hotkey_mode st \<longrightarrow> hot_sequence_length st = 0))"

definition capture_ok :: "env \<Rightarrow> hotstate \<Rightarrow> bool" where
  "capture_ok env st = (hotkey_mode st = input_captured st \<and>
     (\<forall>fd. grabbed (grab_calls st) fd = (input_captured st \<and> fd \<in> set (event_fds (e_fds env)))))"

definition timer_ok :: "env \<Rightarrow> hotstate \<Rightarrow> bool" where
  "timer_ok env st = (0 \<le> timer st \<and> (timer st \<noteq> 0 \<longrightarrow> alarm_set st) \<and>
     (alarm_set st \<longrightarrow> hotkey_mode st) \<and>
     (hotkey_mode st \<and> 0 < e_hot_interval env \<longrightarrow> timer st \<noteq> 0) \<and>
     (hotkey_mode st \<longrightarrow> \<not> introducer_just_pressed st))"

definition hot_ok :: "env \<Rightarrow> hotstate \<Rightarrow> bool" where
  "hot_ok env st = (sequence_ok st \<and> capture_ok env st \<and> timer_ok env st)"

lemmas hot_defs = hot_ok_def sequence_ok_def capture_ok_def timer_ok_def

text \<open>Running the collected sequence changes only the screen, the events to skip and the trace, and
  leaves no code behind.\<close>

lemma run_sequence_frame:
  assumes "run_sequence env st = Inr st'"
  shows "\<exists>s n es. st' = st\<lparr>screen := s, skip_next_events := n, trace := es, hot_sequence_length := 0\<rparr>"
proof -
  have same: "st\<lparr>screen := screen st, skip_next_events := skip_next_events st, trace := es, hot_sequence_length := 0\<rparr> =
      st\<lparr>trace := es, hot_sequence_length := 0\<rparr>" for es
    by (cases st) simp
  have swap: "st\<lparr>hot_sequence_length := 0, trace := es\<rparr> = st\<lparr>trace := es, hot_sequence_length := 0\<rparr>" for es
    by (cases st) simp
  have keep: "st\<lparr>trace := trace st, hot_sequence_length := 0\<rparr> = st" if "hot_sequence_length st = 0"
    using that by (cases st) simp
  show ?thesis
  proof (cases "hot_sequence_length st = 0")
    case True
    then have "st' = st\<lparr>trace := trace st, hot_sequence_length := 0\<rparr>"
      using assms keep by (simp add: run_sequence_def)
    then show ?thesis using same by metis
  next
    case False
    show ?thesis
    proof (cases "find_sequence_action (e_config env) (collected st)")
      case None
      then have "\<exists>es. st' = st\<lparr>trace := es, hot_sequence_length := 0\<rparr>"
        using assms False swap by (auto simp: run_sequence_def Let_def)
      then show ?thesis using same by metis
    next
      case (Some a)
      then obtain s es n where "st' = st\<lparr>hot_sequence_length := 0, screen := Some s, skip_next_events := n,
          trace := trace st @ es\<rparr>"
        using assms False by (auto simp: run_sequence_def Let_def res_simps)
      moreover have "st\<lparr>hot_sequence_length := 0, screen := Some s, skip_next_events := n, trace := t\<rparr> =
          st\<lparr>screen := Some s, skip_next_events := n, trace := t, hot_sequence_length := 0\<rparr>" for t
        by (cases st) simp
      ultimately show ?thesis by metis
    qed
  qed
qed

lemma mode_kept [simp]:
  "hotkey_mode (release_input env st) = hotkey_mode st"
  "hotkey_mode (engage_hotkey_timer m st) = hotkey_mode st"
  by (simp_all add: release_input_def engage_hotkey_timer_def)

text \<open>The end of the hotkey mode.\<close>

definition leave_mode :: "env \<Rightarrow> hotstate \<Rightarrow> hotstate" where
  "leave_mode env st = (release_input env (engage_hotkey_timer 0 st))\<lparr>hotkey_mode := False\<rparr>"

lemma leave_mode_ok:
  assumes "sequence_ok st" "capture_ok env st" "run_sequence env (leave_mode env st) = Inr st'"
  shows "hot_ok env st' \<and> \<not> hotkey_mode st' \<and> timer st' = 0"
proof -
  obtain s n es where "st' = (leave_mode env st)\<lparr>screen := s, skip_next_events := n, trace := es,
      hot_sequence_length := 0\<rparr>"
    using run_sequence_frame [OF assms(3)] by blast
  with assms(1,2) show ?thesis
    by (auto simp: hot_defs leave_mode_def release_input_def engage_hotkey_timer_def)
qed

lemma alarm_handler_ok:
  assumes "sequence_ok st" "capture_ok env st" "timer_ok env st \<or> timer st = 0"
    "alarm_handler env st = Inr st'"
  shows "hot_ok env st'"
proof (cases "timer st \<noteq> 0")
  case True
  then show ?thesis using assms by (simp add: alarm_handler_def hot_ok_def)
next
  case False
  show ?thesis
  proof (cases "hotkey_mode st")
    case True
    then have "run_sequence env (leave_mode env st) = Inr st'"
      using assms(4) False by (simp add: alarm_handler_def Let_def leave_mode_def)
    then show ?thesis using leave_mode_ok assms(1,2) by blast
  next
    case no: False
    then show ?thesis
      using False assms by (auto simp: alarm_handler_def Let_def release_input_def
          engage_hotkey_timer_def hot_defs)
  qed
qed

lemma key_pressed_ok:
  assumes "hot_ok env st" "key_pressed env kc st = Inr st'"
  shows "hot_ok env st'"
proof -
  define st1 where "st1 = st\<lparr>npressed := npressed st + 1\<rparr>"
  have ok: "hot_ok env st1" using assms(1) by (auto simp: hot_defs st1_def)
  show ?thesis
  proof (cases "hotkey_mode st \<and> kc = e_trailer env")
    case True
    then have "run_sequence env (leave_mode env st1) = Inr st'"
      using assms(2) by (simp add: key_pressed_def Let_def leave_mode_def st1_def)
    then show ?thesis using leave_mode_ok [of st1 env st'] ok by (auto simp: hot_ok_def)
  next
    case False
    show ?thesis
    proof (cases "hotkey_mode st")
      case True
      then have "hot_sequence_length st1 < MAXSEQ"
          "st' = st1\<lparr>hot_sequence := (hot_sequence st1)
             [hot_sequence_length st1 := word_of_int (get_key_substitute_code kc)],
             hot_sequence_length := hot_sequence_length st1 + 1\<rparr>"
        using assms(2) False by (auto simp: key_pressed_def Let_def st1_def res_simps)
      with ok True show ?thesis by (auto simp: hot_defs st1_def)
    next
      case no: False
      then have "\<exists>b. st' = st1\<lparr>introducer_just_pressed := b\<rparr>"
        using assms(2) by (auto simp: key_pressed_def Let_def st1_def)
      with ok no show ?thesis by (auto simp: hot_defs st1_def)
    qed
  qed
qed

lemma key_released_ok: "hot_ok env st \<Longrightarrow> hot_ok env (key_released env kc st)"
  by (auto simp: key_released_def Let_def hot_defs engage_hotkey_timer_def capture_input_def)

lemma process_input_event_ok:
  "hot_ok env st \<Longrightarrow> process_input_event env ev st = Inr st' \<Longrightarrow> hot_ok env st'"
  by (auto simp: process_input_event_def key_released_ok split: if_splits intro: key_pressed_ok)

lemma process_events_ok:
  "hot_ok env st \<Longrightarrow> process_events env wanted evs st = Inr st' \<Longrightarrow> hot_ok env st'"
  unfolding process_events_def
  by (erule foldR_invariant [where P = "hot_ok env"]) (auto split: if_splits intro: process_input_event_ok)

lemma buffers_ok [simp]:
  "hot_ok env (st\<lparr>kbbuf := b\<rparr>) = hot_ok env st" "hot_ok env (st\<lparr>fwbuf := b\<rparr>) = hot_ok env st"
  "hot_ok env (st\<lparr>k3volbuf := b\<rparr>) = hot_ok env st"
  by (simp_all add: hot_defs)

lemma others_ok [simp]:
  "hot_ok env (st\<lparr>alive := a\<rparr>) = hot_ok env st" "hot_ok env (st\<lparr>keepgoing := a\<rparr>) = hot_ok env st"
  "hot_ok env (st\<lparr>reinit := a\<rparr>) = hot_ok env st" "hot_ok env (st\<lparr>npressed := n\<rparr>) = hot_ok env st"
  "hot_ok env (st\<lparr>skip_next_events := n\<rparr>) = hot_ok env st"
  by (simp_all add: hot_defs)

lemma timeout_ok: "hot_ok env st \<Longrightarrow> hot_ok env (st\<lparr>hot_sequence_length := 0\<rparr>)"
  by (auto simp: hot_defs)

lemma resync_ok:
  "hot_ok env st \<Longrightarrow>
     hot_ok env (st\<lparr>npressed := 0, hot_sequence_length := 0, skip_next_events := 0\<rparr>)"
  by (auto simp: hot_defs)

lemma read_ok:
  "hot_ok env st \<Longrightarrow> read_kbd env r st = Inr st' \<Longrightarrow> hot_ok env st'"
  "hot_ok env st \<Longrightarrow> read_fw env r st = Inr st' \<Longrightarrow> hot_ok env st'"
  "hot_ok env st \<Longrightarrow> read_k3_vol env r st = Inr st' \<Longrightarrow> hot_ok env st'"
  by (auto simp: read_kbd_def read_fw_def read_k3_vol_def split: option.splits if_splits prod.splits
      dest: process_events_ok [rotated])

lemma loop_round_ok:
  assumes "hot_ok env st" "loop_round env sel st = Inr st'"
  shows "hot_ok env st'"
proof (cases "maxfd (e_fds env) = 0")
  case True
  then show ?thesis using assms by simp
next
  case False
  with assms show ?thesis
  proof (cases sel)
    case (Ready k w v)
    with False assms(2) obtain s1 s2 where
      "read_kbd env k st = Inr s1" "read_fw env w s1 = Inr s2" "read_k3_vol env v s2 = Inr st'"
      by (auto simp: res_simps)
    then show ?thesis using read_ok assms(1) by blast
  qed (auto simp: resync_ok simp del: others_ok)
qed

lemma handle_signal_ok:
  assumes "hot_ok env st" "handle_signal env sg st = Inr st'"
  shows "hot_ok env st'"
proof -
  have s0: "sequence_ok (st\<lparr>timer := 0\<rparr>)" "capture_ok env (st\<lparr>timer := 0\<rparr>)"
      "sequence_ok st" "capture_ok env st" "timer_ok env st"
    using assms(1) by (auto simp: hot_defs)
  have expired: "alarm_set st" if "timer st \<noteq> 0"
    using that assms(1) by (simp add: hot_defs)
  show ?thesis
  proof (cases sg)
    case Timer_expires
    show ?thesis
    proof (cases "timer st = 0")
      case False
      then have "alarm_handler env (st\<lparr>timer := 0\<rparr>) = Inr st'"
        using expired Timer_expires assms(2) by (simp add: deliver_alarm_def)
      with alarm_handler_ok [OF s0(1,2)] show ?thesis by simp
    qed (use Timer_expires assms in simp)
  next
    case Alarm_from_outside
    then show ?thesis
      using assms alarm_handler_ok [OF s0(3,4)] s0(5)
      by (auto simp: deliver_alarm_def split: if_splits)
  qed (use assms in \<open>auto simp: hup_handler_def int_handler_def term_handler_def\<close>)
qed

section \<open>The machine\<close>

definition hot_start :: "env \<Rightarrow> hotstate \<Rightarrow> bool" where
  "hot_start env st = (\<not> introducer_just_pressed st \<and> \<not> hotkey_mode st \<and> npressed st = 0 \<and>
     length (hot_sequence st) = MAXSEQ \<and> hot_sequence_length st = 0 \<and> \<not> input_captured st \<and>
     skip_next_events st = 0 \<and> keepgoing st \<and> \<not> reinit st \<and> \<not> alarm_set st \<and> timer st = 0 \<and>
     alive st \<and> grab_calls st = [])"

inductive hot_step :: "env \<Rightarrow> hotstate \<Rightarrow> hotstate \<Rightarrow> bool" for env :: env where
  hot_round: "keepgoing st \<Longrightarrow> alive st \<Longrightarrow> loop_round env sel st = Inr st' \<Longrightarrow> hot_step env st st'"
| hot_signal: "keepgoing st \<Longrightarrow> alive st \<Longrightarrow> handle_signal env sg st = Inr st' \<Longrightarrow> hot_step env st st'"

inductive_cases hot_stepE: "hot_step env st st'"

interpretation hotkeys: machine "hot_start env" "hot_step env" "hot_ok env"
proof
  show "hot_ok env st" if "hot_start env st" for st
    using that by (auto simp: hot_start_def hot_defs)
  show "hot_ok env st'" if "hot_ok env st" "hot_step env st st'" for st st'
    using that(2,1) by (elim hot_stepE) (auto intro: loop_round_ok handle_signal_ok)
qed

lemma main_loop_reach:
  "main_loop env is st = Inr st' \<Longrightarrow> reach (hot_start env) (hot_step env) st \<Longrightarrow>
     reach (hot_start env) (hot_step env) st'"
proof (induction "is" arbitrary: st)
  case Nil
  then show ?case by simp
next
  case (Cons i "is")
  show ?case
  proof (cases "keepgoing st \<and> alive st")
    case False
    then show ?thesis using Cons.prems by (auto split: if_splits)
  next
    case True
    then obtain st1 where st1: "handle env i st = Inr st1" "main_loop env is st1 = Inr st'"
      using Cons.prems(1) by (auto simp: res_simps)
    have "hot_step env st st1"
      using True st1(1) by (cases i) (auto intro: hot_round hot_signal)
    then show ?thesis using Cons.IH [OF st1(2)] Cons.prems(2) reach_step by metis
  qed
qed

end
