(* ===== verification/HotKeyRun.thy ===== *)
theory HotKeyRun
  imports HotKeyProps
begin

text \<open>
  What a user of the hotkeys sees: runs of the loop on taps of keys. A tap is a press and a release,
  each read in its own round from the device that is allowed to give the code.
\<close>

section \<open>Taps\<close>

definition press :: "int \<Rightarrow> input_event" where
  "press kc = \<lparr>ev_type = EV_KEY, ev_code = kc, ev_value = 1\<rparr>"

definition release :: "int \<Rightarrow> input_event" where
  "release kc = \<lparr>ev_type = EV_KEY, ev_code = kc, ev_value = 0\<rparr>"

definition key_input :: "input_event \<Rightarrow> input" where
  "key_input ev = Select (if fw_code (ev_code ev) then Ready None (Some (Events [ev])) None
                          else Ready (Some (Events [ev])) None None)"

definition tap :: "int \<Rightarrow> input list" where
  "tap kc = [key_input (press kc), key_input (release kc)]"

definition has_device :: "env \<Rightarrow> int \<Rightarrow> bool" where
  "has_device env kc = (if fw_code kc then 0 < fd_fw (e_fds env) else 0 < fd_kbd (e_fds env))"

definition buffered :: "input_event \<Rightarrow> hotstate \<Rightarrow> hotstate" where
  "buffered ev st = (if fw_code (ev_code ev) then st\<lparr>fwbuf := ev # drop 1 (fwbuf st)\<rparr>
                     else st\<lparr>kbbuf := ev # drop 1 (kbbuf st)\<rparr>)"

lemma has_device_maxfd: "has_device env kc \<Longrightarrow> maxfd (e_fds env) \<noteq> 0"
  by (auto simp: has_device_def maxfd_def Let_def split: if_splits)

lemma bindR_Inr [simp]: "bindR m Inr = m"
  by (cases m) auto

lemma foldR_Nil_fun [simp]: "foldR f [] = Inr"
  by (rule ext) simp

lemma no_read [simp]: "read_kbd env None = Inr" "read_fw env None = Inr" "read_k3_vol env None = Inr"
  by (rule ext, simp add: read_kbd_def read_fw_def read_k3_vol_def)+

lemma handle_key:
  assumes "has_device env (ev_code ev)"
  shows "handle env (key_input ev) st = process_input_event env ev (buffered ev st)"
  using assms has_device_maxfd [OF assms]
  by (auto simp: key_input_def has_device_def buffered_def read_kbd_def read_fw_def read_k3_vol_def
      process_events_def bindR_assoc split: if_splits)

lemma main_loop_stopped: "\<not> (keepgoing st \<and> alive st) \<Longrightarrow> main_loop env is st = Inr st"
  by (cases "is") auto

lemma main_loop_append:
  "main_loop env (xs @ ys) st = bindR (main_loop env xs st) (main_loop env ys)"
proof (induction xs arbitrary: st)
  case Nil
  then show ?case by simp
next
  case (Cons i xs)
  show ?case
  proof (cases "keepgoing st \<and> alive st")
    case True
    have "main_loop env (xs @ ys) = (\<lambda>x. bindR (main_loop env xs x) (main_loop env ys))"
      by (rule ext) (rule Cons.IH)
    with True show ?thesis by (simp add: bindR_assoc)
  next
    case False
    then show ?thesis using main_loop_stopped by (metis bindR.simps(2))
  qed
qed

section \<open>Idle and collecting\<close>

definition idle :: "hotstate \<Rightarrow> bool" where
  "idle st = (\<not> hotkey_mode st \<and> npressed st = 0 \<and> keepgoing st \<and> alive st \<and> \<not> input_captured st \<and>
     length (hot_sequence st) = MAXSEQ \<and> hot_sequence_length st = 0)"

definition seq_code :: "int \<Rightarrow> short" where
  "seq_code kc = word_of_int (get_key_substitute_code kc)"

definition same_outside_keys :: "hotstate \<Rightarrow> hotstate \<Rightarrow> bool" where
  "same_outside_keys s t = (screen t = screen s \<and> trace t = trace s \<and>
     skip_next_events t = skip_next_events s \<and> reinit t = reinit s)"

text \<open>Idle, but for the codes of js.\<close>

definition idle_with :: "int list \<Rightarrow> hotstate \<Rightarrow> bool" where
  "idle_with js st = (idle (st\<lparr>hot_sequence_length := 0\<rparr>) \<and> hot_sequence_length st = length js \<and>
     take (length js) (hot_sequence st) = map seq_code js)"

lemma idle_with_Nil: "idle st \<Longrightarrow> idle_with [] st"
  by (simp add: idle_with_def idle_def)

text \<open>The hotkey mode entered from s, after the keys ks.\<close>

definition collecting :: "env \<Rightarrow> hotstate \<Rightarrow> int list \<Rightarrow> hotstate \<Rightarrow> bool" where
  "collecting env s ks t = (hotkey_mode t \<and> npressed t = 0 \<and> keepgoing t \<and> alive t \<and> input_captured t \<and>
     \<not> introducer_just_pressed t \<and> length (hot_sequence t) = MAXSEQ \<and>
     hot_sequence_length t = length ks \<and> take (length ks) (hot_sequence t) = map seq_code ks \<and>
     grab_calls t = grab_calls s @ map (\<lambda>fd. (fd, True)) (event_fds (e_fds env)) \<and>
     timer t = (if 0 \<le> e_hot_interval env then e_hot_interval env else timer s) \<and>
     same_outside_keys s t)"

lemma idle_buffered [simp]: "idle (buffered ev st) = idle st"
  by (simp add: buffered_def idle_def)

lemma idle_with_buffered [simp]: "idle_with js (buffered ev st) = idle_with js st"
  by (simp add: buffered_def idle_with_def idle_def)

lemma collecting_buffered [simp]: "collecting env s ks (buffered ev t) = collecting env s ks t"
  by (simp add: buffered_def collecting_def collected_def same_outside_keys_def)

lemma buffered_same:
  "screen (buffered ev st) = screen st" "trace (buffered ev st) = trace st"
  "grab_calls (buffered ev st) = grab_calls st" "timer (buffered ev st) = timer st"
  "skip_next_events (buffered ev st) = skip_next_events st" "reinit (buffered ev st) = reinit st"
  by (simp_all add: buffered_def)

lemma tap_run:
  assumes "has_device env kc" "keepgoing st" "alive st"
  shows "main_loop env (tap kc) st =
    bindR (process_input_event env (press kc) (buffered (press kc) st)) (\<lambda>t.
      if keepgoing t \<and> alive t
      then process_input_event env (release kc) (buffered (release kc) t) else Inr t)"
proof -
  have h: "handle env (key_input (press kc)) s = process_input_event env (press kc) (buffered (press kc) s)"
      "handle env (key_input (release kc)) s = process_input_event env (release kc) (buffered (release kc) s)" for s
    by (rule handle_key, simp add: press_def release_def assms(1))+
  have nil: "main_loop env [] = Inr" by (rule ext) simp
  have "main_loop env [key_input (release kc)] = (\<lambda>t. if keepgoing t \<and> alive t
      then process_input_event env (release kc) (buffered (release kc) t) else Inr t)"
    by (rule ext) (simp add: h nil)
  then show ?thesis using assms(2,3) by (simp add: tap_def h)
qed

text \<open>The introducer does not reset the length: codes that are there stay at the head of the sequence.\<close>

lemma introducer_tap_with:
  assumes "idle_with js st" "has_device env (e_introducer env)"
  shows "\<exists>t. main_loop env (tap (e_introducer env)) st = Inr t \<and> collecting env st js t"
proof -
  let ?k = "e_introducer env"
  define s1 where "s1 = buffered (press ?k) st"
  have s1: "idle_with js s1" using assms(1) by (simp add: s1_def)
  define s2 where "s2 = s1\<lparr>npressed := 1, introducer_just_pressed := True\<rparr>"
  have p: "process_input_event env (press ?k) s1 = Inr s2"
    using s1 by (simp add: process_input_event_def press_def key_pressed_def Let_def idle_with_def idle_def s2_def)
  define s3 where "s3 = buffered (release ?k) s2"
  have s3: "npressed s3 = 1" "introducer_just_pressed s3" "hot_sequence_length s3 = length js"
      "take (length js) (hot_sequence s3) = map seq_code js"
      "length (hot_sequence s3) = MAXSEQ" "keepgoing s3" "alive s3"
    using s1 by (simp_all add: s3_def s2_def buffered_def idle_with_def idle_def)
  have same: "same_outside_keys st s3" "grab_calls s3 = grab_calls st" "timer s3 = timer st"
    by (simp_all add: s3_def s2_def s1_def buffered_same same_outside_keys_def)
  have "collecting env st js (key_released env ?k s3)"
    using s3 same by (simp add: key_released_def Let_def engage_hotkey_timer_def capture_input_def
        collecting_def same_outside_keys_def)
  moreover have "process_input_event env (release ?k) s3 = Inr (key_released env ?k s3)"
    by (simp add: process_input_event_def release_def)
  moreover have "keepgoing s2 \<and> alive s2" using s1 by (simp add: s2_def idle_with_def idle_def)
  ultimately show ?thesis
    using tap_run [OF assms(2), of st] assms(1) p
    by (simp add: idle_with_def idle_def s1_def [symmetric] s3_def [symmetric])
qed

lemmas introducer_tap = introducer_tap_with [OF idle_with_Nil]

text \<open>A key that is not the trailer, while there is room.\<close>

lemma press_key:
  assumes "collecting env s ks t" "kc \<noteq> e_trailer env"
  shows "process_input_event env (press kc) t = (if length ks < MAXSEQ
    then Inr (t\<lparr>npressed := 1, hot_sequence := (hot_sequence t)[length ks := seq_code kc],
                hot_sequence_length := length ks + 1\<rparr>)
    else Inl Table_overflow)"
  using assms by (simp add: process_input_event_def press_def key_pressed_def Let_def collecting_def seq_code_def
      guardR_def)

lemma key_tap:
  assumes "collecting env s ks t" "kc \<noteq> e_trailer env" "length ks < MAXSEQ" "has_device env kc"
  shows "\<exists>u. main_loop env (tap kc) t = Inr u \<and> collecting env s (ks @ [kc]) u"
proof -
  define t1 where "t1 = buffered (press kc) t"
  have t1: "collecting env s ks t1" using assms(1) by (simp add: t1_def)
  define t2 where "t2 = t1\<lparr>npressed := 1, hot_sequence := (hot_sequence t1)[length ks := seq_code kc],
      hot_sequence_length := length ks + 1\<rparr>"
  have p: "process_input_event env (press kc) t1 = Inr t2"
    using press_key [OF t1 assms(2)] assms(3) by (simp add: t2_def)
  define t3 where "t3 = buffered (release kc) t2"
  have t3: "t3\<lparr>npressed := npressed t3 - 1\<rparr> = key_released env kc t3" "npressed t3 = 1"
    using t1 by (simp_all add: t3_def t2_def buffered_def key_released_def Let_def collecting_def)
  have "take (Suc (length ks)) ((hot_sequence t1)[length ks := seq_code kc]) =
      take (length ks) (hot_sequence t1) @ [seq_code kc]"
    using t1 assms(3) by (simp add: collecting_def take_Suc_conv_app_nth)
  then have "collecting env s (ks @ [kc]) (t3\<lparr>npressed := 0\<rparr>)"
    using t1 by (simp add: collecting_def t3_def t2_def buffered_def collected_def same_outside_keys_def)
  moreover have "process_input_event env (release kc) t3 = Inr (t3\<lparr>npressed := 0\<rparr>)"
    using t3 by (simp add: process_input_event_def release_def)
  moreover have "keepgoing t2 \<and> alive t2" "keepgoing t" "alive t"
    using t1 assms(1) by (simp_all add: t2_def collecting_def)
  ultimately show ?thesis
    using tap_run [OF assms(4)] p by (simp add: t1_def [symmetric] t3_def [symmetric])
qed

definition taps :: "int list \<Rightarrow> input list" where
  "taps ks = concat (map tap ks)"

lemma taps_simps [simp]: "taps [] = []" "taps (k # ks) = tap k @ taps ks" "taps (ks @ js) = taps ks @ taps js"
  by (simp_all add: taps_def)

lemma keys_run:
  assumes "collecting env s js t" "e_trailer env \<notin> set ks" "length js + length ks \<le> MAXSEQ"
    "list_all (has_device env) ks"
  shows "\<exists>u. main_loop env (taps ks) t = Inr u \<and> collecting env s (js @ ks) u"
  using assms(2-4)
proof (induction ks rule: rev_induct)
  case Nil
  then show ?case using assms(1) by simp
next
  case (snoc k ks)
  then obtain u where u: "main_loop env (taps ks) t = Inr u" "collecting env s (js @ ks) u" by auto
  with key_tap [OF u(2), of k] snoc.prems show ?case by (auto simp: main_loop_append)
qed

text \<open>The trailer: the collected sequence is run with the devices released.\<close>

definition leaving :: "env \<Rightarrow> hotstate \<Rightarrow> int list \<Rightarrow> hotstate \<Rightarrow> bool" where
  "leaving env s ks t = (\<not> hotkey_mode t \<and> npressed t = 1 \<and> keepgoing t \<and> alive t \<and> \<not> input_captured t \<and>
     \<not> introducer_just_pressed t \<and> length (hot_sequence t) = MAXSEQ \<and> timer t = 0 \<and>
     hot_sequence_length t = length ks \<and> take (length ks) (hot_sequence t) = map seq_code ks \<and>
     grab_calls t = grab_calls s @ map (\<lambda>fd. (fd, True)) (event_fds (e_fds env)) @
       map (\<lambda>fd. (fd, False)) (event_fds (e_fds env)) \<and> same_outside_keys s t)"

lemma press_trailer:
  assumes "collecting env s ks t"
  shows "\<exists>u. process_input_event env (press (e_trailer env)) t = run_sequence env u \<and> leaving env s ks u"
proof -
  let ?u = "leave_mode env (t\<lparr>npressed := 1\<rparr>)"
  have "process_input_event env (press (e_trailer env)) t = run_sequence env ?u"
    using assms by (simp add: process_input_event_def press_def key_pressed_def Let_def collecting_def leave_mode_def)
  moreover have "leaving env s ks ?u"
    using assms by (simp add: collecting_def leaving_def leave_mode_def release_input_def
        engage_hotkey_timer_def collected_def same_outside_keys_def)
  ultimately show ?thesis by blast
qed

definition left :: "env \<Rightarrow> hotstate \<Rightarrow> hotstate \<Rightarrow> bool" where
  "left env s t = (idle t \<and> timer t = 0 \<and>
     grab_calls t = grab_calls s @ map (\<lambda>fd. (fd, True)) (event_fds (e_fds env)) @
       map (\<lambda>fd. (fd, False)) (event_fds (e_fds env)))"

lemma trailer_tap:
  assumes "collecting env s ks t" "has_device env (e_trailer env)"
    "\<And>u. leaving env s ks u \<Longrightarrow> run_sequence env u =
       Inr (u\<lparr>hot_sequence_length := 0, screen := sc, skip_next_events := n, trace := tr\<rparr>)"
  shows "\<exists>v. main_loop env (tap (e_trailer env)) t = Inr v \<and> left env s v \<and>
    screen v = sc \<and> skip_next_events v = n \<and> trace v = tr \<and> reinit v = reinit s"
proof -
  let ?k = "e_trailer env"
  have "collecting env s ks (buffered (press ?k) t)" using assms(1) by simp
  then obtain u where u: "process_input_event env (press ?k) (buffered (press ?k) t) = run_sequence env u"
      "leaving env s ks u"
    using press_trailer by blast
  define v where "v = u\<lparr>hot_sequence_length := 0, screen := sc, skip_next_events := n, trace := tr\<rparr>"
  have v: "run_sequence env u = Inr v" using assms(3) [OF u(2)] by (simp add: v_def)
  define w where "w = buffered (release ?k) v"
  have "key_released env ?k w = w\<lparr>npressed := 0\<rparr>"
    using u(2) by (simp add: key_released_def Let_def w_def v_def leaving_def buffered_def)
  then have r: "process_input_event env (release ?k) w = Inr (w\<lparr>npressed := 0\<rparr>)"
    by (simp add: process_input_event_def release_def)
  have "keepgoing v \<and> alive v" using u(2) by (simp add: v_def leaving_def)
  then have "main_loop env (tap ?k) t = Inr (w\<lparr>npressed := 0\<rparr>)"
    using tap_run [OF assms(2)] assms(1) u(1) v r
    by (simp add: w_def [symmetric] collecting_def)
  moreover have "left env s (w\<lparr>npressed := 0\<rparr>)"
    using u(2) by (simp add: left_def idle_def w_def v_def leaving_def buffered_def)
  ultimately show ?thesis
    using u(2) by (simp add: w_def v_def buffered_def leaving_def same_outside_keys_def)
qed

section \<open>A whole round\<close>

definition hotkey_round :: "env \<Rightarrow> int list \<Rightarrow> input list" where
  "hotkey_round env ks = tap (e_introducer env) @ taps ks @ tap (e_trailer env)"

definition round_ok :: "env \<Rightarrow> int list \<Rightarrow> bool" where
  "round_ok env ks = (list_all (has_device env) (e_introducer env # e_trailer env # ks) \<and>
     e_trailer env \<notin> set ks)"

lemma round_until_trailer_with:
  assumes "idle_with js st" "round_ok env ks" "length js + length ks \<le> MAXSEQ"
  shows "\<exists>t. main_loop env (hotkey_round env ks) st = main_loop env (tap (e_trailer env)) t \<and>
    collecting env st (js @ ks) t"
proof -
  obtain t where t: "main_loop env (tap (e_introducer env)) st = Inr t" "collecting env st js t"
    using introducer_tap_with [OF assms(1)] assms(2) by (auto simp: round_ok_def)
  then obtain u where "main_loop env (taps ks) t = Inr u" "collecting env st (js @ ks) u"
    using keys_run [OF t(2)] assms(2,3) by (auto simp: round_ok_def)
  with t show ?thesis by (auto simp: hotkey_round_def main_loop_append)
qed

lemma round_until_trailer:
  "idle st \<Longrightarrow> round_ok env ks \<Longrightarrow> length ks \<le> MAXSEQ \<Longrightarrow>
    \<exists>t. main_loop env (hotkey_round env ks) st = main_loop env (tap (e_trailer env)) t \<and> collecting env st ks t"
  using round_until_trailer_with [OF idle_with_Nil, of st env ks] by simp

lemma leaving_collected:
  "leaving env s ks u \<Longrightarrow> collected u = map seq_code ks \<and> hot_sequence_length u = length ks \<and>
     screen u = screen s \<and> trace u = trace s"
  by (simp add: leaving_def collected_def same_outside_keys_def)

lemma run_found:
  assumes "leaving env s ks u" "ks \<noteq> []"
    "find_sequence_action (e_config env) (map seq_code ks) = Some a"
    "execute_action (e_dev env) (e_config env) (e_fds env) (screen s) a = Inr (sc, es, n)"
  shows "run_sequence env u =
    Inr (u\<lparr>hot_sequence_length := 0, screen := Some sc, skip_next_events := n, trace := trace s @ es\<rparr>)"
  using leaving_collected [OF assms(1)] assms(2-4) by (simp add: run_sequence_def Let_def)

lemma run_unknown:
  assumes "leaving env s ks u" "find_sequence_action (e_config env) (map seq_code ks) = None \<or> ks = []"
  shows "run_sequence env u = Inr (u\<lparr>hot_sequence_length := 0, screen := screen s,
    skip_next_events := skip_next_events s, trace := trace s\<rparr>)"
proof -
  have "screen u = screen s" "skip_next_events u = skip_next_events s" "trace u = trace s"
    using assms(1) by (simp_all add: leaving_def same_outside_keys_def)
  then have e: "u\<lparr>hot_sequence_length := 0, screen := screen s, skip_next_events := skip_next_events s,
      trace := trace s\<rparr> = u\<lparr>hot_sequence_length := 0\<rparr>"
    by (cases u) simp
  show ?thesis
  proof (cases "ks = []")
    case True
    then have "hot_sequence_length u = 0" using leaving_collected [OF assms(1)] by simp
    moreover from this have "u\<lparr>hot_sequence_length := 0\<rparr> = u" by (cases u) simp
    ultimately show ?thesis unfolding e by (simp add: run_sequence_def)
  next
    case False
    define u0 where "u0 = u\<lparr>hot_sequence_length := 0\<rparr>"
    have "u0\<lparr>trace := trace u0\<rparr> = u0" by (cases u0) simp
    moreover have "send_keys (e_config env) (e_fds env) (collected u0) = []"
      by (simp add: u0_def collected_def send_keys_def)
    moreover have "run_sequence env u =
        Inr (u0\<lparr>trace := trace u0 @ send_keys (e_config env) (e_fds env) (collected u0)\<rparr>)"
      using False assms(2) leaving_collected [OF assms(1)] by (simp add: run_sequence_def Let_def u0_def)
    ultimately have "run_sequence env u = Inr u0" by simp
    then show ?thesis using e by (simp only: u0_def)
  qed
qed

section \<open>An example\<close>

definition letter_action :: action where
  "letter_action = shell_action\<lparr>act_sequence := [word_of_int KPKEY_A]\<rparr>"

definition sample_env :: env where
  "sample_env = \<lparr>e_dev = sample_device, e_config = initial_config\<lparr>pactions := Some [letter_action]\<rparr>,
     e_fds = k3_fds, e_introducer = KPKEY_SHIFT, e_trailer = KPKEY_ENTER, e_hot_interval = 500\<rparr>"

definition start_state :: hotstate where
  "start_state = \<lparr>introducer_just_pressed = False, hotkey_mode = False, npressed = 0,
     hot_sequence = replicate MAXSEQ 0, hot_sequence_length = 0, input_captured = False,
     skip_next_events = 0, keepgoing = True, reinit = False, alarm_set = False, timer = 0, alive = True,
     screen = Some tiny_screen, kbbuf = [press KPKEY_A, release KPKEY_A], fwbuf = [], k3volbuf = [],
     grab_calls = [], trace = []\<rparr>"

lemma start_idle: "idle start_state" "hot_start env start_state" "timer start_state = 0"
    "trace start_state = []" "screen start_state = Some tiny_screen"
  by (simp_all add: idle_def start_state_def hot_start_def)

lemma sample_codes: "\<not> fw_code KPKEY_SHIFT" "\<not> fw_code KPKEY_ENTER" "\<not> fw_code KPKEY_A" "\<not> fw_code KPKEY_B"
    "KPKEY_A \<noteq> KPKEY_ENTER" "KPKEY_B \<noteq> KPKEY_ENTER"
  by code_simp+

lemma sample_devices:
  "has_device sample_env KPKEY_SHIFT" "has_device sample_env KPKEY_ENTER" "has_device sample_env KPKEY_A"
  "has_device sample_env KPKEY_B"
  "has_device (sample_env\<lparr>e_hot_interval := 0\<rparr>) KPKEY_SHIFT"
  by (simp_all add: has_device_def sample_env_def k3_fds_def sample_codes)

lemma sample_keys: "e_introducer sample_env = KPKEY_SHIFT" "e_trailer sample_env = KPKEY_ENTER"
  by (simp_all add: sample_env_def)

lemma sample_round: "round_ok sample_env [KPKEY_A]" "round_ok sample_env [KPKEY_B]"
    "round_ok sample_env (replicate 8 KPKEY_A @ [KPKEY_A])"
  using sample_codes(5,6) by (simp_all add: round_ok_def sample_keys sample_devices list_all_iff)

lemma sample_found:
  "find_sequence_action (e_config sample_env) (map seq_code [KPKEY_A]) = Some (Row letter_action)"
  "find_sequence_action (e_config sample_env) (map seq_code [KPKEY_B]) = None"
proof -
  have "seq_code KPKEY_A = word_of_int KPKEY_A" "seq_code KPKEY_B \<noteq> word_of_int KPKEY_A"
      "[seq_code KPKEY_B] \<noteq> triple_shift"
    by code_simp+
  then show "find_sequence_action (e_config sample_env) (map seq_code [KPKEY_A]) = Some (Row letter_action)"
    "find_sequence_action (e_config sample_env) (map seq_code [KPKEY_B]) = None"
    by (simp_all add: find_sequence_action_def sample_env_def actions_def letter_action_def)
qed

lemma shell_executed:
  assumes "act_type a = ACTION_SHELL_COMMAND" "length (title a) < MAXPATH"
  shows "\<exists>es. execute_action sample_device c k3_fds (Some tiny_screen) (Row a) = Inr (tiny_screen, es, 0) \<and>
     commands_run es = [command a]"
proof -
  have "command_outcome sample_device c k3_fds a = Inr ([Shell (command a)], 0)"
    using assms(1) by (simp add: command_outcome_def ACTION_KINDLE_SCRIPT_def ACTION_KINDLE_KEYS_def ACTION_SHELL_COMMAND_def)
  then show ?thesis
    using row_executed [OF sample_ok, of a c k3_fds "[Shell (command a)]" 0] assms(2)
    by (auto simp: commands_run_def List.map_filter_def)
qed

lemma letter_executed:
  "\<exists>es. execute_action (e_dev sample_env) (e_config sample_env) (e_fds sample_env)
     (screen start_state) (Row letter_action) = Inr (tiny_screen, es, 0) \<and> commands_run es = [''ls'']"
  using shell_executed [of letter_action "e_config sample_env"]
  by (simp add: letter_action_def shell_action_def title_def MAXPATH_def sample_env_def start_idle)

lemma round_runs_action_with:
  assumes "idle_with js st" and "round_ok env ks" and "js @ ks \<noteq> []" and "length js + length ks \<le> MAXSEQ"
    and "find_sequence_action (e_config env) (map seq_code (js @ ks)) = Some a"
    and "execute_action (e_dev env) (e_config env) (e_fds env) (screen st) a = Inr (s, es, n)"
  shows "\<exists>t. main_loop env (hotkey_round env ks) st = Inr t \<and> idle t \<and> timer t = 0 \<and>
    screen t = Some s \<and> trace t = trace st @ es \<and> skip_next_events t = n \<and>
    grab_calls t = grab_calls st @ map (\<lambda>fd. (fd, True)) (event_fds (e_fds env)) @
      map (\<lambda>fd. (fd, False)) (event_fds (e_fds env))"
proof -
  obtain t where t: "main_loop env (hotkey_round env ks) st = main_loop env (tap (e_trailer env)) t"
      "collecting env st (js @ ks) t"
    using round_until_trailer_with [OF assms(1,2,4)] by blast
  have "has_device env (e_trailer env)" using assms(2) by (simp add: round_ok_def)
  from trailer_tap [OF t(2) this, where sc = "Some s" and n = n and tr = "trace st @ es"] run_found [OF _ assms(3,5,6)] t(1)
  show ?thesis by (auto simp: left_def)
qed

lemma round_runs_action:
  assumes "idle st" and "round_ok env ks" and "ks \<noteq> []" and "length ks \<le> MAXSEQ"
    and "find_sequence_action (e_config env) (map seq_code ks) = Some a"
    and "execute_action (e_dev env) (e_config env) (e_fds env) (screen st) a = Inr (s, es, n)"
  shows "\<exists>t. main_loop env (hotkey_round env ks) st = Inr t \<and> idle t \<and> timer t = 0 \<and>
    screen t = Some s \<and> trace t = trace st @ es \<and> skip_next_events t = n \<and>
    grab_calls t = grab_calls st @ map (\<lambda>fd. (fd, True)) (event_fds (e_fds env)) @
      map (\<lambda>fd. (fd, False)) (event_fds (e_fds env))"
  using round_runs_action_with [OF idle_with_Nil, of st env ks a s es n] assms by simp

section \<open>Properties\<close>

text \<open>C2: The whole purpose of the program: from an idle state, a tap on the introducer, taps on the keys
  of a sequence (no more than MAXSEQ, none of them the trailer) and a tap on the trailer execute
  the action defined for these keys, once, on the screen of before; the devices were grabbed and
  are released again, the timer is off, and the machine is idle.\<close>
theorem hotkey_runs_action:
  assumes "idle st" and "round_ok env ks" and "ks \<noteq> []" and "length ks \<le> MAXSEQ"
    and "find_sequence_action (e_config env) (map seq_code ks) = Some a"
    and "execute_action (e_dev env) (e_config env) (e_fds env) (screen st) a = Inr (s, es, n)"
  shows "\<exists>t. main_loop env (hotkey_round env ks) st = Inr t \<and> idle t \<and> timer t = 0 \<and>
    screen t = Some s \<and> trace t = trace st @ es \<and> skip_next_events t = n \<and>
    grab_calls t = grab_calls st @ map (\<lambda>fd. (fd, True)) (event_fds (e_fds env)) @
      map (\<lambda>fd. (fd, False)) (event_fds (e_fds env))"
  using assms by (rule round_runs_action)

theorem hotkey_runs_action_witness:
  "\<exists>t es. main_loop sample_env (hotkey_round sample_env [KPKEY_A]) start_state = Inr t \<and> idle t \<and>
     screen t = Some tiny_screen \<and> trace t = es \<and> commands_run es = [''ls'']"
proof -
  obtain es where es: "execute_action (e_dev sample_env) (e_config sample_env) (e_fds sample_env)
      (screen start_state) (Row letter_action) = Inr (tiny_screen, es, 0)" "commands_run es = [''ls'']"
    using letter_executed by blast
  have "length [KPKEY_A] \<le> MAXSEQ" by (simp add: MAXSEQ_def)
  from hotkey_runs_action [OF start_idle(1) sample_round(1) _ this sample_found(1) es(1)] es(2) show ?thesis
    by (auto simp: start_idle)
qed

text \<open>A sequence no action is defined for is thrown away: no key is sent back to the framework, although
  the loop after the look-up is there to do that, no event is to be skipped, and the machine is
  idle with the screen as before.\<close>
theorem unknown_sequence_lost:
  assumes "idle st" and "round_ok env ks" and "length ks \<le> MAXSEQ"
    and "find_sequence_action (e_config env) (map seq_code ks) = None"
  shows "\<exists>t. main_loop env (hotkey_round env ks) st = Inr t \<and> idle t \<and> timer t = 0 \<and>
    screen t = screen st \<and> trace t = trace st"
proof -
  obtain t where t: "main_loop env (hotkey_round env ks) st = main_loop env (tap (e_trailer env)) t"
      "collecting env st ks t"
    using round_until_trailer [OF assms(1-3)] by blast
  have "has_device env (e_trailer env)" using assms(2) by (simp add: round_ok_def)
  from trailer_tap [OF t(2) this, where sc = "screen st" and n = "skip_next_events st" and tr = "trace st"] run_unknown assms(4) t(1)
  show ?thesis by (auto simp: left_def)
qed

theorem unknown_sequence_lost_witness:
  "\<exists>t. main_loop sample_env (hotkey_round sample_env [KPKEY_B]) start_state = Inr t \<and> idle t \<and> trace t = []"
proof -
  have "length [KPKEY_B] \<le> MAXSEQ" by (simp add: MAXSEQ_def)
  from unknown_sequence_lost [OF start_idle(1) sample_round(2) this sample_found(2)] show ?thesis
    by (auto simp: start_idle)
qed

text \<open>A pause: with an interval of more than a second, select times out before the timer does, and the keys
  pressed until then are forgotten while the mode goes on; the action that is run is the one of the
  keys that come after the pause.\<close>
theorem pause_forgets_keys:
  assumes "idle st" and "round_ok env js" and "length js \<le> MAXSEQ"
    and "round_ok env ks" and "ks \<noteq> []" and "length ks \<le> MAXSEQ"
    and "find_sequence_action (e_config env) (map seq_code ks) = Some a"
    and "execute_action (e_dev env) (e_config env) (e_fds env) (screen st) a = Inr (s, es, n)"
  shows "\<exists>t. main_loop env (tap (e_introducer env) @ taps js @ Select Timeout # taps ks @ tap (e_trailer env)) st = Inr t \<and>
    idle t \<and> screen t = Some s \<and> trace t = trace st @ es"
proof -
  obtain t0 where t0: "main_loop env (tap (e_introducer env)) st = Inr t0" "collecting env st [] t0"
    using introducer_tap [OF assms(1)] assms(2) by (auto simp: round_ok_def)
  obtain t1 where t1: "main_loop env (taps js) t0 = Inr t1" "collecting env st js t1"
    using keys_run [OF t0(2), of js] assms(2,3) by (auto simp: round_ok_def)
  let ?s = "st\<lparr>skip_next_events := 0\<rparr>" and ?t = "t1\<lparr>npressed := 0, hot_sequence_length := 0, skip_next_events := 0\<rparr>"
  have "maxfd (e_fds env) \<noteq> 0"
    using assms(2) by (intro has_device_maxfd [of env "e_trailer env"]) (simp add: round_ok_def)
  then have pause: "handle env (Select Timeout) t1 = Inr ?t" by simp
  have "collecting env ?s [] ?t" using t1(2) by (simp add: collecting_def same_outside_keys_def)
  then obtain t2 where t2: "main_loop env (taps ks) ?t = Inr t2" "collecting env ?s ks t2"
    using keys_run [of env ?s "[]" ?t ks] assms(4,6) by (auto simp: round_ok_def)
  have "has_device env (e_trailer env)" using assms(4) by (simp add: round_ok_def)
  from trailer_tap [OF t2(2) this, where sc = "Some s" and n = n and tr = "trace ?s @ es"]
  obtain v where v: "main_loop env (tap (e_trailer env)) t2 = Inr v" "left env ?s v" "screen v = Some s" "trace v = trace st @ es"
    using run_found [of env ?s ks _ a s es n] assms(5,7,8) by auto
  have "keepgoing t1 \<and> alive t1" using t1(2) by (simp add: collecting_def)
  then have "main_loop env (Select Timeout # taps ks @ tap (e_trailer env)) t1 = Inr v"
    using pause t2(1) v(1) by (simp del: handle.simps add: main_loop_append)
  then show ?thesis using t0(1) t1(1) v by (auto simp: main_loop_append left_def simp del: main_loop.simps)
qed

text \<open>A key more than the array holds: the press of a ninth key in the hotkey mode is a write behind
  hot\_sequence, whatever comes after it.\<close>
theorem ninth_key_overflows:
  assumes "idle st" and "round_ok env (ks @ [kc])" and "length ks = MAXSEQ"
  shows "main_loop env (tap (e_introducer env) @ taps ks @ tap kc @ rest) st = Inl Table_overflow"
proof -
  have r: "round_ok env ks" and kc: "has_device env kc" "kc \<noteq> e_trailer env"
    using assms(2) by (auto simp: round_ok_def)
  obtain t where t: "main_loop env (tap (e_introducer env)) st = Inr t" "collecting env st [] t"
    using introducer_tap assms(1) r by (auto simp: round_ok_def)
  then obtain u where u: "main_loop env (taps ks) t = Inr u" "collecting env st ks u"
    using keys_run [OF t(2), of ks] r assms(3) by (auto simp: round_ok_def)
  have "process_input_event env (press kc) (buffered (press kc) u) = Inl Table_overflow"
    using press_key [of env st ks "buffered (press kc) u" kc] u(2) kc(2) assms(3) by simp
  then have "main_loop env (tap kc) u = Inl Table_overflow"
    using tap_run [OF kc(1)] u(2) by (simp add: collecting_def)
  with t u show ?thesis by (simp add: main_loop_append)
qed

theorem ninth_key_overflows_witness:
  "main_loop sample_env (tap KPKEY_SHIFT @ taps (replicate 8 KPKEY_A) @ tap KPKEY_A @ []) start_state =
     Inl Table_overflow"
proof -
  have "length (replicate 8 KPKEY_A) = MAXSEQ" by (simp add: MAXSEQ_def)
  from ninth_key_overflows [OF start_idle(1) sample_round(3) this, of "[]"] show ?thesis
    by (simp add: sample_env_def)
qed

text \<open>C7: In every state the loop reaches from its start without a fault, its signals being handled between
  two rounds: the input devices are grabbed exactly in the hotkey mode; with a positive interval the
  timer is then running and its handler is in place, so that the mode ends by itself; outside the mode
  no codes are kept and no timer runs. The array holds the collected codes only because a ninth one is
  a fault: the code has no test, and in the hotkey mode the press of a key that is not the trailer is
  stored while fewer than MAXSEQ codes are there, and is a write behind the array after that. (An
  alarm inside a press does leave codes behind: alarm\_during\_press.)\<close>
theorem hotkey_invariant:
  assumes "reach (hot_start env) (hot_step env) st"
  shows "(hotkey_mode st \<longleftrightarrow> input_captured st) \<and>
    (\<forall>fd. grabbed (grab_calls st) fd \<longleftrightarrow> hotkey_mode st \<and> fd \<in> set (event_fds (e_fds env))) \<and>
    (hotkey_mode st \<and> 0 < e_hot_interval env \<longrightarrow> 0 < timer st \<and> alarm_set st) \<and>
    (\<not> hotkey_mode st \<longrightarrow> hot_sequence_length st = 0 \<and> timer st = 0 \<and> \<not> alarm_set st) \<and>
    hot_sequence_length st \<le> MAXSEQ \<and>
    (\<forall>kc. hotkey_mode st \<and> kc \<noteq> e_trailer env \<longrightarrow>
       (if hot_sequence_length st < MAXSEQ
        then \<exists>t. key_pressed env kc st = Inr t \<and> hot_sequence_length t = hot_sequence_length st + 1
        else key_pressed env kc st = Inl Table_overflow))"
proof -
  have "hot_ok env st" using hotkeys.reach_inv [OF assms] .
  then have "(hotkey_mode st \<longleftrightarrow> input_captured st) \<and>
    (\<forall>fd. grabbed (grab_calls st) fd \<longleftrightarrow> hotkey_mode st \<and> fd \<in> set (event_fds (e_fds env))) \<and>
    (hotkey_mode st \<and> 0 < e_hot_interval env \<longrightarrow> 0 < timer st \<and> alarm_set st) \<and>
    (\<not> hotkey_mode st \<longrightarrow> hot_sequence_length st = 0 \<and> timer st = 0 \<and> \<not> alarm_set st) \<and>
    hot_sequence_length st \<le> MAXSEQ"
    unfolding hot_defs by auto
  moreover have "if hot_sequence_length st < MAXSEQ
      then \<exists>t. key_pressed env kc st = Inr t \<and> hot_sequence_length t = hot_sequence_length st + 1
      else key_pressed env kc st = Inl Table_overflow" if "hotkey_mode st" "kc \<noteq> e_trailer env" for kc
    using that by (simp add: key_pressed_def Let_def)
  ultimately show ?thesis by blast
qed

theorem hotkey_invariant_witness:
  "\<exists>st. main_loop sample_env (tap KPKEY_SHIFT) start_state = Inr st \<and> hotkey_mode st \<and> input_captured st \<and>
     grabbed (grab_calls st) (fd_kbd k3_fds) \<and> 0 < timer st"
proof -
  have i: "e_introducer sample_env = KPKEY_SHIFT" "0 < e_hot_interval sample_env" "e_fds sample_env = k3_fds"
    by (simp_all add: sample_env_def)
  obtain t where t: "main_loop sample_env (tap KPKEY_SHIFT) start_state = Inr t" "hotkey_mode t"
    using introducer_tap [OF start_idle(1), of sample_env] sample_devices(1) i
    by (auto simp: collecting_def)
  have "reach (hot_start sample_env) (hot_step sample_env) t"
    using main_loop_reach [OF t(1)] reach_init start_idle(2) by metis
  from hotkey_invariant [OF this] t i show ?thesis
    by (simp add: event_fds_def k3_fds_def)
qed

text \<open>A read that fails is taken for a read of two events, the number of bytes being compared as an
  unsigned number: the two events of the last reads are processed once more.\<close>
theorem failed_read_repeats_events:
  assumes "length (kbbuf st) = 2"
  shows "loop_round env (Ready (Some Failed) fw vol) st =
    loop_round env (Ready (Some (Events (kbbuf st))) fw vol) st"
  using assms by (simp add: read_kbd_def)

theorem failed_read_repeats_events_witness:
  "loop_round sample_env (Ready (Some Failed) None None) start_state =
     loop_round sample_env (Ready (Some (Events [press KPKEY_A, release KPKEY_A])) None None) start_state"
  using failed_read_repeats_events [of start_state sample_env None None] by (simp add: start_state_def)

text \<open>With HotInterval zero or negative no timer is set: after a tap on the introducer the devices stay
  grabbed through any number of timeouts of the loop, until the trailer is pressed.\<close>
theorem zero_interval_keeps_grab:
  assumes "idle st" and "has_device env (e_introducer env)" and "e_hot_interval env \<le> 0" and "timer st = 0"
  shows "\<exists>t. main_loop env (tap (e_introducer env) @ replicate n (Select Timeout)) st = Inr t \<and>
    hotkey_mode t \<and> input_captured t \<and> timer t = 0"
proof -
  obtain t where t: "main_loop env (tap (e_introducer env)) st = Inr t" "collecting env st [] t"
    using introducer_tap assms(1,2) by blast
  have "\<exists>u. main_loop env (replicate n (Select Timeout)) t = Inr u \<and> hotkey_mode u \<and> input_captured u \<and> timer u = 0"
    if "hotkey_mode t \<and> input_captured t \<and> timer t = 0 \<and> keepgoing t \<and> alive t" for t
    using that
  proof (induction n arbitrary: t)
    case 0
    then show ?case by simp
  next
    case (Suc n)
    then show ?case
      using Suc.IH [of "t\<lparr>npressed := 0, hot_sequence_length := 0, skip_next_events := 0\<rparr>"]
        has_device_maxfd [OF assms(2)] by simp
  qed
  moreover have "hotkey_mode t \<and> input_captured t \<and> timer t = 0 \<and> keepgoing t \<and> alive t"
    using t(2) assms(3,4) by (auto simp: collecting_def)
  ultimately show ?thesis using t(1) by (simp add: main_loop_append)
qed

theorem zero_interval_keeps_grab_witness:
  "\<exists>t. main_loop (sample_env\<lparr>e_hot_interval := 0\<rparr>) (tap KPKEY_SHIFT @ replicate 60 (Select Timeout)) start_state =
     Inr t \<and> input_captured t"
proof -
  have "e_introducer (sample_env\<lparr>e_hot_interval := 0\<rparr>) = KPKEY_SHIFT" by (simp add: sample_env_def)
  with zero_interval_keeps_grab [OF start_idle(1), of "sample_env\<lparr>e_hot_interval := 0\<rparr>" 60]
    sample_devices(5) start_idle(3)
  show ?thesis by auto
qed

end
