(* ===== verification/Handles.thy ===== *)
theory Handles
  imports HotKeyProps
begin

text \<open>
  The descriptor and the mapped size of the framebuffer (fbscreen\_t of src/include/screen.h) through the
  drawing of src/screen.c and src/statusbar.c, the actions and the loop of main.c: nothing but
  fbscreen\_open and fbscreen\_close sets them.
\<close>

definition scr_handle :: "fbscreen \<Rightarrow> int \<times> int" where
  "scr_handle s = (scr_fd s, screensize s)"

named_theorems handle_kept

lemma on_surface_handle [handle_kept]: "on_surface s f = Inr (t, n) \<Longrightarrow> scr_handle t = scr_handle s"
  by (auto simp: on_surface_def scr_handle_def res_simps)

lemma rect_handle [handle_kept]: "screen_rect_at s x y w h c = Inr (t, n) \<Longrightarrow> scr_handle t = scr_handle s"
  unfolding screen_rect_at_def by (rule on_surface_handle)

lemma put_handle [handle_kept]: "screen_put_pixmap s x y q = Inr (t, n) \<Longrightarrow> scr_handle t = scr_handle s"
  by (auto simp: screen_put_pixmap_def split: option.splits dest: on_surface_handle)

lemma flash_loop_handle [handle_kept]: "flash_loop n s x y w h d q = Inr (t, es) \<Longrightarrow> scr_handle t = scr_handle s"
proof (induction n arbitrary: s es)
  case (Suc n)
  then show ?case by (auto simp: res_simps dest!: put_handle)
qed simp

lemma flash_handle [handle_kept]: "screen_flash_area m s k x y w h d wt = Inr (t, es) \<Longrightarrow> scr_handle t = scr_handle s"
  by (auto simp: screen_flash_area_def flash_whole_def res_simps split: option.splits if_splits dest: flash_loop_handle)

lemma string_loop_handle [handle_kept]: "string_loop f n s x y cs = Inr t \<Longrightarrow> scr_handle t = scr_handle s"
proof (induction f n s x y cs rule: string_loop.induct)
  case (1 f n s x y c d cs)
  obtain s1 k where s1: "on_surface s (\<lambda>p. pix_blt p x y (get_char_pixmap f (of_char c))) = Inr (s1, k)"
      "(if 1 < n then string_loop f (n - 1) s1 (x + width (font_pixmap f)) y (d # cs) else Inr s1) = Inr t"
    using "1.prems" by (auto simp: res_simps)
  then show ?case using "1.IH" [OF s1(1)] on_surface_handle [OF s1(1)] by (auto split: if_splits)
qed simp_all

lemma string_at_handle [handle_kept]: "screen_string_at f s x y cs = Inr (t, n) \<Longrightarrow> scr_handle t = scr_handle s"
  by (auto simp: screen_string_at_def Let_def res_simps guardR_def split: if_splits dest: string_loop_handle)

lemma bar_handle:
  "statusbar_show m ps = Inr (t, p, es) \<Longrightarrow> map_option scr_handle ps = Some (scr_handle t)"
  "statusbar_hide ps q = Inr (t, es) \<Longrightarrow> map_option scr_handle ps = Some (scr_handle t)"
  "statusbar_text f ps str = Inr (t, es) \<Longrightarrow> map_option scr_handle ps = Some (scr_handle t)"
  "statusbar_flash m ps k d wt = Inr (t, es) \<Longrightarrow> map_option scr_handle ps = Some (scr_handle t)"
  by (auto simp: statusbar_show_def statusbar_hide_def statusbar_text_def statusbar_flash_def with_screen_def res_simps
      split: option.splits dest!: handle_kept)

lemma announce_handle: "announce d ps str = Inr (t, es) \<Longrightarrow> map_option scr_handle ps = Some (scr_handle t)"
  by (auto simp: announce_def res_simps dest!: bar_handle)

lemma run_command_handle: "run_command d c f s a = Inr (t, es, n) \<Longrightarrow> scr_handle t = scr_handle s"
  by (auto simp: run_command_def res_simps split: if_splits dest!: announce_handle)

lemma action_handle: "execute_action d c f ps a = Inr (t, es, n) \<Longrightarrow> map_option scr_handle ps = Some (scr_handle t)"
proof (cases a)
  case (Row r)
  assume "execute_action d c f ps a = Inr (t, es, n)"
  then show ?thesis
    by (auto simp: Row execute_row_def res_simps dest!: bar_handle announce_handle run_command_handle)
next
  case Screenshot
  assume "execute_action d c f ps a = Inr (t, es, n)"
  then show ?thesis
    by (auto simp: Screenshot execute_screenshot_def res_simps dest!: bar_handle announce_handle)
qed

text \<open>Through the loop.\<close>

definition same_handle :: "hotstate \<Rightarrow> hotstate \<Rightarrow> bool" where
  "same_handle st st' = (map_option scr_handle (screen st') = map_option scr_handle (screen st))"

lemma same_handle_trans: "same_handle a b \<Longrightarrow> same_handle b c \<Longrightarrow> same_handle a c"
  by (simp add: same_handle_def)

lemma run_sequence_handle: "run_sequence env st = Inr st' \<Longrightarrow> same_handle st st'"
  by (auto simp: run_sequence_def Let_def res_simps same_handle_def split: if_splits option.splits dest!: action_handle)

lemma key_pressed_handle: "key_pressed env kc st = Inr st' \<Longrightarrow> same_handle st st'"
  by (auto simp: key_pressed_def Let_def res_simps guardR_def same_handle_def release_input_def engage_hotkey_timer_def
      split: if_splits dest!: run_sequence_handle)

lemma event_handle: "process_input_event env ev st = Inr st' \<Longrightarrow> same_handle st st'"
  by (auto simp: process_input_event_def key_released_def Let_def capture_input_def engage_hotkey_timer_def same_handle_def
      split: if_splits dest!: key_pressed_handle)

lemma events_handle: "process_events env wanted evs st = Inr st' \<Longrightarrow> same_handle st st'"
  unfolding process_events_def
proof (rule foldR_invariant [where P = "same_handle st"])
  show "same_handle st st" by (simp add: same_handle_def)
  show "same_handle st t" if "same_handle st s" "(if wanted (ev_code ev) then process_input_event env ev s else Inr s) = Inr t" for ev s t
    using that event_handle [of env ev s t] by (auto simp: same_handle_def split: if_splits)
qed

lemma read_handle:
  "read_kbd env r st = Inr st' \<Longrightarrow> same_handle st st'" "read_fw env r st = Inr st' \<Longrightarrow> same_handle st st'"
  "read_k3_vol env r st = Inr st' \<Longrightarrow> same_handle st st'"
  by (auto simp: read_kbd_def read_fw_def read_k3_vol_def same_handle_def
      split: if_splits option.splits prod.splits dest!: events_handle)

lemma round_handle:
  assumes "loop_round env sel st = Inr st'"
  shows "same_handle st st'"
proof (cases "maxfd (e_fds env) = 0")
  case False
  with assms show ?thesis
  proof (cases sel)
    case (Ready k w v)
    with False assms obtain s1 s2 where
      "read_kbd env k st = Inr s1" "read_fw env w s1 = Inr s2" "read_k3_vol env v s2 = Inr st'"
      by (auto simp: res_simps)
    then show ?thesis using read_handle same_handle_trans by metis
  qed (auto simp: same_handle_def)
qed (use assms in \<open>simp add: same_handle_def\<close>)

lemma alarm_handle: "alarm_handler env st = Inr st' \<Longrightarrow> same_handle st st'"
  by (auto simp: alarm_handler_def Let_def same_handle_def release_input_def engage_hotkey_timer_def
      split: if_splits dest!: run_sequence_handle)

lemma signal_handle: "handle_signal env sg st = Inr st' \<Longrightarrow> same_handle st st'"
  by (cases sg) (auto simp: hup_handler_def int_handler_def term_handler_def deliver_alarm_def same_handle_def
      split: if_splits dest!: alarm_handle)

lemma main_loop_handle: "main_loop env ins st = Inr st' \<Longrightarrow> same_handle st st'"
proof (induction ins arbitrary: st)
  case (Cons i ins)
  show ?case
  proof (cases "keepgoing st \<and> alive st")
    case True
    then obtain s1 where s1: "handle env i st = Inr s1" "main_loop env ins s1 = Inr st'"
      using Cons.prems by (auto simp: res_simps)
    have "same_handle st s1" using s1(1) round_handle signal_handle by (cases i) (simp_all del: loop_round.simps)
    then show ?thesis using Cons.IH [OF s1(2)] same_handle_trans by blast
  qed (use Cons.prems in \<open>auto simp: same_handle_def\<close>)
qed (simp add: same_handle_def)

end
