(* ===== verification/Launch.thy ===== *)
theory Launch
  imports HotKeyRun Handles
begin

text \<open>
  The life of the process in src/main.c: the arguments, the process directory, the event files, one
  session of main from the initialisation through the loop to the teardown, and the sessions that
  follow one another when SIGHUP asks for a new initialisation. What the system answers in a
  session is a record. The exit code of main is left out: the loop stores the results of select in
  it.
\<close>

section \<open>Arguments and the process directory\<close>

record cmdline =
  do_daemonize :: bool
  pkb_file :: "string option"
  pfw_file :: "string option"

fun parse_args :: "string list \<Rightarrow> cmdline \<Rightarrow> cmdline" where
  "parse_args [] cl = cl"
| "parse_args (a # as) cl = parse_args as
     (if a = ''-d'' then cl\<lparr>do_daemonize := False\<rparr>
      else if take 3 a = ''-kb'' then cl\<lparr>pkb_file := Some (drop 3 a)\<rparr>
      else if take 3 a = ''-fw'' then cl\<lparr>pfw_file := Some (drop 3 a)\<rparr>
      else cl)"

text \<open>What the C library's dirname leaves in its argument: a path without a slash is not changed.\<close>

definition strip_slashes :: "string \<Rightarrow> string" where
  "strip_slashes p = rev (dropWhile (\<lambda>c. c = CHR ''/'') (rev p))"

definition strip_name :: "string \<Rightarrow> string" where
  "strip_name p = rev (dropWhile (\<lambda>c. c \<noteq> CHR ''/'') (rev p))"

definition dirname_arg :: "string \<Rightarrow> string" where
  "dirname_arg p = (if CHR ''/'' \<in> set p
     then (let d = strip_slashes (strip_name (strip_slashes p)) in if d = [] then ''/'' else d)
     else p)"

text \<open>The link of /proc/self/exe, cut to the buffer; None when it cannot be read.\<close>

definition process_directory :: "string option \<Rightarrow> string \<Rightarrow> string res" where
  "process_directory exe av0 =
     (let p = (case exe of Some e \<Rightarrow> take (MAXPATH - 1) e | None \<Rightarrow> av0) in
      bindR (guardR (exe \<noteq> None \<or> length av0 < MAXPATH - 1) Buffer_overread) (\<lambda>_.
      bindR (guardR (length (dirname_arg p @ ''/'') < MAXPATH) Buffer_overflow) (\<lambda>_.
        Inr (dirname_arg p @ ''/''))))"

section \<open>The event files\<close>

definition no_fds :: fds where
  "no_fds = \<lparr>fd_kbd = -1, fd_fw = -1, fd_k3_vol = -1, fd_prockeypad = -1, fd_procfiveway = -1\<rparr>"

definition open_event_files :: "(string \<Rightarrow> int) \<Rightarrow> cmdline \<Rightarrow> config \<Rightarrow> fds \<Rightarrow> fds" where
  "open_event_files op cl c f =
     f\<lparr>fd_kbd := (case pkb_file cl of Some p \<Rightarrow> if p \<noteq> [] then op p else -1
                                    | None \<Rightarrow> op (cstr (kbd_input c))),
       fd_fw := (case pfw_file cl of Some p \<Rightarrow> if p \<noteq> [] then op p else -1
                                   | None \<Rightarrow> op (cstr (fw_input c))),
       fd_k3_vol := op (cstr (k3_vol_input c))\<rparr>"

text \<open>The closed descriptors come with the new state.\<close>

definition close_event_files :: "fds \<Rightarrow> fds \<times> int list" where
  "close_event_files f =
     (f\<lparr>fd_kbd := -1, fd_fw := -1, fd_k3_vol := -1\<rparr>,
      filter (\<lambda>fd. fd \<noteq> -1) [fd_kbd f, fd_fw f, fd_k3_vol f])"

definition close_procwrite_files :: "fds \<Rightarrow> fds \<times> int list" where
  "close_procwrite_files f =
     (f\<lparr>fd_prockeypad := -1, fd_procfiveway := -1\<rparr>,
      filter (\<lambda>fd. fd \<noteq> -1) [fd_prockeypad f, fd_procfiveway f])"

section \<open>The screen\<close>

text \<open>With the new state, the sizes that are unmapped and the descriptors that are closed.\<close>

definition fbscreen_close :: "fbscreen \<Rightarrow> fbscreen \<times> int list \<times> int list" where
  "fbscreen_close s =
     (s\<lparr>scr_fd := -1, screensize := 0, surface := \<lparr>width = 0, height = 0, surf = []\<rparr>\<rparr>,
      if scr_fd s \<noteq> -1 \<and> screensize s \<noteq> 0 then ([screensize s], [scr_fd s]) else ([], []))"

section \<open>A session\<close>

text \<open>The system in a session; the arrays of events are uninitialised memory.\<close>

record outside =
  o_os :: os
  o_net :: network
  o_dir :: "(string \<times> bool) list option"
  o_display :: display
  o_dev :: device
  o_open :: "string \<Rightarrow> int"
  o_keypad :: int
  o_fiveway :: int
  o_kbbuf :: "input_event list"
  o_fwbuf :: "input_event list"
  o_k3volbuf :: "input_event list"
  o_inputs :: "input list"

text \<open>The statics as main sets them at the label again; the array of the sequence keeps its codes.\<close>

definition boot_state :: "outside \<Rightarrow> short list \<Rightarrow> hotstate" where
  "boot_state o_s seq = \<lparr>introducer_just_pressed = False, hotkey_mode = False, npressed = 0,
     hot_sequence = seq, hot_sequence_length = 0, input_captured = False, skip_next_events = 0,
     keepgoing = True, reinit = False, alarm_set = False, timer = 0, alive = True,
     screen = fbscreen_open (o_display o_s), kbbuf = o_kbbuf o_s, fwbuf = o_fwbuf o_s,
     k3volbuf = o_k3volbuf o_s, grab_calls = [], trace = []\<rparr>"

definition session_env :: "outside \<Rightarrow> config \<Rightarrow> fds \<Rightarrow> env" where
  "session_env o_s c f = \<lparr>e_dev = o_dev o_s, e_config = c, e_fds = f, e_introducer = introducer c,
     e_trailer = trailer c, e_hot_interval = hot_interval c\<rparr>"

record session =
  s_config :: config
  s_state :: "hotstate option"     \<comment> \<open>None when the initialisation failed\<close>
  s_fds :: fds
  s_closed :: "int list"           \<comment> \<open>descriptors closed at the end\<close>
  s_unmapped :: "int list"         \<comment> \<open>sizes unmapped at the end\<close>
  s_socket :: int                  \<comment> \<open>of the remote command entry\<close>
  s_listening :: bool

text \<open>The loop, when one of the two event files is open; the files of /proc are opened for it.\<close>

definition run_loop :: "outside \<Rightarrow> config \<Rightarrow> fds \<Rightarrow> short list \<Rightarrow> (env \<times> hotstate \<times> int \<times> bool) res" where
  "run_loop o_s c f seq =
     (if fd_kbd f \<noteq> -1 \<or> fd_fw f \<noteq> -1
      then (let sock = rce_init (o_net o_s) (rce c);
                env = session_env o_s c (f\<lparr>fd_prockeypad := o_keypad o_s, fd_procfiveway := o_fiveway o_s\<rparr>)
            in bindR (main_loop env (o_inputs o_s) (boot_state o_s seq)) (\<lambda>st.
                 Inr (env, st, sock, sock \<noteq> -1 \<and> rce_start (rce c))))
      else Inr (session_env o_s c f, boot_state o_s seq, -1, False))"

text \<open>Behind the loop: the timer, the grabbed devices, the files, the configuration and the screen. A
  process killed by SIGALRM does not get there.\<close>

definition teardown :: "env \<Rightarrow> hotstate \<Rightarrow> config \<Rightarrow> int \<Rightarrow> bool \<Rightarrow> session" where
  "teardown env st c sock listening =
     (let st = release_input env (engage_hotkey_timer 0 st);
          (f1, closed1) = close_event_files (e_fds env);
          (f2, closed2) = close_procwrite_files f1;
          (unmapped, closed3) = (case screen st of None \<Rightarrow> ([], []) | Some s \<Rightarrow> snd (fbscreen_close s))
      in \<lparr>s_config = launchpad_deinit c, s_state = Some (st\<lparr>screen := None\<rparr>), s_fds = f2,
          s_closed = (if sock \<noteq> -1 then [sock] else []) @ closed1 @ closed2 @ closed3, s_unmapped = unmapped,
          s_socket = sock, s_listening = listening\<rparr>)"

definition run_session :: "outside \<Rightarrow> string \<Rightarrow> cmdline \<Rightarrow> short list \<Rightarrow> config \<Rightarrow> session res" where
  "run_session o_s proc_dir cl seq c0 =
     bindR (launchpad_init (o_os o_s) (o_net o_s) proc_dir (o_dir o_s) proc_dir c0) (\<lambda>(c, rc).
       if 0 \<le> rc
       then bindR (run_loop o_s c (open_event_files (o_open o_s) cl c no_fds) seq) (\<lambda>(env, st, sock, listening).
            if alive st then Inr (teardown env st c sock listening)
            else Inr \<lparr>s_config = c, s_state = Some st, s_fds = e_fds env, s_closed = [], s_unmapped = [], s_socket = sock,
                      s_listening = listening\<rparr>)
       else Inr \<lparr>s_config = c, s_state = None, s_fds = no_fds, s_closed = [], s_unmapped = [], s_socket = -1, s_listening = False\<rparr>)"

definition wants_again :: "session \<Rightarrow> bool" where
  "wants_again s = (case s_state s of None \<Rightarrow> False | Some st \<Rightarrow> reinit st \<and> alive st)"

text \<open>The sessions of the process, one for each element of the list at most; the last one.\<close>

fun run_process :: "outside list \<Rightarrow> string \<Rightarrow> cmdline \<Rightarrow> short list \<Rightarrow> config \<Rightarrow> session option res" where
  "run_process [] proc_dir cl seq c = Inr None"
| "run_process (o_s # rest) proc_dir cl seq c =
     bindR (run_session o_s proc_dir cl seq c) (\<lambda>s.
       if wants_again s
       then run_process rest proc_dir cl (case s_state s of None \<Rightarrow> seq | Some st \<Rightarrow> hot_sequence st) (s_config s)
       else Inr (Some s))"

section \<open>Delays\<close>

text \<open>The requests msdelay makes of nanosleep, whose answers are a return value and the rest of an
  interrupted sleep; unsigned long has 32 bits.\<close>

definition EINTR :: int where "EINTR = 4"

fun sleep_requests :: "(int \<times> int \<times> int) list \<Rightarrow> int \<times> int \<Rightarrow> (int \<times> int) list" where
  "sleep_requests [] tv = [tv]"
| "sleep_requests ((ret, rem) # answers) tv = tv # (if ret = EINTR then sleep_requests answers rem else [])"

definition msdelay :: "(int \<times> int \<times> int) list \<Rightarrow> int \<Rightarrow> (int \<times> int) list" where
  "msdelay answers msecs =
     (let v = uint (word_of_int msecs :: 32 word)
      in sleep_requests answers (v div 1000, (v mod 1000) * 1000000))"

section \<open>Lemmas\<close>

lemma boot_start: "length seq = MAXSEQ \<Longrightarrow> hot_start env (boot_state o_s seq)"
  by (simp add: hot_start_def boot_state_def)

lemma loop_state_ok:
  assumes "length seq = MAXSEQ" "run_loop o_s c f seq = Inr (env, st, sock, l)"
  shows "hot_ok env st"
proof (cases "fd_kbd f \<noteq> -1 \<or> fd_fw f \<noteq> -1")
  case True
  then have "main_loop env (o_inputs o_s) (boot_state o_s seq) = Inr st"
    using assms(2) by (auto simp: run_loop_def Let_def res_simps)
  then have "reach (hot_start env) (hot_step env) st"
    using main_loop_reach reach_init boot_start [OF assms(1)] by metis
  then show ?thesis by (rule hotkeys.reach_inv)
next
  case False
  then have "st = boot_state o_s seq" using assms(2) by (auto simp: run_loop_def)
  then have "reach (hot_start env) (hot_step env) st"
    using boot_start [OF assms(1)] by (simp add: reach_init)
  then show ?thesis by (rule hotkeys.reach_inv)
qed

lemma released_all:
  assumes "hot_ok env st"
  shows "\<not> grabbed (grab_calls (release_input env (engage_hotkey_timer 0 st))) fd \<and>
    timer (release_input env (engage_hotkey_timer 0 st)) = 0 \<and>
    \<not> input_captured (release_input env (engage_hotkey_timer 0 st))"
  using assms by (auto simp: hot_defs release_input_def engage_hotkey_timer_def)

lemma loop_fds:
  "run_loop o_s c f seq = Inr (env, st, sock, l) \<Longrightarrow> fd_kbd (e_fds env) = fd_kbd f \<and>
     fd_fw (e_fds env) = fd_fw f \<and> fd_k3_vol (e_fds env) = fd_k3_vol f"
  by (auto simp: run_loop_def Let_def session_env_def res_simps split: if_splits)

lemma teardown_state:
  "s_state (teardown env st c sock l) = Some ((release_input env (engage_hotkey_timer 0 st))\<lparr>screen := None\<rparr>)"
  "s_config (teardown env st c sock l) = launchpad_deinit c"
  "s_fds (teardown env st c sock l) = (e_fds env)\<lparr>fd_kbd := -1, fd_fw := -1, fd_k3_vol := -1, fd_prockeypad := -1, fd_procfiveway := -1\<rparr>"
  by (simp_all add: teardown_def Let_def close_event_files_def close_procwrite_files_def split: prod.splits)

text \<open>What a session opens: the socket, the event files, the files of /proc and the framebuffer; the files
  of /proc and the socket only when the loop is entered.\<close>

definition session_opens :: "outside \<Rightarrow> cmdline \<Rightarrow> config \<Rightarrow> int list" where
  "session_opens o_s cl c =
     (let f = open_event_files (o_open o_s) cl c no_fds; looped = (fd_kbd f \<noteq> -1 \<or> fd_fw f \<noteq> -1)
      in filter (\<lambda>fd. fd \<noteq> -1)
        ((if looped then [rce_init (o_net o_s) (rce c)] else []) @ [fd_kbd f, fd_fw f, fd_k3_vol f] @
         (if looped then [o_keypad o_s, o_fiveway o_s] else []) @
         (case fbscreen_open (o_display o_s) of None \<Rightarrow> [] | Some s \<Rightarrow> [scr_fd s])))"

definition session_maps :: "outside \<Rightarrow> int list" where
  "session_maps o_s = (case fbscreen_open (o_display o_s) of None \<Rightarrow> [] | Some s \<Rightarrow> [screensize s])"

lemma opened_screen:
  assumes "fb_map d 0 = None" "fbscreen_open d = Some s"
  shows "scr_fd s \<noteq> -1" "screensize s \<noteq> 0"
  using assms by (auto simp: fbscreen_open_def Let_def split: if_splits option.splits prod.splits)

lemma loop_handle:
  assumes "run_loop o_s c f seq = Inr (env, st, sock, l)"
  shows "map_option scr_handle (screen st) = map_option scr_handle (fbscreen_open (o_display o_s))"
proof -
  have "same_handle (boot_state o_s seq) st"
    using assms by (auto simp: run_loop_def Let_def res_simps same_handle_def split: if_splits dest!: main_loop_handle)
  then show ?thesis by (simp add: same_handle_def boot_state_def)
qed

lemma teardown_closes:
  assumes "run_loop o_s c (open_event_files (o_open o_s) cl c no_fds) seq = Inr (env, st, sock, l)"
    and "fb_map (o_display o_s) 0 = None"
  shows "s_closed (teardown env st c sock l) = session_opens o_s cl c"
    and "s_unmapped (teardown env st c sock l) = session_maps o_s"
proof -
  let ?fb = "case screen st of None \<Rightarrow> ([], []) | Some s \<Rightarrow> snd (fbscreen_close s)"
  have fb: "?fb = (session_maps o_s, case fbscreen_open (o_display o_s) of None \<Rightarrow> [] | Some s \<Rightarrow> [scr_fd s])"
    using loop_handle [OF assms(1)] opened_screen [OF assms(2)]
    by (cases "screen st"; cases "fbscreen_open (o_display o_s)") (auto simp: fbscreen_close_def session_maps_def scr_handle_def)
  have fds: "e_fds env = (let f = open_event_files (o_open o_s) cl c no_fds in
      if fd_kbd f \<noteq> -1 \<or> fd_fw f \<noteq> -1 then f\<lparr>fd_prockeypad := o_keypad o_s, fd_procfiveway := o_fiveway o_s\<rparr> else f)"
      "sock = (let f = open_event_files (o_open o_s) cl c no_fds in
      if fd_kbd f \<noteq> -1 \<or> fd_fw f \<noteq> -1 then rce_init (o_net o_s) (rce c) else -1)"
    using assms(1) by (auto simp: run_loop_def Let_def session_env_def res_simps split: if_splits)
  have none: "fd_prockeypad (open_event_files (o_open o_s) cl c no_fds) = -1" "fd_procfiveway (open_event_files (o_open o_s) cl c no_fds) = -1"
    by (simp_all add: open_event_files_def no_fds_def)
  have screen: "filter (\<lambda>fd. fd \<noteq> -1) (case fbscreen_open (o_display o_s) of None \<Rightarrow> [] | Some s \<Rightarrow> [scr_fd s]) =
      (case fbscreen_open (o_display o_s) of None \<Rightarrow> [] | Some s \<Rightarrow> [scr_fd s])"
    using opened_screen(1) [OF assms(2)] by (cases "fbscreen_open (o_display o_s)") auto
  have same: "screen (release_input env (engage_hotkey_timer 0 st)) = screen st"
    by (simp add: release_input_def engage_hotkey_timer_def)
  show "s_closed (teardown env st c sock l) = session_opens o_s cl c"
    by (simp add: teardown_def Let_def same fb close_event_files_def close_procwrite_files_def session_opens_def screen fds none)
  show "s_unmapped (teardown env st c sock l) = session_maps o_s"
    by (simp add: teardown_def Let_def same fb close_event_files_def close_procwrite_files_def)
qed

section \<open>Properties\<close>

text \<open>A session that ends (by any sequence of events, timeouts, read errors and signals that does not
  overflow a buffer or kill the process) leaves nothing behind: no input device stays grabbed, the
  timer is off, the screen is given back and the table of actions is empty; and the descriptors that
  close is called with are those the session has opened, each of them once: the socket, the event
  files, both files of /proc and the framebuffer, whose mapping is taken away. (mmap refuses a size of
  zero.)\<close>
theorem session_leaves_nothing:
  assumes "length seq = MAXSEQ" and "fb_map (o_display o_s) 0 = None"
    and "launchpad_init (o_os o_s) (o_net o_s) proc_dir (o_dir o_s) proc_dir c0 = Inr (c, rc)"
    and "run_session o_s proc_dir cl seq c0 = Inr s" and "s_state s = Some st" and "alive st"
  shows "(\<forall>fd. \<not> grabbed (grab_calls st) fd) \<and> timer st = 0 \<and> \<not> input_captured st \<and> screen st = None \<and>
    s_fds s = no_fds \<and> actions (s_config s) = [] \<and>
    s_closed s = session_opens o_s cl c \<and> s_unmapped s = session_maps o_s"
proof -
  note init = assms(3)
  have rc: "0 \<le> rc" using assms(4,5) init by (auto simp: run_session_def split: if_splits)
  define f where "f = open_event_files (o_open o_s) cl c no_fds"
  obtain env st0 sock l where loop: "run_loop o_s c f seq = Inr (env, st0, sock, l)"
    using assms(4) init rc by (auto simp: run_session_def f_def res_simps)
  have s: "s = (if alive st0 then teardown env st0 c sock l
      else \<lparr>s_config = c, s_state = Some st0, s_fds = e_fds env, s_closed = [], s_unmapped = [], s_socket = sock, s_listening = l\<rparr>)"
    using assms(4) init rc loop by (auto simp: run_session_def f_def split: if_splits)
  have "alive st0"
    using s assms(5,6) by (auto split: if_splits)
  then have s: "s = teardown env st0 c sock l" using s by simp
  have st: "st = (release_input env (engage_hotkey_timer 0 st0))\<lparr>screen := None\<rparr>"
    using assms(5) s by (simp add: teardown_state)
  have "s_fds s = no_fds" "actions (s_config s) = []"
    using loop_fds [OF loop] unfolding s
    by (simp_all add: teardown_state no_fds_def launchpad_deinit_def actions_def)
  then show ?thesis
    using released_all [OF loop_state_ok [OF assms(1) loop]] st teardown_closes [OF loop [unfolded f_def] assms(2)]
    unfolding s by auto
qed

text \<open>A session without configuration files: a tap on the introducer, then SIGTERM in the hotkey mode.\<close>

definition empty_os :: os where
  "empty_os = \<lparr>os_file = (\<lambda>p. None), os_read_all = (\<lambda>p. True), os_malloc = (\<lambda>n. True)\<rparr>"

definition sample_outside :: outside where
  "sample_outside = \<lparr>o_os = empty_os, o_net = no_network, o_dir = Some [],
     o_display = \<lparr>fb_open = -1, fb_vinfo = None, fb_map = (\<lambda>n. None)\<rparr>, o_dev = sample_device,
     o_open = (\<lambda>p. if p = ''/dev/input/event0'' then 3 else -1), o_keypad = 6, o_fiveway = 7,
     o_kbbuf = [], o_fwbuf = [], o_k3volbuf = [], o_inputs = tap KPKEY_SHIFT @ [Signal Sigterm]\<rparr>"

definition no_args :: cmdline where
  "no_args = \<lparr>do_daemonize = True, pkb_file = None, pfw_file = None\<rparr>"

lemma cstr_NULs: "cstr (replicate n NUL) = []"
  using cstr_replicate_NUL [of n "[]"] by simp

lemma cstr_path_buffer: "NUL \<notin> set p \<Longrightarrow> cstr (path_buffer p) = p"
  by (simp add: path_buffer_def cstr_append cstr_NULs)

lemma empty_init:
  "\<exists>c. launchpad_init empty_os no_network ''//'' (Some []) ''//'' initial_config = Inr (c, 0) \<and>
     introducer c = KPKEY_SHIFT \<and> cstr (kbd_input c) = ''/dev/input/event0'' \<and>
     cstr (fw_input c) = ''/dev/input/event1'' \<and> cstr (k3_vol_input c) = ''/dev/input/event2''"
proof -
  obtain ptab pcodes n where def: "get_default_input_keydefs = (ptab, pcodes, n)"
    by (cases get_default_input_keydefs)
  have "init_keys empty_os ''//'' initial_config =
      Inr (initial_config\<lparr>input_keys := ptab, input_key_codes := pcodes, n_input_keys := n\<rparr>)"
    by (simp add: init_keys_def get_input_keydefs_def inidb_open_def empty_os_def KEYDEFS_FILE_def MAXPATH_def
        def)
  then show ?thesis
    by (simp add: launchpad_init_def Let_def actions_def initial_config_def cstr_path_buffer)
qed

theorem session_leaves_nothing_witness:
  "\<exists>s st. run_session sample_outside ''//'' no_args (replicate MAXSEQ 0) initial_config = Inr s \<and>
     s_state s = Some st \<and> grab_calls st = [(3, True), (3, False)] \<and> \<not> grabbed (grab_calls st) 3 \<and>
     s_closed s = [3, 6, 7] \<and> alive st"
proof -
  obtain c where c: "launchpad_init empty_os no_network ''//'' (Some []) ''//'' initial_config = Inr (c, 0)"
      "introducer c = KPKEY_SHIFT" "cstr (kbd_input c) = ''/dev/input/event0''"
      "cstr (fw_input c) = ''/dev/input/event1''" "cstr (k3_vol_input c) = ''/dev/input/event2''"
    using empty_init by blast
  let ?f = "open_event_files (o_open sample_outside) no_args c no_fds"
  have f3: "fd_kbd ?f = 3" by (simp add: open_event_files_def no_args_def sample_outside_def c(3))
  define env where "env = session_env sample_outside c (?f\<lparr>fd_prockeypad := 6, fd_procfiveway := 7\<rparr>)"
  define b where "b = boot_state sample_outside (replicate MAXSEQ 0)"
  have e: "e_introducer env = KPKEY_SHIFT" "fd_kbd (e_fds env) = 3"
    using f3 c(2) by (simp_all add: env_def session_env_def)
  have "idle b" by (simp add: b_def boot_state_def idle_def)
  moreover have dev: "has_device env KPKEY_SHIFT" using e sample_codes(1) by (simp add: has_device_def)
  ultimately obtain t where t: "main_loop env (tap KPKEY_SHIFT) b = Inr t" "collecting env b [] t"
    using introducer_tap [of b env] e by auto
  then have "main_loop env (tap KPKEY_SHIFT @ [Signal Sigterm]) b = Inr (term_handler t)"
    by (simp add: main_loop_append collecting_def)
  then have loop: "run_loop sample_outside c ?f (replicate MAXSEQ 0) =
      Inr (env, term_handler t, rce_init no_network (rce c), rce_init no_network (rce c) \<noteq> -1 \<and> rce_start (rce c))"
    using f3 by (simp add: run_loop_def Let_def env_def b_def) (simp add: sample_outside_def)
  have al: "alive (term_handler t)" "input_captured (term_handler t)" "grab_calls (term_handler t) = grab_calls t"
    using t(2) by (simp_all add: term_handler_def collecting_def)
  define s where "s = teardown env (term_handler t) c (rce_init no_network (rce c))
      (rce_init no_network (rce c) \<noteq> -1 \<and> rce_start (rce c))"
  have o: "o_os sample_outside = empty_os" "o_net sample_outside = no_network" "o_dir sample_outside = Some []"
    by (simp_all add: sample_outside_def)
  have run: "run_session sample_outside ''//'' no_args (replicate MAXSEQ 0) initial_config = Inr s"
    using c(1) loop al(1) by (simp add: run_session_def o s_def)
  obtain st where st: "s_state s = Some st" "st = (release_input env (engage_hotkey_timer 0 (term_handler t)))\<lparr>screen := None\<rparr>"
    by (simp add: s_def teardown_state)
  have live: "alive st" using al(1) st(2) by (simp add: release_input_def engage_hotkey_timer_def)
  have fds: "event_fds ?f = [3]" "event_fds (e_fds env) = [3]"
    using f3 by (simp_all add: event_fds_def env_def session_env_def open_event_files_def no_args_def
        sample_outside_def c(4,5) no_fds_def)
  have "grab_calls t = [(3, True)]"
    using t(2) fds by (simp add: collecting_def b_def boot_state_def)
  then have "grab_calls st = [(3, True), (3, False)]"
    using al fds st(2) by (simp add: release_input_def engage_hotkey_timer_def)
  moreover have nomap: "fb_map (o_display sample_outside) 0 = None" by (simp add: sample_outside_def)
  moreover have c0: "launchpad_init (o_os sample_outside) (o_net sample_outside) ''//'' (o_dir sample_outside) ''//'' initial_config = Inr (c, 0)"
    using c(1) o by simp
  moreover have others: "fd_fw ?f = -1" "fd_k3_vol ?f = -1"
    by (simp_all add: open_event_files_def no_args_def sample_outside_def c(4,5))
  moreover from this have closes: "session_opens sample_outside no_args c = [3, 6, 7]"
    using f3 others by (simp add: session_opens_def Let_def o no_network_def rce_init_def)
      (simp add: sample_outside_def fbscreen_open_def)
  ultimately show ?thesis
    using session_leaves_nothing [OF _ nomap c0 run st(1) live] closes run st(1) live by auto
qed

end
