(* ===== verification/Daemon.thy ===== *)
theory Daemon
  imports CString
begin

text \<open>
  Going to the background, and the log, in src/main.c: has_console, get_diag_fp, close_diag_fp, the
  signal handlers of the start, and daemonize. The lock file and the log file are their contents;
  what the system calls answer is a record.
\<close>

section \<open>The log\<close>

record diag =
  running_as_daemon :: bool
  diag_open :: bool                   \<comment> \<open>diag_fp is not null\<close>
  log_file :: "string option"         \<comment> \<open>launchpad.log, None when there is none\<close>
  stderr_text :: string

definition has_console :: "diag \<Rightarrow> bool" where
  "has_console d = (\<not> running_as_daemon d)"

text \<open>The stream is the log (True) or stderr; opening the log for writing empties it.\<close>

definition get_diag_fp :: "bool \<Rightarrow> diag \<Rightarrow> bool \<times> diag" where
  "get_diag_fp can_open d =
     (if \<not> has_console d
      then (if \<not> diag_open d
            then (if can_open then (True, d\<lparr>diag_open := True, log_file := Some []\<rparr>)
                  else (False, d\<lparr>stderr_text := stderr_text d @ ''Can't open diag file launchpad.log'' @ [LF]\<rparr>))
            else (True, d))
      else (False, d))"

definition diag_print :: "bool \<Rightarrow> string \<Rightarrow> diag \<Rightarrow> diag" where
  "diag_print can_open msg d =
     (case get_diag_fp can_open d of (to_log, d) \<Rightarrow>
        if to_log then d\<lparr>log_file := Some ((case log_file d of None \<Rightarrow> [] | Some t \<Rightarrow> t) @ msg)\<rparr>
        else d\<lparr>stderr_text := stderr_text d @ msg\<rparr>)"

definition close_diag_fp :: "diag \<Rightarrow> diag" where
  "close_diag_fp d = (if diag_open d then d\<lparr>diag_open := False\<rparr> else d)"

section \<open>Becoming a daemon\<close>

datatype wakeup = Alarm | Usr1 | Chld    \<comment> \<open>the signals the handlers of the start take\<close>

definition child_handler :: "wakeup \<Rightarrow> int" where
  "child_handler w = (case w of Alarm \<Rightarrow> 1 | Usr1 \<Rightarrow> 0 | Chld \<Rightarrow> 1)"

text \<open>The system: the parent process, the lock file and what the calls on it answer, the result of fork
  (negative, positive in the parent, zero in the child), the signals the parent gets, setsid, the
  process number and whether its digits can be written.\<close>

record start_system =
  ppid_is_init :: bool
  lock_file :: "string option"
  lock_open :: bool                \<comment> \<open>the existing file opens\<close>
  lock_create :: bool
  fork_result :: int
  parent_wakes :: wakeup
  setsid_ok :: bool
  own_pid :: nat
  write_ok :: bool

datatype daemon_result =
    Returned                       \<comment> \<open>the caller goes on\<close>
  | Exited int

definition EXIT_FAILURE :: int where "EXIT_FAILURE = 1"

text \<open>The pid of an existing lock file is read and a path is made of it, which is not used. The result
  and the lock file afterwards (the pid is written with its NUL).\<close>

definition overwrite :: "string option \<Rightarrow> string \<Rightarrow> string" where
  "overwrite old new = new @ drop (length new) (case old of None \<Rightarrow> [] | Some t \<Rightarrow> t)"

definition daemon_child :: "start_system \<Rightarrow> daemon_result \<times> string option" where
  "daemon_child w =
     (let lock = (case lock_file w of None \<Rightarrow> Some [] | Some t \<Rightarrow> Some t) in
      if \<not> setsid_ok w then (Exited EXIT_FAILURE, lock)
      else if write_ok w then (Returned, Some (overwrite lock (show_nat (own_pid w) @ [NUL])))
      else (Exited EXIT_FAILURE, None))"

definition daemonize :: "start_system \<Rightarrow> daemon_result \<times> string option" where
  "daemonize w =
     (if ppid_is_init w then (Returned, lock_file w)
      else if lock_file w \<noteq> None \<and> \<not> lock_open w then (Exited EXIT_FAILURE, lock_file w)
      else if \<not> lock_create w then (Exited EXIT_FAILURE, lock_file w)
      else if fork_result w < 0 then (Exited EXIT_FAILURE, None)
      else if 0 < fork_result w
      then (Exited (child_handler (parent_wakes w)), (case lock_file w of None \<Rightarrow> Some [] | Some t \<Rightarrow> Some t))
      else daemon_child w)"

text \<open>SIGTERM until main sets its own handler.\<close>

definition daemon_handler :: "daemon_result \<times> string option" where
  "daemon_handler = (Exited EXIT_FAILURE, None)"

section \<open>Properties\<close>

text \<open>The log of the initialisation does not survive: after close\_diag\_fp the next message opens
  launchpad.log for writing again, which empties it.\<close>
theorem log_restarted:
  assumes "running_as_daemon d"
  shows "log_file (diag_print True msg (close_diag_fp d)) = Some msg"
  using assms by (auto simp: diag_print_def get_diag_fp_def close_diag_fp_def has_console_def)

theorem log_restarted_witness:
  "log_file (diag_print True ''later'' (close_diag_fp (diag_print True ''start''
     \<lparr>running_as_daemon = True, diag_open = False, log_file = None, stderr_text = []\<rparr>))) = Some ''later''"
  by (rule log_restarted) (simp add: diag_print_def get_diag_fp_def has_console_def)

text \<open>The lock file does not lock: which pid it holds makes no difference, so a second daemon
  starts while the first one runs and writes its own pid over the old one.\<close>
theorem lock_file_ignored:
  assumes "\<not> ppid_is_init w" and "lock_open w" and "lock_create w" and "fork_result w = 0"
    and "setsid_ok w" and "write_ok w"
  shows "fst (daemonize (w\<lparr>lock_file := Some t\<rparr>)) = Returned \<and>
    map_option cstr (snd (daemonize (w\<lparr>lock_file := Some t\<rparr>))) = Some (cstr (show_nat (own_pid w) @ [NUL]))"
proof -
  have "cstr ((s @ [NUL]) @ r) = cstr (s @ [NUL])" for s r :: string
    by (induction s) (auto simp: cstr_def)
  with assms show ?thesis
    by (simp add: daemonize_def daemon_child_def overwrite_def Let_def)
qed

theorem lock_file_ignored_witness:
  "fst (daemonize \<lparr>ppid_is_init = False, lock_file = Some ''17'', lock_open = True, lock_create = True,
     fork_result = 0, parent_wakes = Alarm, setsid_ok = True, own_pid = 18, write_ok = True\<rparr>) = Returned"
  using lock_file_ignored [of "\<lparr>ppid_is_init = False, lock_file = None, lock_open = True, lock_create = True,
     fork_result = 0, parent_wakes = Alarm, setsid_ok = True, own_pid = 18, write_ok = True\<rparr>" "''17''"]
  by simp

end
