(* ===== verification/RawKeys.thy ===== *)
theory RawKeys
  imports KeyDefs
begin

text \<open>
  The constants of namespace key\_codes in src/include/launchpad/domain/key\_definition.hpp (the
  rewrite in C++), as RawKeyCode values, 16-bit numbers. The suffix c tells them from the
  constants of keydefs.h; the last lemma says that the two headers agree. The
  codes of ascii\_translator.cpp are here too.
\<close>

section \<open>Key codes\<close>

definition KPKEY_1_c :: short where "KPKEY_1_c = 2"
definition KPKEY_2_c :: short where "KPKEY_2_c = 3"
definition KPKEY_3_c :: short where "KPKEY_3_c = 4"
definition KPKEY_4_c :: short where "KPKEY_4_c = 5"
definition KPKEY_5_c :: short where "KPKEY_5_c = 6"
definition KPKEY_6_c :: short where "KPKEY_6_c = 7"
definition KPKEY_7_c :: short where "KPKEY_7_c = 8"
definition KPKEY_8_c :: short where "KPKEY_8_c = 9"
definition KPKEY_9_c :: short where "KPKEY_9_c = 10"
definition KPKEY_0_c :: short where "KPKEY_0_c = 11"
definition KPKEY_Q_c :: short where "KPKEY_Q_c = 16"
definition KPKEY_W_c :: short where "KPKEY_W_c = 17"
definition KPKEY_E_c :: short where "KPKEY_E_c = 18"
definition KPKEY_R_c :: short where "KPKEY_R_c = 19"
definition KPKEY_T_c :: short where "KPKEY_T_c = 20"
definition KPKEY_Y_c :: short where "KPKEY_Y_c = 21"
definition KPKEY_U_c :: short where "KPKEY_U_c = 22"
definition KPKEY_I_c :: short where "KPKEY_I_c = 23"
definition KPKEY_O_c :: short where "KPKEY_O_c = 24"
definition KPKEY_P_c :: short where "KPKEY_P_c = 25"
definition KPKEY_A_c :: short where "KPKEY_A_c = 30"
definition KPKEY_S_c :: short where "KPKEY_S_c = 31"
definition KPKEY_D_c :: short where "KPKEY_D_c = 32"
definition KPKEY_F_c :: short where "KPKEY_F_c = 33"
definition KPKEY_G_c :: short where "KPKEY_G_c = 34"
definition KPKEY_H_c :: short where "KPKEY_H_c = 35"
definition KPKEY_J_c :: short where "KPKEY_J_c = 36"
definition KPKEY_K_c :: short where "KPKEY_K_c = 37"
definition KPKEY_L_c :: short where "KPKEY_L_c = 38"
definition KPKEY_DEL_c :: short where "KPKEY_DEL_c = 14"
definition KPKEY_Z_c :: short where "KPKEY_Z_c = 44"
definition KPKEY_X_c :: short where "KPKEY_X_c = 45"
definition KPKEY_C_c :: short where "KPKEY_C_c = 46"
definition KPKEY_V_c :: short where "KPKEY_V_c = 47"
definition KPKEY_B_c :: short where "KPKEY_B_c = 48"
definition KPKEY_N_c :: short where "KPKEY_N_c = 49"
definition KPKEY_M_c :: short where "KPKEY_M_c = 50"
definition KPKEY_DOT_c :: short where "KPKEY_DOT_c = 52"
definition KPKEY_SLASH_c :: short where "KPKEY_SLASH_c = 53"
definition KPKEY_ENTER_c :: short where "KPKEY_ENTER_c = 28"
definition KPKEY_SHIFT_c :: short where "KPKEY_SHIFT_c = 42"
definition KPKEY_ALT_c :: short where "KPKEY_ALT_c = 56"
definition KPKEY_SPACE_c :: short where "KPKEY_SPACE_c = 57"
definition KPKEY_AA_c :: short where "KPKEY_AA_c = 90"
definition KPKEY_SYM_c :: short where "KPKEY_SYM_c = 94"
definition KPKEY_VPLUS_c :: short where "KPKEY_VPLUS_c = 115"
definition KPKEY_VMINUS_c :: short where "KPKEY_VMINUS_c = 114"
definition KPKEY_HOME_c :: short where "KPKEY_HOME_c = 98"
definition KPKEY_PGBCK_c :: short where "KPKEY_PGBCK_c = 109"
definition KPKEY_PGFWD_c :: short where "KPKEY_PGFWD_c = 124"
definition KPKEY_MENU_c :: short where "KPKEY_MENU_c = 139"
definition KPKEY_BACK_c :: short where "KPKEY_BACK_c = 91"
definition KPKEY_FW_LEFT_c :: short where "KPKEY_FW_LEFT_c = 105"
definition KPKEY_FW_RIGHT_c :: short where "KPKEY_FW_RIGHT_c = 106"
definition KPKEY_FW_UP_c :: short where "KPKEY_FW_UP_c = 122"
definition KPKEY_FW_DOWN_c :: short where "KPKEY_FW_DOWN_c = 123"
definition KPKEY_FW_PRESS_c :: short where "KPKEY_FW_PRESS_c = 92"
definition K3KEY_AA_c :: short where "K3KEY_AA_c = 190"
definition K3KEY_SYM_c :: short where "K3KEY_SYM_c = 126"
definition K3KEY_HOME_c :: short where "K3KEY_HOME_c = 102"
definition K3KEY_BACK_c :: short where "K3KEY_BACK_c = 158"
definition K3KEY_PGFWD_c :: short where "K3KEY_PGFWD_c = 191"
definition K3KEY_LPGBCK_c :: short where "K3KEY_LPGBCK_c = 193"
definition K3KEY_LPGFWD_c :: short where "K3KEY_LPGFWD_c = 104"
definition K3KEY_VPLUS_c :: short where "K3KEY_VPLUS_c = 115"
definition K3KEY_VMINUS_c :: short where "K3KEY_VMINUS_c = 114"
definition K3KEY_FW_UP_c :: short where "K3KEY_FW_UP_c = 103"
definition K3KEY_FW_DOWN_c :: short where "K3KEY_FW_DOWN_c = 108"
definition K3KEY_FW_PRESS_c :: short where "K3KEY_FW_PRESS_c = 194"

definition KEY_ESC_CODE :: short where "KEY_ESC_CODE = 1"
definition KEY_BACKSPACE_CODE :: short where "KEY_BACKSPACE_CODE = 14"
definition KEY_TAB_CODE :: short where "KEY_TAB_CODE = 15"
definition KEY_APOSTROPHE_CODE :: short where "KEY_APOSTROPHE_CODE = 40"
definition KEY_EQUAL_CODE :: short where "KEY_EQUAL_CODE = 13"
definition KEY_COMMA_CODE :: short where "KEY_COMMA_CODE = 51"
definition KEY_MINUS_CODE :: short where "KEY_MINUS_CODE = 12"
definition KEY_SEMICOLON_CODE :: short where "KEY_SEMICOLON_CODE = 39"
definition KEY_LEFTBRACE_CODE :: short where "KEY_LEFTBRACE_CODE = 26"
definition KEY_BACKSLASH_CODE :: short where "KEY_BACKSLASH_CODE = 43"
definition KEY_RIGHTBRACE_CODE :: short where "KEY_RIGHTBRACE_CODE = 27"
definition KEY_GRAVE_CODE :: short where "KEY_GRAVE_CODE = 41"

lemmas raw_codes =
  KPKEY_1_c_def KPKEY_2_c_def KPKEY_3_c_def KPKEY_4_c_def KPKEY_5_c_def KPKEY_6_c_def
  KPKEY_7_c_def KPKEY_8_c_def KPKEY_9_c_def KPKEY_0_c_def KPKEY_Q_c_def KPKEY_W_c_def
  KPKEY_E_c_def KPKEY_R_c_def KPKEY_T_c_def KPKEY_Y_c_def KPKEY_U_c_def KPKEY_I_c_def
  KPKEY_O_c_def KPKEY_P_c_def KPKEY_A_c_def KPKEY_S_c_def KPKEY_D_c_def KPKEY_F_c_def
  KPKEY_G_c_def KPKEY_H_c_def KPKEY_J_c_def KPKEY_K_c_def KPKEY_L_c_def KPKEY_DEL_c_def
  KPKEY_Z_c_def KPKEY_X_c_def KPKEY_C_c_def KPKEY_V_c_def KPKEY_B_c_def KPKEY_N_c_def
  KPKEY_M_c_def KPKEY_DOT_c_def KPKEY_SLASH_c_def KPKEY_ENTER_c_def KPKEY_SHIFT_c_def
  KPKEY_ALT_c_def KPKEY_SPACE_c_def KPKEY_AA_c_def KPKEY_SYM_c_def KPKEY_VPLUS_c_def
  KPKEY_VMINUS_c_def KPKEY_HOME_c_def KPKEY_PGBCK_c_def KPKEY_PGFWD_c_def KPKEY_MENU_c_def
  KPKEY_BACK_c_def KPKEY_FW_LEFT_c_def KPKEY_FW_RIGHT_c_def KPKEY_FW_UP_c_def KPKEY_FW_DOWN_c_def
  KPKEY_FW_PRESS_c_def K3KEY_AA_c_def K3KEY_SYM_c_def K3KEY_HOME_c_def K3KEY_BACK_c_def
  K3KEY_PGFWD_c_def K3KEY_LPGBCK_c_def K3KEY_LPGFWD_c_def K3KEY_VPLUS_c_def K3KEY_VMINUS_c_def
  K3KEY_FW_UP_c_def K3KEY_FW_DOWN_c_def K3KEY_FW_PRESS_c_def KEY_ESC_CODE_def
  KEY_BACKSPACE_CODE_def KEY_TAB_CODE_def KEY_APOSTROPHE_CODE_def KEY_EQUAL_CODE_def
  KEY_COMMA_CODE_def KEY_MINUS_CODE_def KEY_SEMICOLON_CODE_def KEY_LEFTBRACE_CODE_def
  KEY_BACKSLASH_CODE_def KEY_RIGHTBRACE_CODE_def KEY_GRAVE_CODE_def

section \<open>The two headers agree\<close>

lemma header_codes_agree:
  "sint KPKEY_1_c = KPKEY_1"
  "sint KPKEY_2_c = KPKEY_2"
  "sint KPKEY_3_c = KPKEY_3"
  "sint KPKEY_4_c = KPKEY_4"
  "sint KPKEY_5_c = KPKEY_5"
  "sint KPKEY_6_c = KPKEY_6"
  "sint KPKEY_7_c = KPKEY_7"
  "sint KPKEY_8_c = KPKEY_8"
  "sint KPKEY_9_c = KPKEY_9"
  "sint KPKEY_0_c = KPKEY_0"
  "sint KPKEY_Q_c = KPKEY_Q"
  "sint KPKEY_W_c = KPKEY_W"
  "sint KPKEY_E_c = KPKEY_E"
  "sint KPKEY_R_c = KPKEY_R"
  "sint KPKEY_T_c = KPKEY_T"
  "sint KPKEY_Y_c = KPKEY_Y"
  "sint KPKEY_U_c = KPKEY_U"
  "sint KPKEY_I_c = KPKEY_I"
  "sint KPKEY_O_c = KPKEY_O"
  "sint KPKEY_P_c = KPKEY_P"
  "sint KPKEY_A_c = KPKEY_A"
  "sint KPKEY_S_c = KPKEY_S"
  "sint KPKEY_D_c = KPKEY_D"
  "sint KPKEY_F_c = KPKEY_F"
  "sint KPKEY_G_c = KPKEY_G"
  "sint KPKEY_H_c = KPKEY_H"
  "sint KPKEY_J_c = KPKEY_J"
  "sint KPKEY_K_c = KPKEY_K"
  "sint KPKEY_L_c = KPKEY_L"
  "sint KPKEY_DEL_c = KPKEY_DEL"
  "sint KPKEY_Z_c = KPKEY_Z"
  "sint KPKEY_X_c = KPKEY_X"
  "sint KPKEY_C_c = KPKEY_C"
  "sint KPKEY_V_c = KPKEY_V"
  "sint KPKEY_B_c = KPKEY_B"
  "sint KPKEY_N_c = KPKEY_N"
  "sint KPKEY_M_c = KPKEY_M"
  "sint KPKEY_DOT_c = KPKEY_DOT"
  "sint KPKEY_SLASH_c = KPKEY_SLASH"
  "sint KPKEY_ENTER_c = KPKEY_ENTER"
  "sint KPKEY_SHIFT_c = KPKEY_SHIFT"
  "sint KPKEY_ALT_c = KPKEY_ALT"
  "sint KPKEY_SPACE_c = KPKEY_SPACE"
  "sint KPKEY_AA_c = KPKEY_AA"
  "sint KPKEY_SYM_c = KPKEY_SYM"
  "sint KPKEY_VPLUS_c = KPKEY_VPLUS"
  "sint KPKEY_VMINUS_c = KPKEY_VMINUS"
  "sint KPKEY_HOME_c = KPKEY_HOME"
  "sint KPKEY_PGBCK_c = KPKEY_PGBCK"
  "sint KPKEY_PGFWD_c = KPKEY_PGFWD"
  "sint KPKEY_MENU_c = KPKEY_MENU"
  "sint KPKEY_BACK_c = KPKEY_BACK"
  "sint KPKEY_FW_LEFT_c = KPKEY_FW_LEFT"
  "sint KPKEY_FW_RIGHT_c = KPKEY_FW_RIGHT"
  "sint KPKEY_FW_UP_c = KPKEY_FW_UP"
  "sint KPKEY_FW_DOWN_c = KPKEY_FW_DOWN"
  "sint KPKEY_FW_PRESS_c = KPKEY_FW_PRESS"
  "sint K3KEY_AA_c = K3KEY_AA"
  "sint K3KEY_SYM_c = K3KEY_SYM"
  "sint K3KEY_HOME_c = K3KEY_HOME"
  "sint K3KEY_BACK_c = K3KEY_BACK"
  "sint K3KEY_PGFWD_c = K3KEY_PGFWD"
  "sint K3KEY_LPGBCK_c = K3KEY_LPGBCK"
  "sint K3KEY_LPGFWD_c = K3KEY_LPGFWD"
  "sint K3KEY_VPLUS_c = K3KEY_VPLUS"
  "sint K3KEY_VMINUS_c = K3KEY_VMINUS"
  "sint K3KEY_FW_UP_c = K3KEY_FW_UP"
  "sint K3KEY_FW_DOWN_c = K3KEY_FW_DOWN"
  "sint K3KEY_FW_PRESS_c = K3KEY_FW_PRESS"
  by (simp_all add: raw_codes key_codes)

end
