(* ===== verification/KeyTable.thy ===== *)
theory KeyTable
  imports RawKeys Config
begin

text \<open>
  class KeyTable of src/src/domain/key\_definition.cpp: two maps between names and codes, filled
  with the built-in names, and the substitution of Kindle 3 codes. The keys of the first map are
  the names in lower case.
\<close>

section \<open>The table\<close>

record key_table =
  name_to_code :: "string \<rightharpoonup> short"
  code_to_name :: "short \<rightharpoonup> string"

definition normalize_name :: "string \<Rightarrow> string" where
  "normalize_name name = map tolower name"

definition register_key :: "short \<Rightarrow> string \<Rightarrow> key_table \<Rightarrow> key_table" where
  "register_key kc name t =
     t\<lparr>name_to_code := (name_to_code t)(normalize_name name \<mapsto> kc),
       code_to_name := (code_to_name t)(kc \<mapsto> name)\<rparr>"

definition find_code :: "key_table \<Rightarrow> string \<Rightarrow> short option" where
  "find_code t name = name_to_code t (normalize_name name)"

definition find_name :: "key_table \<Rightarrow> short \<Rightarrow> string option" where
  "find_name t kc = code_to_name t kc"

definition get_substitute_code :: "short \<Rightarrow> short" where
  "get_substitute_code kc =
     (if kc = K3KEY_AA_c then KPKEY_AA_c
      else if kc = K3KEY_SYM_c then KPKEY_SYM_c
      else if kc = K3KEY_HOME_c then KPKEY_HOME_c
      else if kc = K3KEY_BACK_c then KPKEY_BACK_c
      else if kc = K3KEY_PGFWD_c then KPKEY_PGFWD_c
      else if kc = K3KEY_LPGBCK_c then KPKEY_PGBCK_c
      else if kc = K3KEY_LPGFWD_c then KPKEY_PGFWD_c
      else if kc = K3KEY_VPLUS_c then KPKEY_VPLUS_c
      else if kc = K3KEY_VMINUS_c then KPKEY_VMINUS_c
      else if kc = K3KEY_FW_UP_c then KPKEY_FW_UP_c
      else if kc = K3KEY_FW_DOWN_c then KPKEY_FW_DOWN_c
      else if kc = K3KEY_FW_PRESS_c then KPKEY_FW_PRESS_c
      else kc)"

section \<open>The built-in names\<close>

definition default_rows :: "(short \<times> string) list" where
  "default_rows = [(KPKEY_1_c, ''1''), (KPKEY_2_c, ''2''), (KPKEY_3_c, ''3''), (KPKEY_4_c, ''4''),
    (KPKEY_5_c, ''5''), (KPKEY_6_c, ''6''), (KPKEY_7_c, ''7''), (KPKEY_8_c, ''8''),
    (KPKEY_9_c, ''9''), (KPKEY_0_c, ''0''), (KPKEY_Q_c, ''Q''), (KPKEY_W_c, ''W''),
    (KPKEY_E_c, ''E''), (KPKEY_R_c, ''R''), (KPKEY_T_c, ''T''), (KPKEY_Y_c, ''Y''),
    (KPKEY_U_c, ''U''), (KPKEY_I_c, ''I''), (KPKEY_O_c, ''O''), (KPKEY_P_c, ''P''),
    (KPKEY_A_c, ''A''), (KPKEY_S_c, ''S''), (KPKEY_D_c, ''D''), (KPKEY_F_c, ''F''),
    (KPKEY_G_c, ''G''), (KPKEY_H_c, ''H''), (KPKEY_J_c, ''J''), (KPKEY_K_c, ''K''),
    (KPKEY_L_c, ''L''), (KPKEY_DEL_c, ''Del''), (KPKEY_Z_c, ''Z''), (KPKEY_X_c, ''X''),
    (KPKEY_C_c, ''C''), (KPKEY_V_c, ''V''), (KPKEY_B_c, ''B''), (KPKEY_N_c, ''N''),
    (KPKEY_M_c, ''M''), (KPKEY_DOT_c, ''Dot''), (KPKEY_SLASH_c, ''Slash''), (KPKEY_ENTER_c, ''Enter''),
    (KPKEY_SHIFT_c, ''Shift''), (KPKEY_ALT_c, ''Alt''), (KPKEY_SPACE_c, ''Space''), (KPKEY_AA_c, ''aA''),
    (KPKEY_SYM_c, ''Sym''), (KPKEY_VPLUS_c, ''VPlus''), (KPKEY_VMINUS_c, ''VMinus''), (KPKEY_HOME_c, ''Home''),
    (KPKEY_PGBCK_c, ''<''), (KPKEY_PGFWD_c, ''>''), (KPKEY_MENU_c, ''Menu''), (KPKEY_BACK_c, ''Back''),
    (KPKEY_FW_LEFT_c, ''FW_Left''), (KPKEY_FW_RIGHT_c, ''FW_Right''), (KPKEY_FW_UP_c, ''FW_Up''), (KPKEY_FW_DOWN_c, ''FW_Down''),
    (KPKEY_FW_PRESS_c, ''FW_Press'')]"

definition alias_rows :: "(short \<times> string) list" where
  "alias_rows = [(K3KEY_AA_c, ''k3_aA''), (K3KEY_SYM_c, ''k3_Sym''), (K3KEY_HOME_c, ''k3_Home''), (K3KEY_BACK_c, ''k3_Back''),
    (K3KEY_PGFWD_c, ''k3_>''), (K3KEY_LPGBCK_c, ''lk3_<''), (K3KEY_LPGFWD_c, ''lk3_>''), (K3KEY_FW_UP_c, ''k3_FW_Up''),
    (K3KEY_FW_DOWN_c, ''k3_FW_Down''), (K3KEY_FW_PRESS_c, ''k3_FW_Press'')]"
definition register_rows :: "(short \<times> string) list \<Rightarrow> key_table \<Rightarrow> key_table" where
  "register_rows rows t = foldl (\<lambda>t (kc, name). register_key kc name t) t rows"

definition populate_aliases :: "key_table \<Rightarrow> key_table" where
  "populate_aliases t = register_rows alias_rows t"

definition populate_defaults :: "key_table \<Rightarrow> key_table" where
  "populate_defaults t = populate_aliases (register_rows default_rows t)"

definition new_key_table :: key_table where
  "new_key_table = populate_defaults \<lparr>name_to_code = Map.empty, code_to_name = Map.empty\<rparr>"

section \<open>The maps after a list of registrations\<close>

lemma register_rows_names:
  "distinct (map (normalize_name \<circ> snd) rows) \<Longrightarrow>
   (\<forall>r \<in> set rows. name_to_code t (normalize_name (snd r)) = None) \<Longrightarrow>
   name_to_code (register_rows rows t) nm =
     (case find (\<lambda>r. normalize_name (snd r) = nm) rows of Some r \<Rightarrow> Some (fst r) | None \<Rightarrow> name_to_code t nm)"
proof (induction rows arbitrary: t)
  case Nil
  then show ?case by (simp add: register_rows_def)
next
  case (Cons r rows)
  let ?t = "register_key (fst r) (snd r) t"
  have step: "register_rows (r # rows) t = register_rows rows ?t"
    by (simp add: register_rows_def case_prod_beta)
  have "\<forall>q \<in> set rows. name_to_code ?t (normalize_name (snd q)) = None"
    using Cons.prems by (auto simp: register_key_def image_iff)
  moreover have "find (\<lambda>r. normalize_name (snd r) = nm) rows = None" if "nm = normalize_name (snd r)"
    using Cons.prems(1) that by (auto simp: find_None_iff image_iff)
  ultimately show ?case
    using Cons by (auto simp: step register_key_def split: option.split)
qed

lemma find_key_row_find:
  "find_key_row pkey ks =
     (case find (\<lambda>k. strcaseeq (input_key_name k) pkey) ks of Some k \<Rightarrow> input_key_code k | None \<Rightarrow> -1)"
  by (induction ks) auto

text \<open>The C table has two more rows, whose names and codes are there before.\<close>

lemma find_append: "find P (xs @ ys) = (case find P xs of Some x \<Rightarrow> Some x | None \<Rightarrow> find P ys)"
  by (induction xs) auto

lemma find_drop_repeated:
  assumes "\<And>d. d \<in> set ds \<Longrightarrow> P d \<Longrightarrow> \<exists>x \<in> set xs. P x"
  shows "find P (xs @ ds @ ys) = find P (xs @ ys)"
proof (cases "find P xs")
  case None
  then have "find P ds = None" using assms by (auto simp: find_None_iff)
  with None show ?thesis by (simp add: find_append)
qed (simp add: find_append)

definition k3_volume_rows :: "(int \<times> string) list" where
  "k3_volume_rows = [(K3KEY_VPLUS, ''VPlus''), (K3KEY_VMINUS, ''VMinus'')]"

lemma rows_agree:
  "default_input_keys = map (\<lambda>r. (sint (fst r), snd r)) (default_rows @ take 7 alias_rows) @ k3_volume_rows @
     map (\<lambda>r. (sint (fst r), snd r)) (drop 7 alias_rows)"
  unfolding default_input_keys_def default_rows_def alias_rows_def k3_volume_rows_def
  by (simp add: header_codes_agree)

lemma names_distinct: "distinct (map (normalize_name \<circ> snd) (default_rows @ alias_rows))"
  by code_simp

lemma new_table_names:
  "find_code new_key_table nm =
     map_option fst (find (\<lambda>r. normalize_name (snd r) = normalize_name nm) (default_rows @ alias_rows))"
proof -
  let ?e = "\<lparr>name_to_code = Map.empty, code_to_name = Map.empty\<rparr> :: key_table"
  have "new_key_table = register_rows (default_rows @ alias_rows) ?e"
    by (simp add: new_key_table_def populate_defaults_def populate_aliases_def register_rows_def)
  moreover have "name_to_code (register_rows (default_rows @ alias_rows) ?e) w =
      map_option fst (find (\<lambda>r. normalize_name (snd r) = w) (default_rows @ alias_rows))" for w
    by (subst register_rows_names [OF names_distinct]) (simp_all split: option.split)
  ultimately show ?thesis by (simp add: find_code_def)
qed

lemma find_map: "find P (map f xs) = map_option f (find (P \<circ> f) xs)"
  by (induction xs) auto

lemma default_codes_short: "\<forall>r \<in> set default_input_keys. 0 \<le> fst r \<and> fst r < 2 ^ 15"
  by code_simp

text \<open>What the C program finds in its built-in table, as a search of the list of rows.\<close>

lemma legacy_default_code:
  "get_default_input_keydefs = (ptab, pcodes, n) \<Longrightarrow>
   find_key_row nm (take (nat n) ptab) =
     (case find (\<lambda>r. normalize_name (snd r) = normalize_name nm) default_input_keys of
        Some r \<Rightarrow> fst r | None \<Rightarrow> -1)"
  by (auto simp: get_default_input_keydefs_def Let_def find_key_row_find find_map input_key_row_def
      strcaseeq_def normalize_name_def comp_def split: option.split)

definition signed_row :: "short \<times> string \<Rightarrow> int \<times> string" where
  "signed_row r = (sint (fst r), snd r)"

lemma find_legacy_rows:
  "find (\<lambda>r. normalize_name (snd r) = w) default_input_keys =
     map_option signed_row (find (\<lambda>r. normalize_name (snd r) = w) (default_rows @ alias_rows))"
proof -
  let ?P = "\<lambda>r. normalize_name (snd r) = w" and ?xs = "map signed_row (default_rows @ take 7 alias_rows)"
  have vol: "\<exists>x \<in> set ?xs. ?P x" if "d \<in> set k3_volume_rows" "?P d" for d
  proof -
    have "(KPKEY_VPLUS_c, ''VPlus'') \<in> set default_rows" "(KPKEY_VMINUS_c, ''VMinus'') \<in> set default_rows"
      by (simp_all add: default_rows_def)
    moreover have "d = (K3KEY_VPLUS, ''VPlus'') \<or> d = (K3KEY_VMINUS, ''VMinus'')"
      using that(1) by (simp add: k3_volume_rows_def)
    ultimately obtain r where r: "r \<in> set default_rows" "snd r = snd d" by (metis snd_conv)
    then have "signed_row r \<in> set ?xs" by simp
    moreover have "snd (signed_row r) = snd d" using r(2) by (simp add: signed_row_def)
    ultimately show ?thesis using that(2) by metis
  qed
  have "find ?P default_input_keys = find ?P (?xs @ map signed_row (drop 7 alias_rows))"
    unfolding rows_agree signed_row_def [symmetric] by (rule find_drop_repeated [OF vol])
  also have "?xs @ map signed_row (drop 7 alias_rows) = map signed_row (default_rows @ alias_rows)"
    by (metis append.assoc append_take_drop_id map_append)
  finally show ?thesis by (simp add: find_map comp_def signed_row_def del: map_append)
qed

lemma new_table_legacy:
  assumes "get_default_input_keydefs = (ptab, pcodes, n)"
  shows "find_code new_key_table nm =
    (let v = find_key_row nm (take (nat n) ptab) in if v = -1 then None else Some (word_of_int v))"
proof -
  let ?P = "\<lambda>r. normalize_name (snd r) = normalize_name nm"
  have "sint (fst r) \<noteq> -1" if "find ?P (default_rows @ alias_rows) = Some r" for r
  proof -
    have "find ?P default_input_keys = Some (signed_row r)" using find_legacy_rows that by simp
    then have "signed_row r \<in> set default_input_keys" by (auto simp: find_Some_iff)
    then show ?thesis using default_codes_short by (fastforce simp: signed_row_def)
  qed
  then show ?thesis
    unfolding legacy_default_code [OF assms] find_legacy_rows new_table_names
    by (cases "find ?P (default_rows @ alias_rows)") (simp_all add: Let_def signed_row_def)
qed

text \<open>The substitution, code by code of the alias table.\<close>

lemma short_eq_iff: "sint a = sint b \<longleftrightarrow> a = b" for a b :: short
  by (auto intro: signed_word_eqI)

lemma substitute_agrees: "sint (get_substitute_code kc) = get_key_substitute_code (sint kc)"
  unfolding get_key_substitute_code_def default_key_alias_def get_substitute_code_def
  by (simp add: header_codes_agree [symmetric] short_eq_iff)

section \<open>Properties\<close>

text \<open>The key table of the rewrite is the one of the C program: a name (in any case) has the same
  code in both built-in tables or in none, and the substitution of Kindle 3 codes is the same for
  every code.\<close>
theorem key_tables_agree:
  "(case get_default_input_keydefs of (ptab, pcodes, n) \<Rightarrow>
      find_code new_key_table nm =
        (let v = find_input_key_code (c\<lparr>input_keys := ptab, n_input_keys := n\<rparr>) nm
         in if v = -1 then None else Some (word_of_int v))) \<and>
   sint (get_substitute_code kc) = get_key_substitute_code (sint kc)"
  using new_table_legacy substitute_agrees by (simp add: find_input_key_code_def split: prod.split)

end
