(* ===== verification/Translator.thy ===== *)
theory Translator
  imports AsciiTab RawKeys
begin

text \<open>
  src/src/domain/ascii\_translator.cpp: the tables of the rewrite in C++ and the translation of a
  character into a code, a send mode and the moves in the symbols menu. A table entry names its
  moves by an index, -1 for none.
\<close>

section \<open>Tables\<close>

datatype send_mode = Normal | Shift | Alt

datatype kindle_model = KindleDX | Kindle3

record symbol_navigation =
  horizontal_steps :: int
  vertical_steps :: int

record table_entry =
  entry_code :: short
  entry_mode :: send_mode
  sym_index :: int

record ascii_key_mapping =
  mapping_code :: short
  send_mode :: send_mode
  symbol_navigation :: "symbol_navigation option"

definition mk_navigation :: "int \<times> int \<Rightarrow> symbol_navigation" where
  "mk_navigation p = \<lparr>horizontal_steps = fst p, vertical_steps = snd p\<rparr>"

definition mk_entry :: "short \<times> send_mode \<times> int \<Rightarrow> table_entry" where
  "mk_entry r = (case r of (c, m, i) \<Rightarrow> \<lparr>entry_code = c, entry_mode = m, sym_index = i\<rparr>)"

definition KDXG_SYMBOLS :: "symbol_navigation list" where
  "KDXG_SYMBOLS = map mk_navigation [
    (-1, -1), (0, -1), (1, -1), (2, -1), (3, -1), (4, -1), (5, -1), (6, -1), (7, -1), (8, -1), (9, -1),
    (-1, 0), (0, 0), (1, 0), (2, 0), (3, 0), (4, 0), (5, 0), (6, 0), (7, 0), (8, 0), (9, 0),
    (-1, 1), (0, 1), (1, 1), (2, 1), (3, 1), (4, 1), (5, 1), (6, 1), (7, 1), (8, 1)]"

definition K3_SYMBOLS :: "symbol_navigation list" where
  "K3_SYMBOLS = map mk_navigation [
    (-1, -1), (0, -1), (1, -1), (2, -1), (3, -1), (4, -1), (5, -1), (6, -1), (7, -1), (8, -1), (9, -1),
    (10, -1), (-1, 0), (0, 0), (1, 0), (2, 0), (3, 0), (4, 0), (5, 0), (6, 0), (7, 0), (8, 0),
    (9, 0), (10, 0), (-1, 1), (0, 1), (1, 1), (2, 1), (3, 1), (4, 1), (5, 1), (6, 1), (7, 1),
    (8, 1), (9, 1), (10, 1), (-1, 2), (0, 2), (1, 2), (2, 2), (3, 2), (4, 2), (5, 2), (6, 2),
    (7, 2), (8, 2), (9, 2), (10, 2)]"

definition KDXG_TABLE :: "table_entry list" where
  "KDXG_TABLE = map mk_entry [
    (KPKEY_SPACE_c, Normal, -1), (KPKEY_SPACE_c, Normal, -1),
    (KPKEY_SPACE_c, Normal, -1), (KPKEY_SPACE_c, Normal, -1),
    (KPKEY_SPACE_c, Normal, -1), (KPKEY_SPACE_c, Normal, -1),
    (KPKEY_SPACE_c, Normal, -1), (KPKEY_SPACE_c, Normal, -1),
    (KEY_BACKSPACE_CODE, Normal, -1), (KEY_TAB_CODE, Normal, -1),
    (KPKEY_SPACE_c, Normal, -1), (KPKEY_SPACE_c, Normal, -1),
    (KPKEY_SPACE_c, Normal, -1), (KPKEY_ENTER_c, Normal, -1),
    (KPKEY_SPACE_c, Normal, -1), (KPKEY_SPACE_c, Normal, -1),
    (KPKEY_SPACE_c, Normal, -1), (KPKEY_SPACE_c, Normal, -1),
    (KPKEY_SPACE_c, Normal, -1), (KPKEY_SPACE_c, Normal, -1),
    (KPKEY_SPACE_c, Normal, -1), (KPKEY_SPACE_c, Normal, -1),
    (KPKEY_SPACE_c, Normal, -1), (KPKEY_SPACE_c, Normal, -1),
    (KPKEY_SPACE_c, Normal, -1), (KPKEY_SPACE_c, Normal, -1),
    (KPKEY_SPACE_c, Normal, -1), (KEY_ESC_CODE, Normal, -1),
    (KPKEY_SPACE_c, Normal, -1), (KPKEY_SPACE_c, Normal, -1),
    (KPKEY_SPACE_c, Normal, -1), (KPKEY_SPACE_c, Normal, -1),
    (KPKEY_SPACE_c, Normal, -1), (KPKEY_1_c, Shift, 13),
    (KEY_APOSTROPHE_CODE, Shift, 0), (KPKEY_3_c, Shift, 16),
    (KPKEY_4_c, Shift, 28), (KPKEY_5_c, Shift, 27),
    (KPKEY_7_c, Shift, 22), (KEY_APOSTROPHE_CODE, Normal, 1),
    (KPKEY_9_c, Shift, 7), (KPKEY_0_c, Shift, 8),
    (KPKEY_8_c, Shift, 5), (KEY_EQUAL_CODE, Shift, 4),
    (KEY_COMMA_CODE, Normal, 12), (KEY_MINUS_CODE, Normal, 3),
    (KPKEY_DOT_c, Normal, 24), (KPKEY_SLASH_c, Normal, 14),
    (KPKEY_0_c, Normal, -1), (KPKEY_1_c, Normal, -1),
    (KPKEY_2_c, Normal, -1), (KPKEY_3_c, Normal, -1),
    (KPKEY_4_c, Normal, -1), (KPKEY_5_c, Normal, -1),
    (KPKEY_6_c, Normal, -1), (KPKEY_7_c, Normal, -1),
    (KPKEY_8_c, Normal, -1), (KPKEY_9_c, Normal, -1),
    (KEY_SEMICOLON_CODE, Shift, 23), (KEY_SEMICOLON_CODE, Normal, 25),
    (KEY_COMMA_CODE, Shift, 9), (KEY_EQUAL_CODE, Normal, 15),
    (KPKEY_DOT_c, Shift, 10), (KPKEY_SLASH_c, Shift, 11),
    (KPKEY_2_c, Shift, 2), (KPKEY_A_c, Shift, -1),
    (KPKEY_B_c, Shift, -1), (KPKEY_C_c, Shift, -1),
    (KPKEY_D_c, Shift, -1), (KPKEY_E_c, Shift, -1),
    (KPKEY_F_c, Shift, -1), (KPKEY_G_c, Shift, -1),
    (KPKEY_H_c, Shift, -1), (KPKEY_I_c, Shift, -1),
    (KPKEY_J_c, Shift, -1), (KPKEY_K_c, Shift, -1),
    (KPKEY_L_c, Shift, -1), (KPKEY_M_c, Shift, -1),
    (KPKEY_N_c, Shift, -1), (KPKEY_O_c, Shift, -1),
    (KPKEY_P_c, Shift, -1), (KPKEY_Q_c, Shift, -1),
    (KPKEY_R_c, Shift, -1), (KPKEY_S_c, Shift, -1),
    (KPKEY_T_c, Shift, -1), (KPKEY_U_c, Shift, -1),
    (KPKEY_V_c, Shift, -1), (KPKEY_W_c, Shift, -1),
    (KPKEY_X_c, Shift, -1), (KPKEY_Y_c, Shift, -1),
    (KPKEY_Z_c, Shift, -1), (KEY_LEFTBRACE_CODE, Normal, 29),
    (KEY_BACKSLASH_CODE, Normal, -1), (KEY_RIGHTBRACE_CODE, Normal, 30),
    (KPKEY_6_c, Shift, 6), (KEY_MINUS_CODE, Shift, 26),
    (KEY_GRAVE_CODE, Normal, 20), (KPKEY_A_c, Normal, -1),
    (KPKEY_B_c, Normal, -1), (KPKEY_C_c, Normal, -1),
    (KPKEY_D_c, Normal, -1), (KPKEY_E_c, Normal, -1),
    (KPKEY_F_c, Normal, -1), (KPKEY_G_c, Normal, -1),
    (KPKEY_H_c, Normal, -1), (KPKEY_I_c, Normal, -1),
    (KPKEY_J_c, Normal, -1), (KPKEY_K_c, Normal, -1),
    (KPKEY_L_c, Normal, -1), (KPKEY_M_c, Normal, -1),
    (KPKEY_N_c, Normal, -1), (KPKEY_O_c, Normal, -1),
    (KPKEY_P_c, Normal, -1), (KPKEY_Q_c, Normal, -1),
    (KPKEY_R_c, Normal, -1), (KPKEY_S_c, Normal, -1),
    (KPKEY_T_c, Normal, -1), (KPKEY_U_c, Normal, -1),
    (KPKEY_V_c, Normal, -1), (KPKEY_W_c, Normal, -1),
    (KPKEY_X_c, Normal, -1), (KPKEY_Y_c, Normal, -1),
    (KPKEY_Z_c, Normal, -1), (KEY_LEFTBRACE_CODE, Shift, 18),
    (KEY_BACKSLASH_CODE, Shift, 17), (KEY_RIGHTBRACE_CODE, Shift, 19),
    (KEY_GRAVE_CODE, Shift, 21), (KPKEY_DEL_c, Normal, 31)]"

definition K3_TABLE :: "table_entry list" where
  "K3_TABLE = map mk_entry [
    (KPKEY_SPACE_c, Normal, -1), (KPKEY_SPACE_c, Normal, -1),
    (KPKEY_SPACE_c, Normal, -1), (KPKEY_SPACE_c, Normal, -1),
    (KPKEY_SPACE_c, Normal, -1), (KPKEY_SPACE_c, Normal, -1),
    (KPKEY_SPACE_c, Normal, -1), (KPKEY_SPACE_c, Normal, -1),
    (KEY_BACKSPACE_CODE, Normal, -1), (KEY_TAB_CODE, Normal, -1),
    (KPKEY_SPACE_c, Normal, -1), (KPKEY_SPACE_c, Normal, -1),
    (KPKEY_SPACE_c, Normal, -1), (KPKEY_ENTER_c, Normal, -1),
    (KPKEY_SPACE_c, Normal, -1), (KPKEY_SPACE_c, Normal, -1),
    (KPKEY_SPACE_c, Normal, -1), (KPKEY_SPACE_c, Normal, -1),
    (KPKEY_SPACE_c, Normal, -1), (KPKEY_SPACE_c, Normal, -1),
    (KPKEY_SPACE_c, Normal, -1), (KPKEY_SPACE_c, Normal, -1),
    (KPKEY_SPACE_c, Normal, -1), (KPKEY_SPACE_c, Normal, -1),
    (KPKEY_SPACE_c, Normal, -1), (KPKEY_SPACE_c, Normal, -1),
    (KPKEY_SPACE_c, Normal, -1), (KEY_ESC_CODE, Normal, -1),
    (KPKEY_SPACE_c, Normal, -1), (KPKEY_SPACE_c, Normal, -1),
    (KPKEY_SPACE_c, Normal, -1), (KPKEY_SPACE_c, Normal, -1),
    (KPKEY_SPACE_c, Normal, -1), (KPKEY_1_c, Shift, 24),
    (KEY_APOSTROPHE_CODE, Shift, 3), (KPKEY_3_c, Shift, 26),
    (KPKEY_4_c, Shift, 27), (KPKEY_5_c, Shift, 28),
    (KPKEY_7_c, Shift, 30), (KEY_APOSTROPHE_CODE, Normal, 15),
    (KPKEY_9_c, Shift, 32), (KPKEY_0_c, Shift, 33),
    (KPKEY_8_c, Shift, 31), (KEY_EQUAL_CODE, Shift, 35),
    (KEY_COMMA_CODE, Normal, 13), (KEY_MINUS_CODE, Normal, 46),
    (KPKEY_DOT_c, Normal, 14), (KPKEY_SLASH_c, Normal, 16),
    (KPKEY_0_c, Normal, 45), (KPKEY_1_c, Normal, 36),
    (KPKEY_2_c, Normal, 37), (KPKEY_3_c, Normal, 38),
    (KPKEY_4_c, Normal, 39), (KPKEY_5_c, Normal, 40),
    (KPKEY_6_c, Normal, 41), (KPKEY_7_c, Normal, 42),
    (KPKEY_8_c, Normal, 43), (KPKEY_9_c, Normal, 44),
    (KEY_SEMICOLON_CODE, Shift, 0), (KEY_SEMICOLON_CODE, Normal, 12),
    (KEY_COMMA_CODE, Shift, 1), (KEY_EQUAL_CODE, Normal, 47),
    (KPKEY_DOT_c, Shift, 2), (KPKEY_SLASH_c, Shift, 4),
    (KPKEY_2_c, Shift, 25), (KPKEY_A_c, Shift, -1),
    (KPKEY_B_c, Shift, -1), (KPKEY_C_c, Shift, -1),
    (KPKEY_D_c, Shift, -1), (KPKEY_E_c, Shift, -1),
    (KPKEY_F_c, Shift, -1), (KPKEY_G_c, Shift, -1),
    (KPKEY_H_c, Shift, -1), (KPKEY_I_c, Shift, -1),
    (KPKEY_J_c, Shift, -1), (KPKEY_K_c, Shift, -1),
    (KPKEY_L_c, Shift, -1), (KPKEY_M_c, Shift, -1),
    (KPKEY_N_c, Shift, -1), (KPKEY_O_c, Shift, -1),
    (KPKEY_P_c, Shift, -1), (KPKEY_Q_c, Shift, -1),
    (KPKEY_R_c, Shift, -1), (KPKEY_S_c, Shift, -1),
    (KPKEY_T_c, Shift, -1), (KPKEY_U_c, Shift, -1),
    (KPKEY_V_c, Shift, -1), (KPKEY_W_c, Shift, -1),
    (KPKEY_X_c, Shift, -1), (KPKEY_Y_c, Shift, -1),
    (KPKEY_Z_c, Shift, -1), (KEY_LEFTBRACE_CODE, Normal, 17),
    (KEY_BACKSLASH_CODE, Normal, 19), (KEY_RIGHTBRACE_CODE, Normal, 18),
    (KPKEY_6_c, Shift, 29), (KEY_MINUS_CODE, Shift, 34),
    (KEY_GRAVE_CODE, Normal, 8), (KPKEY_A_c, Normal, -1),
    (KPKEY_B_c, Normal, -1), (KPKEY_C_c, Normal, -1),
    (KPKEY_D_c, Normal, -1), (KPKEY_E_c, Normal, -1),
    (KPKEY_F_c, Normal, -1), (KPKEY_G_c, Normal, -1),
    (KPKEY_H_c, Normal, -1), (KPKEY_I_c, Normal, -1),
    (KPKEY_J_c, Normal, -1), (KPKEY_K_c, Normal, -1),
    (KPKEY_L_c, Normal, -1), (KPKEY_M_c, Normal, -1),
    (KPKEY_N_c, Normal, -1), (KPKEY_O_c, Normal, -1),
    (KPKEY_P_c, Normal, -1), (KPKEY_Q_c, Normal, -1),
    (KPKEY_R_c, Normal, -1), (KPKEY_S_c, Normal, -1),
    (KPKEY_T_c, Normal, -1), (KPKEY_U_c, Normal, -1),
    (KPKEY_V_c, Normal, -1), (KPKEY_W_c, Normal, -1),
    (KPKEY_X_c, Normal, -1), (KPKEY_Y_c, Normal, -1),
    (KPKEY_Z_c, Normal, -1), (KEY_LEFTBRACE_CODE, Shift, 5),
    (KEY_BACKSLASH_CODE, Shift, 7), (KEY_RIGHTBRACE_CODE, Shift, 6),
    (KEY_GRAVE_CODE, Shift, 9), (KPKEY_DEL_c, Normal, -1)]"
section \<open>Translation\<close>

text \<open>The seven lower bits of the character are the index.\<close>

definition translate :: "kindle_model \<Rightarrow> char \<Rightarrow> ascii_key_mapping" where
  "translate model c =
     (let idx = of_char c mod 128;
          entry = (if model = Kindle3 then K3_TABLE ! idx else KDXG_TABLE ! idx)
      in \<lparr>mapping_code = entry_code entry, send_mode = entry_mode entry,
          symbol_navigation =
            (if 0 \<le> sym_index entry
             then Some ((if model = Kindle3 then K3_SYMBOLS else KDXG_SYMBOLS) ! nat (sym_index entry))
             else None)\<rparr>)"


section \<open>The tables are the ones of the C program\<close>

definition mode_number :: "send_mode \<Rightarrow> int" where
  "mode_number m = (case m of Normal \<Rightarrow> SENDMODE_NORMAL | Shift \<Rightarrow> SENDMODE_SHIFT | Alt \<Rightarrow> SENDMODE_ALT)"

definition entry_row :: "table_entry \<Rightarrow> ascii_char" where
  "entry_row e = \<lparr>code = sint (entry_code e), sendmode = mode_number (entry_mode e),
     kindle_fwork_sequence = (if 0 \<le> sym_index e then Some (nat (sym_index e)) else None)\<rparr>"

definition navigation_syms :: "symbol_navigation \<Rightarrow> kindle_syms" where
  "navigation_syms n = \<lparr>hsteps = horizontal_steps n, vsteps = vertical_steps n\<rparr>"

lemma translator_tables:
  "map entry_row K3_TABLE = k3_asciitab" "map entry_row KDXG_TABLE = kdxg_asciitab"
  "map navigation_syms K3_SYMBOLS = k3_s" "map navigation_syms KDXG_SYMBOLS = kdxg_s"
  by code_simp+

lemma length_translator_tables:
  "length K3_TABLE = 128" "length KDXG_TABLE = 128" "length K3_SYMBOLS = 48" "length KDXG_SYMBOLS = 32"
  using table_lengths by (metis length_map translator_tables)+

lemma map_nth_eq: "map f xs = ys \<Longrightarrow> i < length xs \<Longrightarrow> f (xs ! i) = ys ! i"
  by auto

definition table_of :: "kindle_model \<Rightarrow> table_entry list" where
  "table_of model = (if model = Kindle3 then K3_TABLE else KDXG_TABLE)"

definition symbols_of :: "kindle_model \<Rightarrow> symbol_navigation list" where
  "symbols_of model = (if model = Kindle3 then K3_SYMBOLS else KDXG_SYMBOLS)"

lemma entry_row_nth: "i < 128 \<Longrightarrow> entry_row (table_of model ! i) =
    (if model = Kindle3 then k3_asciitab else kdxg_asciitab) ! i"
  using translator_tables length_translator_tables by (auto simp: table_of_def dest: map_nth_eq)

lemma table_symbols: "e \<in> set (table_of model) \<Longrightarrow> 0 \<le> sym_index e \<Longrightarrow>
    nat (sym_index e) < length (symbols_of model)"
proof -
  have "list_all (\<lambda>e. sym_index e < 48) K3_TABLE" "list_all (\<lambda>e. sym_index e < 32) KDXG_TABLE"
    by code_simp+
  then show "e \<in> set (table_of model) \<Longrightarrow> 0 \<le> sym_index e \<Longrightarrow> nat (sym_index e) < length (symbols_of model)"
    by (auto simp: table_of_def symbols_of_def length_translator_tables list_all_iff split: if_splits)
qed

section \<open>Properties\<close>

text \<open>C33: The translation of the rewrite is the one of the C program: for both models and for every
  character it gives the code and the moves of the C functions, and the send mode of the C
  table's row (which char\_send\_mode of the C program fails to return).\<close>
theorem translate_agrees:
  "mapping_code (translate model c) = char_keypad_code (model = Kindle3) c \<and>
   mode_number (send_mode (translate model c)) = sendmode (ascii_row (model = Kindle3) c) \<and>
   map_option navigation_syms (symbol_navigation (translate model c)) =
     char_kindle_fw_sequence (model = Kindle3) c"
proof -
  define i :: nat where "i = of_char c mod 128"
  define e where "e = table_of model ! i"
  have i: "i < 128" by (simp add: i_def)
  have row: "entry_row e = ascii_row (model = Kindle3) c"
    using entry_row_nth [OF i, of model] by (simp add: e_def ascii_row_def i_def)
  have mem: "e \<in> set (table_of model)"
    using i length_translator_tables by (auto simp: e_def table_of_def)
  have tr: "translate model c = \<lparr>mapping_code = entry_code e, send_mode = entry_mode e,
      symbol_navigation = (if 0 \<le> sym_index e then Some (symbols_of model ! nat (sym_index e)) else None)\<rparr>"
    by (simp add: translate_def e_def table_of_def symbols_of_def i_def Let_def)
  have "navigation_syms (symbols_of model ! nat (sym_index e)) =
      (if model = Kindle3 then k3_s else kdxg_s) ! nat (sym_index e)" if "0 \<le> sym_index e"
    using table_symbols [OF mem that] translator_tables by (auto simp: symbols_of_def dest: map_nth_eq)
  then show ?thesis
    unfolding char_keypad_code_def char_kindle_fw_sequence_def row [symmetric]
    by (simp add: tr entry_row_def)
qed

end
