(* ===== verification/Matcher.thy ===== *)
theory Matcher
  imports KeyTable
begin

text \<open>
  class SequenceMatcher of src/src/domain/sequence\_matcher.cpp: the hotkey machine of the rewrite,
  without devices, timers or actions. A key sequence is a list of codes without a bound. The
  number of keys held down is an int of the C++ program that no series of events of a keyboard
  can bring to overflow.
\<close>

section \<open>State\<close>

datatype key_event_type = Pressed | Released

datatype matcher_state = Idle | Capturing

datatype matcher_action_type = None_type | StartCapture | KeyAppended | SequenceComplete | Cancelled

record matcher_result =
  result_type :: matcher_action_type
  result_sequence :: "short list"

record matcher_config =
  m_introducer :: short
  m_trailer :: short
  m_key_table :: "key_table option"

record matcher_context =
  m_state :: matcher_state
  keys_down :: int
  introducer_armed :: bool
  m_sequence :: "short list"

definition new_matcher :: matcher_context where
  "new_matcher = \<lparr>m_state = Idle, keys_down = 0, introducer_armed = False, m_sequence = []\<rparr>"

definition no_result :: matcher_result where
  "no_result = \<lparr>result_type = None_type, result_sequence = []\<rparr>"

section \<open>Operations\<close>

definition substitute_code :: "matcher_config \<Rightarrow> short \<Rightarrow> short" where
  "substitute_code cfg kc = (case m_key_table cfg of None \<Rightarrow> kc | Some t \<Rightarrow> get_substitute_code kc)"

definition handle_idle_press :: "matcher_config \<Rightarrow> short \<Rightarrow> matcher_context \<Rightarrow> matcher_result \<times> matcher_context" where
  "handle_idle_press cfg kc m =
     (let m = m\<lparr>keys_down := keys_down m + 1\<rparr> in
      if keys_down m = 1 \<and> kc = m_introducer cfg then (no_result, m\<lparr>introducer_armed := True\<rparr>)
      else (no_result, m\<lparr>introducer_armed := False\<rparr>))"

definition release_one :: "matcher_context \<Rightarrow> matcher_context" where
  "release_one m = m\<lparr>keys_down := (if 0 < keys_down m then keys_down m - 1 else 0)\<rparr>"

definition handle_idle_release :: "matcher_config \<Rightarrow> short \<Rightarrow> matcher_context \<Rightarrow> matcher_result \<times> matcher_context" where
  "handle_idle_release cfg kc m =
     (let m = release_one m in
      if keys_down m = 0 \<and> kc = m_introducer cfg \<and> introducer_armed m
      then (\<lparr>result_type = StartCapture, result_sequence = []\<rparr>,
            m\<lparr>introducer_armed := False, m_state := Capturing, m_sequence := []\<rparr>)
      else (no_result, m))"

definition handle_capturing_press :: "matcher_config \<Rightarrow> short \<Rightarrow> matcher_context \<Rightarrow> matcher_result \<times> matcher_context" where
  "handle_capturing_press cfg kc m =
     (let m = m\<lparr>keys_down := keys_down m + 1\<rparr> in
      if kc = m_trailer cfg
      then (\<lparr>result_type = SequenceComplete, result_sequence = m_sequence m\<rparr>, m\<lparr>m_sequence := [], m_state := Idle\<rparr>)
      else (let seq = m_sequence m @ [substitute_code cfg kc]
            in (\<lparr>result_type = KeyAppended, result_sequence = seq\<rparr>, m\<lparr>m_sequence := seq\<rparr>)))"

definition handle_capturing_release :: "short \<Rightarrow> matcher_context \<Rightarrow> matcher_result \<times> matcher_context" where
  "handle_capturing_release kc m = (no_result, release_one m)"

definition process_key_event ::
    "matcher_config \<Rightarrow> short \<Rightarrow> key_event_type \<Rightarrow> matcher_context \<Rightarrow> matcher_result \<times> matcher_context" where
  "process_key_event cfg kc ty m =
     (if m_state m = Idle \<and> ty = Pressed then handle_idle_press cfg kc m
      else if m_state m = Idle \<and> ty = Released then handle_idle_release cfg kc m
      else if m_state m = Capturing \<and> ty = Pressed then handle_capturing_press cfg kc m
      else handle_capturing_release kc m)"

definition on_timeout :: "matcher_context \<Rightarrow> matcher_result \<times> matcher_context" where
  "on_timeout m =
     (if m_state m \<noteq> Capturing then (no_result, m)
      else (\<lparr>result_type = SequenceComplete, result_sequence = m_sequence m\<rparr>, m\<lparr>m_sequence := [], m_state := Idle\<rparr>))"

definition cancel_match :: "matcher_context \<Rightarrow> matcher_result \<times> matcher_context" where
  "cancel_match m = (\<lparr>result_type = Cancelled, result_sequence = []\<rparr>,
     m\<lparr>m_sequence := [], m_state := Idle, introducer_armed := False, keys_down := 0\<rparr>)"

section \<open>Runs\<close>

datatype match_input = Key_event short key_event_type | Time_out | Cancel

fun matcher_step :: "matcher_config \<Rightarrow> match_input \<Rightarrow> matcher_context \<Rightarrow> matcher_result \<times> matcher_context" where
  "matcher_step cfg (Key_event kc ty) m = process_key_event cfg kc ty m"
| "matcher_step cfg Time_out m = on_timeout m"
| "matcher_step cfg Cancel m = cancel_match m"

fun matcher_run :: "matcher_config \<Rightarrow> match_input list \<Rightarrow> matcher_context \<Rightarrow> matcher_result list \<times> matcher_context" where
  "matcher_run cfg [] m = ([], m)"
| "matcher_run cfg (i # is) m =
     (case matcher_step cfg i m of (r, m') \<Rightarrow> case matcher_run cfg is m' of (rs, m'') \<Rightarrow> (r # rs, m''))"

text \<open>The sequences completed in a run.\<close>

definition completed :: "matcher_result list \<Rightarrow> short list list" where
  "completed rs = map result_sequence (filter (\<lambda>r. result_type r = SequenceComplete) rs)"

lemmas matcher_defs = process_key_event_def handle_idle_press_def handle_idle_release_def
  handle_capturing_press_def handle_capturing_release_def on_timeout_def cancel_match_def
  release_one_def no_result_def

lemma matcher_run_Cons:
  "matcher_run cfg (i # is) m =
     (fst (matcher_step cfg i m) # fst (matcher_run cfg is (snd (matcher_step cfg i m))),
      snd (matcher_run cfg is (snd (matcher_step cfg i m))))"
  by (simp split: prod.splits)

section \<open>The invariant\<close>

definition matcher_ok :: "matcher_context \<Rightarrow> bool" where
  "matcher_ok m = (0 \<le> keys_down m \<and>
     (m_state m = Idle \<longrightarrow> m_sequence m = []) \<and> (m_state m = Capturing \<longrightarrow> \<not> introducer_armed m))"

lemma matcher_ok_step: "matcher_ok m \<Longrightarrow> matcher_ok (snd (matcher_step cfg i m))"
proof (cases i)
  case (Key_event kc ty)
  assume "matcher_ok m"
  then show ?thesis
    by (cases "m_state m"; cases ty) (simp_all add: Key_event matcher_defs matcher_ok_def Let_def)
qed (auto simp: matcher_defs matcher_ok_def)

interpretation matcher: machine "\<lambda>m. m = new_matcher" "\<lambda>m m'. \<exists>i. m' = snd (matcher_step cfg i m)" matcher_ok
proof
  show "matcher_ok m" if "m = new_matcher" for m using that by (simp add: matcher_ok_def new_matcher_def)
  show "matcher_ok m'" if "matcher_ok m" "\<exists>i. m' = snd (matcher_step cfg i m)" for m m'
    using that matcher_ok_step by blast
qed

lemma matcher_run_reach:
  "reach (\<lambda>m. m = new_matcher) (\<lambda>m m'. \<exists>i. m' = snd (matcher_step cfg i m)) m \<Longrightarrow>
   reach (\<lambda>m. m = new_matcher) (\<lambda>m m'. \<exists>i. m' = snd (matcher_step cfg i m)) (snd (matcher_run cfg is m))"
proof (induction "is" arbitrary: m)
  case (Cons i "is")
  have "reach (\<lambda>m. m = new_matcher) (\<lambda>m m'. \<exists>i. m' = snd (matcher_step cfg i m)) (snd (matcher_step cfg i m))"
    using Cons.prems by (rule reach_step) blast
  from Cons.IH [OF this] show ?case unfolding matcher_run_Cons by simp
qed simp

section \<open>A round of the user\<close>

definition tap_key :: "short \<Rightarrow> match_input list" where
  "tap_key kc = [Key_event kc Pressed, Key_event kc Released]"

lemma matcher_run_append:
  "matcher_run cfg (is @ js) m =
     (case matcher_run cfg is m of (rs, m') \<Rightarrow> case matcher_run cfg js m' of (qs, m'') \<Rightarrow> (rs @ qs, m''))"
  by (induction "is" arbitrary: m) (auto split: prod.splits)

lemma completed_append [simp]: "completed (rs @ qs) = completed rs @ completed qs"
  by (simp add: completed_def)

definition capturing :: "matcher_context \<Rightarrow> short list \<Rightarrow> bool" where
  "capturing m seq = (m = \<lparr>m_state = Capturing, keys_down = 0, introducer_armed = False, m_sequence = seq\<rparr>)"

lemma run_introducer:
  "m_state m = Idle \<Longrightarrow> keys_down m = 0 \<Longrightarrow>
   \<exists>rs m'. matcher_run cfg (tap_key (m_introducer cfg)) m = (rs, m') \<and> completed rs = [] \<and> capturing m' []"
  by (simp add: tap_key_def matcher_defs Let_def completed_def capturing_def)

lemma run_key:
  assumes "capturing m seq" "kc \<noteq> m_trailer cfg"
  shows "\<exists>rs m'. matcher_run cfg (tap_key kc) m = (rs, m') \<and> completed rs = [] \<and>
    capturing m' (seq @ [substitute_code cfg kc])"
  using assms by (simp add: tap_key_def matcher_defs Let_def completed_def capturing_def)

lemma run_keys:
  "capturing m seq \<Longrightarrow> m_trailer cfg \<notin> set ks \<Longrightarrow>
   \<exists>rs m'. matcher_run cfg (concat (map tap_key ks)) m = (rs, m') \<and> completed rs = [] \<and>
     capturing m' (seq @ map (substitute_code cfg) ks)"
proof (induction ks arbitrary: m seq)
  case Nil
  then show ?case by (simp add: completed_def)
next
  case (Cons k ks)
  obtain rs m' where k: "matcher_run cfg (tap_key k) m = (rs, m')" "completed rs = []"
      "capturing m' (seq @ [substitute_code cfg k])"
    using run_key [OF Cons.prems(1), of k cfg] Cons.prems(2) by auto
  then obtain qs m'' where "matcher_run cfg (concat (map tap_key ks)) m' = (qs, m'')" "completed qs = []"
      "capturing m'' ((seq @ [substitute_code cfg k]) @ map (substitute_code cfg) ks)"
    using Cons.IH [OF k(3)] Cons.prems(2) by auto
  then show ?case using k by (simp add: matcher_run_append)
qed

lemma run_round:
  assumes "m_state m = Idle" and "keys_down m = 0" and "m_trailer cfg \<notin> set ks"
  shows "\<exists>rs m'. matcher_run cfg (tap_key (m_introducer cfg) @ concat (map tap_key ks) @ [Key_event (m_trailer cfg) Pressed]) m
      = (rs, m') \<and> completed rs = [map (substitute_code cfg) ks] \<and> m_state m' = Idle \<and> m_sequence m' = []"
proof -
  obtain rs m1 where 1: "matcher_run cfg (tap_key (m_introducer cfg)) m = (rs, m1)" "completed rs = []"
      "capturing m1 []"
    using run_introducer [OF assms(1,2)] by metis
  obtain qs m2 where 2: "matcher_run cfg (concat (map tap_key ks)) m1 = (qs, m2)" "completed qs = []"
      "capturing m2 (map (substitute_code cfg) ks)"
    using run_keys [OF 1(3) assms(3)] by auto
  have "matcher_run cfg [Key_event (m_trailer cfg) Pressed] m2 =
      ([\<lparr>result_type = SequenceComplete, result_sequence = map (substitute_code cfg) ks\<rparr>],
       \<lparr>m_state = Idle, keys_down = 1, introducer_armed = False, m_sequence = []\<rparr>)"
    using 2(3) by (simp add: capturing_def process_key_event_def handle_capturing_press_def Let_def)
  then show ?thesis
    using 1 2 by (simp add: matcher_run_append completed_def)
qed

section \<open>Properties\<close>

text \<open>A round of the user with the rewrite: from an idle matcher with no key held down, a tap on
  the introducer, taps on keys that are not the trailer and the press of the trailer complete
  exactly one sequence, the substituted codes of the keys, however many there are (the array of
  the C program holds eight); afterwards the matcher is idle.\<close>
theorem matcher_completes_sequence:
  assumes "m_state m = Idle" and "keys_down m = 0" and "m_trailer cfg \<notin> set ks"
  shows "\<exists>rs m'. matcher_run cfg (tap_key (m_introducer cfg) @ concat (map tap_key ks) @ [Key_event (m_trailer cfg) Pressed]) m
      = (rs, m') \<and> completed rs = [map (substitute_code cfg) ks] \<and> m_state m' = Idle \<and> m_sequence m' = []"
  using assms by (rule run_round)

definition sample_matcher :: matcher_config where
  "sample_matcher = \<lparr>m_introducer = KPKEY_SHIFT_c, m_trailer = KPKEY_ENTER_c, m_key_table = Some new_key_table\<rparr>"

theorem matcher_completes_sequence_witness:
  "\<exists>rs m'. matcher_run sample_matcher (tap_key KPKEY_SHIFT_c @ concat (map tap_key [K3KEY_AA_c, KPKEY_A_c]) @
      [Key_event KPKEY_ENTER_c Pressed]) new_matcher = (rs, m') \<and> completed rs = [[KPKEY_AA_c, KPKEY_A_c]] \<and>
    m_state m' = Idle"
proof -
  have "m_trailer sample_matcher \<notin> set [K3KEY_AA_c, KPKEY_A_c]"
    by (simp add: sample_matcher_def raw_codes)
  moreover have "map (substitute_code sample_matcher) [K3KEY_AA_c, KPKEY_A_c] = [KPKEY_AA_c, KPKEY_A_c]"
    by (simp add: substitute_code_def sample_matcher_def get_substitute_code_def raw_codes)
  moreover have "m_introducer sample_matcher = KPKEY_SHIFT_c" "m_trailer sample_matcher = KPKEY_ENTER_c"
    by (simp_all add: sample_matcher_def)
  moreover have "m_state new_matcher = Idle" "keys_down new_matcher = 0" by (simp_all add: new_matcher_def)
  ultimately show ?thesis
    using matcher_completes_sequence [of new_matcher sample_matcher "[K3KEY_AA_c, KPKEY_A_c]"] by metis
qed

end
