(* ===== verification/MatcherRefine.thy ===== *)
theory MatcherRefine
  imports Matcher HotKeyRun
begin

text \<open>
  The matcher of the rewrite against the hotkey machine of the C program: on the same key events and
  timeouts the two are in the same mode with the same codes collected, and what the C program does
  is to run the actions of the sequences the matcher completes.
\<close>

section \<open>The steps of the C program\<close>

fun legacy_step :: "env \<Rightarrow> match_input \<Rightarrow> hotstate \<Rightarrow> hotstate res" where
  "legacy_step env (Key_event kc ty) st = process_input_event env
     \<lparr>ev_type = EV_KEY, ev_code = sint kc, ev_value = (if ty = Pressed then 1 else 0)\<rparr> st"
| "legacy_step env Time_out st = alarm_handler env (st\<lparr>timer := 0\<rparr>)"
| "legacy_step env Cancel st = Inr st"

text \<open>What a sequence is to do: nothing when it is empty or no action is defined for it. The screen, the
  events to skip and the trace are all an action changes.\<close>

type_synonym visible = "fbscreen option \<times> int \<times> effect list"

definition visible :: "hotstate \<Rightarrow> visible" where
  "visible st = (screen st, skip_next_events st, trace st)"

definition run_codes :: "env \<Rightarrow> short list \<Rightarrow> visible \<Rightarrow> visible res" where
  "run_codes env codes v =
     (if codes = [] then Inr v
      else case find_sequence_action (e_config env) codes of
             None \<Rightarrow> Inr v
           | Some a \<Rightarrow> mapR (\<lambda>(s, es, n). (Some s, n, snd (snd v) @ es))
               (execute_action (e_dev env) (e_config env) (e_fds env) (fst v) a))"

text \<open>No key is released more often than it was pressed, n keys being down at the start.\<close>

fun paired :: "nat \<Rightarrow> match_input list \<Rightarrow> bool" where
  "paired n [] = True"
| "paired n (Key_event kc Pressed # is) = paired (Suc n) is"
| "paired n (Key_event kc Released # is) = (0 < n \<and> paired (n - 1) is)"
| "paired n (Time_out # is) = paired n is"
| "paired n (Cancel # is) = False"

section \<open>The relation\<close>

definition same_config :: "env \<Rightarrow> matcher_config \<Rightarrow> bool" where
  "same_config env cfg = (e_introducer env = sint (m_introducer cfg) \<and>
     e_trailer env = sint (m_trailer cfg) \<and> m_key_table cfg \<noteq> None)"

definition matched :: "hotstate \<Rightarrow> matcher_context \<Rightarrow> bool" where
  "matched st m = (keys_down m = npressed st \<and> introducer_armed m = introducer_just_pressed st \<and>
     (m_state m = Capturing) = hotkey_mode st \<and> m_sequence m = collected st)"

lemma collected_push:
  assumes "length (hot_sequence st) = MAXSEQ" "hot_sequence_length st < MAXSEQ"
  shows "take (hot_sequence_length st + 1) ((hot_sequence st)[hot_sequence_length st := v]) = collected st @ [v]"
  using assms by (simp add: collected_def take_Suc_conv_app_nth)

lemma sub_code:
  "same_config env cfg \<Longrightarrow> substitute_code cfg kc = word_of_int (get_key_substitute_code (sint kc))"
  by (auto simp: same_config_def substitute_code_def substitute_agrees [symmetric] split: option.split)

lemma run_sequence_left:
  assumes "run_sequence env st = Inr st'"
  shows "npressed st' = npressed st" "introducer_just_pressed st' = introducer_just_pressed st"
    "hotkey_mode st' = hotkey_mode st" "collected st' = []"
  using run_sequence_frame [OF assms] by (auto simp: collected_def)

lemma left_lengths [simp]:
  "hot_sequence (release_input env st) = hot_sequence st" "hot_sequence (engage_hotkey_timer t st) = hot_sequence st"
  "hot_sequence_length (release_input env st) = hot_sequence_length st"
  "hot_sequence_length (engage_hotkey_timer t st) = hot_sequence_length st"
  by (simp_all add: release_input_def engage_hotkey_timer_def)

lemma run_sequence_codes:
  assumes "length (hot_sequence st) = MAXSEQ" "hot_sequence_length st \<le> MAXSEQ" "run_sequence env st = Inr st'"
  shows "run_codes env (collected st) (visible st) = Inr (visible st')"
proof (cases "hot_sequence_length st = 0")
  case True
  then show ?thesis using assms(3) by (simp add: run_sequence_def run_codes_def collected_def)
next
  case False
  have "(collected st = []) = (hot_sequence_length st = 0)"
    using assms(1,2) by (auto simp: collected_def MAXSEQ_def)
  moreover have "send_keys (e_config env) (e_fds env) (collected (s\<lparr>hot_sequence_length := 0\<rparr>)) = []" for s
    by (simp add: collected_def send_keys_def)
  ultimately show ?thesis
    using False assms(3)
    by (cases "find_sequence_action (e_config env) (collected st)")
      (auto simp: run_sequence_def run_codes_def visible_def Let_def res_simps)
qed

lemma visible_left [simp]:
  "visible (release_input env st) = visible st" "visible (engage_hotkey_timer t st) = visible st"
  "visible (st\<lparr>hotkey_mode := b\<rparr>) = visible st" "visible (st\<lparr>npressed := n\<rparr>) = visible st"
  "visible (st\<lparr>timer := t\<rparr>) = visible st"
  by (simp_all add: visible_def release_input_def engage_hotkey_timer_def)

lemma visible_released: "visible (key_released env kc st) = visible st"
  by (simp add: visible_def key_released_def Let_def engage_hotkey_timer_def capture_input_def)

lemma left_fields [simp]:
  "npressed (release_input env st) = npressed st"
  "introducer_just_pressed (release_input env st) = introducer_just_pressed st"
  "npressed (engage_hotkey_timer t st) = npressed st"
  "introducer_just_pressed (engage_hotkey_timer t st) = introducer_just_pressed st"
  "collected (release_input env st) = collected st"
  "collected (engage_hotkey_timer t st) = collected st"
  by (simp_all add: release_input_def engage_hotkey_timer_def collected_def)

lemma left_codes:
  assumes "hot_ok env st" "run_sequence env ((release_input env (engage_hotkey_timer 0 st1))\<lparr>hotkey_mode := False\<rparr>) = Inr st'"
    and "collected st1 = collected st" "hot_sequence st1 = hot_sequence st"
    "hot_sequence_length st1 = hot_sequence_length st" "visible st1 = visible st"
  shows "run_codes env (collected st) (visible st) = Inr (visible st')"
proof -
  let ?u = "(release_input env (engage_hotkey_timer 0 st1))\<lparr>hotkey_mode := False\<rparr>"
  have "length (hot_sequence ?u) = MAXSEQ" "hot_sequence_length ?u \<le> MAXSEQ"
    using assms(1,4,5) by (simp_all add: hot_defs)
  from run_sequence_codes [OF this assms(2)] have "run_codes env (collected ?u) (visible ?u) = Inr (visible st')" .
  moreover have "collected ?u = collected st" using assms(3-5) by (simp add: collected_def)
  ultimately show ?thesis using assms(6) by simp
qed

section \<open>One step\<close>

lemma press_matched:
  assumes cfg: "same_config env cfg" and ok: "hot_ok env st" and m: "matched st m"
    and step: "key_pressed env (sint kc) st = Inr st'"
  shows "matched st' (snd (process_key_event cfg kc Pressed m))"
    and "foldR (run_codes env) (completed [fst (process_key_event cfg kc Pressed m)]) (visible st) = Inr (visible st')"
proof -
  define st1 where "st1 = st\<lparr>npressed := npressed st + 1\<rparr>"
  have eq: "(sint kc = e_introducer env) = (kc = m_introducer cfg)" "(sint kc = e_trailer env) = (kc = m_trailer cfg)"
    using cfg short_eq_iff by (auto simp: same_config_def)
  have "matched st' (snd (process_key_event cfg kc Pressed m)) \<and>
    foldR (run_codes env) (completed [fst (process_key_event cfg kc Pressed m)]) (visible st) = Inr (visible st')"
  proof (cases "hotkey_mode st")
    case False
    then have "m_state m = Idle" using m by (cases "m_state m") (auto simp: matched_def)
    then show ?thesis
      using False m step eq by (auto simp: key_pressed_def Let_def matcher_defs matched_def completed_def collected_def visible_def)
  next
    case True
    then have cap: "m_state m = Capturing" using m by (simp add: matched_def)
    show ?thesis
    proof (cases "kc = m_trailer cfg")
      case True
      then have "run_sequence env ((release_input env (engage_hotkey_timer 0 st1))\<lparr>hotkey_mode := False\<rparr>) = Inr st'"
        using step eq \<open>hotkey_mode st\<close> by (simp add: key_pressed_def Let_def st1_def)
      note left = run_sequence_left [OF this] and codes = left_codes [OF ok this]
      show ?thesis
        using True cap m \<open>hotkey_mode st\<close> left codes
        by (simp add: matcher_defs Let_def matched_def completed_def st1_def collected_def visible_def)
    next
      case False
      then have room: "hot_sequence_length st < MAXSEQ" and st': "st' = st1\<lparr>hot_sequence := (hot_sequence st)
          [hot_sequence_length st := word_of_int (get_key_substitute_code (sint kc))],
          hot_sequence_length := hot_sequence_length st + 1\<rparr>"
        using step eq \<open>hotkey_mode st\<close> by (auto simp: key_pressed_def Let_def st1_def res_simps)
      have "collected st' = collected st @ [substitute_code cfg kc]"
        using collected_push [OF _ room] ok sub_code [OF cfg] by (simp add: st' collected_def hot_defs)
      then show ?thesis
        using False cap m \<open>hotkey_mode st\<close>
        by (simp add: matcher_defs Let_def matched_def completed_def st' st1_def) (simp add: visible_def)
    qed
  qed
  then show "matched st' (snd (process_key_event cfg kc Pressed m))"
    "foldR (run_codes env) (completed [fst (process_key_event cfg kc Pressed m)]) (visible st) = Inr (visible st')" by blast+
qed

lemma release_matched:
  assumes cfg: "same_config env cfg" and ok: "hot_ok env st" and m: "matched st m" and down: "0 < npressed st"
  shows "matched (key_released env (sint kc) st) (snd (process_key_event cfg kc Released m))"
    and "completed [fst (process_key_event cfg kc Released m)] = []"
    and "hotkey_mode st \<Longrightarrow> hotkey_mode (key_released env (sint kc) st)"
proof -
  have eq: "(sint kc = e_introducer env) = (kc = m_introducer cfg)"
    using cfg short_eq_iff by (auto simp: same_config_def)
  have modes: "hotkey_mode st \<Longrightarrow> \<not> introducer_just_pressed st" "\<not> hotkey_mode st \<Longrightarrow> collected st = []"
    using ok by (simp_all add: hot_defs collected_def)
  have "matched (key_released env (sint kc) st) (snd (process_key_event cfg kc Released m)) \<and>
    completed [fst (process_key_event cfg kc Released m)] = []"
  proof (cases "hotkey_mode st")
    case True
    then have "m_state m = Capturing" using m by (simp add: matched_def)
    then show ?thesis
      using True m modes down by (simp add: key_released_def Let_def matcher_defs matched_def completed_def collected_def)
  next
    case False
    then have "m_state m = Idle" using m by (cases "m_state m") (auto simp: matched_def)
    then show ?thesis
      using False m modes down eq
      by (auto simp: key_released_def Let_def matcher_defs matched_def completed_def collected_def
          engage_hotkey_timer_def capture_input_def)
  qed
  then show "matched (key_released env (sint kc) st) (snd (process_key_event cfg kc Released m))"
    "completed [fst (process_key_event cfg kc Released m)] = []" by blast+
  show "hotkey_mode st \<Longrightarrow> hotkey_mode (key_released env (sint kc) st)"
    by (simp add: key_released_def Let_def engage_hotkey_timer_def)
qed

lemma timeout_matched:
  assumes ok: "hot_ok env st" and m: "matched st m" and step: "alarm_handler env (st\<lparr>timer := 0\<rparr>) = Inr st'"
  shows "matched st' (snd (on_timeout m)) \<and>
    foldR (run_codes env) (completed [fst (on_timeout m)]) (visible st) = Inr (visible st')"
proof (cases "hotkey_mode st")
  case True
  let ?l = "(release_input env (engage_hotkey_timer 0 (st\<lparr>timer := 0\<rparr>)))\<lparr>hotkey_mode := False\<rparr>"
  have ended: "run_sequence env ?l = Inr st'" using step True by (simp add: alarm_handler_def Let_def)
  from run_sequence_left [OF this] show ?thesis
    using True m left_codes [OF ok ended]
    by (simp add: matched_def on_timeout_def completed_def collected_def visible_def)
next
  case False
  then have "st' = release_input env (engage_hotkey_timer 0 (st\<lparr>timer := 0\<rparr>))"
    using step by (simp add: alarm_handler_def Let_def)
  moreover have "collected (st\<lparr>timer := 0\<rparr>) = collected st" by (simp add: collected_def)
  ultimately show ?thesis
    using False m by (simp add: matched_def on_timeout_def completed_def no_result_def)
qed


lemma step_matched:
  assumes "same_config env cfg" "hot_ok env st" "matched st m" "0 \<le> npressed st"
    "paired (nat (npressed st)) (i # is)" "legacy_step env i st = Inr st'"
  shows "matched st' (snd (matcher_step cfg i m))" "hot_ok env st'" "0 \<le> npressed st'"
    "paired (nat (npressed st')) is"
    "foldR (run_codes env) (completed [fst (matcher_step cfg i m)]) (visible st) = Inr (visible st')"
proof -
  have all: "matched st' (snd (matcher_step cfg i m)) \<and> hot_ok env st' \<and>
      foldR (run_codes env) (completed [fst (matcher_step cfg i m)]) (visible st) = Inr (visible st') \<and>
      0 \<le> npressed st' \<and> paired (nat (npressed st')) is"
  proof (cases i)
    case (Key_event kc ty)
    have ok: "hot_ok env st'"
      using assms(2,6) unfolding Key_event legacy_step.simps by (rule process_input_event_ok)
    have down: "keys_down m = npressed st" using assms(3) by (simp add: matched_def)
    show ?thesis
    proof (cases ty)
      case Pressed
      then have "key_pressed env (sint kc) st = Inr st'"
        using assms(6) Key_event by (simp add: process_input_event_def)
      note st = press_matched [OF assms(1-3) this]
      have "keys_down (snd (process_key_event cfg kc Pressed m)) = npressed st + 1"
        using down by (cases "m_state m") (simp_all add: matcher_defs Let_def)
      then have "npressed st' = npressed st + 1" using st(1) by (simp add: matched_def)
      then show ?thesis using st ok assms(4,5) by (simp add: Key_event Pressed nat_add_distrib)
    next
      case Released
      then have pos: "0 < npressed st" and st': "st' = key_released env (sint kc) st"
        using assms(4-6) Key_event by (auto simp: process_input_event_def EV_KEY_def)
      note st = release_matched [OF assms(1-3) pos, of kc, folded st']
      have "keys_down (snd (process_key_event cfg kc Released m)) = npressed st - 1"
        using down pos by (cases "m_state m") (auto simp: matcher_defs Let_def)
      then have "npressed st' = npressed st - 1" using st(1) by (simp add: matched_def)
      then show ?thesis using st ok pos assms(5) visible_released [of env "sint kc" st]
        by (auto simp: Key_event Released nat_diff_distrib st')
    qed
  next
    case Time_out
    then have alarm: "alarm_handler env (st\<lparr>timer := 0\<rparr>) = Inr st'" using assms(6) by simp
    have ok: "hot_ok env st'"
      using assms(2) by (intro alarm_handler_ok [OF _ _ _ alarm]) (auto simp: hot_defs)
    note st = timeout_matched [OF assms(2,3) alarm]
    have "keys_down (snd (on_timeout m)) = keys_down m" by (simp add: on_timeout_def)
    then have "npressed st' = npressed st" using st assms(3) by (simp add: matched_def)
    then show ?thesis using st ok assms(4,5) by (simp add: Time_out)
  next
    case Cancel
    then show ?thesis using assms(5) by simp
  qed
  then show "matched st' (snd (matcher_step cfg i m))" "hot_ok env st'" "0 \<le> npressed st'"
    "paired (nat (npressed st')) is"
    "foldR (run_codes env) (completed [fst (matcher_step cfg i m)]) (visible st) = Inr (visible st')"
    by blast+
qed

lemma run_matched:
  "same_config env cfg \<Longrightarrow> hot_ok env st \<Longrightarrow> matched st m \<Longrightarrow> 0 \<le> npressed st \<Longrightarrow>
   paired (nat (npressed st)) is \<Longrightarrow> foldR (legacy_step env) is st = Inr st' \<Longrightarrow>
   matched st' (snd (matcher_run cfg is m)) \<and> foldR (run_codes env) (completed (fst (matcher_run cfg is m))) (visible st) = Inr (visible st')"
proof (induction "is" arbitrary: st m)
  case Nil
  then show ?case by (simp add: completed_def)
next
  case (Cons i "is")
  from Cons.prems(6) obtain st1 where st1: "legacy_step env i st = Inr st1"
      "foldR (legacy_step env) is st1 = Inr st'" by (auto simp: res_simps)
  note step = step_matched [OF Cons.prems(1-5) st1(1)]
  have "completed (fst (matcher_run cfg (i # is) m)) =
      completed [fst (matcher_step cfg i m)] @ completed (fst (matcher_run cfg is (snd (matcher_step cfg i m))))"
    unfolding matcher_run_Cons by (simp add: completed_def)
  with Cons.IH [OF Cons.prems(1) step(2,1,3,4) st1(2)] step(5) show ?case
    unfolding matcher_run_Cons by (simp add: foldR_append)
qed

section \<open>Properties\<close>

text \<open>C18: The matcher of the rewrite simulates the hotkey machine of the C program: from their start, on
  any key events (no key released that is not down) and timeouts on which the C program has no fault,
  both are in the same mode, hold the same keys down and have collected the same codes; and what the C
  program has done to the screen, the trace and the events to skip is what the actions of the
  sequences do that the matcher has completed, one after the other, those without a key or an action
  left out. (The C program faults when a ninth key overflows its array, where the matcher goes on, and
  when an action does. At the timeout both complete the sequence, where sequence\_matcher.hpp says that
  it is cancelled.)\<close>
theorem matcher_simulates_legacy:
  assumes "same_config env cfg" and "hot_start env st" and "paired 0 is"
    and "foldR (legacy_step env) is st = Inr st'"
  shows "matched st' (snd (matcher_run cfg is new_matcher)) \<and>
    foldR (run_codes env) (completed (fst (matcher_run cfg is new_matcher))) (visible st) = Inr (visible st')"
proof (rule run_matched [OF assms(1) _ _ _ _ assms(4)])
  show "hot_ok env st" using assms(2) by (rule hotkeys.inv_init)
  show "matched st new_matcher"
    using assms(2) by (simp add: hot_start_def matched_def new_matcher_def collected_def)
  show "0 \<le> npressed st" "paired (nat (npressed st)) is" using assms(2,3) by (simp_all add: hot_start_def)
qed

text \<open>A tap on the introducer, the key A, and the timeout.\<close>

definition sample_inputs :: "match_input list" where
  "sample_inputs = tap_key KPKEY_SHIFT_c @ [Key_event KPKEY_A_c Pressed, Time_out]"

lemma sample_legacy_run: "\<exists>st'. foldR (legacy_step sample_env) sample_inputs start_state = Inr st'"
proof -
  have codes: "sint KPKEY_SHIFT_c = KPKEY_SHIFT" "sint KPKEY_A_c = KPKEY_A" "KPKEY_A \<noteq> KPKEY_ENTER"
    by (simp_all add: header_codes_agree sample_codes)
  obtain es where es: "execute_action (e_dev sample_env) (e_config sample_env) (e_fds sample_env)
      (screen start_state) (Row letter_action) = Inr (tiny_screen, es, 0)"
    using letter_executed by blast
  define s1 where "s1 = start_state\<lparr>npressed := 1, introducer_just_pressed := True\<rparr>"
  define s2 where "s2 = key_released sample_env KPKEY_SHIFT s1"
  have 1: "legacy_step sample_env (Key_event KPKEY_SHIFT_c Pressed) start_state = Inr s1"
    by (simp add: process_input_event_def key_pressed_def Let_def s1_def start_state_def codes sample_keys)
  have 2: "legacy_step sample_env (Key_event KPKEY_SHIFT_c Released) s1 = Inr s2"
    by (simp add: process_input_event_def s2_def codes)
  have s2: "hotkey_mode s2" "npressed s2 = 0" "hot_sequence_length s2 = 0" "hot_sequence s2 = replicate MAXSEQ 0"
      "screen s2 = screen start_state"
    by (simp_all add: s2_def s1_def key_released_def Let_def start_state_def sample_keys
        engage_hotkey_timer_def capture_input_def)
  define s3 where "s3 = s2\<lparr>npressed := 1, hot_sequence := (replicate MAXSEQ 0)[0 := seq_code KPKEY_A], hot_sequence_length := 1\<rparr>"
  have 3: "legacy_step sample_env (Key_event KPKEY_A_c Pressed) s2 = Inr s3"
    using s2 codes(3) by (simp add: process_input_event_def key_pressed_def Let_def codes sample_keys s3_def seq_code_def MAXSEQ_def)
  let ?l = "(release_input sample_env (engage_hotkey_timer 0 (s3\<lparr>timer := 0\<rparr>)))\<lparr>hotkey_mode := False\<rparr>"
  have l: "collected ?l = [seq_code KPKEY_A]" "hot_sequence_length ?l = 1" "screen ?l = screen start_state"
    using s2(5) by (simp_all add: collected_def release_input_def engage_hotkey_timer_def s3_def MAXSEQ_def eval_nat_numeral)
  then obtain s4 where "run_sequence sample_env ?l = Inr s4"
    using es sample_found(1) by (auto simp: run_sequence_def Let_def)
  moreover have "hotkey_mode s3" using s2 by (simp add: s3_def)
  ultimately have 4: "legacy_step sample_env Time_out s3 = Inr s4"
    by (simp add: alarm_handler_def Let_def)
  show ?thesis
    using 1 2 3 4 by (simp add: sample_inputs_def tap_key_def del: legacy_step.simps)
qed

lemma sample_same_config: "same_config sample_env sample_matcher"
  by (simp add: same_config_def sample_keys sample_matcher_def header_codes_agree)

theorem matcher_simulates_legacy_witness:
  "\<exists>st'. foldR (legacy_step sample_env) sample_inputs start_state = Inr st' \<and> commands_run (trace st') = [''ls'']"
proof -
  obtain st' where run: "foldR (legacy_step sample_env) sample_inputs start_state = Inr st'"
    using sample_legacy_run by metis
  obtain es where es: "execute_action (e_dev sample_env) (e_config sample_env) (e_fds sample_env)
      (screen start_state) (Row letter_action) = Inr (tiny_screen, es, 0)" "commands_run es = [''ls'']"
    using letter_executed by blast
  have "paired 0 sample_inputs" by (simp add: sample_inputs_def tap_key_def)
  from matcher_simulates_legacy [OF sample_same_config start_idle(2) this run]
  have "foldR (run_codes sample_env) (completed (fst (matcher_run sample_matcher sample_inputs new_matcher)))
      (visible start_state) = Inr (visible st')" by blast
  moreover have "completed (fst (matcher_run sample_matcher sample_inputs new_matcher)) = [[seq_code KPKEY_A]]"
  proof -
    obtain rs m1 where 1: "matcher_run sample_matcher (tap_key KPKEY_SHIFT_c) new_matcher = (rs, m1)" "completed rs = []"
        "capturing m1 []"
      using run_introducer [of new_matcher sample_matcher] by (auto simp: new_matcher_def sample_matcher_def)
    have "KPKEY_A_c \<noteq> m_trailer sample_matcher" by (simp add: sample_matcher_def raw_codes)
    then show ?thesis
      using 1 sub_code [OF sample_same_config, of KPKEY_A_c]
      by (simp add: sample_inputs_def matcher_run_append capturing_def matcher_defs Let_def on_timeout_def
          completed_def seq_code_def header_codes_agree)
  qed
  ultimately have "trace st' = es"
    using es(1) sample_found(1) start_idle(4) by (auto simp: run_codes_def visible_def)
  with run es(2) show ?thesis by auto
qed

end
