(* ===== verification/IniDoc.thy ===== *)
theory IniDoc
  imports IniRender
begin

text \<open>
  src/src/config/ini\_parser.cpp: the document class of the rewrite and its line parser. The map of
  sections is keyed by names in lower case; the order of the sections is kept beside it.
\<close>

section \<open>Documents\<close>

record ini_entry =
  entry_key :: string
  entry_value :: string

record ini_document =
  doc_sections :: "string \<rightharpoonup> ini_entry list"
  section_order :: "string list"

definition empty_document :: ini_document where
  "empty_document = \<lparr>doc_sections = Map.empty, section_order = []\<rparr>"

definition normalize_key :: "string \<Rightarrow> string" where
  "normalize_key s = map tolower s"

definition add_entry :: "string \<Rightarrow> string \<Rightarrow> string \<Rightarrow> ini_document \<Rightarrow> ini_document" where
  "add_entry sec k v doc =
     (let norm_sec = normalize_key sec;
          doc = (if doc_sections doc norm_sec = None then doc\<lparr>section_order := section_order doc @ [sec]\<rparr> else doc);
          old = (case doc_sections doc norm_sec of None \<Rightarrow> [] | Some es \<Rightarrow> es)
      in doc\<lparr>doc_sections := (doc_sections doc)(norm_sec \<mapsto> old @ [\<lparr>entry_key = k, entry_value = v\<rparr>])\<rparr>)"

definition has_section :: "ini_document \<Rightarrow> string \<Rightarrow> bool" where
  "has_section doc sec = (doc_sections doc (normalize_key sec) \<noteq> None)"

definition get_section_entries :: "ini_document \<Rightarrow> string \<Rightarrow> ini_entry list" where
  "get_section_entries doc sec = (case doc_sections doc (normalize_key sec) of None \<Rightarrow> [] | Some es \<Rightarrow> es)"

definition get_string :: "ini_document \<Rightarrow> string \<Rightarrow> string \<Rightarrow> string option" where
  "get_string doc sec k =
     (case doc_sections doc (normalize_key sec) of
        None \<Rightarrow> None
      | Some es \<Rightarrow> map_option entry_value (find (\<lambda>e. normalize_key (entry_key e) = normalize_key k) es))"

definition get_section_names :: "ini_document \<Rightarrow> string list" where
  "get_section_names doc = section_order doc"

text \<open>std::stoi: None where it throws, for a text without digits or a number that is no int.\<close>

definition stoi :: "string \<Rightarrow> int option" where
  "stoi s =
     (let t = dropWhile is_space s;
          neg = (t \<noteq> [] \<and> hd t = CHR ''-'');
          u = (if t \<noteq> [] \<and> (hd t = CHR ''-'' \<or> hd t = CHR ''+'') then tl t else t);
          ds = takeWhile is_digit u;
          v = (if neg then - int (dec_value ds) else int (dec_value ds))
      in if ds \<noteq> [] \<and> - (2 ^ 31) \<le> v \<and> v < 2 ^ 31 then Some v else None)"

definition get_int :: "ini_document \<Rightarrow> string \<Rightarrow> string \<Rightarrow> int \<Rightarrow> int" where
  "get_int doc sec k default_value =
     (case get_string doc sec k of
        None \<Rightarrow> default_value
      | Some v \<Rightarrow> (case stoi v of None \<Rightarrow> default_value | Some n \<Rightarrow> n))"

section \<open>Parsing\<close>

definition trim :: "string \<Rightarrow> string" where
  "trim str = rev (dropWhile is_space (rev (dropWhile is_space str)))"

definition is_comment :: "char \<Rightarrow> bool" where
  "is_comment c = (c = CHR '';'' \<or> c = CHR ''#'')"

text \<open>The document and the current section.\<close>

definition parse_line_entry :: "string \<Rightarrow> ini_document \<times> string \<Rightarrow> ini_document \<times> string" where
  "parse_line_entry line st = (case st of (doc, current_section) \<Rightarrow>
     if line = [] \<or> is_comment (hd line) then (doc, current_section)
     else if hd line = CHR ''['' \<and> last line = CHR '']''
     then (doc, trim (take (length line - 2) (drop 1 line)))
     else if CHR ''='' \<notin> set line then (doc, current_section)
     else (let eq_pos = length (takeWhile (\<lambda>c. c \<noteq> CHR ''='') line)
           in (add_entry current_section (trim (take eq_pos line)) (trim (drop (eq_pos + 1) line)) doc,
               current_section)))"

function parse_lines :: "string \<Rightarrow> ini_document \<times> string \<Rightarrow> ini_document \<times> string" where
  "parse_lines content st =
     (if content = [] then st
      else parse_lines (drop (length (takeWhile (\<lambda>c. c \<noteq> LF) content) + 1) content)
             (parse_line_entry (trim (takeWhile (\<lambda>c. c \<noteq> LF) content)) st))"
  by auto
termination by (relation "measure (\<lambda>(content, st). length content)") auto

declare parse_lines.simps [simp del]

definition parse_string :: "string \<Rightarrow> ini_document" where
  "parse_string content = fst (parse_lines content (empty_document, ''default''))"

text \<open>The file system is a map from paths to contents.\<close>

definition parse_file :: "(string \<rightharpoonup> string) \<Rightarrow> string \<Rightarrow> ini_document option" where
  "parse_file files path = map_option parse_string (files path)"

section \<open>Lines of a rendered document\<close>

fun portable :: "ini_item \<Rightarrow> bool" where
  "portable (Sec nm) = (writable (Sec nm) \<and> \<not> is_space (hd nm) \<and> \<not> is_space (last nm))"
| "portable (Pair k v) = (writable (Pair k v) \<and> \<not> is_space (hd k) \<and> \<not> is_space (hd v))"

fun doc_item :: "ini_item \<Rightarrow> ini_document \<times> string \<Rightarrow> ini_document \<times> string" where
  "doc_item (Sec nm) (doc, sec) = (doc, nm)"
| "doc_item (Pair k v) (doc, sec) = (add_entry sec k v doc, sec)"

lemma space_le: "is_space c \<Longrightarrow> le_space c"
  by (auto simp: is_space_def le_space_def)

lemma is_space_consts [simp]:
  "is_space CHR '' ''" "\<not> is_space CHR ''=''" "\<not> is_space CHR ''[''" "\<not> is_space CHR '']''"
  by (simp_all add: is_space_def)

lemma trim_keep: "s \<noteq> [] \<Longrightarrow> \<not> is_space (hd s) \<Longrightarrow> \<not> is_space (last s) \<Longrightarrow> trim s = s"
proof -
  assume s: "s \<noteq> []" "\<not> is_space (hd s)" "\<not> is_space (last s)"
  have "dropWhile is_space s = s" using s by (simp add: dropWhile_eq_self_iff)
  moreover have "dropWhile is_space (rev s) = rev s" using s by (simp add: dropWhile_eq_self_iff hd_rev)
  ultimately show ?thesis by (simp add: trim_def)
qed

lemma trim_blanks:
  assumes "s \<noteq> []" "\<not> is_space (hd s)" "\<not> is_space (last s)"
  shows "trim (s @ '' '') = s" "trim ('' '' @ s) = s"
proof -
  have "dropWhile is_space (s @ '' '') = s @ '' ''" using assms(1,2) by (cases s) auto
  then show "trim (s @ '' '') = s" using assms(1,3) by (cases s rule: rev_cases) (auto simp: trim_def)
  show "trim ('' '' @ s) = s" using trim_keep [OF assms] by (simp add: trim_def)
qed


lemma parse_lines_line:
  assumes "LF \<notin> set line"
  shows "parse_lines (line @ LF # r) st = parse_lines r (parse_line_entry (trim line) st)"
proof -
  have "takeWhile (\<lambda>c. c \<noteq> LF) (line @ LF # r) = line"
    using assms by (subst takeWhile_append2) auto
  then show ?thesis by (subst parse_lines.simps) simp
qed

lemma section_line_read:
  assumes "portable (Sec nm)"
  shows "parse_lines (render_item (Sec nm) @ r) st = parse_lines r (doc_item (Sec nm) st)"
proof -
  have nm: "nm \<noteq> []" "LF \<notin> set nm" "\<not> is_space (hd nm)" "\<not> is_space (last nm)"
    using assms by (auto simp: plain_def)
  let ?l = "''['' @ nm @ '']''"
  have "trim ?l = ?l" by (rule trim_keep) simp_all
  moreover have "parse_line_entry ?l st = doc_item (Sec nm) st"
    using trim_keep [OF nm(1,3,4)] by (cases st) (simp add: parse_line_entry_def is_comment_def)
  ultimately show ?thesis
    using parse_lines_line [of ?l r st] nm(2) by simp
qed

lemma pair_line_read:
  assumes "portable (Pair k v)"
  shows "parse_lines (render_item (Pair k v) @ r) st = parse_lines r (doc_item (Pair k v) st)"
proof -
  have k: "k \<noteq> []" "LF \<notin> set k" "CHR ''='' \<notin> set k" "\<not> is_space (hd k)" "\<not> is_space (last k)"
      "hd k \<notin> {CHR ''['', CHR '';'', CHR ''#''}"
    using assms space_le by (auto simp: plain_def)
  have v: "v \<noteq> []" "LF \<notin> set v" "\<not> is_space (hd v)" "\<not> is_space (last v)"
    using assms space_le by (auto simp: plain_def)
  let ?l = "k @ '' = '' @ v"
  have "takeWhile (\<lambda>c. c \<noteq> CHR ''='') ?l = k @ '' ''"
    using k(3) by (subst takeWhile_append2) auto
  moreover have "trim (k @ '' '') = k" "trim ('' '' @ v) = v"
    using trim_blanks [OF k(1,4,5)] trim_blanks [OF v(1,3,4)] by blast+
  ultimately have "parse_line_entry ?l st = doc_item (Pair k v) st"
    using k(1,6) by (cases st) (auto simp: parse_line_entry_def is_comment_def Let_def)
  moreover have "trim ?l = ?l" using k v by (intro trim_keep) simp_all
  ultimately show ?thesis using parse_lines_line [of ?l r st] k(2) v(2) by simp
qed

lemma parse_rendered:
  "list_all portable is \<Longrightarrow> parse_lines (render is) st = fold doc_item is st"
proof (induction "is" arbitrary: st)
  case Nil
  then show ?case by (simp add: render_def parse_lines.simps)
next
  case (Cons i "is")
  then have "parse_lines (render (i # is)) st = parse_lines (render is) (doc_item i st)"
    using section_line_read pair_line_read by (cases i) (simp_all add: render_def)
  with Cons show ?case by simp
qed

section \<open>Documents of sections with different names\<close>

type_synonym blocks = "(string \<times> (string \<times> string) list) list"

definition block_items :: "string \<times> (string \<times> string) list \<Rightarrow> ini_item list" where
  "block_items b = Sec (fst b) # map (\<lambda>(k, v). Pair k v) (snd b)"

definition document_items :: "blocks \<Rightarrow> ini_item list" where
  "document_items bs = concat (map block_items bs)"

definition entries :: "(string \<times> string) list \<Rightarrow> ini_entry list" where
  "entries ps = map (\<lambda>(k, v). \<lparr>entry_key = k, entry_value = v\<rparr>) ps"

lemma entries_simps [simp]:
  "entries [] = []" "entries ((k, v) # ps) = \<lparr>entry_key = k, entry_value = v\<rparr> # entries ps"
  by (simp_all add: entries_def)

lemma add_entry_sections:
  "doc_sections (add_entry sec k v doc) =
     (doc_sections doc)(normalize_key sec \<mapsto> get_section_entries doc sec @ [\<lparr>entry_key = k, entry_value = v\<rparr>])"
  by (simp add: add_entry_def get_section_entries_def Let_def)

lemma pairs_read:
  "ps \<noteq> [] \<Longrightarrow> fold doc_item (map (\<lambda>(k, v). Pair k v) ps) (doc, sec) = (doc', sec') \<Longrightarrow>
   doc_sections doc' = (doc_sections doc)(normalize_key sec \<mapsto> get_section_entries doc sec @ entries ps) \<and> sec' = sec"
proof (induction ps arbitrary: doc)
  case Nil
  then show ?case by simp
next
  case (Cons p ps)
  obtain k v where p: "p = (k, v)" by (cases p)
  have rest: "fold doc_item (map (\<lambda>(k, v). Pair k v) ps) (add_entry sec k v doc, sec) = (doc', sec')"
    using Cons.prems(2) by (simp add: p)
  show ?case
  proof (cases "ps = []")
    case True
    then show ?thesis using rest add_entry_sections [of sec k v doc] by (auto simp: p)
  next
    case False
    have "get_section_entries (add_entry sec k v doc) sec =
        get_section_entries doc sec @ [\<lparr>entry_key = k, entry_value = v\<rparr>]"
      by (simp add: get_section_entries_def add_entry_sections)
    then show ?thesis using Cons.IH [OF False rest] by (auto simp: p add_entry_sections fun_eq_iff)
  qed
qed

text \<open>The map of a document read from blocks.\<close>

lemma blocks_read:
  "\<forall>b \<in> set bs. snd b \<noteq> [] \<Longrightarrow> distinct (map (normalize_key \<circ> fst) bs) \<Longrightarrow>
   (\<forall>b \<in> set bs. doc_sections doc (normalize_key (fst b)) = None) \<Longrightarrow>
   fold doc_item (document_items bs) (doc, sec) = (doc', sec') \<Longrightarrow>
   doc_sections doc' nm = (case find (\<lambda>b. normalize_key (fst b) = nm) bs of
      Some b \<Rightarrow> Some (entries (snd b)) | None \<Rightarrow> doc_sections doc nm)"
proof (induction bs arbitrary: doc sec)
  case Nil
  then show ?case by (simp add: document_items_def)
next
  case (Cons b bs)
  obtain doc1 sec1 where 1: "fold doc_item (map (\<lambda>(k, v). Pair k v) (snd b)) (doc, fst b) = (doc1, sec1)"
    by (cases "fold doc_item (map (\<lambda>(k, v). Pair k v) (snd b)) (doc, fst b)")
  have d1: "doc_sections doc1 = (doc_sections doc)(normalize_key (fst b) \<mapsto> entries (snd b))"
    using pairs_read [OF _ 1] Cons.prems(1,3) by (simp add: get_section_entries_def)
  have rest: "fold doc_item (document_items bs) (doc1, sec1) = (doc', sec')"
    using Cons.prems(4) 1 by (simp add: document_items_def block_items_def)
  have "\<forall>c \<in> set bs. doc_sections doc1 (normalize_key (fst c)) = None"
    using Cons.prems(2,3) by (auto simp: d1 image_iff)
  from Cons.IH [OF _ _ this rest] Cons.prems(1,2)
  have "doc_sections doc' nm = (case find (\<lambda>b. normalize_key (fst b) = nm) bs of
      Some b \<Rightarrow> Some (entries (snd b)) | None \<Rightarrow> doc_sections doc1 nm)"
    by simp
  moreover have "find (\<lambda>b. normalize_key (fst b) = nm) bs = None" if "nm = normalize_key (fst b)"
    using Cons.prems(2) that by (auto simp: find_None_iff image_iff)
  ultimately show ?case by (auto simp: d1 split: option.split)
qed

text \<open>The tables of the C program for the same items.\<close>

lemma foldl_pairs:
  "t_cur t = Some n \<Longrightarrow> t_secs t \<noteq> [] \<Longrightarrow>
   foldl item_step t (map (\<lambda>(k, v). Pair k v) ps) = t\<lparr>t_keys := t_keys t @ map (\<lambda>(k, v). (n, k, v)) ps\<rparr>"
proof (induction ps arbitrary: t)
  case (Cons p ps)
  then show ?case by (cases p) (simp add: Let_def)
qed simp

lemma block_tables:
  assumes "distinct (map (normalize_key \<circ> fst) bs)"
  shows "t_secs (foldl item_step empty_tables (document_items bs)) = map fst bs \<and>
    (\<forall>x \<in> set (t_keys (foldl item_step empty_tables (document_items bs))). fst x < length bs) \<and>
    (\<forall>i < length bs. spec_pairs (foldl item_step empty_tables (document_items bs)) i = snd (bs ! i))"
  using assms
proof (induction bs rule: rev_induct)
  case Nil
  then show ?case by (simp add: document_items_def empty_tables_def)
next
  case (snoc b bs)
  define t where "t = foldl item_step empty_tables (document_items bs)"
  have IH: "t_secs t = map fst bs" "\<forall>x \<in> set (t_keys t). fst x < length bs"
      "\<forall>i < length bs. spec_pairs t i = snd (bs ! i)"
    using snoc by (simp_all add: t_def)
  have new: "\<not> strcaseeq (hd (t_secs t)) (fst b)" if "t_secs t \<noteq> []"
    using snoc.prems that IH(1) by (cases bs) (auto simp: strcaseeq_def normalize_key_def)
  define t1 where "t1 = t\<lparr>t_secs := t_secs t @ [fst b], t_cur := Some (length bs)\<rparr>"
  have "item_step t (Sec (fst b)) = t1" using new IH(1) by (auto simp: t1_def)
  then have step: "foldl item_step empty_tables (document_items (bs @ [b])) =
      t1\<lparr>t_keys := t_keys t @ map (\<lambda>(k, v). (length bs, k, v)) (snd b)\<rparr>"
    using foldl_pairs [of t1 "length bs" "snd b"]
    by (simp add: document_items_def block_items_def t_def [symmetric, unfolded document_items_def]) (simp add: t1_def)
  have own: "filter (\<lambda>x. fst x = length bs) (t_keys t) = []" using IH(2) by (auto simp: filter_empty_conv)
  have "filter (\<lambda>x. fst x = i) (map (\<lambda>(k, v). (length bs, k, v)) ps) =
      (if i = length bs then map (\<lambda>(k, v). (length bs, k, v)) ps else [])" for i and ps :: "(string \<times> string) list"
    by (induction ps) auto
  then have "spec_pairs (foldl item_step empty_tables (document_items (bs @ [b]))) i = snd ((bs @ [b]) ! i)"
    if "i < Suc (length bs)" for i
    using that IH(3) own unfolding step
    by (cases "i = length bs") (auto simp: spec_pairs_def nth_append comp_def case_prod_beta)
  moreover have "\<forall>x \<in> set (t_keys (foldl item_step empty_tables (document_items (bs @ [b])))). fst x < Suc (length bs)"
    using IH(2) unfolding step by force
  ultimately show ?case unfolding step by (simp add: t1_def IH(1))
qed


lemma portable_writable: "portable i \<Longrightarrow> writable i"
  by (cases i) auto

lemma find_entries:
  "map_option entry_value (find (\<lambda>e. normalize_key (entry_key e) = normalize_key k) (entries ps)) =
   map_option snd (find (\<lambda>(k', v). strcaseeq k k') ps)"
  by (induction ps) (auto simp: strcaseeq_def normalize_key_def)

text \<open>A look-up by the C program, as retrieve\_key\_value does it.\<close>

definition legacy_lookup :: "dbdesc \<Rightarrow> string \<Rightarrow> string \<Rightarrow> (int \<times> string option) res" where
  "legacy_lookup db sec k =
     (let i = inidb_find_section (Some db) sec in
      if 0 \<le> i then bindR (inidb_find_key (Some db) i k)
        (\<lambda>j. if 0 \<le> j then inidb_get_key_value (Some db) i j else Inr (0, None))
      else Inr (0, None))"

text \<open>What both readers have for the text of a list of blocks.\<close>

lemma document_of_blocks:
  assumes "list_all portable (document_items bs)" "\<forall>b \<in> set bs. snd b \<noteq> []" "distinct (map (normalize_key \<circ> fst) bs)"
  shows "doc_sections (parse_string (render (document_items bs))) (normalize_key sec) =
    map_option (entries \<circ> snd) (find (\<lambda>b. normalize_key (fst b) = normalize_key sec) bs)"
proof -
  obtain d s where d: "fold doc_item (document_items bs) (empty_document, ''default'') = (d, s)"
    by (cases "fold doc_item (document_items bs) (empty_document, ''default'')")
  have "parse_string (render (document_items bs)) = d" using parse_rendered [OF assms(1)] d by (simp add: parse_string_def)
  then show ?thesis
    using blocks_read [OF assms(2,3) _ d, of "normalize_key sec"] by (auto simp: empty_document_def split: option.split)
qed

lemma database_of_blocks:
  assumes "list_all portable (document_items bs)" "distinct (map (normalize_key \<circ> fst) bs)"
    and "os_file os path = Some (render (document_items bs))" "inidb_open os path = Inr (Some db)"
  shows "db_sections db = map fst bs" "i < length bs \<Longrightarrow> db_pairs db i = snd (bs ! i)"
proof -
  have w: "list_all writable (document_items bs)"
    using assms(1) by (auto simp: list_all_iff portable_writable)
  note rt = render_text [OF w]
  have spec: "spec_tables (render (document_items bs)) = foldl item_step empty_tables (document_items bs)"
    by (simp add: spec_tables_def spec_items_render [OF w])
  show "db_sections db = map fst bs" "i < length bs \<Longrightarrow> db_pairs db i = snd (bs ! i)"
    using inidb_open_contents [OF assms(3) rt(1,2) assms(4)] block_tables [OF assms(2)] spec by simp_all
qed

lemma lookup_of_blocks:
  assumes "inidb_open os path = Inr (Some db)" "db_sections db = map fst bs"
    and "\<And>i. i < length bs \<Longrightarrow> db_pairs db i = snd (bs ! i)" "\<forall>b \<in> set bs. snd b \<noteq> []"
  shows "legacy_lookup db sec k = (case find (\<lambda>b. normalize_key (fst b) = normalize_key sec) bs of
      None \<Rightarrow> Inr (0, None)
    | Some b \<Rightarrow> (case find (\<lambda>(k', v). strcaseeq k k') (snd b) of
        None \<Rightarrow> Inr (0, None) | Some (k', v) \<Rightarrow> Inr (int (length v), Some v)))"
proof -
  let ?P = "\<lambda>b. normalize_key (fst b) = normalize_key sec"
  have P: "(\<lambda>b. strcaseeq sec (fst b)) = ?P" by (rule ext) (auto simp: strcaseeq_def normalize_key_def)
  have sections: "inidb_find_section (Some db) sec = find_pos ?P bs"
    using find_section_answer [of db sec] by (simp add: find_pos_map assms(2) P)
  show ?thesis
  proof (cases "find ?P bs")
    case None
    then show ?thesis
      using sections find_find_pos [of ?P bs] by (simp add: legacy_lookup_def Let_def split: if_splits)
  next
    case (Some b)
    define i where "i = nat (find_pos ?P bs)"
    have hit: "0 \<le> find_pos ?P bs" "bs ! i = b"
      using Some find_find_pos [of ?P bs] by (simp_all add: i_def split: if_splits)
    have len: "i < length bs" unfolding i_def using find_pos_hit [OF hit(1)] by (rule conjunct1)
    have pairs: "db_pairs db i = snd b" "snd b \<noteq> []"
      using assms(3) [OF len] hit(2) assms(4) nth_mem [OF len] by simp_all
    have "legacy_lookup db sec k = inidb.lookup db (int i) k"
      using hit(1) by (simp add: legacy_lookup_def sections i_def inidb.lookup_def Let_def)
    then show ?thesis
      using inidb.lookup_first [OF inidb_open_linked [OF assms(1)], of i k] len pairs by (simp add: assms(2) Some)
  qed
qed

section \<open>Properties\<close>

text \<open>C25: The two readers of .ini files agree: in a document of sections with different names, each with
  at least one name = value line, a look-up in the document class of the rewrite gives the value
  the C program finds in its database, for every section and key name in any case, and nothing
  exactly when the C program finds nothing.\<close>
theorem ini_readers_agree:
  assumes "list_all portable (document_items bs)" and "\<forall>b \<in> set bs. snd b \<noteq> []"
    and "distinct (map (normalize_key \<circ> fst) bs)"
    and "os_file os path = Some (render (document_items bs))" and "inidb_open os path = Inr (Some db)"
  shows "legacy_lookup db sec k =
    Inr (case get_string (parse_string (render (document_items bs))) sec k of
           None \<Rightarrow> (0, None) | Some v \<Rightarrow> (int (length v), Some v))"
proof -
  note db = database_of_blocks [OF assms(1,3,4,5)]
  have "legacy_lookup db sec k = (case find (\<lambda>b. normalize_key (fst b) = normalize_key sec) bs of
      None \<Rightarrow> Inr (0, None)
    | Some b \<Rightarrow> (case find (\<lambda>(k', v). strcaseeq k k') (snd b) of
        None \<Rightarrow> Inr (0, None) | Some (k', v) \<Rightarrow> Inr (int (length v), Some v)))"
    using assms(5) db assms(2) by (rule lookup_of_blocks)
  then show ?thesis
    using document_of_blocks [OF assms(1-3), of sec] find_entries [of k]
    by (auto simp: get_string_def split: option.splits)
qed

text \<open>A file with one section.\<close>

definition sample_blocks :: blocks where
  "sample_blocks = [(''Settings'', [(''Introducer'', ''Sym''), (''Trailer'', ''Enter'')])]"

theorem ini_readers_agree_witness:
  "\<exists>db. inidb_open \<lparr>os_file = (\<lambda>p. Some (render (document_items sample_blocks))),
                   os_read_all = (\<lambda>p. True), os_malloc = (\<lambda>n. True)\<rparr> ''x'' = Inr (Some db) \<and>
     legacy_lookup db ''settings'' ''TRAILER'' = Inr (5, Some ''Enter'')"
proof -
  let ?os = "\<lparr>os_file = (\<lambda>p. Some (render (document_items sample_blocks))), os_read_all = (\<lambda>p. True),
              os_malloc = (\<lambda>n. True)\<rparr>"
  have "(case inidb_open ?os ''x'' of Inr (Some db) \<Rightarrow> True | _ \<Rightarrow> False)" by code_simp
  then obtain db where db: "inidb_open ?os ''x'' = Inr (Some db)"
    by (auto split: sum.splits option.splits)
  have "list_all portable (document_items sample_blocks)" by code_simp
  moreover have "distinct (map (normalize_key \<circ> fst) sample_blocks)" 
      "\<forall>b \<in> set sample_blocks. snd b \<noteq> []"
    by (simp_all add: sample_blocks_def)
  moreover have "get_string (parse_string (render (document_items sample_blocks))) ''settings'' ''TRAILER'' = Some ''Enter''"
    by code_simp
  ultimately have "legacy_lookup db ''settings'' ''TRAILER'' = Inr (5, Some ''Enter'')"
    using ini_readers_agree [OF _ _ _ _ db, of sample_blocks "''settings''" "''TRAILER''"] by simp
  with db show ?thesis by blast
qed

end
