(* ===== verification/Registry.thy ===== *)
theory Registry
  imports KeyTable IniDoc ConfigProps
    "HOL-Library.List_Lexorder" "HOL-Library.Char_ord"
begin

text \<open>
  The configuration of the rewrite: src/src/domain/action.cpp (what a line of the [Actions] section
  means), src/src/domain/action\_registry.cpp (the table of actions by key sequence) and
  src/src/config/config\_scanner.cpp (the .ini files of a directory). The ordered map of the
  registry is a list of its pairs in the order of registration; std::map keeps no other
  information than which sequences it holds and with which actions.
\<close>

section \<open>Actions\<close>

datatype action_payload =
    ShellAction string
  | ScriptAction string
  | KindleKeysAction string
  | SendKeysAction string
  | ScreenshotAction

record hotkey_action =
  display_name :: string
  payload :: action_payload

definition build_script_path :: "string \<Rightarrow> string \<Rightarrow> string" where
  "build_script_path script sdir =
     (if script = [] then []
      else if hd script = CHR ''/'' \<or> sdir = [] then script
      else if last sdir = CHR ''/'' then sdir @ script
      else sdir @ ''/'' @ script)"

definition parse_command :: "string \<Rightarrow> string \<Rightarrow> string \<Rightarrow> hotkey_action" where
  "parse_command command_str disp sdir =
     \<lparr>display_name = disp, payload =
        (if command_str = [] then SendKeysAction []
         else if hd command_str = CHR ''!'' then ShellAction (tl command_str)
         else if hd command_str = CHR ''@'' then ScriptAction (build_script_path (tl command_str) sdir)
         else if hd command_str = CHR ''#'' then KindleKeysAction (tl command_str)
         else if hd command_str = CHR 0x5C then SendKeysAction (tl command_str)
         else SendKeysAction command_str)\<rparr>"

text \<open>The words of a text, as operator >> of a stream extracts them.\<close>

definition stream_words :: "string \<Rightarrow> string list" where
  "stream_words s = tokens is_space s"

definition parse_sequence :: "key_table \<Rightarrow> string \<Rightarrow> short list option" where
  "parse_sequence t sequence_str =
     (case those (map (find_code t) (stream_words sequence_str)) of
        None \<Rightarrow> None
      | Some seq \<Rightarrow> if seq = [] then None else Some seq)"

section \<open>The registry\<close>

type_synonym registry = "(short list \<times> hotkey_action) list"

definition screenshot_sequence :: "short list" where
  "screenshot_sequence = [KPKEY_SHIFT_c, KPKEY_SHIFT_c]"

definition register_action :: "short list \<Rightarrow> hotkey_action \<Rightarrow> registry \<Rightarrow> registry" where
  "register_action seq a r = (if map_of r seq \<noteq> None then r else r @ [(seq, a)])"

definition find_action :: "registry \<Rightarrow> short list \<Rightarrow> hotkey_action option" where
  "find_action r seq =
     (if seq = screenshot_sequence then Some \<lparr>display_name = ''[Screenshot]'', payload = ScreenshotAction\<rparr>
      else map_of r seq)"

definition registry_size :: "registry \<Rightarrow> nat" where
  "registry_size r = length r"

definition registry_clear :: "registry \<Rightarrow> registry" where
  "registry_clear r = []"

section \<open>Settings and files\<close>

record launchpad_settings =
  introducer_key :: string
  trailer_key :: string
  s_hot_interval :: nat            \<comment> \<open>milliseconds, a 32-bit number\<close>
  inter_key_delay :: nat
  script_directory :: string
  keyboard_device :: string
  fiveway_device :: string
  volume_device :: string

definition default_settings :: launchpad_settings where
  "default_settings = \<lparr>introducer_key = ''Shift'', trailer_key = ''Enter'', s_hot_interval = 700,
     inter_key_delay = 300, script_directory = ''./scripts'', keyboard_device = ''/dev/input/event0'',
     fiveway_device = ''/dev/input/event1'', volume_device = ''/dev/input/event2''\<rparr>"

definition with_setting ::
    "ini_document \<Rightarrow> string \<Rightarrow> (string \<Rightarrow> launchpad_settings \<Rightarrow> launchpad_settings) \<Rightarrow>
     launchpad_settings \<Rightarrow> launchpad_settings" where
  "with_setting doc k assign s = (case get_string doc ''Settings'' k of None \<Rightarrow> s | Some v \<Rightarrow> assign v s)"

definition apply_settings :: "ini_document \<Rightarrow> launchpad_settings \<Rightarrow> launchpad_settings" where
  "apply_settings doc s =
     (if \<not> has_section doc ''Settings'' then s
      else let s = with_setting doc ''Introducer'' (\<lambda>v s. s\<lparr>introducer_key := v\<rparr>) s;
               s = with_setting doc ''Trailer'' (\<lambda>v s. s\<lparr>trailer_key := v\<rparr>) s;
               s = with_setting doc ''ScriptDirectory'' (\<lambda>v s. s\<lparr>script_directory := v\<rparr>) s;
               s = with_setting doc ''KeyboardInput'' (\<lambda>v s. s\<lparr>keyboard_device := v\<rparr>) s;
               s = with_setting doc ''FivewayInput'' (\<lambda>v s. s\<lparr>fiveway_device := v\<rparr>) s;
               h = get_int doc ''Settings'' ''HotInterval'' 0;
               s = (if 0 < h then s\<lparr>s_hot_interval := nat h\<rparr> else s);
               d = get_int doc ''Settings'' ''InterKeyDelay'' 0
           in if 0 < d then s\<lparr>inter_key_delay := nat d\<rparr> else s)"

text \<open>The entries of the directory (None when it cannot be opened), the paths of the .ini files, in
  the order of the bytes of their names.\<close>

definition full_path :: "string \<Rightarrow> string \<Rightarrow> string" where
  "full_path dir nm = (if dir \<noteq> [] \<and> last dir \<noteq> CHR ''/'' then dir @ ''/'' @ nm else dir @ nm)"

definition is_ini_name :: "string \<Rightarrow> bool" where
  "is_ini_name nm = (4 < length nm \<and> drop (length nm - 4) nm = ''.ini'')"

definition find_ini_files :: "string list option \<Rightarrow> string \<Rightarrow> string list" where
  "find_ini_files dir_entries dir =
     (case dir_entries of None \<Rightarrow> []
      | Some names \<Rightarrow> sort (map (full_path dir) (filter is_ini_name names)))"

record scanned_config =
  scan_settings :: launchpad_settings
  scan_actions :: "ini_entry list"

definition scan_file :: "(string \<rightharpoonup> string) \<Rightarrow> string \<Rightarrow> scanned_config \<Rightarrow> scanned_config" where
  "scan_file files path r =
     (case parse_file files path of None \<Rightarrow> r
      | Some doc \<Rightarrow> r\<lparr>scan_settings := apply_settings doc (scan_settings r),
                      scan_actions := scan_actions r @ get_section_entries doc ''Actions''\<rparr>)"

definition scan_directory :: "(string \<rightharpoonup> string) \<Rightarrow> string list option \<Rightarrow> string \<Rightarrow> scanned_config" where
  "scan_directory files dir_entries dir =
     fold (scan_file files) (find_ini_files dir_entries dir)
       \<lparr>scan_settings = default_settings, scan_actions = []\<rparr>"

text \<open>The registry Application::load\_configuration fills from the scanned entries.\<close>

definition register_entry :: "key_table \<Rightarrow> string \<Rightarrow> ini_entry \<Rightarrow> registry \<Rightarrow> registry" where
  "register_entry t sdir e r =
     (case parse_sequence t (entry_key e) of None \<Rightarrow> r
      | Some seq \<Rightarrow> register_action seq (parse_command (entry_value e) (entry_key e) sdir) r)"

definition load_registry :: "key_table \<Rightarrow> scanned_config \<Rightarrow> registry" where
  "load_registry t sc = fold (register_entry t (script_directory (scan_settings sc))) (scan_actions sc) []"

section \<open>Lemmas\<close>

lemma register_action_distinct: "distinct (map fst r) \<Longrightarrow> distinct (map fst (register_action seq a r))"
  by (auto simp: register_action_def map_of_eq_None_iff)

lemma register_action_lookup:
  "map_of (register_action seq a r) k = (if map_of r k = None \<and> k = seq then Some a else map_of r k)"
  by (auto simp: register_action_def map_add_def split: option.split)

definition entry_binds :: "key_table \<Rightarrow> short list \<Rightarrow> ini_entry \<Rightarrow> bool" where
  "entry_binds t seq e = (parse_sequence t (entry_key e) = Some seq)"

lemma fold_register_lookup:
  "map_of (fold (register_entry t dir) es r) seq =
     (case map_of r seq of Some a \<Rightarrow> Some a
      | None \<Rightarrow> map_option (\<lambda>e. parse_command (entry_value e) (entry_key e) dir) (find (entry_binds t seq) es))"
proof (induction es arbitrary: r)
  case Nil
  then show ?case by (simp split: option.split)
next
  case (Cons e es)
  have "map_of (register_entry t dir e r) seq = (if map_of r seq = None \<and> entry_binds t seq e
      then Some (parse_command (entry_value e) (entry_key e) dir) else map_of r seq)"
    by (auto simp: register_entry_def entry_binds_def register_action_lookup split: option.split)
  then show ?case by (simp add: Cons split: option.split)
qed

lemma fold_register_distinct:
  "distinct (map fst r) \<Longrightarrow> [] \<notin> fst ` set r \<Longrightarrow>
   distinct (map fst (fold (register_entry t dir) es r)) \<and> [] \<notin> fst ` set (fold (register_entry t dir) es r)"
proof (induction es arbitrary: r)
  case (Cons e es)
  have "[] \<notin> fst ` set (register_entry t dir e r)"
    using Cons.prems(2)
    by (auto simp: register_entry_def register_action_def parse_sequence_def split: option.splits if_splits)
  moreover have "distinct (map fst (register_entry t dir e r))"
    using Cons.prems(1) by (simp add: register_entry_def register_action_distinct split: option.split)
  ultimately show ?case using Cons.IH by simp
qed simp


section \<open>The sequences of the C program\<close>

lemma strtok_cong:
  "(\<And>c. c \<in> set s \<Longrightarrow> d c = d' c) \<Longrightarrow> strtok d s = strtok d' s"
proof -
  assume eq: "\<And>c. c \<in> set s \<Longrightarrow> d c = d' c"
  have "dropWhile d s = dropWhile d' s" by (rule dropWhile_cong) (simp_all add: eq)
  moreover have "takeWhile (\<lambda>c. \<not> d c) (dropWhile d' s) = takeWhile (\<lambda>c. \<not> d' c) (dropWhile d' s)"
    by (rule takeWhile_cong) (auto simp: eq dest: set_dropWhileD)
  moreover have "dropWhile (\<lambda>c. \<not> d c) (dropWhile d' s) = dropWhile (\<lambda>c. \<not> d' c) (dropWhile d' s)"
    by (rule dropWhile_cong) (auto simp: eq dest: set_dropWhileD)
  ultimately show ?thesis by (simp add: strtok_def Let_def)
qed

lemma strtok_rest: "strtok d s = Some (t, r) \<Longrightarrow> set r \<subseteq> set s"
proof -
  assume "strtok d s = Some (t, r)"
  then have r: "r = tl (dropWhile (\<lambda>c. \<not> d c) (dropWhile d s))"
    by (auto simp: strtok_def Let_def split: if_splits)
  have "set (tl ys) \<subseteq> set ys" for ys :: string by (cases ys) auto
  then show "set r \<subseteq> set s" unfolding r by (meson set_dropWhileD subset_iff)
qed

lemma tokens_cong: "(\<And>c. c \<in> set s \<Longrightarrow> d c = d' c) \<Longrightarrow> tokens d s = tokens d' s"
proof (induction d s rule: tokens.induct)
  case (1 d s)
  have same: "strtok d s = strtok d' s" by (rule strtok_cong) (rule "1.prems")
  show ?case
  proof (cases "strtok d s")
    case None
    then show ?thesis using same by (simp add: tokens.simps [of d s] tokens.simps [of d' s])
  next
    case (Some p)
    obtain t r where p: "p = (t, r)" by (cases p)
    have "tokens d r = tokens d' r"
      using "1.IH" [OF Some p [symmetric]] "1.prems" strtok_rest [of d s t r] Some p by blast
    then show ?thesis using Some p same by (simp add: tokens.simps [of d s] tokens.simps [of d' s])
  qed
qed

lemma those_map:
  "those (map f xs) = (if list_all (\<lambda>x. f x \<noteq> None) xs then Some (map (the \<circ> f) xs) else None)"
  by (induction xs) (auto split: option.splits)

section \<open>Properties\<close>

text \<open>C29: What the registry of the rewrite holds after loading the entries of all files, in their
  order: every sequence has one entry, no entry is bound to the empty sequence, and a look-up gives
  the action of the first entry whose text is that sequence; except for two taps on Shift, which
  always give the screenshot action, whatever the files say (in the C program a configured action
  wins). This is what register\_action and find\_action do. The documents say otherwise: with
  config-schema.md (section 2) and configuration.md (section 2.1) the last entry of a sequence would
  win, and config-schema.md and the headers of the actions have three taps on Shift for a screenshot.\<close>
theorem registry_first_entry:
  "find_action (load_registry t sc) seq =
     (if seq = screenshot_sequence then Some \<lparr>display_name = ''[Screenshot]'', payload = ScreenshotAction\<rparr>
      else map_option (\<lambda>e. parse_command (entry_value e) (entry_key e) (script_directory (scan_settings sc)))
             (find (entry_binds t seq) (scan_actions sc))) \<and>
   distinct (map fst (load_registry t sc)) \<and> [] \<notin> fst ` set (load_registry t sc)"
  using fold_register_lookup [of t _ _ "[]" seq] fold_register_distinct [of "[]" t _ "scan_actions sc"]
  by (simp add: find_action_def load_registry_def)

text \<open>A hotkey sequence has the same meaning in both programs: on a text with no white space but
  blanks and at most eight words, the parser of the rewrite gives the codes the C program stores
  (with its built-in key names), and rejects exactly the texts the C program rejects.\<close>
theorem sequence_parsers_agree:
  assumes "get_default_input_keydefs = (ptab, pcodes, n)" and "length s < MAXPATH"
    and "\<And>ch. ch \<in> set s \<Longrightarrow> is_space ch = (ch = CHR '' '')" and "length (stream_words s) \<le> MAXSEQ"
    and "parse_action_sequence (c\<lparr>input_keys := ptab, n_input_keys := n\<rparr>) s = Inr (codes, disp)"
  shows "parse_sequence new_key_table s = (if codes = [] then None else Some codes)"
proof -
  let ?c = "c\<lparr>input_keys := ptab, n_input_keys := n\<rparr>"
  have words: "stream_words s = tokens (\<lambda>ch. ch = CHR '' '') s"
    unfolding stream_words_def by (rule tokens_cong) (rule assms(3))
  have "codes = sequence_codes ?c MAXSEQ s []"
    using assms(5) by (auto simp: parse_action_sequence_def Let_def res_simps)
  then have codes: "codes = (if list_all (\<lambda>v. v \<noteq> -1) (map (find_input_key_code ?c) (stream_words s))
      then map word_of_int (map (find_input_key_code ?c) (stream_words s)) else [])"
    using assms(4) by (simp add: sequence_codes_tokens Let_def words)
  have "find_code new_key_table w =
      (if find_input_key_code ?c w = -1 then None else Some (word_of_int (find_input_key_code ?c w)))" for w
    using new_table_legacy [OF assms(1)] by (simp add: find_input_key_code_def Let_def)
  then show ?thesis
    by (auto simp: parse_sequence_def those_map codes list_all_iff comp_def)
qed

theorem sequence_parsers_agree_witness:
  "parse_sequence new_key_table ''Shift aa'' = Some [KPKEY_SHIFT_c, KPKEY_AA_c]"
proof -
  obtain ptab pcodes n where def: "get_default_input_keydefs = (ptab, pcodes, n)"
    by (cases get_default_input_keydefs)
  let ?c = "initial_config\<lparr>input_keys := ptab, n_input_keys := n\<rparr>"
  have words: "stream_words ''Shift aa'' = [''Shift'', ''aa'']" by code_simp
  have found: "find (\<lambda>r. normalize_name (snd r) = normalize_name ''Shift'') default_input_keys = Some (KPKEY_SHIFT, ''Shift'')"
      "find (\<lambda>r. normalize_name (snd r) = normalize_name ''aa'') default_input_keys = Some (KPKEY_AA, ''aA'')"
    by code_simp+
  then have keys: "find_input_key_code ?c ''Shift'' = KPKEY_SHIFT" "find_input_key_code ?c ''aa'' = KPKEY_AA"
    using legacy_default_code [OF def] by (simp_all add: find_input_key_code_def)
  have "tokens (\<lambda>x. x = CHR '' '') ''Shift aa'' = [''Shift'', ''aa'']" by code_simp
  then have "sequence_codes ?c MAXSEQ ''Shift aa'' [] = [KPKEY_SHIFT_c, KPKEY_AA_c]"
    by (simp add: sequence_codes_tokens keys MAXSEQ_def) (simp add: raw_codes key_codes)
  then have "parse_action_sequence ?c ''Shift aa'' = Inr ([KPKEY_SHIFT_c, KPKEY_AA_c], ''Shift aa'')"
    by (simp add: def parse_action_sequence_def MAXPATH_def MAXNAME_def Let_def)
  moreover have "is_space ch = (ch = CHR '' '')" if "ch \<in> set ''Shift aa''" for ch
    using that by (auto simp: is_space_def)
  moreover have "length (stream_words ''Shift aa'') \<le> MAXSEQ" "length ''Shift aa'' < MAXPATH"
    by (simp_all add: words MAXSEQ_def MAXPATH_def)
  ultimately show ?thesis
    using sequence_parsers_agree [OF def, of "''Shift aa''" initial_config] by simp
qed

section \<open>The names of the documentation\<close>

text \<open>The names of the settings in the reference documentation, such as hot\_interval, are not the ones the
  scanner asks for: a section that uses them changes nothing.\<close>

definition documented_names :: "string list" where
  "documented_names = [''introducer_key'', ''trailer_key'', ''hot_interval'', ''inter_key_delay'', ''script_directory'',
     ''keyboard_device'', ''fiveway_device'', ''volume_device'', ''rce_enabled'', ''rce_port'', ''rce_group'', ''rce_interface'']"

definition setting_names :: "string list" where
  "setting_names = [''Introducer'', ''Trailer'', ''ScriptDirectory'', ''KeyboardInput'', ''FivewayInput'', ''HotInterval'', ''InterKeyDelay'']"

lemma names_apart: "list_all (\<lambda>n. list_all (\<lambda>d. normalize_key d \<noteq> normalize_key n) documented_names) setting_names"
  by code_simp

lemma setting_missing:
  assumes "list_all (\<lambda>e. entry_key e \<in> set documented_names) (get_section_entries doc ''Settings'')" "n \<in> set setting_names"
  shows "get_string doc ''Settings'' n = None"
proof (cases "doc_sections doc (normalize_key ''Settings'')")
  case None
  then show ?thesis by (simp add: get_string_def)
next
  case (Some es)
  have "normalize_key (entry_key e) \<noteq> normalize_key n" if "e \<in> set es" for e
  proof -
    have "entry_key e \<in> set documented_names"
      using assms(1) Some that by (simp add: get_section_entries_def list_all_iff)
    then show ?thesis using names_apart assms(2) unfolding list_all_iff by blast
  qed
  then have "find (\<lambda>e. normalize_key (entry_key e) = normalize_key n) es = None" by (simp add: find_None_iff)
  with Some show ?thesis by (simp add: get_string_def)
qed

theorem documented_settings_ignored:
  assumes "list_all (\<lambda>e. entry_key e \<in> set documented_names) (get_section_entries doc ''Settings'')"
  shows "apply_settings doc s = s"
proof -
  have "get_string doc ''Settings'' n = None" if "n \<in> set setting_names" for n
    by (rule setting_missing [OF assms that])
  then have "get_string doc ''Settings'' ''Introducer'' = None" "get_string doc ''Settings'' ''Trailer'' = None"
      "get_string doc ''Settings'' ''ScriptDirectory'' = None" "get_string doc ''Settings'' ''KeyboardInput'' = None"
      "get_string doc ''Settings'' ''FivewayInput'' = None" "get_string doc ''Settings'' ''HotInterval'' = None"
      "get_string doc ''Settings'' ''InterKeyDelay'' = None"
    by (simp_all add: setting_names_def)
  then show ?thesis by (simp add: apply_settings_def with_setting_def get_int_def Let_def)
qed

end
