(* ===== verification/Executor.thy ===== *)
theory Executor
  imports Registry Translator SendProps
begin

text \<open>
  Running an action in the rewrite: src/src/hal/linux\_key\_injector.cpp and
  src/src/hal/linux\_command\_runner.cpp, whose writes, delays and commands are the effects of
  Effects, and src/src/domain/action\_executor.cpp on top of them. Calls of the status notifier
  (the status bar of the application) are kept as values, in order with the effects.
\<close>

section \<open>The devices\<close>

record key_injector =
  keypad_fd :: int
  fiveway_fd :: int

definition is_fiveway_code :: "short \<Rightarrow> bool" where
  "is_fiveway_code kc = (kc = KPKEY_FW_LEFT_c \<or> kc = KPKEY_FW_RIGHT_c \<or> kc = KPKEY_FW_UP_c \<or>
     kc = KPKEY_FW_DOWN_c \<or> kc = KPKEY_FW_PRESS_c)"

text \<open>A 16-bit code printed as an unsigned int.\<close>

definition print_u :: "short \<Rightarrow> string" where
  "print_u kc = show_nat (nat (sint kc mod 2 ^ 32))"

definition write_to_fiveway :: "key_injector \<Rightarrow> short \<Rightarrow> effect list" where
  "write_to_fiveway ki kc = (if fiveway_fd ki < 0 then [] else [Fiveway (''send '' @ print_u kc @ [LF])])"

definition write_to_keypad :: "key_injector \<Rightarrow> short \<Rightarrow> send_mode \<Rightarrow> effect list" where
  "write_to_keypad ki kc mode =
     (if keypad_fd ki < 0 then []
      else [Keypad ((case mode of Normal \<Rightarrow> ''send'' | Shift \<Rightarrow> ''sendshift'' | Alt \<Rightarrow> ''sendalt'') @
              '' '' @ print_u kc @ [LF])])"

definition inject_key :: "key_injector \<Rightarrow> short \<Rightarrow> send_mode \<Rightarrow> effect list" where
  "inject_key ki kc mode = (if is_fiveway_code kc then write_to_fiveway ki kc else write_to_keypad ki kc mode)"

definition inject_ascii_char :: "key_injector \<Rightarrow> kindle_model \<Rightarrow> char \<Rightarrow> effect list" where
  "inject_ascii_char ki model c =
     (let mapping = translate model c in
      if mapping_code mapping \<noteq> 0
      then inject_key ki (mapping_code mapping) (send_mode mapping) @ [Delay 10] else [])"

text \<open>An empty command is not given to system, which reads up to a NUL; runner is what it answers.\<close>

definition run_shell :: "(string \<Rightarrow> int) \<Rightarrow> string \<Rightarrow> effect list \<times> int" where
  "run_shell runner cmd = (if cmd = [] then ([], 0) else ([Shell (cstr cmd)], runner (cstr cmd)))"

section \<open>The executor\<close>

datatype call = Does effect | Show_status string | Show_result bool | Hide_status

record services =
  sv_injector :: key_injector
  sv_model :: kindle_model
  sv_runner :: "string \<Rightarrow> int"
  sv_notifier :: bool              \<comment> \<open>the pointer is not null\<close>
  sv_table :: key_table

definition notify :: "services \<Rightarrow> call list \<Rightarrow> call list" where
  "notify sv cs = (if sv_notifier sv then cs else [])"

definition send_quoted_string :: "services \<Rightarrow> string \<Rightarrow> call list" where
  "send_quoted_string sv str = map Does (concat (map (inject_ascii_char (sv_injector sv) (sv_model sv)) str))"

definition send_token :: "services \<Rightarrow> string \<Rightarrow> call list" where
  "send_token sv token =
     (if 2 \<le> length token \<and> hd token = CHR 0x22 \<and> last token = CHR 0x22
      then send_quoted_string sv (take (length token - 2) (drop 1 token))
      else case find_code (sv_table sv) token of
             Some kc \<Rightarrow> map Does (inject_key (sv_injector sv) kc Normal)
           | None \<Rightarrow> send_quoted_string sv token)"

definition execute_shell :: "services \<Rightarrow> string \<Rightarrow> string \<Rightarrow> call list" where
  "execute_shell sv cmd name =
     (case run_shell (sv_runner sv) cmd of (es, rc) \<Rightarrow>
        notify sv [Show_status (''^['' @ name @ '']'')] @ map Does es @
        notify sv [Show_result (rc = 0), Hide_status])"

definition execute_send_keys :: "services \<Rightarrow> string \<Rightarrow> call list" where
  "execute_send_keys sv keys = concat (map (send_token sv) (stream_words keys)) @ notify sv [Hide_status]"

definition execute_screenshot_cpp :: "services \<Rightarrow> string \<Rightarrow> call list" where
  "execute_screenshot_cpp sv name = notify sv [Show_status name, Show_result True, Hide_status]"

definition execute :: "services \<Rightarrow> hotkey_action \<Rightarrow> call list" where
  "execute sv a =
     (case payload a of
        ShellAction cmd \<Rightarrow> execute_shell sv cmd (display_name a)
      | SendKeysAction keys \<Rightarrow> execute_send_keys sv keys
      | ScreenshotAction \<Rightarrow> execute_screenshot_cpp sv (display_name a)
      | ScriptAction path \<Rightarrow> []
      | KindleKeysAction keys \<Rightarrow> [])"

section \<open>Words separated by blanks\<close>

definition spaced :: "string list \<Rightarrow> string" where
  "spaced ws = concat (map (\<lambda>w. w @ '' '') ws)"

lemma stream_words_spaced:
  "list_all (\<lambda>w. w \<noteq> [] \<and> (\<forall>x \<in> set w. \<not> is_space x)) ws \<Longrightarrow> stream_words (spaced ws) = ws"
  unfolding stream_words_def
proof (induction ws)
  case Nil
  then show ?case by (simp add: spaced_def tokens.simps strtok_def)
next
  case (Cons w ws)
  have "dropWhile is_space (w @ '' '' @ spaced ws) = w @ '' '' @ spaced ws"
    using Cons.prems by (cases w) auto
  moreover have "takeWhile (\<lambda>c. \<not> is_space c) (w @ '' '' @ spaced ws) = w"
      "dropWhile (\<lambda>c. \<not> is_space c) (w @ '' '' @ spaced ws) = '' '' @ spaced ws"
    using Cons.prems by (simp_all add: takeWhile_append2 dropWhile_append2)
  ultimately have "strtok is_space (spaced (w # ws)) = Some (w, spaced ws)"
    by (simp add: strtok_def spaced_def Let_def)
  then show ?case using Cons by (simp add: tokens.simps [of _ "spaced (w # ws)"])
qed

section \<open>The key lines of the two programs\<close>

definition k3_fiveway :: "short \<Rightarrow> bool" where
  "k3_fiveway kc = (kc = K3KEY_FW_UP_c \<or> kc = K3KEY_FW_DOWN_c \<or> kc = K3KEY_FW_PRESS_c)"

text \<open>The names by which the C program recognises its fiveway keys.\<close>

lemma code_index:
  "c < length cs \<Longrightarrow>
   (let v = foldl (\<lambda>cs (i, r). cs[nat (fst r) := int i]) cs (enumerate k rows) ! c
    in if \<exists>r \<in> set rows. nat (fst r) = c
       then \<exists>i < length rows. v = int (k + i) \<and> nat (fst (rows ! i)) = c
       else v = cs ! c)"
proof (induction rows arbitrary: cs k)
  case Nil
  then show ?case by simp
next
  case (Cons r rows)
  let ?cs = "cs[nat (fst r) := int k]"
  have len: "c < length ?cs" using Cons.prems by simp
  note IH = Cons.IH [OF len, of "Suc k"]
  show ?case
  proof (cases "\<exists>r \<in> set rows. nat (fst r) = c")
    case True
    then obtain i where "i < length rows"
        "foldl (\<lambda>cs (i, r). cs[nat (fst r) := int i]) ?cs (enumerate (Suc k) rows) ! c = int (Suc k + i)"
        "nat (fst (rows ! i)) = c"
      using IH by (auto simp: Let_def)
    then show ?thesis using True by (auto simp: Let_def intro!: exI [of _ "Suc i"])
  next
    case False
    then show ?thesis using IH Cons.prems by (auto simp: Let_def nth_list_update intro!: exI [of _ 0])
  qed
qed

lemma fiveway_names: "map (\<lambda>r. is_fiveway_name (Some (snd r))) default_input_keys =
   map (\<lambda>r. is_fiveway_code (word_of_int (fst r)) \<or> k3_fiveway (word_of_int (fst r))) default_input_keys"
  by code_simp

lemma fiveway_rows: "r \<in> set default_input_keys \<Longrightarrow> 0 \<le> fst r \<and> fst r \<le> int MAXCODE \<and>
   is_fiveway_name (Some (snd r)) = (is_fiveway_code (word_of_int (fst r)) \<or> k3_fiveway (word_of_int (fst r)))"
proof -
  have "list_all (\<lambda>r. 0 \<le> fst r \<and> fst r \<le> int MAXCODE) default_input_keys" by code_simp
  then show "r \<in> set default_input_keys \<Longrightarrow> ?thesis"
    using fiveway_names by (simp add: list_all_iff)
qed

lemma default_fiveway_names:
  assumes "get_default_input_keydefs = (ptab, pcodes, n)" and "r \<in> set default_input_keys"
  shows "is_fiveway_name (input_key_name_of (c\<lparr>input_keys := ptab, input_key_codes := pcodes, n_input_keys := n\<rparr>) (fst r)) =
    (is_fiveway_code (word_of_int (fst r)) \<or> k3_fiveway (word_of_int (fst r)))"
proof -
  have r: "0 \<le> fst r" "fst r \<le> int MAXCODE" using fiveway_rows [OF assms(2)] by simp_all
  have pcodes: "pcodes = foldl (\<lambda>cs (i, r). cs[nat (fst r) := int i]) (replicate (Suc MAXCODE) (-1))
      (enumerate 0 default_input_keys)"
    and ptab: "ptab = map input_key_row default_input_keys @ replicate (MAXKEYS - length default_input_keys) zero_key"
    using assms(1) by (simp_all add: get_default_input_keydefs_def Let_def)
  obtain i where i: "i < length default_input_keys" "pcodes ! nat (fst r) = int i"
      "nat (fst (default_input_keys ! i)) = nat (fst r)"
    using code_index [of "nat (fst r)" "replicate (Suc MAXCODE) (-1)" 0 default_input_keys] r assms(2)
    unfolding pcodes by (auto simp: Let_def nat_less_iff split: if_splits)
  have row: "default_input_keys ! i \<in> set default_input_keys" using i(1) by simp
  then have "fst (default_input_keys ! i) = fst r"
    using i(3) r(1) fiveway_rows [OF row] by (metis eq_nat_nat_iff)
  moreover have "input_key_name (ptab ! i) = snd (default_input_keys ! i)"
    using i(1) by (simp add: ptab nth_append input_key_row_def)
  ultimately show ?thesis
    using fiveway_rows [OF row] r i(2) by (simp add: input_key_name_of_def)
qed


lemma init_default_keys:
  assumes "os_file os (dir @ KEYDEFS_FILE) = None" "init_keys os dir c0 = Inr c"
    "get_default_input_keydefs = (ptab, pcodes, n)"
  shows "c = c0\<lparr>input_keys := ptab, input_key_codes := pcodes, n_input_keys := n\<rparr>"
proof -
  have "c = (case get_default_input_keydefs of (ptab, pcodes, n) \<Rightarrow>
      c0\<lparr>input_keys := ptab, input_key_codes := pcodes, n_input_keys := n\<rparr>)"
    using assms(1,2) by (auto simp: init_keys_def get_input_keydefs_def inidb_open_def res_simps split: if_splits)
  then show ?thesis unfolding assms(3) by simp
qed

text \<open>A key the C program knows by a built-in name, sent by both programs.\<close>

lemma same_key_line:
  assumes no_file: "os_file os (dir @ KEYDEFS_FILE) = None" and init: "init_keys os dir c0 = Inr c"
    and known: "find_input_key_code c w \<noteq> -1"
    and plain_key: "\<not> k3_fiveway (word_of_int (find_input_key_code c w))"
    and open_c: "fd_prockeypad f \<noteq> -1" "fd_procfiveway f \<noteq> -1"
    and open_cpp: "0 \<le> keypad_fd ki" "0 \<le> fiveway_fd ki"
  shows "find_code new_key_table w = Some (word_of_int (find_input_key_code c w))"
    and "inject_key ki (word_of_int (find_input_key_code c w)) Normal =
      send_key c f (word_of_int (find_input_key_code c w)) SENDMODE_NORMAL"
proof -
  obtain ptab pcodes n where def: "get_default_input_keydefs = (ptab, pcodes, n)"
    by (cases get_default_input_keydefs)
  have c: "c = c0\<lparr>input_keys := ptab, input_key_codes := pcodes, n_input_keys := n\<rparr>"
    by (rule init_default_keys [OF no_file init def])
  define v where "v = find_input_key_code c w"
  have row: "find_key_row w (take (nat n) ptab) = v" by (simp add: v_def find_input_key_code_def c)
  then show "find_code new_key_table w = Some (word_of_int (find_input_key_code c w))"
    using new_table_legacy [OF def] known by (simp add: v_def Let_def)
  obtain r where found: "find (\<lambda>r. normalize_name (snd r) = normalize_name w) default_input_keys = Some r"
    and v: "fst r = v"
    using legacy_default_code [OF def, of w] row known by (auto simp: v_def split: option.splits)
  from found have "r \<in> set default_input_keys" by (metis find_Some_iff nth_mem)
  with v have r: "r \<in> set default_input_keys" "fst r = v" by blast+
  have range: "0 \<le> v" "v \<le> int MAXCODE" using fiveway_rows [OF r(1)] r(2) by simp_all
  then have s: "sint (word_of_int v :: short) = v" by (simp add: MAXCODE_def)
  have fw: "is_fiveway_name (input_key_name_of c v) = is_fiveway_code (word_of_int v)"
    using default_fiveway_names [OF def r(1), of c0] plain_key by (simp add: c [symmetric] r(2) v_def [symmetric])
  have digits: "print_u (word_of_int v) = show_int v"
    using range by (simp add: print_u_def s show_int_def MAXCODE_def)
  show "inject_key ki (word_of_int (find_input_key_code c w)) Normal =
      send_key c f (word_of_int (find_input_key_code c w)) SENDMODE_NORMAL"
    unfolding v_def [symmetric] using open_c open_cpp
    by (simp add: inject_key_def send_key_def s fw write_to_fiveway_def write_to_keypad_def digits
        send_line_def sendmode_name_def SENDMODE_NORMAL_def SENDMODE_SHIFT_def SENDMODE_ALT_def)
qed

section \<open>Properties\<close>

text \<open>C32: A sendkeys command made of key names is carried out alike by both programs: with the built-in
  key names and all device files open, the rewrite writes the lines the C program writes, in the
  same order, and then takes its status bar down. The names of the three Kindle 3 fiveway keys
  are excluded: the C program sends them to the fiveway file, the rewrite to the keypad file.\<close>
theorem sendkeys_words_agree:
  assumes "os_file os (dir @ KEYDEFS_FILE) = None" and "init_keys os dir c0 = Inr c"
    and "list_all (item_ok c) (map Key ws)" and "length (spaced ws) < MAXPATH"
    and "\<forall>w \<in> set ws. \<not> k3_fiveway (word_of_int (find_input_key_code c w))"
    and "fd_prockeypad f \<noteq> -1" and "fd_procfiveway f \<noteq> -1"
    and "0 \<le> keypad_fd (sv_injector sv)" and "0 \<le> fiveway_fd (sv_injector sv)" and "sv_table sv = new_key_table"
  shows "\<exists>es. process_sendkeys_command c f (spaced ws) = Inr es \<and>
    execute sv \<lparr>display_name = nm, payload = SendKeysAction (spaced ws)\<rparr> = map Does es @ notify sv [Hide_status]"
proof -
  have joined: "concat (map item_text (map Key ws)) = spaced ws"
    by (simp add: spaced_def comp_def)
  have w: "w \<noteq> []" "\<forall>x \<in> set w. \<not> le_space x" "hd w \<noteq> CHR 0x22" "find_input_key_code c w \<noteq> -1"
    if "w \<in> set ws" for w
    using assms(3) that by (auto simp: list_all_iff)
  have words: "stream_words (spaced ws) = ws"
    using w(1,2) space_le by (intro stream_words_spaced) (auto simp: list_all_iff)
  have "send_token sv w = map Does (item_effects c f (Key w))" if "w \<in> set ws" for w
    using same_key_line [OF assms(1,2) w(4) _ assms(6-9), OF that bspec [OF assms(5) that]] w(3) [OF that] assms(10)
    by (simp add: send_token_def)
  then have "concat (map (send_token sv) ws) = map Does (concat (map (item_effects c f) (map Key ws)))"
    by (induction ws) auto
  moreover have "process_sendkeys_command c f (spaced ws) = Inr (concat (map (item_effects c f) (map Key ws)))"
  proof -
    have "sendkeys_loop c f (length (spaced ws)) (sendkeys_buffer (spaced ws)) 0 =
        Inr (concat (map (item_effects c f) (map Key ws)))"
      by (rule sendkeys_loop_items [OF init_keys_ok [OF assms(2)] assms(3), where q = 0])
        (simp_all only: sendkeys_buffer_def joined drop_0 add_0)
    then show ?thesis using assms(4) by (simp add: process_sendkeys_command_def)
  qed
  ultimately show ?thesis by (simp add: execute_def execute_send_keys_def words)
qed

definition sample_services :: services where
  "sample_services = \<lparr>sv_injector = \<lparr>keypad_fd = 3, fiveway_fd = 4\<rparr>, sv_model = KindleDX,
     sv_runner = (\<lambda>cmd. 0), sv_notifier = True, sv_table = new_key_table\<rparr>"

theorem sendkeys_words_agree_witness:
  "\<exists>c es. init_keys \<lparr>os_file = (\<lambda>p. None), os_read_all = (\<lambda>p. True), os_malloc = (\<lambda>n. True)\<rparr> ''/''
      initial_config = Inr c \<and>
    process_sendkeys_command c k3_fds (spaced [''Home'']) = Inr es \<and>
    execute sample_services \<lparr>display_name = ''H'', payload = SendKeysAction (spaced [''Home''])\<rparr> =
      map Does es @ [Hide_status]"
proof -
  let ?os = "\<lparr>os_file = (\<lambda>p. None), os_read_all = (\<lambda>p. True), os_malloc = (\<lambda>n. True)\<rparr> :: os"
  obtain ptab pcodes n where def: "get_default_input_keydefs = (ptab, pcodes, n)"
    by (cases get_default_input_keydefs)
  define c where "c = initial_config\<lparr>input_keys := ptab, input_key_codes := pcodes, n_input_keys := n\<rparr>"
  have init: "init_keys ?os ''/'' initial_config = Inr c"
    by (simp add: init_keys_def get_input_keydefs_def inidb_open_def KEYDEFS_FILE_def MAXPATH_def def c_def)
  have "find (\<lambda>r. normalize_name (snd r) = normalize_name ''Home'') default_input_keys = Some (KPKEY_HOME, ''Home'')"
    by code_simp
  then have home: "find_input_key_code c ''Home'' = KPKEY_HOME"
    using legacy_default_code [OF def] by (simp add: find_input_key_code_def c_def)
  have "KPKEY_HOME \<noteq> -1" "\<not> k3_fiveway (word_of_int KPKEY_HOME)"
    by (simp_all add: k3_fiveway_def key_codes raw_codes)
  then have keys: "list_all (item_ok c) (map Key [''Home''])"
      "\<forall>w \<in> set [''Home'']. \<not> k3_fiveway (word_of_int (find_input_key_code c w))"
    by (simp_all add: home le_space_def)
  have "length (spaced [''Home'']) < MAXPATH" by (simp add: spaced_def MAXPATH_def)
  from sendkeys_words_agree [OF _ init keys(1) this keys(2), of k3_fds sample_services "''H''"] init show ?thesis
    by (auto simp: k3_fds_def sample_services_def notify_def)
qed

text \<open>The rewrite does nothing for the actions of framework scripts (a leading at sign) and of
  framework keys (a leading number sign), which the C program carries out: nothing is written, run or
  shown. Every other action that shows the status bar also takes it down, after all it does.\<close>
theorem script_actions_do_nothing:
  "(cmd \<noteq> [] \<and> hd cmd \<in> {CHR ''@'', CHR ''#''} \<longrightarrow> execute sv (parse_command cmd nm dir) = []) \<and>
   (cmd \<noteq> [] \<and> hd cmd \<in> {CHR ''@'', CHR ''#''} \<or> \<not> sv_notifier sv \<or>
      last (execute sv (parse_command cmd nm dir)) = Hide_status)"
  by (auto simp: parse_command_def execute_def execute_shell_def execute_send_keys_def notify_def
      split: prod.split)


theorem script_actions_do_nothing_witness:
  "execute sample_services (parse_command ''@wifi.sh'' ''Shift W'' ''/scripts'') = [] \<and>
   last (execute sample_services (parse_command ''!reboot'' ''Shift R'' ''/scripts'')) = Hide_status"
  using script_actions_do_nothing [of "''@wifi.sh''" sample_services "''Shift W''" "''/scripts''"]
    script_actions_do_nothing [of "''!reboot''" sample_services "''Shift R''" "''/scripts''"]
  by (simp add: sample_services_def)

end
