(* ===== verification/Canvas.thy ===== *)
theory Canvas
  imports Prelude
begin

unbundle bit_operations_syntax

text \<open>
  src/src/hal/kindle\_display.cpp: the framebuffer of the rewrite, two pixels of four bits in a byte,
  and the interface through which the status bar and the font draw on it. A grey level is a
  byte, 255 for white; the buffer holds its sixteenth parts, 0 for white. Numbers are unsigned
  32-bit numbers (size\_t too), with their wrap-around written out. A read or write outside the
  buffer is a fault.
\<close>

section \<open>The display\<close>

record kindle_display =
  d_width :: nat
  d_height :: nat
  d_memory :: "8 word list"
  d_fd :: int

definition u32 :: "nat \<Rightarrow> nat" where
  "u32 n = n mod 2 ^ 32"

definition stride :: "kindle_display \<Rightarrow> nat" where
  "stride d = u32 (d_width d + 1) div 2"

definition byte_index :: "kindle_display \<Rightarrow> nat \<Rightarrow> nat \<Rightarrow> nat" where
  "byte_index d x y = u32 (y * stride d + x div 2)"

definition to_nibble :: "8 word \<Rightarrow> 8 word" where
  "to_nibble gray_level = word_of_nat ((255 - unat gray_level) div 17)"

definition of_nibble :: "8 word \<Rightarrow> 8 word" where
  "of_nibble nibble = 255 - nibble * 17"

definition put_nibble :: "bool \<Rightarrow> 8 word \<Rightarrow> 8 word \<Rightarrow> 8 word" where
  "put_nibble even_x nibble b =
     (if even_x then (b AND 0x0F) OR push_bit 4 nibble else (b AND 0xF0) OR (nibble AND 0x0F))"

definition get_nibble :: "bool \<Rightarrow> 8 word \<Rightarrow> 8 word" where
  "get_nibble even_x b = (if even_x then drop_bit 4 b else b AND 0x0F)"

definition set_pixel :: "nat \<Rightarrow> nat \<Rightarrow> 8 word \<Rightarrow> kindle_display \<Rightarrow> kindle_display res" where
  "set_pixel x y gray_level d =
     (if d_width d \<le> x \<or> d_height d \<le> y then Inr d
      else let i = byte_index d x y in
        bindR (guardR (i < length (d_memory d)) Buffer_overflow) (\<lambda>_.
          Inr (d\<lparr>d_memory := (d_memory d)[i := put_nibble (even x) (to_nibble gray_level) (d_memory d ! i)]\<rparr>)))"

definition get_pixel :: "kindle_display \<Rightarrow> nat \<Rightarrow> nat \<Rightarrow> 8 word res" where
  "get_pixel d x y =
     (if d_width d \<le> x \<or> d_height d \<le> y then Inr 0xFF
      else let i = byte_index d x y in
        bindR (guardR (i < length (d_memory d)) Buffer_overread) (\<lambda>_.
          Inr (of_nibble (get_nibble (even x) (d_memory d ! i)))))"

definition clear_display :: "8 word \<Rightarrow> kindle_display \<Rightarrow> kindle_display" where
  "clear_display color d =
     (let nibble = drop_bit 4 color; packed = push_bit 4 nibble OR nibble
      in d\<lparr>d_memory := replicate (length (d_memory d)) packed\<rparr>)"

text \<open>The corners of the area whose refresh is asked for, when the framebuffer is open.\<close>

definition update_region :: "kindle_display \<Rightarrow> nat \<Rightarrow> nat \<Rightarrow> nat \<Rightarrow> nat \<Rightarrow> (nat \<times> nat \<times> nat \<times> nat) list" where
  "update_region d x y w h = (if d_fd d < 0 then [] else [(x, y, u32 (x + w), u32 (y + h))])"

text \<open>Opening: the screen the driver reports (None: the ioctl fails) or 600 by 800 pixels of four bits;
  the mapped bytes, as many as mmap is asked for (None: no framebuffer, or mmap fails), or a buffer
  of the heap filled with 255, which is black in this encoding.\<close>

record fb_info =
  xres :: nat
  yres :: nat
  bpp :: nat

definition framebuffer_size :: "nat \<Rightarrow> nat \<Rightarrow> nat \<Rightarrow> nat" where
  "framebuffer_size w h bits = u32 (w * h * bits) div 8"

definition open_framebuffer ::
    "int \<Rightarrow> fb_info option \<Rightarrow> (nat \<Rightarrow> 8 word list option) \<Rightarrow> kindle_display" where
  "open_framebuffer fd vinfo mmap =
     (let (w, h, bits) = (if 0 \<le> fd
            then (case vinfo of Some v \<Rightarrow> if 0 < xres v \<and> 0 < yres v then (xres v, yres v, bpp v mod 256) else (600, 800, 4)
                  | None \<Rightarrow> (600, 800, 4))
            else (600, 800, 4));
          size = framebuffer_size w h bits;
          fallback = \<lparr>d_width = w, d_height = h, d_memory = replicate size 0xFF, d_fd = -1\<rparr>
      in if 0 \<le> fd
         then (case mmap size of Some m \<Rightarrow> \<lparr>d_width = w, d_height = h, d_memory = m, d_fd = fd\<rparr> | None \<Rightarrow> fallback)
         else fallback)"

section \<open>Nibbles\<close>

lemma to_nibble_small: "unat (to_nibble g) < 16"
proof -
  have "(255 - unat g) div 17 < 16" using div_le_mono [of "255 - unat g" 255 17] by linarith
  then show ?thesis by (simp add: to_nibble_def unat_of_nat)
qed

lemma small_bits: "unat (n :: 8 word) < 16 \<Longrightarrow> 4 \<le> k \<Longrightarrow> \<not> bit n k"
proof -
  assume n: "unat n < 16" and k: "4 \<le> k"
  have "(16::nat) \<le> 2 ^ k" using k power_increasing [of 4 k "2::nat"] by simp
  then have "unat n div 2 ^ k = 0" using n by simp
  then have "\<not> bit (unat n) k" by (simp add: bit_iff_odd)
  then show "\<not> bit n k" by (simp add: bit_unsigned_iff)
qed

lemma small_bitD: "bit n k \<Longrightarrow> unat (n :: 8 word) < 16 \<Longrightarrow> k < 4"
  using small_bits not_less by blast

lemma mask_bits: "bit (0x0F :: 8 word) k = (k < 4)" "bit (0xF0 :: 8 word) k = (4 \<le> k \<and> k < 8)"
proof -
  have 0: "(0x0F :: 8 word) = mask 4" "(0xF0 :: 8 word) = push_bit 4 (mask 4)"
    by (simp_all add: mask_eq_exp_minus_1)
  show "bit (0x0F :: 8 word) k = (k < 4)" unfolding 0(1) bit_mask_iff by auto
  show "bit (0xF0 :: 8 word) k = (4 \<le> k \<and> k < 8)" unfolding 0(2) bit_push_bit_iff bit_mask_iff by auto
qed

lemma low_nibble: "b AND 0x0F = take_bit 4 b" for b :: "8 word"
  by (simp add: take_bit_eq_mask mask_eq_exp_minus_1)

lemma high_nibble: "b AND 0xF0 = push_bit 4 (drop_bit 4 b)" for b :: "8 word"
proof (rule bit_word_eqI)
  fix k
  show "bit (b AND 0xF0) k = bit (push_bit 4 (drop_bit 4 b)) k" if "k < LENGTH(8)"
    using that unfolding bit_and_iff mask_bits(2) by (auto simp: bit_push_bit_iff bit_drop_bit_eq)
qed

lemmas nibble_bits = low_nibble high_nibble bit_drop_bit_eq bit_or_iff bit_push_bit_iff bit_take_bit_iff

lemma get_put_same: "unat n < 16 \<Longrightarrow> get_nibble e (put_nibble e n b) = n"
  unfolding get_nibble_def put_nibble_def
  by (rule bit_word_eqI) (auto simp: nibble_bits dest: small_bitD)

lemma get_put_other: "get_nibble (\<not> e) (put_nibble e n b) = get_nibble (\<not> e) b"
  unfolding get_nibble_def put_nibble_def
  by (rule bit_word_eqI) (auto simp: nibble_bits dest: bit_imp_le_length)


section \<open>The interface of a display\<close>

text \<open>
  What the font and the status bar rely on (class IDisplay of src/include/launchpad/hal/display.hpp):
  a size, pixels that can be read, and a way to set one that leaves the others alone and is silently
  ignored outside the screen.
\<close>

locale canvas =
  fixes ok :: "'d \<Rightarrow> bool"
    and size :: "'d \<Rightarrow> nat \<times> nat \<times> int"
    and pix :: "'d \<Rightarrow> nat \<times> nat \<Rightarrow> 8 word"
    and put :: "nat \<times> nat \<Rightarrow> 8 word \<Rightarrow> 'd \<Rightarrow> 'd res"
    and inside :: "'d \<Rightarrow> nat \<times> nat \<Rightarrow> bool"
    and quant :: "8 word \<Rightarrow> 8 word"
  assumes put_pix: "ok d \<Longrightarrow> \<exists>d'. put p g d = Inr d' \<and> ok d' \<and> size d' = size d \<and>
      (\<forall>q. pix d' q = (if inside d p \<and> q = p then quant g else pix d q))"
    and inside_size: "size d = size d' \<Longrightarrow> inside d p = inside d' p"
    and quant_pix: "ok d \<Longrightarrow> inside d p \<Longrightarrow> quant (pix d p) = pix d p"
    and outside_pix: "ok d \<Longrightarrow> ok d' \<Longrightarrow> \<not> inside d p \<Longrightarrow> \<not> inside d' p \<Longrightarrow> pix d p = pix d' p"
begin

definition paint :: "((nat \<times> nat) \<times> 8 word) list \<Rightarrow> 'd \<Rightarrow> 'd res" where
  "paint ps = foldR (\<lambda>(p, g). put p g) ps"

lemma paint_frame:
  "ok d \<Longrightarrow> \<exists>d'. paint ps d = Inr d' \<and> ok d' \<and> size d' = size d \<and>
     (\<forall>q. q \<notin> fst ` set ps \<longrightarrow> pix d' q = pix d q)"
proof (induction ps arbitrary: d)
  case Nil
  then show ?case by (simp add: paint_def)
next
  case (Cons pg ps)
  obtain p g where pg: "pg = (p, g)" by (cases pg)
  obtain d1 where d1: "put p g d = Inr d1" "ok d1" "size d1 = size d"
      "\<forall>q. pix d1 q = (if inside d p \<and> q = p then quant g else pix d q)"
    using put_pix [OF Cons.prems] by blast
  obtain d' where "paint ps d1 = Inr d'" "ok d'" "size d' = size d1"
      "\<forall>q. q \<notin> fst ` set ps \<longrightarrow> pix d' q = pix d1 q"
    using Cons.IH [OF d1(2)] by blast
  with d1 show ?case by (auto simp: paint_def pg)
qed

text \<open>Painting the pixels of a list of positions with what they were in another display.\<close>

lemma paint_back:
  assumes "ok d" and "ok e" and "size e = size d" and "\<forall>q. q \<notin> set ps \<longrightarrow> pix e q = pix d q"
  shows "\<exists>d'. paint (map (\<lambda>p. (p, pix d p)) ps) e = Inr d' \<and> ok d' \<and> size d' = size d \<and> (\<forall>q. pix d' q = pix d q)"
  using assms(2-4)
proof (induction ps arbitrary: e)
  case Nil
  then show ?case by (simp add: paint_def)
next
  case (Cons p ps)
  obtain e1 where e1: "put p (pix d p) e = Inr e1" "ok e1" "size e1 = size e"
      "\<forall>q. pix e1 q = (if inside e p \<and> q = p then quant (pix d p) else pix e q)"
    using put_pix [OF Cons.prems(1)] by blast
  have "pix e1 p = pix d p"
    using e1(4) [rule_format, of p] quant_pix [OF assms(1), of p] inside_size [OF Cons.prems(2), of p]
      outside_pix [OF assms(1) Cons.prems(1), of p] by (cases "inside e p") simp_all
  then have "\<forall>q. q \<notin> set ps \<longrightarrow> pix e1 q = pix d q"
    using e1(4) Cons.prems(3) by (metis set_ConsD)
  from Cons.IH [OF e1(2) _ this] e1(1,3) Cons.prems(2) show ?case by (simp add: paint_def)
qed

end

section \<open>The framebuffer is such a display\<close>

definition display_ok :: "kindle_display \<Rightarrow> bool" where
  "display_ok d = (d_width d + 1 < 2 ^ 32 \<and> d_height d * stride d < 2 ^ 32 \<and>
     d_height d * stride d \<le> length (d_memory d))"

definition on_screen :: "kindle_display \<Rightarrow> nat \<times> nat \<Rightarrow> bool" where
  "on_screen d p = (fst p < d_width d \<and> snd p < d_height d)"

definition pixel :: "kindle_display \<Rightarrow> nat \<times> nat \<Rightarrow> 8 word" where
  "pixel d p = (case get_pixel d (fst p) (snd p) of Inr g \<Rightarrow> g | Inl e \<Rightarrow> 0)"

definition quantized :: "8 word \<Rightarrow> 8 word" where
  "quantized g = of_nibble (to_nibble g)"

lemma index_split:
  assumes "display_ok d" "on_screen d (x, y)"
  shows "byte_index d x y = y * stride d + x div 2" "byte_index d x y < length (d_memory d)" "x div 2 < stride d"
proof -
  have "x < d_width d" using assms(2) by (simp add: on_screen_def)
  then have "x div 2 < (d_width d + 1) div 2" by presburger
  then have x: "x div 2 < stride d" using assms(1) by (simp add: display_ok_def stride_def u32_def)
  then have "y * stride d + x div 2 < Suc y * stride d" by simp
  also have "\<dots> \<le> d_height d * stride d" using assms(2) by (intro mult_le_mono1) (simp add: on_screen_def)
  finally have "y * stride d + x div 2 < d_height d * stride d" .
  then show "byte_index d x y = y * stride d + x div 2" "byte_index d x y < length (d_memory d)" "x div 2 < stride d"
    using assms(1) x by (simp_all add: display_ok_def byte_index_def u32_def)
qed

lemma index_inj:
  assumes "display_ok d" "on_screen d (x, y)" "on_screen d (x', y')" "byte_index d x y = byte_index d x' y'"
  shows "y = y'" "x div 2 = x' div 2"
proof -
  note i = index_split [OF assms(1,2)] and j = index_split [OF assms(1,3)]
  have eq: "y * stride d + x div 2 = y' * stride d + x' div 2" using assms(4) i(1) j(1) by simp
  have "(y * stride d + x div 2) div stride d = y" "(y' * stride d + x' div 2) div stride d = y'"
    using i(3) j(3) by simp_all
  then show "y = y'" using eq by simp
  then show "x div 2 = x' div 2" using eq by simp
qed


lemma get_nibble_small: "unat (get_nibble e b) < 16"
proof -
  have "unat b < 256" using unsigned_less [of b] by simp
  moreover have "unat (drop_bit 4 b) = unat b div 16" by (simp add: drop_bit_eq_div unat_div_distrib)
  moreover have "unat (take_bit 4 b) = unat b mod 16" by (simp add: take_bit_eq_mod unat_mod_distrib)
  moreover have "unat b div 16 < 16" using \<open>unat b < 256\<close> by (simp add: less_mult_imp_div_less)
  ultimately show ?thesis by (simp add: get_nibble_def low_nibble)
qed

lemma to_of_nibble: "unat n < 16 \<Longrightarrow> to_nibble (of_nibble n) = n"
proof -
  assume n: "unat n < 16"
  have m: "unat (n * 17) = unat n * 17" using n by (simp add: unat_word_ariths)
  have "n * 17 \<le> 255" unfolding word_le_nat_alt m using n by simp
  then have "unat (of_nibble n) = 255 - unat n * 17" by (simp add: of_nibble_def unat_sub m)
  then show ?thesis using n by (simp add: to_nibble_def)
qed

lemma get_pixel_on:
  assumes "display_ok d" "on_screen d (x, y)"
  shows "get_pixel d x y = Inr (of_nibble (get_nibble (even x) (d_memory d ! byte_index d x y)))"
  using assms index_split(2) [OF assms] by (simp add: get_pixel_def on_screen_def Let_def not_le)

lemma get_pixel_off: "\<not> on_screen d (x, y) \<Longrightarrow> get_pixel d x y = Inr 0xFF"
  by (auto simp: get_pixel_def on_screen_def)

lemma get_pixel_pixel: "display_ok d \<Longrightarrow> get_pixel d x y = Inr (pixel d (x, y))"
  using get_pixel_on [of d x y] get_pixel_off [of d x y] by (cases "on_screen d (x, y)") (simp_all add: pixel_def)

lemma set_pixel_pixels:
  assumes ok: "display_ok d"
  shows "\<exists>d'. set_pixel x y g d = Inr d' \<and> display_ok d' \<and>
    (d_width d', d_height d', d_fd d') = (d_width d, d_height d, d_fd d) \<and>
    (\<forall>q. pixel d' q = (if on_screen d (x, y) \<and> q = (x, y) then quantized g else pixel d q))"
proof (cases "on_screen d (x, y)")
  case False
  then show ?thesis using ok by (auto simp: set_pixel_def on_screen_def)
next
  case True
  let ?i = "byte_index d x y" and ?b = "put_nibble (even x) (to_nibble g) (d_memory d ! byte_index d x y)"
  define d' where "d' = d\<lparr>d_memory := (d_memory d)[?i := ?b]\<rparr>"
  have i: "?i < length (d_memory d)" using index_split(2) [OF ok True] .
  then have set: "set_pixel x y g d = Inr d'"
    using True by (simp add: set_pixel_def on_screen_def Let_def d'_def not_le)
  have ok': "display_ok d'" using ok by (simp add: display_ok_def d'_def stride_def)
  have same: "byte_index d' = byte_index d" "on_screen d' = on_screen d"
    by (auto simp: byte_index_def on_screen_def d'_def stride_def fun_eq_iff)
  have "pixel d' (x', y') = (if (x', y') = (x, y) then quantized g else pixel d (x', y'))" for x' y'
  proof (cases "on_screen d (x', y')")
    case off: False
    then show ?thesis using True by (auto simp: pixel_def get_pixel_off same)
  next
    case on: True
    have p: "pixel d' (x', y') = of_nibble (get_nibble (even x') (d_memory d' ! byte_index d x' y'))"
        "pixel d (x', y') = of_nibble (get_nibble (even x') (d_memory d ! byte_index d x' y'))"
      using get_pixel_on [OF ok', of x' y'] get_pixel_on [OF ok on] on by (simp_all add: pixel_def same)
    show ?thesis
    proof (cases "byte_index d x' y' = ?i")
      case False
      then show ?thesis using p by (auto simp: d'_def)
    next
      case hit: True
      then have y: "y' = y" "x' div 2 = x div 2" using index_inj [OF ok on True] by simp_all
      have mem: "d_memory d' ! byte_index d x' y' = ?b" using i hit by (simp add: d'_def)
      show ?thesis
      proof (cases "even x' = even x")
        case par: True
        then have "x' = x" using y(2) by (metis dvd_mult_div_cancel odd_two_times_div_two_succ)
        then show ?thesis using p(1) mem get_put_same [OF to_nibble_small] by (simp add: y quantized_def)
      next
        case False
        then have "even x' = (\<not> even x)" "x' \<noteq> x" by auto
        then show ?thesis using p mem hit get_put_other [of "even x"] by simp
      qed
    qed
  qed
  with set ok' True show ?thesis by (simp add: d'_def)
qed

interpretation framebuffer: canvas display_ok "\<lambda>d. (d_width d, d_height d, d_fd d)" pixel
  "\<lambda>p g d. set_pixel (fst p) (snd p) g d" on_screen quantized
proof
  show "\<exists>d'. set_pixel (fst p) (snd p) g d = Inr d' \<and> display_ok d' \<and>
      (d_width d', d_height d', d_fd d') = (d_width d, d_height d, d_fd d) \<and>
      (\<forall>q. pixel d' q = (if on_screen d p \<and> q = p then quantized g else pixel d q))"
    if "display_ok d" for d p g
    using set_pixel_pixels [OF that, of "fst p" "snd p" g] by simp
  show "on_screen d p = on_screen d' p"
    if "(d_width d, d_height d, d_fd d) = (d_width d', d_height d', d_fd d')" for d d' p
    using that by (simp add: on_screen_def)
  show "quantized (pixel d p) = pixel d p" if "display_ok d" "on_screen d p" for d p
    using get_pixel_on [OF that(1), of "fst p" "snd p"] that(2) to_of_nibble [OF get_nibble_small]
    by (simp add: pixel_def quantized_def)
  show "pixel d p = pixel d' p" if "\<not> on_screen d p" "\<not> on_screen d' p" for d d' p
    using get_pixel_off [of d "fst p" "snd p"] get_pixel_off [of d' "fst p" "snd p"] that by (simp add: pixel_def)
qed

end
