(* ===== verification/Overlay.thy ===== *)
theory Overlay
  imports Canvas Executor
begin

text \<open>
  Drawing on the display of the rewrite: src/src/ui/font.cpp, whose glyph bytes are a parameter, and
  src/src/ui/status\_bar.cpp, the notifier the executor calls. The refreshes a call asks for come
  with the new state.
\<close>

section \<open>The font\<close>

definition FONT_GLYPH_WIDTH :: nat where "FONT_GLYPH_WIDTH = 12"
definition FONT_GLYPH_HEIGHT :: nat where "FONT_GLYPH_HEIGHT = 22"
definition BYTES_PER_ROW :: nat where "BYTES_PER_ROW = 6"
definition BYTES_PER_GLYPH :: nat where "BYTES_PER_GLYPH = FONT_GLYPH_HEIGHT * BYTES_PER_ROW"

lemmas font_defs = FONT_GLYPH_WIDTH_def FONT_GLYPH_HEIGHT_def BYTES_PER_ROW_def BYTES_PER_GLYPH_def

text \<open>Two pixels of a row for each of its bytes; row\_data is the index of its first byte.\<close>

definition render_byte :: "8 word list \<Rightarrow> nat \<Rightarrow> nat \<Rightarrow> nat \<Rightarrow> nat \<Rightarrow> kindle_display \<Rightarrow> kindle_display res" where
  "render_byte font x y row_data byte_idx d =
     bindR (guardR (row_data + byte_idx < length font) Buffer_overread) (\<lambda>_.
       let byte_val = font ! (row_data + byte_idx);
           left_nibble = drop_bit 4 byte_val AND 0x0F; right_nibble = byte_val AND 0x0F
       in bindR (if 0 < left_nibble then set_pixel (u32 (x + byte_idx * 2)) y 0 d else Inr d) (\<lambda>d.
            if 0 < right_nibble then set_pixel (u32 (x + byte_idx * 2 + 1)) y 0 d else Inr d))"

definition render_glyph_row :: "8 word list \<Rightarrow> nat \<Rightarrow> nat \<Rightarrow> nat \<Rightarrow> kindle_display \<Rightarrow> kindle_display res" where
  "render_glyph_row font x y row_data d = foldR (render_byte font x y row_data) [0..<BYTES_PER_ROW] d"

definition draw_char :: "8 word list \<Rightarrow> nat \<Rightarrow> nat \<Rightarrow> char \<Rightarrow> kindle_display \<Rightarrow> kindle_display res" where
  "draw_char font x y c d =
     foldR (\<lambda>row. render_glyph_row font x (u32 (y + row)) (of_char c * BYTES_PER_GLYPH + row * BYTES_PER_ROW))
       [0..<FONT_GLYPH_HEIGHT] d"

fun draw_string :: "8 word list \<Rightarrow> nat \<Rightarrow> nat \<Rightarrow> string \<Rightarrow> kindle_display \<Rightarrow> kindle_display res" where
  "draw_string font current_x y [] d = Inr d"
| "draw_string font current_x y (c # cs) d =
     bindR (draw_char font current_x y c d) (draw_string font (u32 (current_x + FONT_GLYPH_WIDTH)) y cs)"

section \<open>The status bar\<close>

definition STATUS_BAR_HEIGHT :: nat where "STATUS_BAR_HEIGHT = 24"

record status_bar =
  sb_active :: bool
  saved_pixels :: "8 word list"

type_synonym barred = "kindle_display \<times> status_bar \<times> (nat \<times> nat \<times> nat \<times> nat) list"

definition bar_y :: "kindle_display \<Rightarrow> nat" where
  "bar_y d = (if STATUS_BAR_HEIGHT < d_height d then d_height d - STATUS_BAR_HEIGHT else 0)"

text \<open>The pixels of the region in the order of the loops.\<close>

definition bar_pixels :: "kindle_display \<Rightarrow> (nat \<times> nat) list" where
  "bar_pixels d = concat (map (\<lambda>y. map (\<lambda>x. (x, y)) [0..<d_width d]) [bar_y d..<bar_y d + STATUS_BAR_HEIGHT])"

definition bar_update :: "kindle_display \<Rightarrow> (nat \<times> nat \<times> nat \<times> nat) list" where
  "bar_update d = update_region d 0 (bar_y d) (d_width d) STATUS_BAR_HEIGHT"

fun read_pixels :: "kindle_display \<Rightarrow> (nat \<times> nat) list \<Rightarrow> 8 word list res" where
  "read_pixels d [] = Inr []"
| "read_pixels d ((x, y) # ps) = bindR (get_pixel d x y) (\<lambda>g. mapR (\<lambda>gs. g # gs) (read_pixels d ps))"

definition capture_background :: "kindle_display \<Rightarrow> status_bar \<Rightarrow> status_bar res" where
  "capture_background d sb = mapR (\<lambda>gs. sb\<lparr>saved_pixels := gs, sb_active := True\<rparr>) (read_pixels d (bar_pixels d))"

definition restore_background :: "kindle_display \<Rightarrow> status_bar \<Rightarrow> barred res" where
  "restore_background d sb =
     (if \<not> sb_active sb \<or> saved_pixels sb = [] then Inr (d, sb, [])
      else bindR (foldR (\<lambda>(idx, (x, y)) d. bindR (guardR (idx < length (saved_pixels sb)) Buffer_overread)
                          (\<lambda>_. set_pixel x y (saved_pixels sb ! idx) d))
                   (enumerate 0 (bar_pixels d)) d) (\<lambda>d'.
        Inr (d', sb\<lparr>saved_pixels := [], sb_active := False\<rparr>, bar_update d')))"

definition draw_bar_text :: "8 word list \<Rightarrow> string \<Rightarrow> kindle_display \<Rightarrow> kindle_display res" where
  "draw_bar_text font str d =
     bindR (foldR (\<lambda>(x, y). set_pixel x y 0xFF) (bar_pixels d) d) (\<lambda>d'.
       draw_string font 30 (bar_y d' + 1) str d')"

definition show_status :: "8 word list \<Rightarrow> string \<Rightarrow> kindle_display \<Rightarrow> status_bar \<Rightarrow> barred res" where
  "show_status font message d sb =
     bindR (if \<not> sb_active sb then capture_background d sb else Inr sb) (\<lambda>sb.
     bindR (draw_bar_text font message d) (\<lambda>d'. Inr (d', sb, bar_update d')))"

definition show_result :: "8 word list \<Rightarrow> bool \<Rightarrow> kindle_display \<Rightarrow> status_bar \<Rightarrow> barred res" where
  "show_result font success d sb =
     bindR (draw_bar_text font (if success then ''Success!'' else ''Failure.'') d) (\<lambda>d'.
       Inr (d', sb, bar_update d'))"

definition hide_status :: "kindle_display \<Rightarrow> status_bar \<Rightarrow> barred res" where
  "hide_status d sb = restore_background d sb"

text \<open>The calls of the executor, carried out; the effects on other devices are passed on.\<close>

record shown =
  sh_display :: kindle_display
  sh_bar :: status_bar
  sh_effects :: "effect list"
  sh_updates :: "(nat \<times> nat \<times> nat \<times> nat) list"

definition barred_shown :: "shown \<Rightarrow> barred \<Rightarrow> shown" where
  "barred_shown s b = (case b of (d, sb, us) \<Rightarrow> s\<lparr>sh_display := d, sh_bar := sb, sh_updates := sh_updates s @ us\<rparr>)"

fun do_call :: "8 word list \<Rightarrow> call \<Rightarrow> shown \<Rightarrow> shown res" where
  "do_call font (Does e) s = Inr (s\<lparr>sh_effects := sh_effects s @ [e]\<rparr>)"
| "do_call font (Show_status m) s = mapR (barred_shown s) (show_status font m (sh_display s) (sh_bar s))"
| "do_call font (Show_result b) s = mapR (barred_shown s) (show_result font b (sh_display s) (sh_bar s))"
| "do_call font Hide_status s = mapR (barred_shown s) (hide_status (sh_display s) (sh_bar s))"

section \<open>What drawing leaves alone\<close>

definition same_size :: "kindle_display \<Rightarrow> kindle_display \<Rightarrow> bool" where
  "same_size d d' = ((d_width d', d_height d', d_fd d') = (d_width d, d_height d, d_fd d))"

definition only_bar :: "kindle_display \<Rightarrow> kindle_display \<Rightarrow> bool" where
  "only_bar d d' = (display_ok d' \<and> same_size d d' \<and>
     (\<forall>q. \<not> (bar_y d \<le> snd q \<and> snd q < bar_y d + STATUS_BAR_HEIGHT) \<longrightarrow> pixel d' q = pixel d q))"

definition draws :: "kindle_display \<Rightarrow> kindle_display res \<Rightarrow> bool" where
  "draws d r = (\<exists>d'. r = Inr d' \<and> only_bar d d')"

lemma same_size_bar: "same_size d d' \<Longrightarrow> bar_y d' = bar_y d \<and> bar_pixels d' = bar_pixels d \<and>
    d_width d' = d_width d \<and> d_height d' = d_height d"
proof -
  assume "same_size d d'"
  then have "d_width d' = d_width d" "d_height d' = d_height d" by (simp_all add: same_size_def)
  then show ?thesis unfolding bar_pixels_def bar_y_def by (simp only: simp_thms)
qed

lemma only_bar_refl: "display_ok d \<Longrightarrow> only_bar d d"
  by (simp add: only_bar_def same_size_def)

lemma same_size_trans: "same_size d d1 \<Longrightarrow> same_size d1 d2 \<Longrightarrow> same_size d d2"
  unfolding same_size_def by (rule trans)

lemma only_bar_trans: "only_bar d d1 \<Longrightarrow> only_bar d1 d2 \<Longrightarrow> only_bar d d2"
  unfolding only_bar_def using same_size_bar [of d d1] same_size_trans [of d d1 d2] by metis

lemma draws_bind: "draws d r \<Longrightarrow> (\<And>d1. only_bar d d1 \<Longrightarrow> draws d (f d1)) \<Longrightarrow> draws d (bindR r f)"
  by (auto simp: draws_def)

lemma draws_foldR:
  assumes "only_bar d e" "\<And>x d1. x \<in> set xs \<Longrightarrow> only_bar d d1 \<Longrightarrow> draws d (f x d1)"
  shows "draws d (foldR f xs e)"
  using foldR_total [of "only_bar d" e xs f] assms by (auto simp: draws_def)

lemma draws_set_pixel:
  assumes "only_bar d e" "bar_y d \<le> y" "y < bar_y d + STATUS_BAR_HEIGHT"
  shows "draws d (set_pixel x y g e)"
proof -
  have e: "display_ok e" "same_size d e" using assms(1) by (simp_all add: only_bar_def)
  obtain e' where e': "set_pixel x y g e = Inr e'" "display_ok e'"
      "(d_width e', d_height e', d_fd e') = (d_width e, d_height e, d_fd e)"
      "\<forall>q. pixel e' q = (if on_screen e (x, y) \<and> q = (x, y) then quantized g else pixel e q)"
    using set_pixel_pixels [OF e(1), of x y g] by blast
  have "same_size e e'" unfolding same_size_def by (rule e'(3))
  moreover have "pixel e' q = pixel e q" if "\<not> (bar_y d \<le> snd q \<and> snd q < bar_y d + STATUS_BAR_HEIGHT)" for q
    using that assms(2,3) e'(4) [rule_format, of q] by (cases q) auto
  ultimately have "only_bar d e'"
    using assms(1) e'(2) same_size_trans [OF e(2)] by (simp add: only_bar_def)
  then show ?thesis using e'(1) by (simp add: draws_def)
qed

lemma draws_Inr: "only_bar d e \<Longrightarrow> draws d (Inr e)"
  by (simp add: draws_def)


text \<open>Text stays in the rows of the bar.\<close>

lemma draws_byte:
  assumes "only_bar d e" "row_data + i < length font" "bar_y d \<le> y" "y < bar_y d + STATUS_BAR_HEIGHT"
  shows "draws d (render_byte font x y row_data i e)"
  unfolding render_byte_def Let_def using assms
  by (auto intro!: draws_bind draws_Inr draws_set_pixel)

lemma draws_char:
  assumes "only_bar d e" "length font = 256 * BYTES_PER_GLYPH" "bar_y d + STATUS_BAR_HEIGHT < 2 ^ 32"
  shows "draws d (draw_char font x (bar_y d + 1) c e)"
  unfolding draw_char_def
proof (rule draws_foldR [OF assms(1)])
  fix row e1 assume row: "row \<in> set [0..<FONT_GLYPH_HEIGHT]" and e1: "only_bar d e1"
  have y: "u32 (bar_y d + 1 + row) = bar_y d + 1 + row"
    using row assms(3) by (simp add: u32_def font_defs STATUS_BAR_HEIGHT_def)
  define n :: nat where "n = of_char c"
  have "n < 256" by (simp add: n_def)
  then have "of_char c * BYTES_PER_GLYPH + (row * BYTES_PER_ROW + BYTES_PER_ROW) \<le> length font"
    unfolding n_def [symmetric] using row assms(2) by (simp add: font_defs)
  then show "draws d (render_glyph_row font x (u32 (bar_y d + 1 + row)) (of_char c * BYTES_PER_GLYPH + row * BYTES_PER_ROW) e1)"
    unfolding render_glyph_row_def y using row
    by (intro draws_foldR [OF e1] draws_byte) (auto simp: font_defs STATUS_BAR_HEIGHT_def)
qed

lemma draws_string:
  assumes "length font = 256 * BYTES_PER_GLYPH" "bar_y d + STATUS_BAR_HEIGHT < 2 ^ 32"
  shows "only_bar d e \<Longrightarrow> draws d (draw_string font x (bar_y d + 1) str e)"
proof (induction str arbitrary: x e)
  case Nil
  then show ?case by (simp add: draws_Inr)
next
  case (Cons c cs)
  then show ?case using draws_char [OF _ assms] by (auto intro: draws_bind)
qed

lemma bar_pixels_rows: "(x, y) \<in> set (bar_pixels d) \<longleftrightarrow> x < d_width d \<and> bar_y d \<le> y \<and> y < bar_y d + STATUS_BAR_HEIGHT"
  by (auto simp: bar_pixels_def image_iff)

definition bar_fits :: "8 word list \<Rightarrow> kindle_display \<Rightarrow> bool" where
  "bar_fits font d = (display_ok d \<and> 0 < d_width d \<and> d_height d + STATUS_BAR_HEIGHT < 2 ^ 32 \<and>
     length font = 256 * BYTES_PER_GLYPH)"

lemma bar_y_le: "bar_y d \<le> d_height d"
  by (simp add: bar_y_def)

lemma draws_bar_text:
  assumes "bar_fits font d" "only_bar d e"
  shows "draws d (draw_bar_text font str e)"
proof -
  have y: "bar_y d + STATUS_BAR_HEIGHT < 2 ^ 32" "length font = 256 * BYTES_PER_GLYPH"
    using assms(1) bar_y_le [of d] by (auto simp: bar_fits_def)
  have size: "bar_y e' = bar_y d" "bar_pixels e' = bar_pixels d" if "only_bar d e'" for e'
    using same_size_bar [of d e'] that by (auto simp: only_bar_def)
  show ?thesis
    unfolding draw_bar_text_def size(2) [OF assms(2)]
  proof (rule draws_bind)
    show "draws d (foldR (\<lambda>(x, y). set_pixel x y 0xFF) (bar_pixels d) e)"
      by (rule draws_foldR [OF assms(2)]) (auto simp: bar_pixels_rows intro: draws_set_pixel)
    show "draws d (draw_string font 30 (bar_y e1 + 1) str e1)" if "only_bar d e1" for e1
      unfolding size(1) [OF that] by (rule draws_string [OF y(2,1) that])
  qed
qed

section \<open>Saving and restoring\<close>

lemma read_pixels_all: "display_ok d \<Longrightarrow> read_pixels d ps = Inr (map (pixel d) ps)"
  by (induction ps) (auto simp: get_pixel_pixel)

definition saved_from :: "kindle_display \<Rightarrow> status_bar \<Rightarrow> bool" where
  "saved_from d sb = (sb_active sb \<and> saved_pixels sb = map (pixel d) (bar_pixels d))"

lemma restore_fold:
  assumes "sv = map (pixel d) ps"
  shows "foldR (\<lambda>(idx, (x, y)) e. bindR (guardR (idx < length sv) Buffer_overread) (\<lambda>_. set_pixel x y (sv ! idx) e))
      (enumerate 0 ps) e = framebuffer.paint (map (\<lambda>p. (p, pixel d p)) ps) e"
proof -
  have "foldR (\<lambda>(idx, (x, y)) e. bindR (guardR (idx < length sv) Buffer_overread) (\<lambda>_. set_pixel x y (sv ! idx) e))
      (enumerate k qs) e = framebuffer.paint (map (\<lambda>p. (p, pixel d p)) qs) e" if "drop k ps = qs" for k qs e
    using that
  proof (induction qs arbitrary: k e)
    case Nil
    then show ?case by (simp add: framebuffer.paint_def)
  next
    case (Cons q qs)
    then have k: "k < length ps" "ps ! k = q" "drop (Suc k) ps = qs" by (simp_all add: drop_eq_Cons_iff)
    obtain x y where q: "q = (x, y)" by (cases q)
    have step: "bindR (guardR (k < length sv) Buffer_overread) (\<lambda>_. set_pixel x y (sv ! k) e) =
        set_pixel x y (pixel d (x, y)) e"
      using k by (simp add: assms q)
    show ?case
      using Cons.IH [OF k(3)] step by (simp add: framebuffer.paint_def q cong: bindR_cong)
  qed
  then show ?thesis by simp
qed

lemma hide_restores_pixels:
  assumes "bar_fits font d" "only_bar d e" "saved_from d sb"
  shows "\<exists>e' us. hide_status e sb = Inr (e', sb\<lparr>saved_pixels := [], sb_active := False\<rparr>, us) \<and>
    display_ok e' \<and> same_size d e' \<and> (\<forall>q. pixel e' q = pixel d q)"
proof -
  have d: "display_ok d" and e: "display_ok e" "same_size d e" using assms by (simp_all add: bar_fits_def only_bar_def)
  have px: "bar_pixels e = bar_pixels d" using same_size_bar [OF e(2)] by simp
  have "(0, bar_y d) \<in> set (bar_pixels d)"
    using assms(1) by (simp add: bar_pixels_rows bar_fits_def STATUS_BAR_HEIGHT_def)
  then have ne: "saved_pixels sb \<noteq> []" using assms(3) by (auto simp: saved_from_def)
  have out: "\<forall>q. q \<notin> set (bar_pixels d) \<longrightarrow> pixel e q = pixel d q"
  proof (intro allI impI)
    fix q assume "q \<notin> set (bar_pixels d)"
    then show "pixel e q = pixel d q"
      using assms(2) get_pixel_off [of d "fst q" "snd q"] get_pixel_off [of e "fst q" "snd q"] same_size_bar [OF e(2)]
      by (cases "d_width d \<le> fst q") (auto simp: only_bar_def bar_pixels_rows [of "fst q" "snd q", simplified] pixel_def on_screen_def)
  qed
  have "(d_width e, d_height e, d_fd e) = (d_width d, d_height d, d_fd d)" using e(2) by (simp add: same_size_def)
  from framebuffer.paint_back [OF d e(1) this out]
  obtain e' where "framebuffer.paint (map (\<lambda>p. (p, pixel d p)) (bar_pixels d)) e = Inr e'" "display_ok e'"
      "(d_width e', d_height e', d_fd e') = (d_width d, d_height d, d_fd d)" "\<forall>q. pixel e' q = pixel d q" by blast
  then show ?thesis
    using restore_fold [of "saved_pixels sb" d "bar_pixels d" e] assms(3) ne
    by (auto simp: hide_status_def restore_background_def px saved_from_def same_size_def)
qed


section \<open>Calls of the executor\<close>

definition bar_held :: "kindle_display \<Rightarrow> shown \<Rightarrow> bool" where
  "bar_held d s = (only_bar d (sh_display s) \<and> saved_from d (sh_bar s))"

lemma show_status_first:
  assumes "bar_fits font (sh_display s)" "\<not> sb_active (sh_bar s)"
  shows "\<exists>s'. do_call font (Show_status m) s = Inr s' \<and> bar_held (sh_display s) s' \<and> sh_effects s' = sh_effects s"
proof -
  let ?d = "sh_display s"
  have d: "display_ok ?d" using assms(1) by (simp add: bar_fits_def)
  obtain d' where "draw_bar_text font m ?d = Inr d'" "only_bar ?d d'"
    using draws_bar_text [OF assms(1) only_bar_refl [OF d], of m] by (auto simp: draws_def)
  then show ?thesis
    using assms(2) read_pixels_all [OF d]
    by (auto simp: show_status_def capture_background_def barred_shown_def bar_held_def saved_from_def)
qed

lemma call_held:
  assumes "bar_fits font d" "bar_held d s" "c \<noteq> Hide_status"
  shows "\<exists>s'. do_call font c s = Inr s' \<and> bar_held d s' \<and>
    sh_effects s' = sh_effects s @ (case c of Does e \<Rightarrow> [e] | _ \<Rightarrow> [])"
proof -
  have drawn: "\<exists>d'. draw_bar_text font m (sh_display s) = Inr d' \<and> only_bar d d'" for m
    using draws_bar_text [OF assms(1), of "sh_display s" m] assms(2) by (simp add: draws_def bar_held_def)
  show ?thesis
  proof (cases c)
    case (Show_status m)
    then show ?thesis
      using drawn [of m] assms(2) by (auto simp: show_status_def barred_shown_def bar_held_def saved_from_def)
  next
    case (Show_result b)
    then show ?thesis
      using drawn [of "if b then ''Success!'' else ''Failure.''"] assms(2)
      by (auto simp: show_result_def barred_shown_def bar_held_def)
  qed (use assms(2,3) in \<open>auto simp: bar_held_def\<close>)
qed

definition device_effects :: "call list \<Rightarrow> effect list" where
  "device_effects cs = concat (map (\<lambda>c. case c of Does e \<Rightarrow> [e] | _ \<Rightarrow> []) cs)"

lemma calls_held:
  "bar_fits font d \<Longrightarrow> bar_held d s \<Longrightarrow> Hide_status \<notin> set cs \<Longrightarrow>
   \<exists>s'. foldR (do_call font) cs s = Inr s' \<and> bar_held d s' \<and> sh_effects s' = sh_effects s @ device_effects cs"
proof (induction cs arbitrary: s)
  case Nil
  then show ?case by (simp add: device_effects_def)
next
  case (Cons c cs)
  then obtain s1 where s1: "do_call font c s = Inr s1" "bar_held d s1"
      "sh_effects s1 = sh_effects s @ (case c of Does e \<Rightarrow> [e] | _ \<Rightarrow> [])"
    using call_held [OF Cons.prems(1,2), of c] by auto
  then show ?case using Cons.IH [OF Cons.prems(1) s1(2)] Cons.prems(3) by (auto simp: device_effects_def)
qed

lemma hide_held:
  assumes "bar_fits font d" "bar_held d s"
  shows "\<exists>s'. do_call font Hide_status s = Inr s' \<and> (\<forall>q. pixel (sh_display s') q = pixel d q) \<and>
    display_ok (sh_display s') \<and> same_size d (sh_display s') \<and> \<not> sb_active (sh_bar s') \<and> sh_effects s' = sh_effects s"
  using hide_restores_pixels [OF assms(1), of "sh_display s" "sh_bar s"] assms(2)
  by (auto simp: bar_held_def barred_shown_def)

text \<open>The pixels, the size and the state of the bar are as before.\<close>

definition screen_kept :: "shown \<Rightarrow> shown \<Rightarrow> bool" where
  "screen_kept s s' = ((\<forall>q. pixel (sh_display s') q = pixel (sh_display s) q) \<and> display_ok (sh_display s') \<and>
     same_size (sh_display s) (sh_display s') \<and> \<not> sb_active (sh_bar s'))"

lemma bracket_kept:
  assumes "bar_fits font (sh_display s)" "\<not> sb_active (sh_bar s)" "Hide_status \<notin> set cs"
  shows "\<exists>s'. foldR (do_call font) (Show_status m # cs @ [Hide_status]) s = Inr s' \<and> screen_kept s s' \<and>
    sh_effects s' = sh_effects s @ device_effects cs"
proof -
  obtain s1 where s1: "do_call font (Show_status m) s = Inr s1" "bar_held (sh_display s) s1" "sh_effects s1 = sh_effects s"
    using show_status_first [OF assms(1,2)] by blast
  obtain s2 where s2: "foldR (do_call font) cs s1 = Inr s2" "bar_held (sh_display s) s2"
      "sh_effects s2 = sh_effects s @ device_effects cs"
    using calls_held [OF assms(1) s1(2) assms(3)] s1(3) by auto
  obtain s3 where s3: "do_call font Hide_status s2 = Inr s3" "\<forall>q. pixel (sh_display s3) q = pixel (sh_display s) q"
      "display_ok (sh_display s3)" "same_size (sh_display s) (sh_display s3)" "\<not> sb_active (sh_bar s3)"
      "sh_effects s3 = sh_effects s2"
    using hide_held [OF assms(1) s2(2)] by blast
  have "foldR (do_call font) (Show_status m # cs @ [Hide_status]) s = Inr s3"
    using s1(1) s2(1) s3(1) by (simp add: foldR_append del: do_call.simps)
  with s2(3) s3 show ?thesis by (auto simp: screen_kept_def)
qed


lemma does_kept:
  assumes "display_ok (sh_display s)" "\<not> sb_active (sh_bar s)"
  shows "\<exists>s'. foldR (do_call font) (map Does es @ notify sv [Hide_status]) s = Inr s' \<and> screen_kept s s' \<and>
    sh_effects s' = sh_effects s @ es"
proof -
  have "foldR (do_call font) (map Does es) s = Inr (s\<lparr>sh_effects := sh_effects s @ es\<rparr>)"
    by (induction es arbitrary: s) auto
  moreover have "screen_kept s (s\<lparr>sh_effects := sh_effects s @ es\<rparr>)"
    using assms by (simp add: screen_kept_def same_size_def)
  ultimately show ?thesis
    using assms by (auto simp: foldR_append notify_def hide_status_def restore_background_def barred_shown_def
        screen_kept_def same_size_def)
qed

lemma send_token_does: "\<exists>es. send_token sv w = map Does es"
  by (auto simp: send_token_def send_quoted_string_def split: option.split)

lemma send_tokens_does: "\<exists>es. concat (map (send_token sv) ws) = map Does es"
proof (induction ws)
  case (Cons w ws)
  then obtain es where "concat (map (send_token sv) ws) = map Does es" by blast
  moreover obtain es' where "send_token sv w = map Does es'" using send_token_does by blast
  ultimately have "concat (map (send_token sv) (w # ws)) = map Does (es' @ es)" by simp
  then show ?case by blast
qed simp

lemma device_effects_simps [simp]:
  "device_effects [] = []" "device_effects (Does e # cs) = e # device_effects cs"
  "device_effects (Show_status m # cs) = device_effects cs" "device_effects (Show_result b # cs) = device_effects cs"
  "device_effects (Hide_status # cs) = device_effects cs" "device_effects (cs @ cs') = device_effects cs @ device_effects cs'"
  "device_effects (map Does es) = es"
  by (simp_all add: device_effects_def) (induction es, simp_all)

lemma run_action_kept:
  assumes "bar_fits font (sh_display s)" "\<not> sb_active (sh_bar s)" "sv_notifier sv"
  shows "\<exists>s'. foldR (do_call font) (execute sv a) s = Inr s' \<and> screen_kept s s' \<and>
    sh_effects s' = sh_effects s @ device_effects (execute sv a)"
proof -
  have ok: "display_ok (sh_display s)" using assms(1) by (simp add: bar_fits_def)
  have skip: "screen_kept s s" using ok assms(2) by (simp add: screen_kept_def same_size_def)
  show ?thesis
  proof (cases "payload a")
    case (ShellAction cmd)
    obtain es rc where run: "run_shell (sv_runner sv) cmd = (es, rc)" by (cases "run_shell (sv_runner sv) cmd")
    have "Hide_status \<notin> set (map Does es @ [Show_result (rc = 0)])" by auto
    from bracket_kept [OF assms(1,2) this, of "''^['' @ display_name a @ '']''"] show ?thesis
      using assms(3) by (simp add: execute_def ShellAction execute_shell_def run notify_def del: do_call.simps)
  next
    case (SendKeysAction keys)
    obtain es where "concat (map (send_token sv) (stream_words keys)) = map Does es" using send_tokens_does by blast
    then show ?thesis
      using does_kept [OF ok assms(2), of font es sv] assms(3)
      by (simp add: execute_def SendKeysAction execute_send_keys_def notify_def del: do_call.simps)
  next
    case ScreenshotAction
    from bracket_kept [OF assms(1,2), of "[Show_result True]" "display_name a"] show ?thesis
      using assms(3) by (simp add: execute_def ScreenshotAction execute_screenshot_cpp_def notify_def del: do_call.simps)
  qed (use skip in \<open>simp_all add: execute_def\<close>)
qed

section \<open>Properties\<close>

text \<open>The pixels of the framebuffer: setting a pixel of the screen changes that pixel, to the darkest of
  the sixteen grey levels that is not darker than the colour, and no other; outside the screen nothing
  changes; the access never leaves the buffer when it holds a half byte for each pixel.\<close>
theorem pixel_after_set:
  assumes "display_ok d"
  shows "\<exists>d'. set_pixel x y g d = Inr d' \<and> display_ok d' \<and>
    get_pixel d' x' y' = (if on_screen d (x, y) \<and> (x', y') = (x, y) then Inr (quantized g) else get_pixel d x' y')"
proof -
  obtain d' where d': "set_pixel x y g d = Inr d'" "display_ok d'"
      "\<forall>q. pixel d' q = (if on_screen d (x, y) \<and> q = (x, y) then quantized g else pixel d q)"
    using set_pixel_pixels [OF assms, of x y g] by blast
  then have "get_pixel d' x' y' = (if on_screen d (x, y) \<and> (x', y') = (x, y) then Inr (quantized g) else get_pixel d x' y')"
    unfolding get_pixel_pixel [OF assms, of x' y'] get_pixel_pixel [OF d'(2), of x' y'] by simp
  with d'(1,2) show ?thesis by blast
qed

definition small_display :: kindle_display where
  "small_display = \<lparr>d_width = 2, d_height = 30, d_memory = replicate 30 0, d_fd = -1\<rparr>"

lemma small_display_ok: "display_ok small_display"
  by (simp add: display_ok_def small_display_def stride_def u32_def)

lemma small_display_get: "x < 2 \<Longrightarrow> y < 30 \<Longrightarrow> get_pixel small_display x y = Inr 255"
  by (simp add: get_pixel_def small_display_def byte_index_def stride_def u32_def of_nibble_def get_nibble_def)

theorem pixel_after_set_witness:
  "\<exists>d'. set_pixel 1 2 0 small_display = Inr d' \<and> get_pixel d' 1 2 = Inr 0 \<and> get_pixel d' 0 2 = Inr 255"
proof -
  have q: "quantized 0 = 0" "on_screen small_display (1, 2)" "get_pixel small_display 0 2 = Inr 255"
    by (simp_all add: quantized_def to_nibble_def of_nibble_def on_screen_def small_display_get, simp add: small_display_def)
  obtain d' where "set_pixel 1 2 0 small_display = Inr d'" by (meson small_display_ok set_pixel_pixels)
  with pixel_after_set [OF small_display_ok, of 1 2 0 1 2] pixel_after_set [OF small_display_ok, of 1 2 0 0 2] q
  show ?thesis by auto
qed

text \<open>C28: Running an action of the rewrite is transparent: with the notifier attached, the bar down and a
  screen the bar fits on, every action, whatever it prints and however its command ends, leaves
  every pixel as it was and the bar down, stays inside the framebuffer and the font, and passes
  the effects of the action to the devices in their order.\<close>
theorem action_keeps_screen:
  assumes "bar_fits font (sh_display s)" and "\<not> sb_active (sh_bar s)" and "sv_notifier sv"
  shows "\<exists>s'. foldR (do_call font) (execute sv a) s = Inr s' \<and>
    (\<forall>x y. get_pixel (sh_display s') x y = get_pixel (sh_display s) x y) \<and> \<not> sb_active (sh_bar s') \<and>
    sh_effects s' = sh_effects s @ device_effects (execute sv a)"
proof -
  have d: "display_ok (sh_display s)" using assms(1) by (simp add: bar_fits_def)
  obtain s' where s': "foldR (do_call font) (execute sv a) s = Inr s'" "screen_kept s s'"
      "sh_effects s' = sh_effects s @ device_effects (execute sv a)"
    using run_action_kept [OF assms, of a] by blast
  then have "get_pixel (sh_display s') x y = get_pixel (sh_display s) x y" for x y
    using get_pixel_pixel [OF d, of x y] get_pixel_pixel [of "sh_display s'" x y] by (simp add: screen_kept_def)
  with s' show ?thesis unfolding screen_kept_def by blast
qed

definition sample_shown :: shown where
  "sample_shown = \<lparr>sh_display = small_display, sh_bar = \<lparr>sb_active = False, saved_pixels = []\<rparr>,
     sh_effects = [], sh_updates = []\<rparr>"

lemma sample_fits: "bar_fits (replicate (256 * BYTES_PER_GLYPH) 0) (sh_display sample_shown)"
  using small_display_ok by (simp add: bar_fits_def sample_shown_def small_display_def STATUS_BAR_HEIGHT_def)

theorem action_keeps_screen_witness:
  "\<exists>s'. foldR (do_call (replicate (256 * BYTES_PER_GLYPH) 0))
      (execute sample_services (parse_command ''!ls'' ''A'' [])) sample_shown = Inr s' \<and>
    get_pixel (sh_display s') 0 29 = Inr 255 \<and> sh_effects s' = [Shell ''ls'']"
proof -
  let ?a = "parse_command ''!ls'' ''A'' []"
  have d: "device_effects (execute sample_services ?a) = [Shell ''ls'']"
    by (simp add: execute_def parse_command_def execute_shell_def run_shell_def sample_services_def notify_def)
  have "\<not> sb_active (sh_bar sample_shown)" "sv_notifier sample_services"
    by (simp_all add: sample_shown_def sample_services_def)
  from action_keeps_screen [OF sample_fits this, of ?a]
  obtain s' where "foldR (do_call (replicate (256 * BYTES_PER_GLYPH) 0)) (execute sample_services ?a) sample_shown = Inr s'"
      "\<forall>x y. get_pixel (sh_display s') x y = get_pixel (sh_display sample_shown) x y"
      "sh_effects s' = sh_effects sample_shown @ [Shell ''ls'']"
    unfolding d by blast
  moreover from this(2) have "get_pixel (sh_display s') 0 29 = Inr 255"
    by (simp add: sample_shown_def small_display_get)
  ultimately show ?thesis by (auto simp: sample_shown_def)
qed

end
