(* ===== verification/Bitmap.thy ===== *)
theory Bitmap
  imports Canvas Screenshot
begin

unbundle bit_operations_syntax

text \<open>
  src/src/ui/screenshot\_writer.cpp: a display written as a .bmp file of four bits for a pixel.
  Numbers are 32-bit numbers with their wrap-around written out; the words of the headers are
  written in the byte order of the little-endian target, as in the model of screenshot.c.
\<close>

section \<open>The file\<close>

definition write_headers :: "nat \<Rightarrow> nat \<Rightarrow> nat \<Rightarrow> 8 word list" where
  "write_headers width height strd =
     [0x42, 0x4D] @ le32 (int (u32 (118 + strd * height))) @ le32 0 @ le32 118 @
     le32 40 @ le32 (int width) @ le32 (int height) @ le16 1 @ le16 4 @ le32 0 @
     le32 (int (u32 (strd * height))) @ le32 2835 @ le32 2835 @ le32 16 @ le32 16"

definition write_palette :: "8 word list" where
  "write_palette = concat (map (\<lambda>i. let shade = word_of_int (255 - int i * 17) in [shade, shade, shade, 0]) [0..<16])"

text \<open>A pixel of a row: its palette index goes into its half of the byte.\<close>

definition put_index :: "kindle_display \<Rightarrow> nat \<Rightarrow> nat \<Rightarrow> 8 word list \<Rightarrow> 8 word list res" where
  "put_index d y x row_buffer =
     bindR (get_pixel d x y) (\<lambda>raw.
       let palette_idx = word_of_nat ((255 - unat raw) div 17) in
       bindR (guardR (x div 2 < length row_buffer) Buffer_overflow) (\<lambda>_.
         Inr (row_buffer[x div 2 := row_buffer ! (x div 2) OR
           (if even x then push_bit 4 palette_idx else palette_idx AND 0x0F)])))"

definition row_bytes :: "kindle_display \<Rightarrow> nat \<Rightarrow> nat \<Rightarrow> nat \<Rightarrow> 8 word list res" where
  "row_bytes d width strd y = foldR (put_index d y) [0..<width] (replicate strd 0)"

text \<open>The rows from the last to the first; the height counts as a signed number.\<close>

definition write_pixel_rows :: "kindle_display \<Rightarrow> nat \<Rightarrow> nat \<Rightarrow> nat \<Rightarrow> 8 word list res" where
  "write_pixel_rows d width height strd =
     foldR (\<lambda>y out. mapR (\<lambda>r. out @ r) (row_bytes d width strd y))
       (rev [0..<nat (sint (word_of_nat height :: 32 word))]) []"

definition bmp_stride :: "nat \<Rightarrow> nat" where
  "bmp_stride width = u32 (width * 4 + 31) div 32 * 4"

text \<open>opened: whether the file could be opened; None is the error of the code.\<close>

definition write_bmp :: "kindle_display \<Rightarrow> bool \<Rightarrow> 8 word list option res" where
  "write_bmp d opened =
     (if \<not> opened then Inr None
      else let strd = bmp_stride (d_width d) in
        mapR (\<lambda>rows. Some (write_headers (d_width d) (d_height d) strd @ write_palette @ rows))
          (write_pixel_rows d (d_width d) (d_height d) strd))"

section \<open>Reading the file back\<close>

text \<open>The colour of a pixel as a reader of the format finds it: the rows upwards from the last one,
  each of a multiple of four bytes, behind headers of 54 bytes and 16 palette entries.\<close>

definition bmp_pixel :: "nat \<Rightarrow> nat \<Rightarrow> 8 word list \<Rightarrow> nat \<Rightarrow> nat \<Rightarrow> 8 word" where
  "bmp_pixel width height bmp x y =
     bmp ! (54 + 4 * unat (get_nibble (even x) (bmp ! (118 + (height - 1 - y) * bmp_stride width + x div 2))))"

section \<open>Lemmas\<close>

lemma or_put_nibble:
  assumes "get_nibble e b = 0"
  shows "b OR (if e then push_bit 4 n else n AND 0x0F) = put_nibble e n b"
proof (cases e)
  case True
  then have zero: "drop_bit 4 b = 0" using assms by (simp add: get_nibble_def)
  have "b = push_bit 4 (drop_bit 4 b) OR take_bit 4 b"
    by (rule bit_word_eqI) (auto simp: bit_simps)
  then have "take_bit 4 b = b" unfolding zero by simp
  then show ?thesis by (simp add: put_nibble_def True low_nibble)
next
  case False
  then have zero: "take_bit 4 b = 0" using assms by (simp add: get_nibble_def low_nibble)
  have "b = push_bit 4 (drop_bit 4 b) OR take_bit 4 b"
    by (rule bit_word_eqI) (auto simp: bit_simps)
  then have "push_bit 4 (drop_bit 4 b) = b" unfolding zero by simp
  then show ?thesis by (simp add: put_nibble_def False high_nibble)
qed

text \<open>The first k pixels of a row are stored, the others still 0.\<close>

definition row_stored :: "kindle_display \<Rightarrow> nat \<Rightarrow> nat \<Rightarrow> nat \<Rightarrow> 8 word list \<Rightarrow> bool" where
  "row_stored d y strd k r = (length r = strd \<and> (\<forall>x. x div 2 < strd \<longrightarrow>
     get_nibble (even x) (r ! (x div 2)) = (if x < k then to_nibble (pixel d (x, y)) else 0)))"

lemma put_index_stored:
  assumes "display_ok d" "row_stored d y strd k r" "k div 2 < strd"
  shows "\<exists>r'. put_index d y k r = Inr r' \<and> row_stored d y strd (Suc k) r'"
proof -
  let ?n = "to_nibble (pixel d (k, y))"
  let ?r = "r[k div 2 := put_nibble (even k) ?n (r ! (k div 2))]"
  have r: "length r = strd" "get_nibble (even k) (r ! (k div 2)) = 0"
    using assms(2,3) by (auto simp: row_stored_def)
  have "put_index d y k r = Inr ?r"
    unfolding put_index_def Let_def to_nibble_def [symmetric] get_pixel_pixel [OF assms(1)] bindR.simps
      or_put_nibble [OF r(2)] using r(1) assms(3) by simp
  moreover have "get_nibble (even x) (?r ! (x div 2)) = (if x < Suc k then to_nibble (pixel d (x, y)) else 0)"
    if x: "x div 2 < strd" for x
  proof (cases "x = k")
    case True
    then show ?thesis using r(1) assms(3) get_put_same [OF to_nibble_small, of "even k"] by simp
  next
    case False
    have old: "get_nibble (even x) (r ! (x div 2)) = (if x < k then to_nibble (pixel d (x, y)) else 0)"
      using assms(2) x by (simp add: row_stored_def)
    have "get_nibble (even x) (?r ! (x div 2)) = get_nibble (even x) (r ! (x div 2))"
    proof (cases "x div 2 = k div 2")
      case True
      then have "even x = (\<not> even k)" using False by (metis dvd_mult_div_cancel even_two_times_div_two odd_two_times_div_two_succ)
      then show ?thesis using True r(1) assms(3) get_put_other [of "even k"] by simp
    qed simp
    with old False show ?thesis by auto
  qed
  ultimately show ?thesis using r(1) by (auto simp: row_stored_def)
qed

lemma row_bytes_stored:
  assumes "display_ok d" "(width + 1) div 2 \<le> strd"
  shows "\<exists>r. row_bytes d width strd y = Inr r \<and> row_stored d y strd width r"
proof -
  have "\<exists>r. foldR (put_index d y) [0..<k] (replicate strd 0) = Inr r \<and> row_stored d y strd k r" if "k \<le> width" for k
    using that
  proof (induction k)
    case 0
    show ?case by (simp add: row_stored_def get_nibble_def)
  next
    case (Suc k)
    then obtain r where r: "foldR (put_index d y) [0..<k] (replicate strd 0) = Inr r" "row_stored d y strd k r" by auto
    have "k div 2 < strd" using Suc.prems assms(2) by linarith
    from put_index_stored [OF assms(1) r(2) this] r(1) show ?case by (auto simp: foldR_append)
  qed
  then show ?thesis unfolding row_bytes_def by blast
qed

text \<open>The rows one behind the other.\<close>

lemma rows_placed:
  assumes "display_ok d" "(width + 1) div 2 \<le> strd"
  shows "\<exists>out. foldR (\<lambda>y out. mapR (\<lambda>r. out @ r) (row_bytes d width strd y)) ys out0 = Inr (out0 @ out) \<and>
    length out = length ys * strd \<and>
    (\<forall>i x. i < length ys \<longrightarrow> x < width \<longrightarrow>
       get_nibble (even x) (out ! (i * strd + x div 2)) = to_nibble (pixel d (x, ys ! i)))"
proof (induction ys arbitrary: out0)
  case Nil
  then show ?case by simp
next
  case (Cons y ys)
  obtain r where r: "row_bytes d width strd y = Inr r" "row_stored d y strd width r"
    using row_bytes_stored [OF assms] by blast
  obtain out where out: "foldR (\<lambda>y out. mapR (\<lambda>r. out @ r) (row_bytes d width strd y)) ys (out0 @ r) = Inr ((out0 @ r) @ out)"
      "length out = length ys * strd"
      "\<forall>i x. i < length ys \<longrightarrow> x < width \<longrightarrow> get_nibble (even x) (out ! (i * strd + x div 2)) = to_nibble (pixel d (x, ys ! i))"
    using Cons.IH [of "out0 @ r"] by blast
  have len: "length r = strd" using r(2) by (simp add: row_stored_def)
  have "get_nibble (even x) ((r @ out) ! (i * strd + x div 2)) = to_nibble (pixel d (x, (y # ys) ! i))"
    if "i < length (y # ys)" "x < width" for i x
  proof (cases i)
    case 0
    have "x div 2 < strd" using that(2) assms(2) by linarith
    then show ?thesis using r(2) that(2) by (simp add: 0 nth_append len row_stored_def)
  next
    case (Suc j)
    then have "(r @ out) ! (i * strd + x div 2) = out ! (j * strd + x div 2)" by (simp add: nth_append len)
    then show ?thesis using out(3) that by (simp add: Suc)
  qed
  then show ?case using out r(1) len by (intro exI [of _ "r @ out"]) auto
qed

lemma length_write_headers: "length (write_headers w h s) = 54"
  by (simp add: write_headers_def le32_def le16_def)

lemma length_write_palette: "length write_palette = 64"
  by (simp add: write_palette_def length_concat upt_rec)

lemma palette_entry: "unat n < 16 \<Longrightarrow> write_palette ! (4 * unat n) = of_nibble n"
proof -
  assume n: "unat n < 16"
  have "\<forall>i \<in> set [0..<16]. write_palette ! (4 * i) = of_nibble (word_of_nat i)" by code_simp
  with n have "write_palette ! (4 * unat n) = of_nibble (word_of_nat (unat n))" by (simp only: set_upt) auto
  then show ?thesis by simp
qed

lemma bmp_stride_covers: "w * 4 + 31 < 2 ^ 32 \<Longrightarrow> (w + 1) div 2 \<le> bmp_stride w"
  by (simp add: bmp_stride_def u32_def)

lemma sint_word_of_nat_small: "n < 2 ^ 31 \<Longrightarrow> sint (word_of_nat n :: 32 word) = int n"
  by transfer (simp add: signed_take_bit_int_eq_self)

section \<open>Properties\<close>

text \<open>C34: The picture is the screen: for a framebuffer that holds its pixels, writing the file succeeds
  without touching anything outside the row buffer, the file holds the headers, the palette of 16 grey
  levels and one padded row of two pixels to a byte for each line, 118 bytes before the rows, and the
  colour a reader finds for every pixel of the screen is the grey level get\_pixel gives (the
  rows of the C program's file are two lines off, screenshot\_rows\_shifted). The file the code writes
  is not the documented one: screenshot\_writer.hpp and ui.md (section 3.1) describe 8 bits per pixel,
  a palette of 256 entries and rows from byte 1078 on.\<close>
theorem bitmap_shows_screen:
  assumes "display_ok d" and "d_width d * 4 + 31 < 2 ^ 32" and "d_height d < 2 ^ 31"
  shows "\<exists>bmp. write_bmp d True = Inr (Some bmp) \<and> length bmp = 118 + d_height d * bmp_stride (d_width d) \<and>
    (\<forall>x y. x < d_width d \<and> y < d_height d \<longrightarrow>
       get_pixel d x y = Inr (bmp_pixel (d_width d) (d_height d) bmp x y))"
proof -
  let ?w = "d_width d" and ?h = "d_height d"
  let ?s = "bmp_stride ?w"
  have "sint (word_of_nat ?h :: 32 word) = int ?h"
    using assms(3) by (simp add: sint_word_of_nat_small)
  then have h: "rev [0..<nat (sint (word_of_nat ?h :: 32 word))] = rev [0..<?h]" by simp
  obtain out where out: "write_pixel_rows d ?w ?h ?s = Inr out" "length out = ?h * ?s"
      "\<forall>i x. i < ?h \<longrightarrow> x < ?w \<longrightarrow> get_nibble (even x) (out ! (i * ?s + x div 2)) = to_nibble (pixel d (x, rev [0..<?h] ! i))"
    using rows_placed [OF assms(1) bmp_stride_covers [OF assms(2)], of "rev [0..<?h]" "[]"]
    unfolding write_pixel_rows_def h by auto
  define bmp where "bmp = write_headers ?w ?h ?s @ write_palette @ out"
  have bmp: "bmp ! (118 + k) = out ! k" "bmp ! (54 + j) = write_palette ! j" if "j < 64" for k j
    using that by (simp_all add: bmp_def nth_append length_write_headers length_write_palette)
  have "get_pixel d x y = Inr (bmp_pixel ?w ?h bmp x y)" if xy: "x < ?w" "y < ?h" for x y
  proof -
    let ?n = "to_nibble (pixel d (x, y))"
    have "rev [0..<?h] ! (?h - 1 - y) = y" using xy(2) by (simp add: rev_nth)
    then have "get_nibble (even x) (bmp ! (118 + (?h - 1 - y) * ?s + x div 2)) = ?n"
      using out(3) xy bmp(1) [of 0 "(?h - 1 - y) * ?s + x div 2"] by (simp add: add.assoc)
    then have "bmp_pixel ?w ?h bmp x y = of_nibble ?n"
      using bmp(2) [of "4 * unat ?n"] palette_entry [OF to_nibble_small] to_nibble_small [of "pixel d (x, y)"]
      by (simp add: bmp_pixel_def)
    then show ?thesis
      using framebuffer.quant_pix [OF assms(1), of "(x, y)"] xy get_pixel_pixel [OF assms(1), of x y]
      by (simp add: quantized_def on_screen_def)
  qed
  moreover have "write_bmp d True = Inr (Some bmp)" using out(1) by (simp add: write_bmp_def bmp_def)
  moreover have "length bmp = 118 + ?h * ?s" using out(2) by (simp add: bmp_def length_write_headers length_write_palette)
  ultimately show ?thesis by blast
qed

definition two_pixels :: kindle_display where
  "two_pixels = \<lparr>d_width = 2, d_height = 1, d_memory = [0x0F], d_fd = -1\<rparr>"

theorem bitmap_shows_screen_witness:
  "\<exists>bmp. write_bmp two_pixels True = Inr (Some bmp) \<and> length bmp = 122 \<and>
    bmp_pixel 2 1 bmp 0 0 = 255 \<and> bmp_pixel 2 1 bmp 1 0 = 0"
proof -
  have ok: "display_ok two_pixels" "d_width two_pixels = 2" "d_height two_pixels = 1"
    by (simp_all add: display_ok_def two_pixels_def stride_def u32_def)
  obtain bmp where "write_bmp two_pixels True = Inr (Some bmp)" "length bmp = 118 + 1 * bmp_stride 2"
      "\<forall>x y. x < 2 \<and> y < 1 \<longrightarrow> get_pixel two_pixels x y = Inr (bmp_pixel 2 1 bmp x y)"
    using bitmap_shows_screen [OF ok(1)] unfolding ok(2,3) by auto
  moreover from this(3) [rule_format, of 0 0] this(3) [rule_format, of 1 0]
  have "bmp_pixel 2 1 bmp 0 0 = 255 \<and> bmp_pixel 2 1 bmp 1 0 = 0"
    by (simp add: get_pixel_def two_pixels_def byte_index_def stride_def u32_def of_nibble_def get_nibble_def)
  ultimately show ?thesis by (auto simp: bmp_stride_def u32_def)
qed

end
