(* ===== verification/RceServer.thy ===== *)
theory RceServer
  imports Rce Executor
begin

text \<open>
  src/src/system/rce\_server.cpp: the remote command server of the rewrite. Its thread hands the
  messages of a socket to process\_message, which gives commands to the command runner; start and
  stop open and close the socket. Theory Rce has the C program's server.
\<close>

section \<open>Messages\<close>

record rce_config =
  auto_enable :: bool
  enable_phrase :: string
  disable_phrase :: string
  multicast_group :: string
  interface_ip :: string
  udp_port :: nat

definition default_rce_config :: rce_config where
  "default_rce_config = \<lparr>auto_enable = False, enable_phrase = [], disable_phrase = [],
     multicast_group = ''239.1.2.3'', interface_ip = ''0.0.0.0'', udp_port = 10000\<rparr>"

text \<open>The new value of is\_enabled, and the commands given to the runner.\<close>

definition process_message :: "rce_config \<Rightarrow> string \<Rightarrow> bool \<Rightarrow> bool \<times> string list" where
  "process_message cfg message on =
     (if \<not> on then (enable_phrase cfg \<noteq> [] \<and> message = enable_phrase cfg, [])
      else if disable_phrase cfg \<noteq> [] \<and> message = disable_phrase cfg then (False, [])
      else if message \<noteq> enable_phrase cfg then (True, [message])
      else (True, []))"

text \<open>A turn of the thread's loop: nothing within the time of poll (or an error), or a datagram, of which
  1023 bytes are read.\<close>

definition serve_turn :: "rce_config \<Rightarrow> string option \<Rightarrow> bool \<times> string list \<Rightarrow> bool \<times> string list" where
  "serve_turn cfg polled st =
     (case polled of None \<Rightarrow> st
      | Some d \<Rightarrow> (let message = take 1023 d in
          if message = [] then st
          else case process_message cfg message (fst st) of (on, cmds) \<Rightarrow> (on, snd st @ cmds)))"

definition serve :: "rce_config \<Rightarrow> string option list \<Rightarrow> bool \<times> string list" where
  "serve cfg ds = fold (serve_turn cfg) ds (auto_enable cfg, [])"

section \<open>Starting and stopping\<close>

record rce_worker =
  running :: bool
  worker_socket :: int

definition new_worker :: rce_worker where
  "new_worker = \<lparr>running = False, worker_socket = -1\<rparr>"

datatype socket_event = Socket_opened int | Socket_closed int

text \<open>What socket answers and whether bind succeeds; the descriptor, or -1.\<close>

definition create_and_bind_socket :: "int \<Rightarrow> bool \<Rightarrow> int \<times> socket_event list" where
  "create_and_bind_socket fd bound =
     (if fd < 0 then (-1, [])
      else if \<not> bound then (-1, [Socket_opened fd, Socket_closed fd])
      else (fd, [Socket_opened fd]))"

text \<open>The result is False where the code returns an error.\<close>

definition start_server :: "rce_config \<Rightarrow> int \<Rightarrow> bool \<Rightarrow> rce_worker \<Rightarrow> bool \<times> rce_worker \<times> socket_event list" where
  "start_server cfg fd bound w =
     (if running w then (True, w, [])
      else if \<not> auto_enable cfg \<and> enable_phrase cfg = [] then (True, w, [])
      else case create_and_bind_socket fd bound of (fd', es) \<Rightarrow>
        if fd' < 0 then (False, w, es) else (True, w\<lparr>worker_socket := fd', running := True\<rparr>, es))"

definition stop_server :: "rce_worker \<Rightarrow> rce_worker \<times> socket_event list" where
  "stop_server w =
     (if \<not> running w then (w, [])
      else if 0 \<le> worker_socket w then (w\<lparr>running := False, worker_socket := -1\<rparr>, [Socket_closed (worker_socket w)])
      else (w\<lparr>running := False\<rparr>, []))"

section \<open>The sockets a server holds\<close>

definition held :: "socket_event list \<Rightarrow> int list \<Rightarrow> int list" where
  "held es fds = foldl (\<lambda>fds e. case e of Socket_opened fd \<Rightarrow> fd # fds | Socket_closed fd \<Rightarrow> remove1 fd fds) fds es"

datatype server_call = Start int bool | Stop

fun server_step :: "rce_config \<Rightarrow> server_call \<Rightarrow> rce_worker \<times> int list \<Rightarrow> rce_worker \<times> int list" where
  "server_step cfg (Start fd bound) (w, fds) =
     (case start_server cfg fd bound w of (ok, w', es) \<Rightarrow> (w', held es fds))"
| "server_step cfg Stop (w, fds) = (case stop_server w of (w', es) \<Rightarrow> (w', held es fds))"

definition worker_ok :: "rce_worker \<times> int list \<Rightarrow> bool" where
  "worker_ok s = (snd s = (if running (fst s) then [worker_socket (fst s)] else []) \<and>
     (running (fst s) = (0 \<le> worker_socket (fst s))))"

lemma worker_ok_step: "worker_ok s \<Longrightarrow> worker_ok (server_step cfg c s)"
proof (cases s)
  case (Pair w fds)
  assume "worker_ok s"
  then show ?thesis
    by (cases c) (auto simp: Pair worker_ok_def start_server_def stop_server_def create_and_bind_socket_def held_def)
qed

interpretation server: machine "\<lambda>s. s = (new_worker, [])" "\<lambda>s s'. \<exists>c. s' = server_step cfg c s" worker_ok
proof
  show "worker_ok s" if "s = (new_worker, [])" for s using that by (simp add: worker_ok_def new_worker_def)
  show "worker_ok s'" if "worker_ok s" "\<exists>c. s' = server_step cfg c s" for s s' using that worker_ok_step by blast
qed

lemma calls_reach:
  "reach (\<lambda>s. s = (new_worker, [])) (\<lambda>s s'. \<exists>c. s' = server_step cfg c s) (fold (server_step cfg) cs (new_worker, []))"
proof (induction cs rule: rev_induct)
  case Nil
  show ?case by (simp add: reach_init)
next
  case (snoc c cs)
  then show ?case by (auto intro: reach_step)
qed

section \<open>The messages a listener obeys\<close>

lemma turn_listen:
  assumes "datagram m" "is_enabled l = fst st" "commands l = map background (snd st)"
  shows "is_enabled (listen (enable_phrase cfg) (disable_phrase cfg) l [m]) = fst (serve_turn cfg (Some m) st)"
    and "commands (listen (enable_phrase cfg) (disable_phrase cfg) l [m]) = map background (snd (serve_turn cfg (Some m) st))"
proof -
  have m: "take 1023 m = m" "m \<noteq> []" using assms(1) by (auto simp: datagram_def MAXLEN_def)
  show "is_enabled (listen (enable_phrase cfg) (disable_phrase cfg) l [m]) = fst (serve_turn cfg (Some m) st)"
    "commands (listen (enable_phrase cfg) (disable_phrase cfg) l [m]) = map background (snd (serve_turn cfg (Some m) st))"
    using assms(2,3) m(2) by (auto simp: serve_turn_def m(1) process_message_def split: prod.splits)
qed

lemma serve_listen:
  "list_all datagram ms \<Longrightarrow> is_enabled l = fst st \<Longrightarrow> commands l = map background (snd st) \<Longrightarrow>
   is_enabled (listen (enable_phrase cfg) (disable_phrase cfg) l ms) = fst (fold (serve_turn cfg) (map Some ms) st) \<and>
   commands (listen (enable_phrase cfg) (disable_phrase cfg) l ms) = map background (snd (fold (serve_turn cfg) (map Some ms) st))"
proof (induction ms arbitrary: l st)
  case Nil
  then show ?case by simp
next
  case (Cons m ms)
  have m: "datagram m" "list_all datagram ms" using Cons.prems(1) by simp_all
  let ?l = "listen (enable_phrase cfg) (disable_phrase cfg) l [m]"
  from Cons.IH [OF m(2) turn_listen [OF m(1) Cons.prems(2,3)]]
  show ?case by simp
qed

section \<open>Properties\<close>

text \<open>C36: Both programs obey the same remote commands: with the same phrases and the same start, on
  datagrams of 1 to 1023 characters without NUL the rewrite's server is enabled exactly when the C
  program's listener is, and gives its runner the same commands in the same order (the C program
  puts an ampersand behind a command that has none; the rewrite waits for each command to end).\<close>
theorem rce_servers_agree:
  assumes "list_all datagram ms" and "cstr (enable_string r) = enable_phrase cfg"
    and "cstr (disable_string r) = disable_phrase cfg" and "(autoenable r \<noteq> 0) = auto_enable cfg"
  shows "\<exists>l. rce_process r ms = Inr l \<and> is_enabled l = fst (serve cfg (map Some ms)) \<and>
    commands l = map background (snd (serve cfg (map Some ms)))"
proof -
  have "rce_process r ms = Inr (listen (enable_phrase cfg) (disable_phrase cfg) (rce_start_state r) ms)"
    using process_listen [OF assms(1), of r "rce_start_state r"] assms(2,3) by (simp add: rce_process_def)
  moreover have "is_enabled (rce_start_state r) = fst (auto_enable cfg, [])"
    "commands (rce_start_state r) = map background (snd (auto_enable cfg, []))"
    using assms(4) by (simp_all add: rce_start_state_def)
  ultimately show ?thesis using serve_listen [OF assms(1)] unfolding serve_def by blast
qed

theorem rce_servers_agree_witness:
  "snd (serve (default_rce_config\<lparr>enable_phrase := ''on''\<rparr>) (map Some [''ls'', ''on'', ''ls''])) = [''ls''] \<and>
   (\<exists>l. rce_process (set_rce_enable_string ''on'' initial_rce) [''ls'', ''on'', ''ls''] = Inr l \<and> commands l = [''ls&''])"
proof -
  let ?r = "set_rce_enable_string ''on'' initial_rce" and ?cfg = "default_rce_config\<lparr>enable_phrase := ''on''\<rparr>"
  have "list_all datagram [''ls'', ''on'', ''ls'']" by (simp add: datagram_def MAXLEN_def)
  moreover have "cstr (enable_string ?r) = ''on''" "cstr (disable_string ?r) = []" "autoenable ?r = 0" by code_simp+
  ultimately have "\<exists>l. rce_process ?r [''ls'', ''on'', ''ls''] = Inr l \<and>
      commands l = map background (snd (serve ?cfg (map Some [''ls'', ''on'', ''ls''])))"
    using rce_servers_agree [of "[''ls'', ''on'', ''ls'']" ?r ?cfg] by (auto simp: default_rce_config_def)
  moreover have "snd (serve ?cfg (map Some [''ls'', ''on'', ''ls''])) = [''ls'']"
    by (simp add: serve_def serve_turn_def process_message_def default_rce_config_def)
  ultimately show ?thesis by (simp add: background_def)
qed

text \<open>The server holds one socket while it runs and none otherwise: whatever calls of start and stop
  are made, and whether socket and bind succeed or not, no socket is leaked or closed twice.\<close>
theorem server_socket_owned:
  "fold (server_step cfg) cs (new_worker, []) = (w, fds) \<Longrightarrow>
   fds = (if running w then [worker_socket w] else []) \<and> snd (server_step cfg Stop (w, fds)) = []"
  using server.reach_inv [OF calls_reach [of cfg cs]]
  by (auto simp: worker_ok_def stop_server_def held_def)

theorem server_socket_owned_witness:
  "fold (server_step (default_rce_config\<lparr>auto_enable := True\<rparr>)) [Start 5 False, Start 5 True, Start 6 True] (new_worker, []) =
     (\<lparr>running = True, worker_socket = 5\<rparr>, [5])"
proof -
  let ?f = "fold (server_step (default_rce_config\<lparr>auto_enable := True\<rparr>)) [Start 5 False, Start 5 True, Start 6 True] (new_worker, [])"
  have w: "fst ?f = \<lparr>running = True, worker_socket = 5\<rparr>"
    by (simp add: start_server_def create_and_bind_socket_def held_def new_worker_def default_rce_config_def)
  obtain w fds where f: "?f = (w, fds)" by (cases ?f)
  have "w = \<lparr>running = True, worker_socket = 5\<rparr>" using w unfolding f by simp
  moreover have "fds = (if running w then [worker_socket w] else [])" using server_socket_owned [OF f] by simp
  ultimately show ?thesis unfolding f by simp
qed

end
