(* ===== verification/Evdev.thy ===== *)
theory Evdev
  imports HotKeyProps Matcher
begin

text \<open>
  src/src/hal/evdev\_input\_source.cpp: the key events of the rewrite. The devices are opened, grabbed
  and released together; poll\_events returns the presses and releases read from those that are
  ready. What open, poll and read answer are parameters. ScopedInputGrab of input\_source.hpp,
  which the program does not use, is in Mocks.
\<close>

section \<open>The devices\<close>

text \<open>ev\_ioctls lists the EVIOCGRAB calls, with True for grabbing.\<close>

record device_group =
  descriptors :: "int list"
  group_grabbed :: bool
  ev_ioctls :: "(int \<times> bool) list"

definition open_devices :: "(string \<Rightarrow> int) \<Rightarrow> string list \<Rightarrow> device_group" where
  "open_devices op paths =
     \<lparr>descriptors = filter (\<lambda>fd. 0 \<le> fd) (map op paths), group_grabbed = False, ev_ioctls = []\<rparr>"

definition grab :: "device_group \<Rightarrow> device_group" where
  "grab g = g\<lparr>ev_ioctls := ev_ioctls g @ map (\<lambda>fd. (fd, True)) (descriptors g), group_grabbed := True\<rparr>"

definition release :: "device_group \<Rightarrow> device_group" where
  "release g =
     (if \<not> group_grabbed g then g
      else g\<lparr>ev_ioctls := ev_ioctls g @ map (\<lambda>fd. (fd, False)) (descriptors g), group_grabbed := False\<rparr>)"

text \<open>The closed descriptors come with the new state.\<close>

definition close_devices :: "device_group \<Rightarrow> device_group \<times> int list" where
  "close_devices g = (g\<lparr>descriptors := []\<rparr>, descriptors g)"

definition destroy_source :: "device_group \<Rightarrow> device_group \<times> int list" where
  "destroy_source g = close_devices (release g)"

section \<open>Events\<close>

text \<open>What read gives: the events (at most eight are asked for), or nothing usable.\<close>

definition key_event :: "input_event \<Rightarrow> (short \<times> key_event_type) list" where
  "key_event ev =
     (if ev_type ev \<noteq> EV_KEY then []
      else if ev_value ev = 2 then []
      else [(word_of_int (ev_code ev), if ev_value ev = 1 then Pressed else Released)])"

definition read_events_from_fd :: "input_event list option \<Rightarrow> (short \<times> key_event_type) list" where
  "read_events_from_fd data = (case data of None \<Rightarrow> [] | Some evs \<Rightarrow> concat (map key_event (take 8 evs)))"

record poll_answer =
  poll_rc :: int
  poll_in :: "int \<Rightarrow> bool"                       \<comment> \<open>POLLIN of a descriptor\<close>
  poll_data :: "int \<Rightarrow> input_event list option"

definition poll_events :: "poll_answer \<Rightarrow> device_group \<Rightarrow> (short \<times> key_event_type) list" where
  "poll_events p g =
     (if poll_rc p \<le> 0 then []
      else concat (map (\<lambda>fd. if poll_in p fd then read_events_from_fd (poll_data p fd) else []) (descriptors g)))"

section \<open>What is grabbed\<close>

definition group_ok :: "device_group \<Rightarrow> bool" where
  "group_ok g = (\<forall>fd. grabbed (ev_ioctls g) fd = (group_grabbed g \<and> fd \<in> set (descriptors g)))"

lemma group_ok_open [simp]: "group_ok (open_devices op paths)"
  by (simp add: group_ok_def open_devices_def)

lemma group_ok_grab [simp]: "group_ok g \<Longrightarrow> group_ok (grab g)"
  by (simp add: group_ok_def grab_def)

lemma group_ok_release [simp]: "group_ok g \<Longrightarrow> group_ok (release g)"
  by (simp add: group_ok_def release_def)

lemma grab_simps [simp]:
  "group_grabbed (grab g)" "\<not> group_grabbed (release g)"
  "descriptors (grab g) = descriptors g" "descriptors (release g) = descriptors g"
  by (simp_all add: grab_def release_def)

lemma destroyed_releases:
  "group_ok g \<Longrightarrow> \<not> grabbed (ev_ioctls (fst (destroy_source g))) fd \<and> snd (destroy_source g) = descriptors g"
  using group_ok_release [of g] by (simp add: destroy_source_def close_devices_def group_ok_def)

end
