(* ===== verification/Signals.thy ===== *)
theory Signals
  imports Prelude
begin

text \<open>
  src/src/system/signal\_handler.cpp: the two flags the handlers set and the loop of the application
  reads.
\<close>

record signal_flags =
  shutdown_requested :: bool
  reload_requested :: bool

definition SIGHUP :: int where "SIGHUP = 1"
definition SIGINT :: int where "SIGINT = 2"
definition SIGTERM :: int where "SIGTERM = 15"

text \<open>The flags after install, which also puts the handler in place for the three signals.\<close>

definition install_handlers :: "signal_flags \<Rightarrow> signal_flags" where
  "install_handlers f = f\<lparr>shutdown_requested := False, reload_requested := False\<rparr>"

definition handled_signals :: "int list" where
  "handled_signals = [SIGINT, SIGTERM, SIGHUP]"

definition signal_arrives :: "int \<Rightarrow> signal_flags \<Rightarrow> signal_flags" where
  "signal_arrives signal_number f =
     (if signal_number = SIGHUP then f\<lparr>reload_requested := True\<rparr>
      else if signal_number = SIGINT \<or> signal_number = SIGTERM then f\<lparr>shutdown_requested := True\<rparr>
      else f)"

definition request_shutdown :: "signal_flags \<Rightarrow> signal_flags" where
  "request_shutdown f = f\<lparr>shutdown_requested := True\<rparr>"

definition request_reload :: "signal_flags \<Rightarrow> signal_flags" where
  "request_reload f = f\<lparr>reload_requested := True\<rparr>"

definition clear_reload :: "signal_flags \<Rightarrow> signal_flags" where
  "clear_reload f = f\<lparr>reload_requested := False\<rparr>"

end
