(* ===== verification/Application.thy ===== *)
theory Application
  imports Overlay Evdev Signals "HOL-Library.Signed_Division"
begin

text \<open>
  src/src/system/application.cpp: the application of the rewrite. It owns the matcher, the registry
  and the status bar, takes the key events of the input source, and executes the action of a
  completed sequence. A time is the reading of the steady clock in nanoseconds; the readings, the
  answers of poll and read, and the files a reload finds are parts of a round of the loop.
\<close>

section \<open>State\<close>

record app =
  a_config :: matcher_config
  a_matcher :: matcher_context
  a_registry :: registry
  a_interval :: nat              \<comment> \<open>hot\_interval, milliseconds\<close>
  a_capturing :: bool            \<comment> \<open>is\_capturing\<close>
  a_last :: int                  \<comment> \<open>last\_key\_time\<close>
  a_input :: device_group
  a_shown :: shown               \<comment> \<open>display, status bar and what the devices were told\<close>

text \<open>The executor is given the status bar, the key table of the application and a translator that is
  never told another model than the default one.\<close>

definition app_services :: "(string \<Rightarrow> int) \<Rightarrow> key_injector \<Rightarrow> services" where
  "app_services runner ki = \<lparr>sv_injector = ki, sv_model = KindleDX, sv_runner = runner,
     sv_notifier = True, sv_table = new_key_table\<rparr>"

record directory =
  dir_path :: string
  dir_entries :: "string list option"
  dir_files :: "string \<rightharpoonup> string"

definition load_configuration :: "directory \<Rightarrow> app \<Rightarrow> app" where
  "load_configuration dir a =
     (let scanned = scan_directory (dir_files dir) (dir_entries dir) (dir_path dir);
          s = scan_settings scanned
      in a\<lparr>a_registry := load_registry new_key_table scanned,
           a_interval := s_hot_interval s,
           a_config := \<lparr>m_introducer = (case find_code new_key_table (introducer_key s) of Some kc \<Rightarrow> kc | None \<Rightarrow> KPKEY_SHIFT_c),
                        m_trailer = (case find_code new_key_table (trailer_key s) of Some kc \<Rightarrow> kc | None \<Rightarrow> KPKEY_ENTER_c),
                        m_key_table = Some new_key_table\<rparr>,
           a_matcher := new_matcher\<rparr>)"

definition new_app :: "directory \<Rightarrow> device_group \<Rightarrow> kindle_display \<Rightarrow> app" where
  "new_app dir input display = load_configuration dir
     \<lparr>a_config = \<lparr>m_introducer = KPKEY_SHIFT_c, m_trailer = KPKEY_ENTER_c, m_key_table = Some new_key_table\<rparr>,
      a_matcher = new_matcher, a_registry = [], a_interval = 700, a_capturing = False, a_last = 0, a_input = input,
      a_shown = \<lparr>sh_display = display, sh_bar = \<lparr>sb_active = False, saved_pixels = []\<rparr>, sh_effects = [], sh_updates = []\<rparr>\<rparr>"

section \<open>Operations\<close>

text \<open>A call of the status bar or of a device of the executor.\<close>

definition app_call :: "8 word list \<Rightarrow> call \<Rightarrow> app \<Rightarrow> app res" where
  "app_call font c a = mapR (\<lambda>s. a\<lparr>a_shown := s\<rparr>) (do_call font c (a_shown a))"

definition reload_configuration :: "8 word list \<Rightarrow> directory \<Rightarrow> app \<Rightarrow> app res" where
  "reload_configuration font dir a = app_call font (Show_status ''Reloaded'') (load_configuration dir a)"

definition stop_capture :: "app \<Rightarrow> app" where
  "stop_capture a = (if a_capturing a then a\<lparr>a_input := release (a_input a), a_capturing := False\<rparr> else a)"

definition handle_completed_match :: "8 word list \<Rightarrow> services \<Rightarrow> short list \<Rightarrow> app \<Rightarrow> app res" where
  "handle_completed_match font sv seq a =
     bindR (app_call font Hide_status (stop_capture a)) (\<lambda>a.
       case find_action (a_registry a) seq of
         None \<Rightarrow> Inr a
       | Some act \<Rightarrow> foldR (app_call font) (execute sv act) a)"

definition start_capture :: "app \<Rightarrow> app" where
  "start_capture a = (if \<not> a_capturing a then a\<lparr>a_input := grab (a_input a), a_capturing := True\<rparr> else a)"

definition app_key_event :: "8 word list \<Rightarrow> services \<Rightarrow> (short \<times> key_event_type) \<times> int \<Rightarrow> app \<Rightarrow> app res" where
  "app_key_event font sv timed a0 =
     (let ((kc, ty), now) = timed;
          (r, m) = process_key_event (a_config a0) kc ty (a_matcher a0);
          a = a0\<lparr>a_matcher := m\<rparr>
      in case result_type r of
           StartCapture \<Rightarrow> mapR (a_last_update (\<lambda>_. now)) (app_call font (Show_status ''^[...]'') (start_capture a))
         | KeyAppended \<Rightarrow> mapR (a_last_update (\<lambda>_. now)) (app_call font (Show_status ''^[...]'') a)
         | SequenceComplete \<Rightarrow> handle_completed_match font sv (result_sequence r) a
         | Cancelled \<Rightarrow> app_call font Hide_status (stop_capture a)
         | None_type \<Rightarrow> Inr a)"

text \<open>The elapsed time in whole milliseconds, cut towards zero and then to 32 bits.\<close>

definition elapsed :: "int \<Rightarrow> int \<Rightarrow> nat" where
  "elapsed now last_time = nat ((now - last_time) sdiv 1000000 mod 2 ^ 32)"

definition check_timer :: "8 word list \<Rightarrow> services \<Rightarrow> int \<Rightarrow> app \<Rightarrow> app res" where
  "check_timer font sv now a =
     (if \<not> a_capturing a then Inr a
      else if elapsed now (a_last a) < a_interval a then Inr a
      else let (r, m) = on_timeout (a_matcher a); a = a\<lparr>a_matcher := m\<rparr>
        in if result_type r = SequenceComplete then handle_completed_match font sv (result_sequence r) a
           else app_call font Hide_status (a\<lparr>a_input := release (a_input a), a_capturing := False\<rparr>))"

text \<open>A round: what poll and read answer, the clock at each event and at the timer.\<close>

record round =
  r_poll :: poll_answer
  r_clock :: "nat \<Rightarrow> int"
  r_now :: int
  r_directory :: directory       \<comment> \<open>what a reload finds\<close>

definition timed_events :: "round \<Rightarrow> device_group \<Rightarrow> ((short \<times> key_event_type) \<times> int) list" where
  "timed_events r g = map (\<lambda>(i, ev). (ev, r_clock r i)) (enumerate 0 (poll_events (r_poll r) g))"

definition app_step :: "8 word list \<Rightarrow> services \<Rightarrow> round \<Rightarrow> app \<Rightarrow> app res" where
  "app_step font sv r a =
     bindR (foldR (app_key_event font sv) (timed_events r (a_input a)) a) (check_timer font sv (r_now r))"

text \<open>The loop: signals come between its rounds; a round does nothing once a shutdown is requested.\<close>

datatype happening = Signal_comes int | Round round

fun app_happens :: "8 word list \<Rightarrow> services \<Rightarrow> happening \<Rightarrow> signal_flags \<times> app \<Rightarrow> (signal_flags \<times> app) res" where
  "app_happens font sv (Signal_comes n) (fl, a) = Inr (signal_arrives n fl, a)"
| "app_happens font sv (Round r) (fl, a) =
     (if shutdown_requested fl then Inr (fl, a)
      else bindR (if reload_requested fl
                  then mapR (\<lambda>a. (clear_reload fl, a)) (reload_configuration font (r_directory r) a)
                  else Inr (fl, a))
             (\<lambda>(fl, a). mapR (\<lambda>a. (fl, a)) (app_step font sv r a)))"

definition app_run :: "8 word list \<Rightarrow> services \<Rightarrow> happening list \<Rightarrow> signal_flags \<times> app \<Rightarrow> (signal_flags \<times> app) res" where
  "app_run font sv = foldR (app_happens font sv)"

section \<open>The screen of the application\<close>

text \<open>The screen is as it was (base), with the bar down; or the bar is up and holds what was below.\<close>

definition down :: "kindle_display \<Rightarrow> shown \<Rightarrow> bool" where
  "down base s = (\<not> sb_active (sh_bar s) \<and> same_size base (sh_display s) \<and> display_ok (sh_display s) \<and>
     (\<forall>q. pixel (sh_display s) q = pixel base q))"

definition overlay_ok :: "kindle_display \<Rightarrow> shown \<Rightarrow> bool" where
  "overlay_ok base s = (down base s \<or> bar_held base s)"

lemma down_fits: "down base s \<Longrightarrow> bar_fits font base \<Longrightarrow> bar_fits font (sh_display s)"
  using same_size_bar [of base "sh_display s"] by (simp add: down_def bar_fits_def)

lemma held_active: "bar_held base s \<Longrightarrow> sb_active (sh_bar s)"
  by (simp add: bar_held_def saved_from_def)

lemma show_screen:
  assumes "bar_fits font base" "overlay_ok base s"
  shows "\<exists>s'. do_call font (Show_status m) s = Inr s' \<and> bar_held base s' \<and> sh_effects s' = sh_effects s"
proof (cases "down base s")
  case True
  then have d: "\<not> sb_active (sh_bar s)" "same_size base (sh_display s)" "\<forall>q. pixel (sh_display s) q = pixel base q"
    by (simp_all add: down_def)
  obtain s' where s': "do_call font (Show_status m) s = Inr s'" "bar_held (sh_display s) s'" "sh_effects s' = sh_effects s"
    using show_status_first [OF down_fits [OF True assms(1)] d(1)] by blast
  have size: "bar_y base = bar_y (sh_display s)" "bar_pixels base = bar_pixels (sh_display s)"
    using same_size_bar [OF d(2)] by simp_all
  have "map (pixel (sh_display s)) (bar_pixels (sh_display s)) = map (pixel base) (bar_pixels base)"
    unfolding size(2) using d(3) by (intro map_cong) blast+
  then have "saved_from base (sh_bar s')" using s'(2) by (simp only: bar_held_def saved_from_def)
  moreover have "only_bar base (sh_display s')"
    using s'(2) d(3) same_size_trans [OF d(2)] by (simp add: bar_held_def only_bar_def size(1))
  ultimately have "bar_held base s'" by (simp add: bar_held_def)
  with s' show ?thesis by blast
next
  case False
  then have "bar_held base s" using assms(2) by (simp add: overlay_ok_def)
  from call_held [OF assms(1) this, of "Show_status m"] show ?thesis by auto
qed

lemma hide_screen:
  assumes "bar_fits font base" "overlay_ok base s"
  shows "\<exists>s'. do_call font Hide_status s = Inr s' \<and> down base s' \<and> sh_effects s' = sh_effects s"
proof (cases "down base s")
  case True
  then show ?thesis
    by (intro exI [of _ s]) (simp add: hide_status_def restore_background_def barred_shown_def down_def)
next
  case False
  then have "bar_held base s" using assms(2) by (simp add: overlay_ok_def)
  from hide_held [OF assms(1) this] show ?thesis by (auto simp: down_def)
qed

lemma execute_screen:
  assumes "bar_fits font base" "down base s" "sv_notifier sv"
  shows "\<exists>s'. foldR (do_call font) (execute sv act) s = Inr s' \<and> down base s' \<and>
    sh_effects s' = sh_effects s @ device_effects (execute sv act)"
proof -
  have d: "\<not> sb_active (sh_bar s)" "same_size base (sh_display s)" "\<forall>q. pixel (sh_display s) q = pixel base q"
    using assms(2) by (simp_all add: down_def)
  obtain s' where s': "foldR (do_call font) (execute sv act) s = Inr s'" "screen_kept s s'"
      "sh_effects s' = sh_effects s @ device_effects (execute sv act)"
    using run_action_kept [OF down_fits [OF assms(2,1)] d(1) assms(3)] by blast
  moreover from this(2) have "down base s'"
    using d(3) same_size_trans [OF d(2)] by (simp add: screen_kept_def down_def)
  ultimately show ?thesis by blast
qed

section \<open>The invariant\<close>

definition app_ok :: "8 word list \<Rightarrow> kindle_display \<Rightarrow> app \<Rightarrow> bool" where
  "app_ok font base a = (bar_fits font base \<and> overlay_ok base (a_shown a) \<and> group_ok (a_input a) \<and>
     group_grabbed (a_input a) = a_capturing a \<and> (a_capturing a \<longrightarrow> sb_active (sh_bar (a_shown a))) \<and>
     (m_state (a_matcher a) = Capturing \<longrightarrow> a_capturing a) \<and> matcher_ok (a_matcher a) \<and>
     0 < a_interval a \<and> a_interval a < 2 ^ 32)"

text \<open>An operation that leaves a good state, given what it does to the state besides the screen.\<close>

definition goes_ok :: "8 word list \<Rightarrow> kindle_display \<Rightarrow> app res \<Rightarrow> bool" where
  "goes_ok font base r = (\<exists>a'. r = Inr a' \<and> app_ok font base a')"

lemma app_calls: "foldR (app_call font) cs a = mapR (\<lambda>s. a\<lparr>a_shown := s\<rparr>) (foldR (do_call font) cs (a_shown a))"
proof (induction cs arbitrary: a)
  case (Cons c cs)
  show ?case
    by (cases "do_call font c (a_shown a)") (simp_all add: app_call_def [of font c a] Cons.IH del: do_call.simps)
qed simp

lemma app_show:
  assumes "bar_fits font base" "overlay_ok base (a_shown a)"
  shows "\<exists>s. app_call font (Show_status m) a = Inr (a\<lparr>a_shown := s\<rparr>) \<and> bar_held base s \<and>
    sh_effects s = sh_effects (a_shown a)"
  using show_screen [OF assms, of m] by (auto simp: app_call_def simp del: do_call.simps)

lemma app_hide:
  assumes "bar_fits font base" "overlay_ok base (a_shown a)"
  shows "\<exists>s. app_call font Hide_status a = Inr (a\<lparr>a_shown := s\<rparr>) \<and> down base s \<and>
    sh_effects s = sh_effects (a_shown a)"
  using hide_screen [OF assms] by (auto simp: app_call_def simp del: do_call.simps)

text \<open>What a completed match does.\<close>

definition action_effects :: "services \<Rightarrow> registry \<Rightarrow> short list \<Rightarrow> effect list" where
  "action_effects sv r seq =
     (case find_action r seq of None \<Rightarrow> [] | Some act \<Rightarrow> device_effects (execute sv act))"

lemma stop_capture_simps [simp]:
  "a_shown (stop_capture a) = a_shown a" "a_registry (stop_capture a) = a_registry a"
  "a_matcher (stop_capture a) = a_matcher a" "\<not> a_capturing (stop_capture a)"
  "a_interval (stop_capture a) = a_interval a" "a_config (stop_capture a) = a_config a"
  "group_ok (a_input a) \<Longrightarrow> group_ok (a_input (stop_capture a))"
  "descriptors (a_input (stop_capture a)) = descriptors (a_input a)"
  "group_grabbed (a_input a) = a_capturing a \<Longrightarrow> \<not> group_grabbed (a_input (stop_capture a))"
  by (simp_all add: stop_capture_def)

lemma start_capture_simps [simp]:
  "a_shown (start_capture a) = a_shown a" "a_registry (start_capture a) = a_registry a"
  "a_matcher (start_capture a) = a_matcher a" "a_capturing (start_capture a)"
  "a_interval (start_capture a) = a_interval a" "a_config (start_capture a) = a_config a"
  "group_ok (a_input a) \<Longrightarrow> group_ok (a_input (start_capture a))"
  "descriptors (a_input (start_capture a)) = descriptors (a_input a)"
  "group_grabbed (a_input a) = a_capturing a \<Longrightarrow> group_grabbed (a_input (start_capture a))"
  by (simp_all add: start_capture_def)

lemma match_done:
  assumes "bar_fits font base" "overlay_ok base (a_shown a)" "sv_notifier sv"
  shows "\<exists>s. handle_completed_match font sv seq a = Inr ((stop_capture a)\<lparr>a_shown := s\<rparr>) \<and> down base s \<and>
    sh_effects s = sh_effects (a_shown a) @ action_effects sv (a_registry a) seq"
proof -
  obtain s1 where s1: "app_call font Hide_status (stop_capture a) = Inr ((stop_capture a)\<lparr>a_shown := s1\<rparr>)"
      "down base s1" "sh_effects s1 = sh_effects (a_shown a)"
    using app_hide [of font base "stop_capture a"] assms(1,2) by auto
  show ?thesis
  proof (cases "find_action (a_registry a) seq")
    case None
    then show ?thesis using s1 by (auto simp: handle_completed_match_def action_effects_def)
  next
    case (Some act)
    obtain s2 where "foldR (do_call font) (execute sv act) s1 = Inr s2" "down base s2"
        "sh_effects s2 = sh_effects s1 @ device_effects (execute sv act)"
      using execute_screen [OF assms(1) s1(2) assms(3)] by blast
    then show ?thesis using s1 Some
      by (auto simp: handle_completed_match_def app_calls action_effects_def)
  qed
qed

lemma ok_parts:
  assumes "app_ok font base a"
  shows "bar_fits font base" "overlay_ok base (a_shown a)" "group_ok (a_input a)" "group_grabbed (a_input a) = a_capturing a"
    "a_capturing a \<Longrightarrow> sb_active (sh_bar (a_shown a))" "m_state (a_matcher a) = Capturing \<Longrightarrow> a_capturing a"
    "matcher_ok (a_matcher a)" "0 < a_interval a" "a_interval a < 2 ^ 32"
  using assms by (simp_all add: app_ok_def)

lemma held_ok: "bar_held base s \<Longrightarrow> overlay_ok base s \<and> sb_active (sh_bar s)"
  by (simp add: overlay_ok_def held_active)

lemma down_ok: "down base s \<Longrightarrow> overlay_ok base s"
  by (simp add: overlay_ok_def)

text \<open>After a completed match the matcher is idle and nothing is captured.\<close>

lemma match_ok:
  assumes "app_ok font base a" "sv_notifier sv" "matcher_ok m" "m_state m = Idle"
  shows "\<exists>s. handle_completed_match font sv seq (a\<lparr>a_matcher := m\<rparr>) = Inr ((stop_capture (a\<lparr>a_matcher := m\<rparr>))\<lparr>a_shown := s\<rparr>) \<and>
    app_ok font base ((stop_capture (a\<lparr>a_matcher := m\<rparr>))\<lparr>a_shown := s\<rparr>) \<and> down base s \<and>
    sh_effects s = sh_effects (a_shown a) @ action_effects sv (a_registry a) seq"
proof -
  let ?a = "a\<lparr>a_matcher := m\<rparr>"
  note p = ok_parts [OF assms(1)]
  obtain s where s: "handle_completed_match font sv seq ?a = Inr ((stop_capture ?a)\<lparr>a_shown := s\<rparr>)" "down base s"
      "sh_effects s = sh_effects (a_shown a) @ action_effects sv (a_registry a) seq"
    using match_done [of font base ?a sv seq] p(1,2) assms(2) by auto
  moreover have "app_ok font base ((stop_capture ?a)\<lparr>a_shown := s\<rparr>)"
    using p assms(3,4) s(2) by (simp add: app_ok_def down_ok)
  ultimately show ?thesis by blast
qed

text \<open>Without a reload in a capture, the application captures exactly while its matcher does, and the bar is
  down otherwise.\<close>

definition in_step :: "kindle_display \<Rightarrow> app \<Rightarrow> bool" where
  "in_step base a = (a_capturing a = (m_state (a_matcher a) = Capturing) \<and> (\<not> a_capturing a \<longrightarrow> down base (a_shown a)))"

text \<open>One event: what becomes of the matcher, the screen and the grab.\<close>

lemma key_event_ok:
  assumes ok: "app_ok font base a" and sv: "sv_notifier sv"
  shows "\<exists>a'. app_key_event font sv ((kc, ty), now) a = Inr a' \<and> app_ok font base a' \<and>
    a_matcher a' = snd (process_key_event (a_config a) kc ty (a_matcher a)) \<and>
    a_registry a' = a_registry a \<and> a_config a' = a_config a \<and> a_interval a' = a_interval a \<and>
    descriptors (a_input a') = descriptors (a_input a) \<and>
    (in_step base a \<longrightarrow> in_step base a') \<and>
    sh_effects (a_shown a') = sh_effects (a_shown a) @
      concat (map (action_effects sv (a_registry a)) (completed [fst (process_key_event (a_config a) kc ty (a_matcher a))])) \<and>
    (m_state (a_matcher a') = Capturing \<longrightarrow> a_last a' = (if ty = Pressed \<or> m_state (a_matcher a) = Idle then now else a_last a))"
proof -
  note p = ok_parts [OF ok]
  obtain r m where rm: "process_key_event (a_config a) kc ty (a_matcher a) = (r, m)" by (cases "process_key_event (a_config a) kc ty (a_matcher a)")
  have m: "matcher_ok m" using matcher_ok_step [OF p(7), of "a_config a" "Key_event kc ty"] rm by simp
  consider (Start) "result_type r = StartCapture" "ty = Released" "m_state (a_matcher a) = Idle" "m_state m = Capturing"
    | (Append) "result_type r = KeyAppended" "ty = Pressed" "m_state (a_matcher a) = Capturing" "m_state m = Capturing"
    | (Complete) "result_type r = SequenceComplete" "m_state m = Idle"
    | (Quiet) "result_type r = None_type" "m_state m = m_state (a_matcher a)"
        "m_state m = Capturing \<longrightarrow> ty = Released"
    using rm by (cases "m_state (a_matcher a)"; cases ty) (auto simp: matcher_defs Let_def split: if_splits)
  then show ?thesis
  proof cases
    case Start
    let ?a = "start_capture (a\<lparr>a_matcher := m\<rparr>)"
    obtain s where s: "app_call font (Show_status ''^[...]'') ?a = Inr (?a\<lparr>a_shown := s\<rparr>)" "bar_held base s"
        "sh_effects s = sh_effects (a_shown a)"
      using app_show [OF p(1), of ?a "''^[...]''"] p(2) by auto
    have "app_ok font base (?a\<lparr>a_shown := s, a_last := now\<rparr>)"
      using p m held_ok [OF s(2)] by (simp add: app_ok_def)
    then show ?thesis using s Start rm by (simp add: app_key_event_def completed_def in_step_def)
  next
    case Append
    let ?a = "a\<lparr>a_matcher := m\<rparr>"
    obtain s where s: "app_call font (Show_status ''^[...]'') ?a = Inr (?a\<lparr>a_shown := s\<rparr>)" "bar_held base s"
        "sh_effects s = sh_effects (a_shown a)"
      using app_show [OF p(1), of ?a "''^[...]''"] p(2) by auto
    have "app_ok font base (?a\<lparr>a_shown := s, a_last := now\<rparr>)"
      using p m held_ok [OF s(2)] Append(3) by (simp add: app_ok_def)
    then show ?thesis using s Append rm by (simp add: app_key_event_def completed_def in_step_def)
  next
    case Complete
    then show ?thesis using match_ok [OF ok sv m Complete(2), of "result_sequence r"] rm
      by (auto simp: app_key_event_def completed_def in_step_def)
  next
    case Quiet
    then show ?thesis using p m rm by (simp add: app_key_event_def completed_def app_ok_def in_step_def)
  qed
qed

end
