(* ===== verification/AppProps.thy ===== *)
theory AppProps
  imports Application
begin

text \<open>
  The application of the rewrite as a machine of rounds and signals: its invariant, that it cannot
  fault, what the timer and a reload do to a capture, and what a hotkey of the user does from the
  first key to the effects of its action.
\<close>

section \<open>The timer\<close>

lemma check_timer_off:
  "\<not> a_capturing a \<or> elapsed now (a_last a) < a_interval a \<Longrightarrow> check_timer font sv now a = Inr a"
  by (auto simp: check_timer_def)

lemma check_timer_due:
  assumes ok: "app_ok font base a" and sv: "sv_notifier sv"
    and due: "a_capturing a" "a_interval a \<le> elapsed now (a_last a)"
  shows "\<exists>a'. check_timer font sv now a = Inr a' \<and> app_ok font base a' \<and> \<not> a_capturing a' \<and> down base (a_shown a') \<and>
    m_state (a_matcher a') = Idle \<and> descriptors (a_input a') = descriptors (a_input a) \<and>
    sh_effects (a_shown a') = sh_effects (a_shown a) @
      (if m_state (a_matcher a) = Capturing then action_effects sv (a_registry a) (m_sequence (a_matcher a)) else [])"
proof (cases "m_state (a_matcher a) = Capturing")
  case True
  define m where "m = (a_matcher a)\<lparr>m_sequence := [], m_state := Idle\<rparr>"
  have "matcher_ok m" "m_state m = Idle"
    using matcher_ok_step [OF ok_parts(7) [OF ok], of "a_config a" Time_out] True by (simp_all add: m_def on_timeout_def)
  from match_ok [OF ok sv this, of "m_sequence (a_matcher a)"] True due
  show ?thesis by (auto simp: check_timer_def on_timeout_def m_def stop_capture_def)
next
  case False
  let ?a = "a\<lparr>a_input := release (a_input a), a_capturing := False\<rparr>"
  have idle: "m_state (a_matcher a) = Idle" using False by (cases "m_state (a_matcher a)") auto
  note p = ok_parts [OF ok]
  obtain s where s: "app_call font Hide_status ?a = Inr (?a\<lparr>a_shown := s\<rparr>)" "down base s" "sh_effects s = sh_effects (a_shown a)"
    using app_hide [OF p(1), of ?a] p(2) by auto
  moreover have "app_ok font base (?a\<lparr>a_shown := s\<rparr>)"
    using p idle s(2) by (simp add: app_ok_def down_ok)
  ultimately show ?thesis using False idle due by (simp add: check_timer_def on_timeout_def no_result_def)
qed

lemma check_timer_ok:
  assumes "app_ok font base a" "sv_notifier sv"
  shows "\<exists>a'. check_timer font sv now a = Inr a' \<and> app_ok font base a' \<and>
    descriptors (a_input a') = descriptors (a_input a)"
  using check_timer_off [of a now font sv] check_timer_due [OF assms, of now] assms(1)
  by (cases "a_capturing a \<and> a_interval a \<le> elapsed now (a_last a)") (auto simp: not_le)

section \<open>The configuration\<close>

lemma get_int_bound: "0 < get_int doc sec k 0 \<Longrightarrow> get_int doc sec k 0 < 2 ^ 31"
  by (auto simp: get_int_def stoi_def Let_def split: option.splits if_splits)

lemma with_setting_interval:
  "(\<And>v s. s_hot_interval (assign v s) = s_hot_interval s) \<Longrightarrow> s_hot_interval (with_setting doc k assign s) = s_hot_interval s"
  by (simp add: with_setting_def split: option.split)

lemma apply_settings_interval:
  assumes "0 < s_hot_interval s" "s_hot_interval s < 2 ^ 32"
  shows "0 < s_hot_interval (apply_settings doc s) \<and> s_hot_interval (apply_settings doc s) < 2 ^ 32"
proof -
  have "nat (get_int doc ''Settings'' ''HotInterval'' 0) < 4294967296" if "0 < get_int doc ''Settings'' ''HotInterval'' 0"
    using get_int_bound [OF that] by simp
  then show ?thesis using assms by (simp add: apply_settings_def Let_def with_setting_interval)
qed

lemma scan_interval:
  "0 < s_hot_interval (scan_settings (scan_directory files es path)) \<and>
   s_hot_interval (scan_settings (scan_directory files es path)) < 2 ^ 32"
proof -
  have "0 < s_hot_interval (scan_settings (fold (scan_file files) ps r)) \<and>
      s_hot_interval (scan_settings (fold (scan_file files) ps r)) < 2 ^ 32"
    if "0 < s_hot_interval (scan_settings r) \<and> s_hot_interval (scan_settings r) < 2 ^ 32" for ps r
    using that
  proof (induction ps arbitrary: r)
    case (Cons p ps)
    have "0 < s_hot_interval (scan_settings (scan_file files p r)) \<and> s_hot_interval (scan_settings (scan_file files p r)) < 2 ^ 32"
      using Cons.prems apply_settings_interval by (simp add: scan_file_def split: option.split)
    from Cons.IH [OF this] show ?case by simp
  qed simp
  then show ?thesis by (simp add: scan_directory_def default_settings_def)
qed

lemma load_simps [simp]:
  "a_matcher (load_configuration dir a) = new_matcher" "a_capturing (load_configuration dir a) = a_capturing a"
  "a_input (load_configuration dir a) = a_input a" "a_shown (load_configuration dir a) = a_shown a"
  "a_last (load_configuration dir a) = a_last a"
  "0 < a_interval (load_configuration dir a)" "a_interval (load_configuration dir a) < 4294967296"
  "a_registry (load_configuration dir a) = load_registry new_key_table (scan_directory (dir_files dir) (dir_entries dir) (dir_path dir))"
  using scan_interval by (simp_all add: load_configuration_def Let_def)

lemma matcher_ok_new [simp]: "matcher_ok new_matcher" "m_state new_matcher = Idle"
  by (simp_all add: matcher_ok_def new_matcher_def)

lemma reload_ok:
  assumes "app_ok font base a"
  shows "\<exists>s. reload_configuration font dir a = Inr ((load_configuration dir a)\<lparr>a_shown := s\<rparr>) \<and> bar_held base s \<and>
    sh_effects s = sh_effects (a_shown a) \<and> app_ok font base ((load_configuration dir a)\<lparr>a_shown := s\<rparr>)"
proof -
  note p = ok_parts [OF assms]
  obtain s where s: "reload_configuration font dir a = Inr ((load_configuration dir a)\<lparr>a_shown := s\<rparr>)" "bar_held base s"
      "sh_effects s = sh_effects (a_shown a)"
    using app_show [OF p(1), of "load_configuration dir a" "''Reloaded''"] p(2) by (auto simp: reload_configuration_def)
  moreover have "app_ok font base ((load_configuration dir a)\<lparr>a_shown := s\<rparr>)"
    using p held_ok [OF s(2)] by (simp add: app_ok_def)
  ultimately show ?thesis by blast
qed

section \<open>Rounds\<close>

lemma events_ok:
  assumes "app_ok font base a" "sv_notifier sv"
  shows "\<exists>a'. foldR (app_key_event font sv) evs a = Inr a' \<and> app_ok font base a' \<and>
    descriptors (a_input a') = descriptors (a_input a)"
proof (rule foldR_total [where P = "\<lambda>b. app_ok font base b \<and> descriptors (a_input b) = descriptors (a_input a)"])
  show "app_ok font base a \<and> descriptors (a_input a) = descriptors (a_input a)" using assms(1) by simp
  fix ev :: "(short \<times> key_event_type) \<times> int" and a1
  assume a1: "app_ok font base a1 \<and> descriptors (a_input a1) = descriptors (a_input a)"
  obtain kc ty now where "ev = ((kc, ty), now)" by (cases ev) auto
  then show "\<exists>a'. app_key_event font sv ev a1 = Inr a' \<and> app_ok font base a' \<and> descriptors (a_input a') = descriptors (a_input a)"
    using key_event_ok [OF conjunct1 [OF a1] assms(2), of kc ty now] a1 by auto
qed

lemma step_ok:
  assumes "app_ok font base a" "sv_notifier sv"
  shows "\<exists>a'. app_step font sv r a = Inr a' \<and> app_ok font base a' \<and> descriptors (a_input a') = descriptors (a_input a)"
proof -
  obtain a1 where a1: "foldR (app_key_event font sv) (timed_events r (a_input a)) a = Inr a1" "app_ok font base a1"
      "descriptors (a_input a1) = descriptors (a_input a)"
    using events_ok [OF assms] by blast
  with check_timer_ok [OF a1(2) assms(2), of "r_now r"] show ?thesis by (auto simp: app_step_def)
qed

lemma happens_ok:
  assumes "app_ok font base a" "sv_notifier sv"
  shows "\<exists>fl' a'. app_happens font sv h (fl, a) = Inr (fl', a') \<and> app_ok font base a' \<and>
    descriptors (a_input a') = descriptors (a_input a)"
proof (cases h)
  case (Signal_comes n)
  then show ?thesis using assms by simp
next
  case (Round r)
  obtain a1 where a1: "reload_configuration font (r_directory r) a = Inr a1" "app_ok font base a1"
      "descriptors (a_input a1) = descriptors (a_input a)"
    using reload_ok [OF assms(1), of "r_directory r"] by auto
  show ?thesis
    using step_ok [OF assms, of r] step_ok [OF a1(2) assms(2), of r] a1 assms(1)
    by (cases "shutdown_requested fl"; cases "reload_requested fl") (auto simp: Round)
qed

definition app_starts :: "8 word list \<Rightarrow> kindle_display \<Rightarrow> signal_flags \<times> app \<Rightarrow> bool" where
  "app_starts font base s = (bar_fits font base \<and> (\<exists>dir g. group_ok g \<and> \<not> group_grabbed g \<and> snd s = new_app dir g base))"

definition app_moves :: "8 word list \<Rightarrow> services \<Rightarrow> signal_flags \<times> app \<Rightarrow> signal_flags \<times> app \<Rightarrow> bool" where
  "app_moves font sv s s' = (sv_notifier sv \<and> (\<exists>h. app_happens font sv h s = Inr s'))"

lemma new_app_ok: "bar_fits font base \<Longrightarrow> group_ok g \<Longrightarrow> \<not> group_grabbed g \<Longrightarrow> app_ok font base (new_app dir g base)"
  by (simp add: app_ok_def new_app_def overlay_ok_def down_def same_size_def bar_fits_def)

interpretation application: machine "app_starts font base" "app_moves font sv" "\<lambda>s. app_ok font base (snd s)"
proof
  show "app_ok font base (snd s)" if "app_starts font base s" for s
    using that new_app_ok by (auto simp: app_starts_def)
  fix s s' assume ok: "app_ok font base (snd s)" and "app_moves font sv s s'"
  then obtain h where h: "sv_notifier sv" "app_happens font sv h (fst s, snd s) = Inr s'"
    by (auto simp: app_moves_def)
  then show "app_ok font base (snd s')" using happens_ok [OF ok h(1), of h "fst s"] by auto
qed

lemma run_reach:
  assumes "sv_notifier sv"
  shows "reach (app_starts font base) (app_moves font sv) s \<Longrightarrow>
    \<exists>s'. app_run font sv hs s = Inr s' \<and> reach (app_starts font base) (app_moves font sv) s'"
proof (induction hs arbitrary: s)
  case Nil
  then show ?case by (simp add: app_run_def)
next
  case (Cons h hs)
  obtain fl a where s: "s = (fl, a)" by (cases s)
  have "app_ok font base a" using application.reach_inv [OF Cons.prems] by (simp add: s)
  from happens_ok [OF this assms, of h fl]
  obtain s1 where s1: "app_happens font sv h s = Inr s1" by (auto simp: s)
  then have "app_moves font sv s s1" using assms by (auto simp: app_moves_def)
  with Cons.prems have "reach (app_starts font base) (app_moves font sv) s1" by (rule reach_step)
  from Cons.IH [OF this] s1 show ?case by (simp add: app_run_def)
qed

lemma app_services_notifier [simp]: "sv_notifier (app_services runner ki)"
  by (simp add: app_services_def)

lemma app_start:
  "bar_fits font display \<Longrightarrow> app_starts font display (fl, new_app dir (open_devices op paths) display)"
  unfolding app_starts_def snd_conv using group_ok_open [of op paths]
  by (intro conjI exI [of _ dir] exI [of _ "open_devices op paths"]) (simp_all add: open_devices_def)

lemma run_ok:
  assumes "bar_fits font display" "sv_notifier sv"
  shows "\<exists>fl' a. app_run font sv hs (fl, new_app dir (open_devices op paths) display) = Inr (fl', a) \<and> app_ok font display a"
proof -
  from run_reach [OF assms(2) reach_init [of "app_starts font display", OF app_start [OF assms(1)]], of hs fl dir op paths]
  obtain fl' a where "app_run font sv hs (fl, new_app dir (open_devices op paths) display) = Inr (fl', a)"
      "reach (app_starts font display) (app_moves font sv) (fl', a)" by auto
  with application.reach_inv [OF this(2)] show ?thesis by auto
qed

lemma reached_ok:
  "bar_fits font display \<Longrightarrow> sv_notifier sv \<Longrightarrow>
   app_run font sv hs (fl, new_app dir (open_devices op paths) display) = Inr (fl', a) \<Longrightarrow> app_ok font display a"
  using run_ok [of font display sv hs fl dir op paths] by auto

lemma down_pixels: "bar_fits font base \<Longrightarrow> down base s \<Longrightarrow> get_pixel (sh_display s) x y = get_pixel base x y"
  using get_pixel_pixel [of base x y] get_pixel_pixel [of "sh_display s" x y] by (simp add: bar_fits_def down_def)

lemma ok_grabbed:
  "app_ok font base a \<Longrightarrow> grabbed (ev_ioctls (a_input a)) fd = (a_capturing a \<and> fd \<in> set (descriptors (a_input a)))"
  using ok_parts(3,4) by (simp add: group_ok_def)

text \<open>The descriptors stay what they were when the devices were opened.\<close>

lemma run_descriptors:
  assumes "sv_notifier sv"
  shows "app_ok font base a \<Longrightarrow> app_run font sv hs (fl, a) = Inr (fl', a') \<Longrightarrow> descriptors (a_input a') = descriptors (a_input a)"
proof (induction hs arbitrary: fl a)
  case (Cons h hs)
  obtain fl1 a1 where a1: "app_happens font sv h (fl, a) = Inr (fl1, a1)" "app_ok font base a1"
      "descriptors (a_input a1) = descriptors (a_input a)"
    using happens_ok [OF Cons.prems(1) assms, of h fl] by blast
  with Cons.IH [OF a1(2)] Cons.prems(2) show ?case by (simp add: app_run_def)
qed (simp add: app_run_def)

section \<open>The application follows its matcher\<close>

definition inputs :: "((short \<times> key_event_type) \<times> int) list \<Rightarrow> match_input list" where
  "inputs evs = map (\<lambda>((kc, ty), now). Key_event kc ty) evs"

text \<open>The time of the last press.\<close>

definition press_time :: "((short \<times> key_event_type) \<times> int) list \<Rightarrow> int \<Rightarrow> int" where
  "press_time evs t = fold (\<lambda>((kc, ty), now) t. if ty = Pressed then now else t) evs t"

lemma press_time_simps [simp]:
  "press_time [] t = t" "press_time (((kc, ty), now) # evs) t = press_time evs (if ty = Pressed then now else t)"
  by (simp_all add: press_time_def)

lemma inputs_simps [simp]:
  "inputs [] = []" "inputs (((kc, ty), now) # evs) = Key_event kc ty # inputs evs" "inputs (evs @ evs') = inputs evs @ inputs evs'"
  by (simp_all add: inputs_def)

text \<open>From a to a' the matcher reads the inputs and the completed sequences run their actions.\<close>

definition follows :: "8 word list \<Rightarrow> kindle_display \<Rightarrow> services \<Rightarrow> app \<Rightarrow> match_input list \<Rightarrow> app \<Rightarrow> bool" where
  "follows font base sv a is a' = (app_ok font base a' \<and> in_step base a' \<and> a_registry a' = a_registry a \<and>
     a_config a' = a_config a \<and> a_interval a' = a_interval a \<and> descriptors (a_input a') = descriptors (a_input a) \<and>
     a_matcher a' = snd (matcher_run (a_config a) is (a_matcher a)) \<and>
     sh_effects (a_shown a') = sh_effects (a_shown a) @
       concat (map (action_effects sv (a_registry a)) (completed (fst (matcher_run (a_config a) is (a_matcher a))))))"

lemma follows_trans: "follows font base sv a is a1 \<Longrightarrow> follows font base sv a1 js a2 \<Longrightarrow> follows font base sv a (is @ js) a2"
  by (simp add: follows_def matcher_run_append split: prod.splits)

lemma follows_refl: "app_ok font base a \<Longrightarrow> in_step base a \<Longrightarrow> follows font base sv a [] a"
  by (simp add: follows_def completed_def)

lemma event_follows:
  assumes "app_ok font base a" "in_step base a" "sv_notifier sv"
  shows "\<exists>a'. app_key_event font sv ((kc, ty), now) a = Inr a' \<and> follows font base sv a [Key_event kc ty] a' \<and>
    (m_state (a_matcher a') = Capturing \<longrightarrow> a_last a' = (if ty = Pressed \<or> m_state (a_matcher a) = Idle then now else a_last a))"
  using key_event_ok [OF assms(1,3), of kc ty now] assms(2)
  by (auto simp: follows_def in_step_def matcher_run_Cons simp del: matcher_run.simps(2))

lemma events_follow:
  "app_ok font base a \<Longrightarrow> in_step base a \<Longrightarrow> sv_notifier sv \<Longrightarrow> p \<le> c \<Longrightarrow> sorted (c # map snd evs @ [u]) \<Longrightarrow>
   (m_state (a_matcher a) = Capturing \<longrightarrow> p \<le> a_last a \<and> a_last a \<le> c) \<Longrightarrow>
   \<exists>a'. foldR (app_key_event font sv) evs a = Inr a' \<and> follows font base sv a (inputs evs) a' \<and>
     (m_state (a_matcher a') = Capturing \<longrightarrow> press_time evs p \<le> a_last a' \<and> a_last a' \<le> u)"
proof (induction evs arbitrary: a p c)
  case Nil
  then show ?case by (auto simp: follows_refl)
next
  case (Cons ev evs)
  obtain kc ty now where ev: "ev = ((kc, ty), now)" by (cases ev) auto
  obtain a1 where a1: "app_key_event font sv ev a = Inr a1" "follows font base sv a [Key_event kc ty] a1"
      "m_state (a_matcher a1) = Capturing \<longrightarrow> a_last a1 = (if ty = Pressed \<or> m_state (a_matcher a) = Idle then now else a_last a)"
    using event_follows [OF Cons.prems(1-3), of kc ty now] unfolding ev by blast
  have ok1: "app_ok font base a1" "in_step base a1" using a1(2) by (simp_all add: follows_def)
  let ?p = "if ty = Pressed then now else p"
  have t: "c \<le> now" "sorted (now # map snd evs @ [u])" "?p \<le> now" using Cons.prems(4,5) by (auto simp: ev)
  have "m_state (a_matcher a1) = Capturing \<longrightarrow> ?p \<le> a_last a1 \<and> a_last a1 \<le> now"
    using a1(3) t(1) Cons.prems(4,6) by (cases "m_state (a_matcher a)") auto
  from Cons.IH [OF ok1 Cons.prems(3) t(3,2) this]
  obtain a' where a': "foldR (app_key_event font sv) evs a1 = Inr a'" "follows font base sv a1 (inputs evs) a'"
      "m_state (a_matcher a') = Capturing \<longrightarrow> press_time evs ?p \<le> a_last a' \<and> a_last a' \<le> u" by blast
  have "follows font base sv a (inputs (ev # evs)) a'"
    using follows_trans [OF a1(2) a'(2)] by (simp add: ev)
  with a1(1) a'(1,3) show ?case by (simp add: ev)
qed

text \<open>Rounds in pace: at each reading of the timer the last press (at p, before the rounds) is less than h
  milliseconds old. The clock (last read at c) never goes back.\<close>

fun in_pace :: "nat \<Rightarrow> device_group \<Rightarrow> int \<Rightarrow> int \<Rightarrow> round list \<Rightarrow> bool" where
  "in_pace h g p c [] = (p \<le> c)"
| "in_pace h g p c (r # rs) =
     (p \<le> c \<and> sorted (c # map snd (timed_events r g) @ [r_now r]) \<and>
      r_now r - press_time (timed_events r g) p < int h * 1000000 \<and>
      in_pace h g (press_time (timed_events r g) p) (r_now r) rs)"

definition round_events :: "round list \<Rightarrow> device_group \<Rightarrow> ((short \<times> key_event_type) \<times> int) list" where
  "round_events rs g = concat (map (\<lambda>r. timed_events r g) rs)"

lemma timed_events_cong: "descriptors g = descriptors g' \<Longrightarrow> timed_events r g = timed_events r g'"
  by (simp add: timed_events_def poll_events_def)

lemma elapsed_less: "last_time \<le> now \<Longrightarrow> now - last_time < int h * 1000000 \<Longrightarrow> h < 2 ^ 32 \<Longrightarrow> elapsed now last_time < h"
proof -
  assume a: "last_time \<le> now" "now - last_time < int h * 1000000" "h < 2 ^ 32"
  let ?q = "(now - last_time) div 1000000"
  have "0 \<le> ?q" "?q < int h" using a(1,2) by (simp_all add: pos_imp_zdiv_nonneg_iff div_less_iff_less_mult)
  moreover from this have "?q mod 2 ^ 32 = ?q" using a(3) by (intro mod_pos_pos_trivial) auto
  moreover have "(now - last_time) sdiv 1000000 = ?q" using a(1) by (auto simp: signed_divide_int_def sgn_if)
  ultimately show ?thesis by (simp add: elapsed_def nat_less_iff)
qed

lemma steps_follow:
  "app_ok font base a \<Longrightarrow> in_step base a \<Longrightarrow> sv_notifier sv \<Longrightarrow> descriptors (a_input a) = descriptors g \<Longrightarrow>
   in_pace (a_interval a) g p c rs \<Longrightarrow> (m_state (a_matcher a) = Capturing \<longrightarrow> p \<le> a_last a \<and> a_last a \<le> c) \<Longrightarrow>
   \<exists>a'. foldR (app_step font sv) rs a = Inr a' \<and> follows font base sv a (inputs (round_events rs g)) a'"
proof (induction rs arbitrary: a p c)
  case Nil
  then show ?case by (simp add: round_events_def follows_refl)
next
  case (Cons r rs)
  let ?evs = "timed_events r g"
  have pace: "p \<le> c" "sorted (c # map snd ?evs @ [r_now r])" "r_now r - press_time ?evs p < int (a_interval a) * 1000000"
      "in_pace (a_interval a) g (press_time ?evs p) (r_now r) rs"
    using Cons.prems(5) by simp_all
  obtain a1 where a1: "foldR (app_key_event font sv) ?evs a = Inr a1" "follows font base sv a (inputs ?evs) a1"
      "m_state (a_matcher a1) = Capturing \<longrightarrow> press_time ?evs p \<le> a_last a1 \<and> a_last a1 \<le> r_now r"
    using events_follow [OF Cons.prems(1-3) pace(1,2) Cons.prems(6)] by blast
  have ok1: "app_ok font base a1" "in_step base a1" "a_interval a1 = a_interval a" "descriptors (a_input a1) = descriptors g"
    using a1(2) Cons.prems(4) by (simp_all add: follows_def)
  have "a_capturing a1 \<longrightarrow> elapsed (r_now r) (a_last a1) < a_interval a1"
    using a1(3) ok1 pace(3) elapsed_less [of "a_last a1" "r_now r" "a_interval a1"] ok_parts(9) [OF ok1(1)]
    by (auto simp: in_step_def)
  then have step: "app_step font sv r a = Inr a1"
    using a1(1) check_timer_off [of a1 "r_now r" font sv] timed_events_cong [OF Cons.prems(4), of r]
    by (auto simp: app_step_def)
  obtain a' where "foldR (app_step font sv) rs a1 = Inr a'" "follows font base sv a1 (inputs (round_events rs g)) a'"
    using Cons.IH [OF ok1(1,2) Cons.prems(3) ok1(4) _ a1(3)] pace(4) ok1(3) by auto
  moreover from follows_trans [OF a1(2) this(2)]
  have "follows font base sv a (inputs (round_events (r # rs) g)) a'" by (simp add: round_events_def)
  ultimately show ?case using step by auto
qed

lemma run_rounds:
  "\<not> shutdown_requested fl \<Longrightarrow> \<not> reload_requested fl \<Longrightarrow>
   app_run font sv (map Round rs) (fl, a) = mapR (\<lambda>a. (fl, a)) (foldR (app_step font sv) rs a)"
proof (induction rs arbitrary: a)
  case (Cons r rs)
  then show ?case by (cases "app_step font sv r a") (simp_all add: app_run_def)
qed (simp add: app_run_def)

lemma find_loaded:
  "find_action (load_registry t sc) seq = (if seq = screenshot_sequence
     then Some \<lparr>display_name = ''[Screenshot]'', payload = ScreenshotAction\<rparr>
     else map_option (\<lambda>e. parse_command (entry_value e) (entry_key e) (script_directory (scan_settings sc)))
       (find (entry_binds t seq) (scan_actions sc)))"
  by (simp add: find_action_def load_registry_def fold_register_lookup)

lemma new_app_in_step: "bar_fits font display \<Longrightarrow> in_step display (new_app dir g display)"
  by (simp add: in_step_def new_app_def down_def same_size_def bar_fits_def)

lemma new_app_simps [simp]:
  "a_input (new_app dir g display) = g" "a_matcher (new_app dir g display) = new_matcher"
  "a_registry (new_app dir g display) = load_registry new_key_table (scan_directory (dir_files dir) (dir_entries dir) (dir_path dir))"
  "sh_effects (a_shown (new_app dir g display)) = []"
  by (simp_all add: new_app_def)

lemma new_app_table: "m_key_table (a_config (new_app dir g display)) = Some new_key_table"
  by (simp add: new_app_def load_configuration_def Let_def)

lemma app_follows:
  assumes "bar_fits font display" "sv_notifier sv" "\<not> shutdown_requested fl" "\<not> reload_requested fl"
    and g: "g = open_devices op paths" and a: "a = new_app dir g display" and pace: "in_pace (a_interval a) g p c rs"
  shows "\<exists>a'. app_run font sv (map Round rs) (fl, a) = Inr (fl, a') \<and> follows font display sv a (inputs (round_events rs g)) a'"
proof -
  have "\<not> group_grabbed g" by (simp add: g open_devices_def)
  then have "app_ok font display a" "in_step display a" "descriptors (a_input a) = descriptors g"
    using assms(1) new_app_ok [of font display g] new_app_in_step [OF assms(1)] by (simp_all add: a g)
  moreover have "m_state (a_matcher a) = Capturing \<longrightarrow> p \<le> a_last a \<and> a_last a \<le> c" by (simp add: a)
  ultimately obtain a' where "foldR (app_step font sv) rs a = Inr a'" "follows font display sv a (inputs (round_events rs g)) a'"
    using steps_follow [OF _ _ assms(2) _ pace] by blast
  then show ?thesis using run_rounds [OF assms(3,4)] by simp
qed

end
