(* ===== verification/AppRun.thy ===== *)
theory AppRun
  imports AppProps
begin

text \<open>
  The properties of the rewrite's application (src/src/system/application.cpp), with a small screen,
  one configuration file and one keyboard to apply them to.
\<close>

section \<open>A sample application\<close>

definition sample_directory :: directory where
  "sample_directory = \<lparr>dir_path = ''/d'', dir_entries = Some [''a.ini''],
     dir_files = [''/d/a.ini'' \<mapsto> ''[Actions]'' @ [LF] @ ''A = !ls'' @ [LF]]\<rparr>"

lemma sample_scan:
  "scan_directory (dir_files sample_directory) (dir_entries sample_directory) (dir_path sample_directory) =
     \<lparr>scan_settings = default_settings, scan_actions = [\<lparr>entry_key = ''A'', entry_value = ''!ls''\<rparr>]\<rparr>"
  by code_simp

lemma sample_names:
  "find_code new_key_table ''Shift'' = Some KPKEY_SHIFT_c" "find_code new_key_table ''Enter'' = Some KPKEY_ENTER_c"
  "find_code new_key_table ''A'' = Some KPKEY_A_c"
  unfolding new_table_names by code_simp+

definition sample_app :: app where
  "sample_app = new_app sample_directory (open_devices (\<lambda>p. 3) [''k'']) small_display"

lemma sample_app_config:
  "a_config sample_app = \<lparr>m_introducer = KPKEY_SHIFT_c, m_trailer = KPKEY_ENTER_c, m_key_table = Some new_key_table\<rparr>"
  "a_interval sample_app = 700" 
  by (simp_all add: sample_app_def new_app_def load_configuration_def sample_scan default_settings_def sample_names)

lemma sample_binds: "find (entry_binds new_key_table [KPKEY_A_c]) [\<lparr>entry_key = ''A'', entry_value = ''!ls''\<rparr>] =
    Some \<lparr>entry_key = ''A'', entry_value = ''!ls''\<rparr>"
proof -
  have "stream_words ''A'' = [''A'']" by code_simp
  then show ?thesis by (simp add: entry_binds_def parse_sequence_def sample_names)
qed

definition key_round :: "(int \<times> int) list \<Rightarrow> round" where
  "key_round ks = \<lparr>r_poll = \<lparr>poll_rc = 1, poll_in = (\<lambda>fd. True),
       poll_data = (\<lambda>fd. Some (map (\<lambda>(kc, v). \<lparr>ev_type = EV_KEY, ev_code = kc, ev_value = v\<rparr>) ks))\<rparr>,
     r_clock = (\<lambda>i. int i * 1000000), r_now = 9000000, r_directory = sample_directory\<rparr>"

lemma key_round_events:
  "timed_events (key_round ks) (open_devices (\<lambda>p. 3) [''k'']) =
     map (\<lambda>(i, kc, v). ((word_of_int kc, if v = 1 then Pressed else Released), int i * 1000000))
       (enumerate 0 (filter (\<lambda>(kc, v). v \<noteq> 2) (take 8 ks)))"
proof -
  have "concat (map key_event (map (\<lambda>(kc, v). \<lparr>ev_type = EV_KEY, ev_code = kc, ev_value = v\<rparr>) js)) =
      map (\<lambda>(kc, v). (word_of_int kc, if v = 1 then Pressed else Released)) (filter (\<lambda>(kc, v). v \<noteq> 2) js)" for js
    by (induction js) (auto simp: key_event_def)
  then show ?thesis
    by (simp add: timed_events_def key_round_def open_devices_def poll_events_def read_events_from_fd_def take_map
        enumerate_map_upt case_prod_beta comp_def enumerate_eq_zip zip_map2)
qed

text \<open>A tap on Shift, one on A, and the press of Enter; and the tap on Shift alone.\<close>

definition sample_hotkey_round :: round where
  "sample_hotkey_round = key_round [(42, 1), (42, 0), (30, 1), (30, 0), (28, 1)]"

definition capture_round :: round where
  "capture_round = key_round [(42, 1), (42, 0)]"

abbreviation sample_input :: device_group where "sample_input \<equiv> open_devices (\<lambda>p. 3) [''k'']"
abbreviation sample_font :: "8 word list" where "sample_font \<equiv> replicate (256 * BYTES_PER_GLYPH) 0"
abbreviation no_signal :: signal_flags where "no_signal \<equiv> \<lparr>shutdown_requested = False, reload_requested = False\<rparr>"
abbreviation sample_services_app :: services where
  "sample_services_app \<equiv> app_services (\<lambda>cmd. 0) \<lparr>keypad_fd = 3, fiveway_fd = 4\<rparr>"

lemma sample_rounds:
  "inputs (round_events [sample_hotkey_round] sample_input) = tap_key KPKEY_SHIFT_c @ concat (map tap_key [KPKEY_A_c]) @ [Key_event KPKEY_ENTER_c Pressed]"
  "inputs (round_events [capture_round] sample_input) = tap_key KPKEY_SHIFT_c"
  "in_pace 700 sample_input 0 0 [sample_hotkey_round]" "in_pace 700 sample_input 0 0 [capture_round]"
  unfolding sample_hotkey_round_def capture_round_def
  by (simp_all add: round_events_def key_round_events tap_key_def raw_codes) (simp_all add: key_round_def)

lemma sample_pace:
  "in_pace (a_interval sample_app) sample_input 0 0 [sample_hotkey_round]" "in_pace (a_interval sample_app) sample_input 0 0 [capture_round]"
  unfolding sample_app_config by (rule sample_rounds(3), rule sample_rounds(4))

lemma small_fits: "bar_fits sample_font small_display"
  using sample_fits by (simp add: sample_shown_def)

lemma sample_app_input: "descriptors (a_input sample_app) = [3]"
  by (simp add: sample_app_def open_devices_def)

text \<open>The state in the capture.\<close>

lemma sample_capture:
  "\<exists>a. app_run sample_font sample_services_app [Round capture_round] (no_signal, sample_app) = Inr (no_signal, a) \<and>
    a_capturing a \<and> m_state (a_matcher a) = Capturing \<and> descriptors (a_input a) = [3] \<and> a_interval a = 700 \<and>
    sh_effects (a_shown a) = []"
proof -
  obtain a where run: "app_run sample_font sample_services_app (map Round [capture_round]) (no_signal, sample_app) = Inr (no_signal, a)"
      and fol: "follows sample_font small_display sample_services_app sample_app (inputs (round_events [capture_round] sample_input)) a"
    using app_follows [OF small_fits app_services_notifier _ _ refl sample_app_def sample_pace(2), of no_signal] by auto
  obtain rs m where m: "matcher_run (a_config sample_app) (tap_key (m_introducer (a_config sample_app))) new_matcher = (rs, m)"
      "completed rs = []" "capturing m []"
    using run_introducer [of new_matcher "a_config sample_app"] by (auto simp: new_matcher_def)
  have "m_introducer (a_config sample_app) = KPKEY_SHIFT_c" "a_matcher sample_app = new_matcher"
      "sh_effects (a_shown sample_app) = []"
    by (simp_all add: sample_app_config) (simp_all add: sample_app_def)
  with fol m run show ?thesis
    by (auto simp: follows_def in_step_def sample_rounds capturing_def sample_app_config sample_app_input)
qed

definition silent_round :: "int \<Rightarrow> round" where
  "silent_round now = (key_round [])\<lparr>r_now := now\<rparr>"

lemma silent_events: "timed_events (silent_round now) g = []"
proof -
  have "concat (map (\<lambda>fd. []) fds) = []" for fds :: "int list" by (induction fds) simp_all
  then have "poll_events (r_poll (silent_round now)) g = []"
    unfolding silent_round_def key_round_def poll_events_def read_events_from_fd_def by simp
  then show ?thesis by (simp add: timed_events_def)
qed

text \<open>What the sequence of an entry does.\<close>

lemma rounds_run_hotkey:
  assumes "bar_fits font display" and "\<not> shutdown_requested fl" and "\<not> reload_requested fl"
    and "g = open_devices op paths" and "a = new_app dir g display" and "in_pace (a_interval a) g p c rs"
    and "scanned = scan_directory (dir_files dir) (dir_entries dir) (dir_path dir)"
    and "find (entry_binds new_key_table seq) (scan_actions scanned) = Some e" and "seq \<noteq> screenshot_sequence"
    and "map get_substitute_code ks = seq" and "m_trailer (a_config a) \<notin> set ks"
    and "inputs (round_events rs g) = tap_key (m_introducer (a_config a)) @ concat (map tap_key ks) @
      [Key_event (m_trailer (a_config a)) Pressed]"
  shows "\<exists>a'. app_run font (app_services runner ki) (map Round rs) (fl, a) = Inr (fl, a') \<and>
    sh_effects (a_shown a') = device_effects (execute (app_services runner ki)
      (parse_command (entry_value e) (entry_key e) (script_directory (scan_settings scanned)))) \<and>
    (\<forall>fd. \<not> grabbed (ev_ioctls (a_input a')) fd) \<and>
    (\<forall>x y. get_pixel (sh_display (a_shown a')) x y = get_pixel display x y)"
proof -
  let ?sv = "app_services runner ki"
  obtain a' where run: "app_run font ?sv (map Round rs) (fl, a) = Inr (fl, a')"
      and fol: "follows font display ?sv a (inputs (round_events rs g)) a'"
    using app_follows [OF assms(1) app_services_notifier assms(2-6)] by blast
  obtain results m where m: "matcher_run (a_config a) (inputs (round_events rs g)) new_matcher = (results, m)"
      "completed results = [map (substitute_code (a_config a)) ks]" "m_state m = Idle"
    using run_round [of new_matcher "a_config a" ks] assms(11) unfolding assms(12) by (auto simp: new_matcher_def)
  have "map (substitute_code (a_config a)) ks = seq"
    using assms(10) new_app_table by (auto simp: assms(5) substitute_code_def)
  then have "action_effects ?sv (a_registry a) (map (substitute_code (a_config a)) ks) =
      device_effects (execute ?sv (parse_command (entry_value e) (entry_key e) (script_directory (scan_settings scanned))))"
    using assms(8,9) by (simp add: action_effects_def assms(5) find_loaded assms(7) [symmetric])
  moreover have "\<not> a_capturing a'" "app_ok font display a'" "down display (a_shown a')"
    using fol m by (simp_all add: follows_def in_step_def assms(5))
  ultimately show ?thesis
    using run fol m ok_grabbed down_pixels [OF assms(1)] by (auto simp: follows_def assms(5))
qed

section \<open>Properties\<close>

text \<open>C5: The application is safe whatever happens: from its start on a screen the bar fits on, any
  signals, reloads, key events and clock readings keep every access inside the framebuffer and the
  font; the devices are grabbed exactly while is\_capturing is set; the matcher captures only while
  they are; during a capture the bar is up; and while the bar is down every pixel is what it was
  when the application started.\<close>
theorem application_safe:
  assumes "bar_fits font display"
  shows "\<exists>fl' a. app_run font (app_services runner ki) hs (fl, new_app dir (open_devices op paths) display) = Inr (fl', a) \<and>
    (\<forall>fd. grabbed (ev_ioctls (a_input a)) fd = (a_capturing a \<and> fd \<in> set (descriptors (a_input a)))) \<and>
    (m_state (a_matcher a) = Capturing \<longrightarrow> a_capturing a) \<and> (a_capturing a \<longrightarrow> sb_active (sh_bar (a_shown a))) \<and>
    (sb_active (sh_bar (a_shown a)) \<or> (\<forall>x y. get_pixel (sh_display (a_shown a)) x y = get_pixel display x y))"
proof -
  obtain fl' a where run: "app_run font (app_services runner ki) hs (fl, new_app dir (open_devices op paths) display) = Inr (fl', a)"
      and ok: "app_ok font display a"
    using run_ok [OF assms app_services_notifier] by blast
  have "sb_active (sh_bar (a_shown a)) \<or> (\<forall>x y. get_pixel (sh_display (a_shown a)) x y = get_pixel display x y)"
    using ok_parts(2) [OF ok] held_active down_pixels [OF assms] by (auto simp: overlay_ok_def)
  with run ok_parts(5,6) [OF ok] ok_grabbed [OF ok] show ?thesis by blast
qed

theorem application_safe_witness:
  "\<exists>fl a. app_run sample_font sample_services_app [Signal_comes SIGHUP, Round sample_hotkey_round, Signal_comes SIGTERM] (no_signal, sample_app) =
      Inr (fl, a) \<and> (\<forall>fd. grabbed (ev_ioctls (a_input a)) fd = (a_capturing a \<and> fd \<in> set (descriptors (a_input a))))"
  using application_safe [OF small_fits, of "\<lambda>cmd. 0" "\<lparr>keypad_fd = 3, fiveway_fd = 4\<rparr>"
      "[Signal_comes SIGHUP, Round sample_hotkey_round, Signal_comes SIGTERM]" no_signal sample_directory "\<lambda>p. 3" "[''k'']"]
  unfolding sample_app_def by blast

text \<open>C8: The application does what its matcher says: while the timer never comes due between two keys, in
  any number of rounds and whatever events a round brings, the matcher reads exactly the events of
  the devices in their order, and the effects on the devices are those of the actions the registry
  finds for the sequences the matcher completes, in their order, and no others.\<close>
theorem application_follows_matcher:
  assumes "bar_fits font display" and "\<not> shutdown_requested fl" and "\<not> reload_requested fl"
    and "g = open_devices op paths" and "a = new_app dir g display" and "in_pace (a_interval a) g p c rs"
    and "matcher_run (a_config a) (inputs (round_events rs g)) new_matcher = (results, m)"
  shows "\<exists>a'. app_run font (app_services runner ki) (map Round rs) (fl, a) = Inr (fl, a') \<and> a_matcher a' = m \<and>
    a_capturing a' = (m_state m = Capturing) \<and>
    sh_effects (a_shown a') = concat (map (action_effects (app_services runner ki) (a_registry a)) (completed results))"
proof -
  obtain a' where run: "app_run font (app_services runner ki) (map Round rs) (fl, a) = Inr (fl, a')"
      and fol: "follows font display (app_services runner ki) a (inputs (round_events rs g)) a'"
    using app_follows [OF assms(1) app_services_notifier assms(2-6)] by blast
  from fol assms(5,7) show ?thesis by (intro exI [of _ a'] conjI run) (simp_all add: follows_def in_step_def)
qed

theorem application_follows_matcher_witness:
  "\<exists>a. app_run sample_font sample_services_app [Round capture_round] (no_signal, sample_app) = Inr (no_signal, a) \<and>
    a_capturing a \<and> sh_effects (a_shown a) = []"
proof -
  obtain rs m where m: "matcher_run (a_config sample_app) (tap_key (m_introducer (a_config sample_app))) new_matcher = (rs, m)"
      "completed rs = []" "capturing m []"
    using run_introducer [of new_matcher "a_config sample_app"] by (auto simp: new_matcher_def)
  then have "matcher_run (a_config sample_app) (inputs (round_events [capture_round] sample_input)) new_matcher = (rs, m)"
    by (simp add: sample_rounds sample_app_config)
  from application_follows_matcher [OF small_fits _ _ refl sample_app_def sample_pace(2) this,
      of no_signal "\<lambda>cmd. 0" "\<lparr>keypad_fd = 3, fiveway_fd = 4\<rparr>"] m
  show ?thesis by (auto simp: capturing_def)
qed



text \<open>C19: A capture ends: in any state the application reaches, if devices are grabbed, the first round
  without key events after the interval releases them all, takes the bar down and restores the
  screen; and when the matcher is capturing, the action of the keys collected so far is run. This is
  what on\_timeout and check\_timer do and what the C program does, but not what is documented:
  sequence\_matcher.hpp, config-schema.md, overview.md and domain.md say that a timeout cancels the
  sequence, so that no action would run. (With an interval of zero the C program never releases the
  devices by itself; here the interval is positive whatever the files say.)\<close>
theorem capture_times_out:
  assumes "bar_fits font display" and "app_run font (app_services runner ki) hs (fl0, new_app dir (open_devices op paths) display) = Inr (fl, a)"
    and "a_capturing a" and "\<not> shutdown_requested fl" and "\<not> reload_requested fl"
    and "timed_events r (a_input a) = []" and "a_interval a \<le> elapsed (r_now r) (a_last a)"
  shows "\<exists>a'. app_run font (app_services runner ki) [Round r] (fl, a) = Inr (fl, a') \<and>
    (\<forall>fd. \<not> grabbed (ev_ioctls (a_input a')) fd) \<and> m_state (a_matcher a') = Idle \<and>
    (\<forall>x y. get_pixel (sh_display (a_shown a')) x y = get_pixel display x y) \<and>
    sh_effects (a_shown a') = sh_effects (a_shown a) @ (if m_state (a_matcher a) = Capturing
      then action_effects (app_services runner ki) (a_registry a) (m_sequence (a_matcher a)) else []) \<and> 0 < a_interval a"
proof -
  let ?sv = "app_services runner ki"
  have ok: "app_ok font display a" using reached_ok [OF assms(1) app_services_notifier assms(2)] .
  obtain a' where a': "check_timer font ?sv (r_now r) a = Inr a'" "app_ok font display a'" "\<not> a_capturing a'"
      "down display (a_shown a')" "m_state (a_matcher a') = Idle"
      "sh_effects (a_shown a') = sh_effects (a_shown a) @
        (if m_state (a_matcher a) = Capturing then action_effects ?sv (a_registry a) (m_sequence (a_matcher a)) else [])"
    using check_timer_due [OF ok app_services_notifier assms(3,7)] by blast
  have "app_run font ?sv [Round r] (fl, a) = Inr (fl, a')"
    using run_rounds [OF assms(4,5), of font ?sv "[r]" a] a'(1) assms(6) by (simp add: app_step_def)
  then show ?thesis
    using a'(3,5,6) down_pixels [OF assms(1) a'(4)] ok_grabbed [OF a'(2)] ok_parts(8) [OF ok] by (intro exI [of _ a']) simp
qed

theorem capture_times_out_witness:
  "\<exists>a r a'. a_capturing a \<and> app_run sample_font sample_services_app [Round r] (no_signal, a) = Inr (no_signal, a') \<and>
    (\<forall>fd. \<not> grabbed (ev_ioctls (a_input a')) fd)"
proof -
  obtain a where a: "app_run sample_font sample_services_app [Round capture_round]
      (no_signal, new_app sample_directory sample_input small_display) = Inr (no_signal, a)" "a_capturing a" "a_interval a = 700"
    using sample_capture unfolding sample_app_def by blast
  let ?r = "silent_round (a_last a + 700000000)"
  have "a_interval a \<le> elapsed (r_now ?r) (a_last a)" using a(3) by (simp add: elapsed_def silent_round_def)
  from capture_times_out [OF small_fits a(1,2) _ _ silent_events this]
  obtain a' where "app_run sample_font sample_services_app [Round ?r] (no_signal, a) = Inr (no_signal, a')"
      "\<forall>fd. \<not> grabbed (ev_ioctls (a_input a')) fd" by auto
  with a(2) show ?thesis by blast
qed

text \<open>C22: A reload in the middle of a capture loses the sequence and leaves the keyboard dead: after SIGHUP
  the next round, when it brings no key events and comes before the interval is over, ends with a new,
  idle matcher while every device stays grabbed, and nothing is done for the keys collected so far.
  (The devices are released later by the timer, or when a new sequence is completed.)\<close>
theorem reload_drops_capture:
  assumes "bar_fits font display" and "app_run font (app_services runner ki) hs (fl0, new_app dir (open_devices op paths) display) = Inr (fl, a)"
    and "m_state (a_matcher a) = Capturing" and "\<not> shutdown_requested fl" and "timed_events r (a_input a) = []"
    and "elapsed (r_now r) (a_last a) < a_interval (load_configuration (r_directory r) a)"
  shows "\<exists>fl' a'. app_run font (app_services runner ki) [Signal_comes SIGHUP, Round r] (fl, a) = Inr (fl', a') \<and>
    a_matcher a' = new_matcher \<and> sh_effects (a_shown a') = sh_effects (a_shown a) \<and>
    (\<forall>fd. grabbed (ev_ioctls (a_input a')) fd = (fd \<in> set (descriptors (a_input a))))"
proof -
  have ok: "app_ok font display a" using reached_ok [OF assms(1) app_services_notifier assms(2)] .
  let ?l = "load_configuration (r_directory r) a"
  obtain s where s: "reload_configuration font (r_directory r) a = Inr (?l\<lparr>a_shown := s\<rparr>)" "sh_effects s = sh_effects (a_shown a)"
      "app_ok font display (?l\<lparr>a_shown := s\<rparr>)"
    using reload_ok [OF ok, of "r_directory r"] by blast
  have "app_run font (app_services runner ki) [Signal_comes SIGHUP, Round r] (fl, a) =
      Inr (clear_reload (signal_arrives SIGHUP fl), ?l\<lparr>a_shown := s\<rparr>)"
    using s(1) assms(4-6) check_timer_off [of "?l\<lparr>a_shown := s\<rparr>" "r_now r"]
    by (simp add: app_run_def app_step_def signal_arrives_def)
  then show ?thesis
    using s(2) ok_grabbed [OF s(3)] ok_parts(6) [OF ok assms(3)] by (intro exI [of _ "?l\<lparr>a_shown := s\<rparr>"] exI) simp
qed

theorem reload_drops_capture_witness:
  "\<exists>a r fl a'. m_state (a_matcher a) = Capturing \<and> a_capturing a \<and>
    app_run sample_font sample_services_app [Signal_comes SIGHUP, Round r] (no_signal, a) = Inr (fl, a') \<and>
    a_matcher a' = new_matcher \<and> grabbed (ev_ioctls (a_input a')) 3"
proof -
  obtain a where a: "app_run sample_font sample_services_app [Round capture_round]
      (no_signal, new_app sample_directory sample_input small_display) = Inr (no_signal, a)" "m_state (a_matcher a) = Capturing"
      "a_capturing a" "descriptors (a_input a) = [3]"
    using sample_capture unfolding sample_app_def by blast
  let ?r = "silent_round (a_last a)"
  have "elapsed (r_now ?r) (a_last a) < a_interval (load_configuration (r_directory ?r) a)"
    by (simp add: elapsed_def) (simp add: silent_round_def)
  from reload_drops_capture [OF small_fits a(1,2) _ silent_events this]
  obtain fl a' where "app_run sample_font sample_services_app [Signal_comes SIGHUP, Round ?r] (no_signal, a) = Inr (fl, a')"
      "a_matcher a' = new_matcher" "\<forall>fd. grabbed (ev_ioctls (a_input a')) fd = (fd \<in> set (descriptors (a_input a)))"
    by auto
  with a(2-4) show ?thesis by (intro exI [of _ a] exI [of _ ?r] exI [of _ fl] exI [of _ a']) simp
qed

end
