(* ===== verification/Bindings.thy ===== *)
theory Bindings
  imports AppRun
begin

text \<open>
  What the application makes of its configuration (load\_configuration of src/src/system/application.cpp
  with the registry and the key table): the types of what is loaded, and the bindings no key press
  can reach.
\<close>

section \<open>The codes of the key table\<close>

definition table_codes :: "short set" where
  "table_codes = fst ` set (default_rows @ alias_rows)"

lemma find_code_listed: "find_code new_key_table nm = Some kc \<Longrightarrow> kc \<in> table_codes"
proof -
  assume "find_code new_key_table nm = Some kc"
  then obtain r where r: "find (\<lambda>r. normalize_name (snd r) = normalize_name nm) (default_rows @ alias_rows) = Some r" "kc = fst r"
    unfolding new_table_names by auto
  then have "r \<in> set (default_rows @ alias_rows)" by (metis find_Some_iff nth_mem)
  with r(2) show ?thesis by (simp only: table_codes_def image_eqI)
qed

lemma parsed_codes:
  assumes "parse_sequence new_key_table s = Some seq"
  shows "seq \<noteq> []" "set seq \<subseteq> table_codes"
proof -
  have those: "those (map (find_code new_key_table) ws) = Some cs \<Longrightarrow> set cs \<subseteq> table_codes" for ws cs
    by (induction ws arbitrary: cs) (auto split: option.splits dest: find_code_listed)
  show "seq \<noteq> []" "set seq \<subseteq> table_codes"
    using assms those by (auto simp: parse_sequence_def split: option.splits if_splits)
qed

text \<open>An entry of the registry that load\_configuration may have made.\<close>

definition binding_ok :: "short list \<Rightarrow> bool" where
  "binding_ok seq = (seq \<noteq> [] \<and> set seq \<subseteq> table_codes)"

lemma register_entry_ok:
  "list_all binding_ok (map fst r) \<Longrightarrow> list_all binding_ok (map fst (register_entry new_key_table dir e r))"
  using parsed_codes [of "entry_key e"]
  by (auto simp: register_entry_def register_action_def binding_ok_def split: option.split)

lemma load_registry_ok: "list_all binding_ok (map fst (load_registry new_key_table sc))"
proof -
  have "list_all binding_ok (map fst (fold (register_entry new_key_table dir) es r))" if "list_all binding_ok (map fst r)" for dir es r
    using that by (induction es arbitrary: r) (simp_all add: register_entry_ok)
  from this [of "[]"] show ?thesis by (simp add: load_registry_def)
qed

section \<open>Codes the matcher never reports\<close>

definition substituted :: "short list \<Rightarrow> bool" where
  "substituted seq = list_all (\<lambda>kc. get_substitute_code kc = kc) seq"

lemma get_substitute_idem: "get_substitute_code (get_substitute_code kc) = get_substitute_code kc"
  by (auto simp: get_substitute_code_def raw_codes)

lemma matcher_substituted:
  assumes "m_key_table cfg = Some t" "substituted (m_sequence m)"
  shows "substituted (m_sequence (snd (matcher_step cfg i m)))" "substituted (result_sequence (fst (matcher_step cfg i m)))"
proof -
  have "substituted []" by (simp add: substituted_def)
  moreover have "substituted (m_sequence m @ [substitute_code cfg kc])" for kc
    using assms get_substitute_idem by (simp add: substituted_def substitute_code_def)
  ultimately show "substituted (m_sequence (snd (matcher_step cfg i m)))" "substituted (result_sequence (fst (matcher_step cfg i m)))"
    using assms(2) by (cases i; auto simp: matcher_defs Let_def)+
qed

lemma completed_substituted:
  assumes "m_key_table cfg = Some t"
  shows "substituted (m_sequence m) \<Longrightarrow> seq \<in> set (completed (fst (matcher_run cfg is m))) \<Longrightarrow> substituted seq"
proof (induction "is" arbitrary: m)
  case Nil
  then show ?case by (simp add: completed_def)
next
  case (Cons i "is")
  note step = matcher_substituted [OF assms Cons.prems(1), of i]
  from Cons.prems(2) have "seq = result_sequence (fst (matcher_step cfg i m)) \<or>
      seq \<in> set (completed (fst (matcher_run cfg is (snd (matcher_step cfg i m)))))"
    unfolding matcher_run_Cons by (auto simp: completed_def split: if_splits)
  with Cons.IH [OF step(1)] step(2) show ?case by blast
qed

section \<open>Properties\<close>

text \<open>C24: The types of the configuration: whatever the files hold and whatever the state before, after a
  load the interval is a positive 32-bit number, the introducer and the trailer are codes of the key
  table, every binding is a non-empty list of codes of the table, no sequence is bound twice, and
  the matcher is new.\<close>
theorem configuration_typed:
  "(let a' = load_configuration dir a in
     0 < a_interval a' \<and> a_interval a' < 2 ^ 32 \<and> m_introducer (a_config a') \<in> table_codes \<and>
     m_trailer (a_config a') \<in> table_codes \<and> list_all binding_ok (map fst (a_registry a')) \<and>
     distinct (map fst (a_registry a')) \<and> a_matcher a' = new_matcher)"
proof -
  let ?a = "load_configuration dir a"
  have "KPKEY_SHIFT_c \<in> table_codes" "KPKEY_ENTER_c \<in> table_codes"
    using sample_names by (auto intro: find_code_listed)
  then have "m_introducer (a_config ?a) \<in> table_codes" "m_trailer (a_config ?a) \<in> table_codes"
    using find_code_listed by (auto simp: load_configuration_def Let_def split: option.split)
  moreover have "distinct (map fst (a_registry ?a))"
    using fold_register_distinct [of "[]"] by (simp add: load_registry_def)
  ultimately show ?thesis by (simp add: Let_def load_registry_ok)
qed

text \<open>Bindings that nothing reaches: the configuration accepts a sequence with a name such as
  k3\_Home, whose code the matcher replaces by the common one; so no run of the matcher, whatever the
  events, the timer and the cancellations, completes it, and its action never runs.\<close>
theorem alias_bindings_dead:
  assumes "m_key_table cfg = Some t" and "kc \<in> set seq" and "get_substitute_code kc \<noteq> kc"
  shows "seq \<notin> set (completed (fst (matcher_run cfg is new_matcher)))"
  using completed_substituted [OF assms(1), of new_matcher seq "is"] assms(2,3)
  by (auto simp: substituted_def new_matcher_def list_all_iff)

theorem alias_bindings_dead_witness:
  "\<exists>kc. parse_sequence new_key_table ''k3_Home'' = Some [kc] \<and>
    [kc] \<notin> set (completed (fst (matcher_run (a_config sample_app) (tap_key KPKEY_SHIFT_c @ tap_key kc @ tap_key KPKEY_ENTER_c) new_matcher)))"
proof -
  have "stream_words ''k3_Home'' = [''k3_Home'']" by code_simp
  moreover have "find_code new_key_table ''k3_Home'' = Some K3KEY_HOME_c"
    unfolding new_table_names by code_simp
  ultimately have "parse_sequence new_key_table ''k3_Home'' = Some [K3KEY_HOME_c]" by (simp add: parse_sequence_def)
  moreover have "m_key_table (a_config sample_app) = Some new_key_table" by (simp add: sample_app_config)
  moreover have "get_substitute_code K3KEY_HOME_c \<noteq> K3KEY_HOME_c" by (simp add: get_substitute_code_def raw_codes)
  ultimately show ?thesis
    using alias_bindings_dead [of "a_config sample_app" new_key_table K3KEY_HOME_c "[K3KEY_HOME_c]"] by auto
qed

end
