(* ===== verification/Options.thy ===== *)
theory Options
  imports Launch
begin

text \<open>
  src/src/system/cli\_options.cpp: the arguments of the rewrite, compared with those of the C program
  (parse\_args of theory Launch).
\<close>

record cli_options =
  cli_foreground :: bool
  cli_keyboard :: string
  cli_fiveway :: string

definition default_options :: cli_options where
  "default_options = \<lparr>cli_foreground = False, cli_keyboard = [], cli_fiveway = []\<rparr>"

definition parse_flag :: "string \<Rightarrow> cli_options \<Rightarrow> cli_options" where
  "parse_flag argument cl =
     (if argument = ''-d'' then cl\<lparr>cli_foreground := True\<rparr>
      else if take 3 argument = ''-kb'' then cl\<lparr>cli_keyboard := drop 3 argument\<rparr>
      else if take 3 argument = ''-fw'' then cl\<lparr>cli_fiveway := drop 3 argument\<rparr>
      else cl)"

text \<open>The arguments behind the name of the program.\<close>

definition parse_options :: "string list \<Rightarrow> cli_options" where
  "parse_options argv = fold parse_flag (drop 1 argv) default_options"

definition option_path :: "string option \<Rightarrow> string" where
  "option_path p = (case p of None \<Rightarrow> [] | Some s \<Rightarrow> s)"

definition same_options :: "cmdline \<Rightarrow> cli_options \<Rightarrow> bool" where
  "same_options cl opts = (cli_foreground opts = (\<not> do_daemonize cl) \<and>
     cli_keyboard opts = option_path (pkb_file cl) \<and> cli_fiveway opts = option_path (pfw_file cl))"

lemma parse_flag_same: "same_options cl opts \<Longrightarrow> same_options (parse_args [a] cl) (parse_flag a opts)"
  by (auto simp: same_options_def parse_flag_def option_path_def)

lemma parse_args_Cons: "parse_args (a # as) cl = parse_args as (parse_args [a] cl)"
  by simp

lemma parse_all_same: "same_options cl opts \<Longrightarrow> same_options (parse_args as cl) (fold parse_flag as opts)"
proof (induction as arbitrary: cl opts)
  case (Cons a as)
  show ?case unfolding parse_args_Cons [of a as] fold_simps
    by (rule Cons.IH [OF parse_flag_same [OF Cons.prems]])
qed simp

text \<open>Both programs read their arguments alike: whatever the arguments, the rewrite stays in the
  foreground exactly when the C program does not become a daemon, and the paths given for the
  keyboard and the five-way pad are the same (an empty path is one not given in the rewrite, which
  then takes the default; the C program opens no device for it).\<close>
theorem options_agree:
  "same_options (parse_args args \<lparr>do_daemonize = True, pkb_file = None, pfw_file = None\<rparr>) (parse_options (prog # args))"
  unfolding parse_options_def by (simp del: parse_args.simps)
    (rule parse_all_same, simp add: same_options_def default_options_def option_path_def)

end
