(* ===== verification/PidLock.thy ===== *)
theory PidLock
  imports CString
begin

text \<open>
  src/src/system/pid\_lock.cpp: the lock file that keeps a second daemon out. The system keeps the
  file the path names, the locks on files, their contents, and the file each process has open; its
  calls are flock, ftruncate and the others as the manual describes them. A process is its pid.
\<close>

section \<open>The system\<close>

record lock_os =
  path_inode :: "nat option"        \<comment> \<open>the file the path names\<close>
  next_inode :: nat
  lock_holder :: "nat \<Rightarrow> nat option"  \<comment> \<open>the process whose open file has the lock of an inode\<close>
  inode_text :: "nat \<Rightarrow> string"
  open_file :: "nat \<Rightarrow> nat option"    \<comment> \<open>file\_descriptor\_ of a process: the inode, or -1\<close>
  may_open :: "nat \<Rightarrow> bool"

definition no_lock_file :: "(nat \<Rightarrow> bool) \<Rightarrow> lock_os" where
  "no_lock_file allowed = \<lparr>path_inode = None, next_inode = 0, lock_holder = (\<lambda>k. None), inode_text = (\<lambda>k. []),
     open_file = (\<lambda>p. None), may_open = allowed\<rparr>"

datatype lock_call = Open_lock | Flock_ex | Truncate | Write_pid | Flock_un | Close_lock | Unlink

text \<open>Opening creates the file when there is none; the result tells whether the call succeeds.\<close>

definition open_lock :: "nat \<Rightarrow> lock_os \<Rightarrow> bool \<times> lock_os" where
  "open_lock p w =
     (if \<not> may_open w p then (False, w)
      else case path_inode w of
        Some k \<Rightarrow> (True, w\<lparr>open_file := (open_file w)(p := Some k)\<rparr>)
      | None \<Rightarrow> (let k = next_inode w in
          (True, w\<lparr>path_inode := Some k, next_inode := k + 1, inode_text := (inode_text w)(k := []),
                   open_file := (open_file w)(p := Some k)\<rparr>)))"

definition on_file :: "nat \<Rightarrow> lock_os \<Rightarrow> (nat \<Rightarrow> bool \<times> lock_os) \<Rightarrow> bool \<times> lock_os" where
  "on_file p w f = (case open_file w p of None \<Rightarrow> (False, w) | Some k \<Rightarrow> f k)"

definition unlocked :: "nat \<Rightarrow> nat \<Rightarrow> lock_os \<Rightarrow> lock_os" where
  "unlocked p k w = (if lock_holder w k = Some p then w\<lparr>lock_holder := (lock_holder w)(k := None)\<rparr> else w)"

fun lock_sys :: "nat \<Rightarrow> lock_call \<Rightarrow> lock_os \<Rightarrow> bool \<times> lock_os" where
  "lock_sys p Open_lock w = open_lock p w"
| "lock_sys p Flock_ex w = on_file p w (\<lambda>k.
     if lock_holder w k = None \<or> lock_holder w k = Some p
     then (True, w\<lparr>lock_holder := (lock_holder w)(k := Some p)\<rparr>) else (False, w))"
| "lock_sys p Truncate w = on_file p w (\<lambda>k. (True, w\<lparr>inode_text := (inode_text w)(k := [])\<rparr>))"
| "lock_sys p Write_pid w = on_file p w (\<lambda>k.
     (True, w\<lparr>inode_text := (inode_text w)(k := inode_text w k @ show_nat p @ [LF])\<rparr>))"
| "lock_sys p Flock_un w = on_file p w (\<lambda>k. (True, unlocked p k w))"
| "lock_sys p Close_lock w = on_file p w (\<lambda>k. (True, (unlocked p k w)\<lparr>open_file := (open_file w)(p := None)\<rparr>))"
| "lock_sys p Unlink w = (path_inode w \<noteq> None, w\<lparr>path_inode := None\<rparr>)"

definition call_sys :: "nat \<Rightarrow> lock_call list \<Rightarrow> lock_os \<Rightarrow> lock_os" where
  "call_sys p cs w = fold (\<lambda>c w. snd (lock_sys p c w)) cs w"

section \<open>The class\<close>

definition is_locked :: "nat \<Rightarrow> lock_os \<Rightarrow> bool" where
  "is_locked p w = (open_file w p \<noteq> None)"

definition write_pid_to_file :: "nat \<Rightarrow> lock_os \<Rightarrow> lock_os" where
  "write_pid_to_file p w = call_sys p [Truncate, Write_pid] w"

datatype lock_error = Open_failed | Lock_held

text \<open>An acquire is its open and what follows it.\<close>

definition acquire_opened :: "nat \<Rightarrow> lock_os \<Rightarrow> lock_error option \<times> lock_os" where
  "acquire_opened p w =
     (case lock_sys p Flock_ex w of (locked, w) \<Rightarrow>
        if \<not> locked then (Some Lock_held, call_sys p [Close_lock] w)
        else (None, write_pid_to_file p w))"

definition acquire :: "nat \<Rightarrow> lock_os \<Rightarrow> lock_error option \<times> lock_os" where
  "acquire p w =
     (if is_locked p w then (None, w)
      else case lock_sys p Open_lock w of (opened, w) \<Rightarrow>
        if \<not> opened then (Some Open_failed, w) else acquire_opened p w)"

definition release_calls :: "lock_call list" where
  "release_calls = [Flock_un, Close_lock, Unlink]"

definition release_lock :: "nat \<Rightarrow> lock_os \<Rightarrow> lock_os" where
  "release_lock p w = (if \<not> is_locked p w then w else call_sys p release_calls w)"

section \<open>Whole operations, one after the other\<close>

datatype lock_op = Acquire nat | Release nat

fun lock_move :: "lock_op \<Rightarrow> lock_os \<Rightarrow> lock_os" where
  "lock_move (Acquire p) w = snd (acquire p w)"
| "lock_move (Release p) w = release_lock p w"

definition lock_ok :: "lock_os \<Rightarrow> bool" where
  "lock_ok w = ((\<forall>p k. open_file w p = Some k \<longrightarrow>
       path_inode w = Some k \<and> lock_holder w k = Some p \<and> inode_text w k = show_nat p @ [LF]) \<and>
     (\<forall>k p. lock_holder w k = Some p \<longrightarrow> open_file w p = Some k) \<and>
     (\<forall>k. path_inode w = Some k \<longrightarrow> k < next_inode w) \<and> (\<forall>k. next_inode w \<le> k \<longrightarrow> lock_holder w k = None))"

lemmas lock_simps = acquire_opened_def on_file_def unlocked_def call_sys_def open_lock_def Let_def

lemma lock_okD:
  assumes "lock_ok w"
  shows "open_file w p = Some k \<Longrightarrow> path_inode w = Some k \<and> lock_holder w k = Some p \<and> inode_text w k = show_nat p @ [LF]"
    and "lock_holder w k = Some p \<Longrightarrow> open_file w p = Some k"
    and "path_inode w = Some k \<Longrightarrow> k < next_inode w"
    and "next_inode w \<le> k \<Longrightarrow> lock_holder w k = None"
  using assms unfolding lock_ok_def by blast+

lemma lock_ok_unique:
  assumes "lock_ok w" "open_file w p = Some k" "open_file w q = Some l"
  shows "p = q"
  using lock_okD(1) [OF assms(1,2)] lock_okD(1) [OF assms(1,3)] by simp

text \<open>A state in which nobody has the file open, and the one after p has locked file k.\<close>

definition free :: "lock_os \<Rightarrow> bool" where
  "free w = (open_file w = (\<lambda>q. None) \<and> lock_holder w = (\<lambda>k. None))"

lemma nobody_free:
  assumes "lock_ok w" "\<And>k q. path_inode w = Some k \<Longrightarrow> lock_holder w k = Some q \<Longrightarrow> False"
  shows "free w"
proof -
  have none: "open_file w q = None" for q
    using lock_okD(1) [OF assms(1), of q] assms(2) by (cases "open_file w q") blast+
  have "lock_holder w k = None" for k
    using lock_okD(2) [OF assms(1), of k] none by (cases "lock_holder w k") simp_all
  with none show ?thesis by (simp add: free_def fun_eq_iff)
qed

lemma acquire_free:
  assumes "free w" "may_open w p" "\<And>l. path_inode w = Some l \<Longrightarrow> l < next_inode w"
  shows "lock_ok (snd (acquire p w))"
proof (cases "path_inode w")
  case None
  have "snd (acquire p w) = w\<lparr>path_inode := Some (next_inode w), next_inode := next_inode w + 1,
      inode_text := (inode_text w)(next_inode w := show_nat p @ [LF]),
      open_file := [p \<mapsto> next_inode w], lock_holder := [next_inode w \<mapsto> p]\<rparr>"
    using assms(1,2) None by (simp add: free_def acquire_def is_locked_def write_pid_to_file_def lock_simps)
  then show ?thesis by (simp add: lock_ok_def)
next
  case (Some l)
  have "snd (acquire p w) = w\<lparr>inode_text := (inode_text w)(l := show_nat p @ [LF]),
      open_file := [p \<mapsto> l], lock_holder := [l \<mapsto> p]\<rparr>"
    using assms(1,2) Some by (simp add: free_def acquire_def is_locked_def write_pid_to_file_def lock_simps)
  then show ?thesis using Some assms(3) [OF Some] by (simp add: lock_ok_def)
qed

lemma acquire_ok:
  assumes "lock_ok w"
  shows "lock_ok (snd (acquire p w))"
proof (cases "is_locked p w \<or> \<not> may_open w p")
  case True
  then show ?thesis using assms by (auto simp: acquire_def open_lock_def)
next
  case False
  then have p: "open_file w p = None" "may_open w p" by (simp_all add: is_locked_def)
  show ?thesis
  proof (cases "\<exists>k q. path_inode w = Some k \<and> lock_holder w k = Some q")
    case True
    then obtain k q where k: "path_inode w = Some k" "lock_holder w k = Some q" by blast
    then have "q \<noteq> p" using lock_okD(2) [OF assms k(2)] p(1) by auto
    moreover have "(open_file w)(p := None) = open_file w" using p(1) by (simp add: fun_upd_idem)
    ultimately have "snd (acquire p w) = w" using p k by (simp add: acquire_def is_locked_def lock_simps)
    then show ?thesis using assms by simp
  next
    case False
    then have "free w" by (intro nobody_free [OF assms]) blast
    then show ?thesis using p(2) lock_okD(3) [OF assms] by (rule acquire_free)
  qed
qed

lemma release_ok:
  assumes "lock_ok w"
  shows "lock_ok (release_lock p w)"
proof (cases "open_file w p")
  case None
  then show ?thesis using assms by (simp add: release_lock_def is_locked_def)
next
  case (Some k)
  have held: "path_inode w = Some k" "lock_holder w k = Some p" using lock_okD(1) [OF assms Some] by simp_all
  have others: "open_file w q = None" if "q \<noteq> p" for q
    using lock_ok_unique [OF assms Some, of q] that by (cases "open_file w q") auto
  have locks: "lock_holder w l = None" if "l \<noteq> k" for l
  proof (cases "lock_holder w l")
    case (Some q)
    from lock_okD(2) [OF assms this] others [of q] that \<open>open_file w p = Some k\<close> show ?thesis by (cases "q = p") auto
  qed
  have all: "(open_file w)(p := None) = (\<lambda>q. None)" "(lock_holder w)(k := None) = (\<lambda>l. None)"
    using others locks by auto
  have "release_lock p w = w\<lparr>lock_holder := \<lambda>l. None, open_file := \<lambda>q. None, path_inode := None\<rparr>"
    using Some held by (simp add: release_lock_def is_locked_def release_calls_def lock_simps all)
  then show ?thesis by (simp add: lock_ok_def)
qed

interpretation pid_locks: machine "\<lambda>w. \<exists>allowed. w = no_lock_file allowed" "\<lambda>w w'. \<exists>m. w' = lock_move m w" lock_ok
proof
  show "lock_ok w" if "\<exists>allowed. w = no_lock_file allowed" for w
    using that by (auto simp: no_lock_file_def lock_ok_def)
  fix w w' assume ok: "lock_ok w" and "\<exists>m. w' = lock_move m w"
  then obtain m where "w' = lock_move m w" by blast
  then show "lock_ok w'" using acquire_ok [OF ok] release_ok [OF ok] by (cases m) auto
qed

lemma moves_reach:
  "reach (\<lambda>w. \<exists>allowed. w = no_lock_file allowed) (\<lambda>w w'. \<exists>m. w' = lock_move m w) (fold lock_move ms (no_lock_file allowed))"
proof (induction ms rule: rev_induct)
  case Nil
  show ?case by (rule reach_init) auto
next
  case (snoc m ms)
  then show ?case by (auto intro: reach_step)
qed

section \<open>An acquire that others interrupt\<close>

fun mover :: "lock_op \<Rightarrow> nat" where
  "mover (Acquire p) = p"
| "mover (Release p) = p"

text \<open>What another process does neither sees nor changes the file q has open; without it the state of an
  acquire that waits behind its open is like any other.\<close>

definition with_file :: "nat \<Rightarrow> nat option \<Rightarrow> lock_os \<Rightarrow> lock_os" where
  "with_file q x w = w\<lparr>open_file := (open_file w)(q := x)\<rparr>"

lemma with_file_simps [simp]:
  "path_inode (with_file q x w) = path_inode w" "lock_holder (with_file q x w) = lock_holder w"
  "next_inode (with_file q x w) = next_inode w" "may_open (with_file q x w) = may_open w"
  "open_file (with_file q x w) = (open_file w)(q := x)" "inode_text (with_file q x w) = inode_text w"
  "with_file q x (with_file q y w) = with_file q x w"
  by (simp_all add: with_file_def)

lemma acquire_beside:
  assumes "p \<noteq> q"
  shows "acquire p (with_file q x w) = (fst (acquire p w), with_file q x (snd (acquire p w)))"
proof -
  note eval = acquire_def is_locked_def write_pid_to_file_def lock_simps
  have upd: "g(p := u, q := x, p := v) = g(p := v, q := x)" for g :: "nat \<Rightarrow> nat option" and u v
    using assms by (auto simp: fun_eq_iff)
  have upd2: "g(q := x, p := v) = g(p := v, q := x)" for g :: "nat \<Rightarrow> nat option" and v
    using assms by (auto simp: fun_eq_iff)
  show ?thesis
  proof (cases "open_file w p = None \<and> may_open w p")
    case True
    then show ?thesis
      using assms by (cases "path_inode w"; cases "lock_holder w (next_inode w) = None \<or> lock_holder w (next_inode w) = Some p";
          cases "lock_holder w (the (path_inode w)) = None \<or> lock_holder w (the (path_inode w)) = Some p")
        (auto simp: eval with_file_def upd upd2)
  next
    case False
    then show ?thesis using assms by (auto simp: eval with_file_def)
  qed
qed

lemma release_beside:
  assumes "p \<noteq> q"
  shows "release_lock p (with_file q x w) = with_file q x (release_lock p w)"
  using assms by (cases "open_file w p")
    (auto simp: release_lock_def is_locked_def release_calls_def lock_simps with_file_def fun_upd_twist)

lemma moves_beside:
  "\<forall>m \<in> set ms. mover m \<noteq> q \<Longrightarrow> fold lock_move ms (with_file q x w) = with_file q x (fold lock_move ms w)"
proof (induction ms arbitrary: w)
  case (Cons m ms)
  then have "lock_move m (with_file q x w) = with_file q x (lock_move m w)"
    using acquire_beside release_beside by (cases m) simp_all
  then show ?case using Cons by simp
qed simp

lemma moves_ok: "lock_ok w \<Longrightarrow> lock_ok (fold lock_move ms w)"
proof (induction ms arbitrary: w)
  case (Cons m ms)
  then show ?case using acquire_ok release_ok by (cases m) auto
qed simp

text \<open>Only a release takes the name from a file, and no file gets a number twice.\<close>

lemma acquire_names:
  "next_inode w \<le> next_inode (snd (acquire p w)) \<and> (path_inode w = Some k \<longrightarrow> path_inode (snd (acquire p w)) = Some k)"
  by (auto simp: acquire_def is_locked_def write_pid_to_file_def lock_simps split: option.split)

lemma release_names: "next_inode (release_lock p w) = next_inode w"
  by (simp add: release_lock_def is_locked_def release_calls_def lock_simps split: option.split)

lemma moves_names:
  "next_inode w \<le> next_inode (fold lock_move ms w) \<and>
   ((\<forall>p. Release p \<notin> set ms) \<and> path_inode w = Some k \<longrightarrow> path_inode (fold lock_move ms w) = Some k)"
proof (induction ms arbitrary: w)
  case (Cons m ms)
  have "next_inode w \<le> next_inode (lock_move m w)"
    using acquire_names release_names by (cases m) simp_all
  moreover have "path_inode (lock_move m w) = Some k" if "\<forall>p. m \<noteq> Release p" "path_inode w = Some k"
    using acquire_names that by (cases m) auto
  ultimately show ?case using Cons [of "lock_move m w"] by (cases m) (auto intro: order_trans)
qed simp

lemma open_beside:
  assumes "lock_ok w" "\<not> is_locked q w" "lock_sys q Open_lock w = (True, w1)"
  shows "\<exists>k w'. w1 = with_file q (Some k) w' \<and> lock_ok w' \<and> path_inode w' = Some k \<and> open_file w' q = None"
proof (cases "path_inode w")
  case None
  let ?k = "next_inode w"
  let ?w = "w\<lparr>path_inode := Some ?k, next_inode := ?k + 1, inode_text := (inode_text w)(?k := [])\<rparr>"
  have none: "open_file w p = None" for p using lock_okD(1) [OF assms(1)] None by (cases "open_file w p") auto
  moreover have "lock_holder w l = None" for l
    using lock_okD(2) [OF assms(1), of l] none by (cases "lock_holder w l") simp_all
  ultimately have "lock_ok ?w" by (simp add: lock_ok_def)
  moreover have "w1 = with_file q (Some ?k) ?w" using assms(3) None by (auto simp: open_lock_def with_file_def Let_def split: if_splits)
  ultimately show ?thesis using none by (intro exI [of _ ?k] exI [of _ ?w]) simp
next
  case (Some k)
  then have "w1 = with_file q (Some k) w" using assms(3) by (auto simp: open_lock_def with_file_def split: if_splits)
  then show ?thesis using assms(1,2) Some by (auto simp: is_locked_def)
qed

text \<open>The end of such an acquire, when the path still names the file and when it does not.\<close>

lemma opened_named:
  assumes "lock_ok v" "open_file v q = None" "path_inode v = Some k"
  shows "lock_ok (snd (acquire_opened q (with_file q (Some k) v)))"
proof (cases "lock_holder v k")
  case None
  then have "free v" using assms(3) by (intro nobody_free [OF assms(1)]) simp
  then have "snd (acquire_opened q (with_file q (Some k) v)) = v\<lparr>inode_text := (inode_text v)(k := show_nat q @ [LF]),
      open_file := [q \<mapsto> k], lock_holder := [k \<mapsto> q]\<rparr>"
    by (simp add: free_def write_pid_to_file_def lock_simps with_file_def)
  then show ?thesis using assms(3) lock_okD(3) [OF assms(1,3)] by (simp add: lock_ok_def)
next
  case (Some p)
  then have "p \<noteq> q" using lock_okD(2) [OF assms(1) Some] assms(2) by auto
  moreover have "(open_file v)(q := None) = open_file v" using assms(2) by (simp add: fun_upd_idem)
  ultimately have "snd (acquire_opened q (with_file q (Some k) v)) = v"
    using Some by (simp add: lock_simps with_file_def)
  then show ?thesis using assms(1) by simp
qed

lemma opened_nameless:
  assumes "lock_ok v" "path_inode v \<noteq> Some k" "k < next_inode v"
    and w3: "acquire_opened q (with_file q (Some k) v) = (res, w3)"
    and r: "r \<noteq> q" "is_locked r v \<or> may_open v r \<and> (\<forall>p. \<not> is_locked p v)"
  shows "\<exists>w4 l. acquire r w3 = (None, w4) \<and> open_file w4 q = Some k \<and> lock_holder w4 k = Some q \<and>
    open_file w4 r = Some l \<and> l \<noteq> k \<and> lock_holder w4 l = Some r"
proof -
  have none: "lock_holder v k = None"
    using lock_okD(1,2) [OF assms(1)] assms(2) by (cases "lock_holder v k") blast+
  then have ended: "w3 = v\<lparr>lock_holder := (lock_holder v)(k \<mapsto> q), inode_text := (inode_text v)(k := show_nat q @ [LF]),
      open_file := (open_file v)(q \<mapsto> k)\<rparr>"
    using w3 by (auto simp: lock_simps with_file_def write_pid_to_file_def)
  show ?thesis
  proof (cases "open_file v r")
    case (Some l)
    then show ?thesis using lock_okD(1) [OF assms(1) Some] assms(2) r(1) by (auto simp: ended acquire_def is_locked_def)
  next
    case None
    then have r': "may_open v r" "\<And>p. open_file v p = None" using r(2) by (simp_all add: is_locked_def)
    have "lock_holder v l = None" for l
      using lock_okD(2) [OF assms(1), of l] r'(2) by (cases "lock_holder v l") simp_all
    then show ?thesis
      using None r(1) r'(1) assms(2,3)
      by (cases "path_inode v") (auto simp: ended acquire_def is_locked_def write_pid_to_file_def lock_simps)
  qed
qed

section \<open>Properties\<close>

text \<open>C30: The process lock excludes: after any acquires and releases of any processes, each carried out
  as a whole, at most one process holds the lock, an acquire of another one reports an error, and
  the lock file holds the number of the process that does.\<close>
theorem pid_lock_exclusive:
  assumes "fold lock_move ms (no_lock_file allowed) = w" and "is_locked p w"
  shows "(\<forall>q. is_locked q w \<longrightarrow> q = p) \<and> (\<forall>q. q \<noteq> p \<longrightarrow> fst (acquire q w) \<noteq> None) \<and>
    (\<exists>k. path_inode w = Some k \<and> inode_text w k = show_nat p @ [LF])"
proof -
  have ok: "lock_ok w" using pid_locks.reach_inv [OF moves_reach [of ms allowed]] unfolding assms(1) .
  obtain k where k: "open_file w p = Some k" using assms(2) by (auto simp: is_locked_def)
  then have at: "path_inode w = Some k" "lock_holder w k = Some p" "inode_text w k = show_nat p @ [LF]"
    using lock_okD(1) [OF ok k] by simp_all
  have one: "q = p" if "is_locked q w" for q
    using lock_ok_unique [OF ok k] that by (auto simp: is_locked_def)
  have "fst (acquire q w) \<noteq> None" if "q \<noteq> p" for q
    using one [of q] that at by (auto simp: acquire_def lock_simps)
  with one at show ?thesis by blast
qed

theorem pid_lock_exclusive_witness:
  "fst (acquire 9 (fold lock_move [Acquire 7, Release 7, Acquire 8] (no_lock_file (\<lambda>p. True)))) \<noteq> None"
proof -
  let ?w = "fold lock_move [Acquire 7, Release 7, Acquire 8] (no_lock_file (\<lambda>p. True))"
  have "is_locked 8 ?w"
    by (simp add: no_lock_file_def acquire_def release_lock_def release_calls_def is_locked_def write_pid_to_file_def lock_simps)
  from pid_lock_exclusive [OF refl this] show ?thesis by simp
qed

text \<open>C31: What is left of the exclusion when an acquire is interrupted between its open and its flock, after any
  acquires and releases of any processes and by any of the others: as long as the path names the file
  that was opened, and that is so while none of the others releases, no two processes hold the lock
  at the end. When a release has unlinked the file in between, the acquire succeeds and its lock keeps
  nobody out: another process that holds the lock keeps it, and if there is none, any that may open
  the file gets the lock, too; each of the two holds the lock of a file of its own.\<close>
theorem pid_lock_race:
  assumes "\<not> is_locked q (fold lock_move ms (no_lock_file allowed))"
    and "lock_sys q Open_lock (fold lock_move ms (no_lock_file allowed)) = (True, w1)"
    and "\<forall>m \<in> set others. mover m \<noteq> q"
    and "w2 = fold lock_move others w1" and "acquire_opened q w2 = (res, w3)"
  shows "\<exists>k. open_file w1 q = Some k \<and>
    ((\<forall>p. Release p \<notin> set others) \<longrightarrow> path_inode w2 = Some k) \<and>
    (if path_inode w2 = Some k
     then \<forall>p p'. is_locked p w3 \<and> is_locked p' w3 \<longrightarrow> p = p'
     else res = None \<and>
       (\<forall>r. r \<noteq> q \<and> (is_locked r w2 \<or> may_open w2 r \<and> (\<forall>p. p \<noteq> q \<longrightarrow> \<not> is_locked p w2)) \<longrightarrow>
          (\<exists>w4 l. acquire r w3 = (None, w4) \<and> open_file w4 q = Some k \<and> lock_holder w4 k = Some q \<and>
             open_file w4 r = Some l \<and> l \<noteq> k \<and> lock_holder w4 l = Some r)))"
proof -
  have ok: "lock_ok (fold lock_move ms (no_lock_file allowed))"
    using pid_locks.reach_inv [OF moves_reach] .
  obtain k w where w: "w1 = with_file q (Some k) w" "lock_ok w" "path_inode w = Some k" "open_file w q = None"
    using open_beside [OF ok assms(1,2)] by blast
  define v where "v = fold lock_move others w"
  have w2: "w2 = with_file q (Some k) v" using moves_beside [OF assms(3)] by (simp add: assms(4) w(1) v_def)
  have "with_file q None w = w" using w(4) by (simp add: with_file_def fun_upd_idem)
  then have "with_file q None v = v" using moves_beside [OF assms(3), of None w] by (simp add: v_def)
  then have q: "open_file v q = None" by (metis fun_upd_same with_file_simps(5))
  have v: "lock_ok v" "k < next_inode v" "(\<forall>p. Release p \<notin> set others) \<longrightarrow> path_inode v = Some k"
    using moves_ok [OF w(2)] lock_okD(3) [OF w(2,3)] moves_names [of w others k] w(3) by (auto simp: v_def)
  show ?thesis
  proof (cases "path_inode v = Some k")
    case True
    then have "lock_ok w3" using opened_named [OF v(1) q] assms(5) by (simp add: w2)
    then show ?thesis using True lock_ok_unique by (auto simp: w(1) w2 is_locked_def)
  next
    case False
    have "lock_holder v k = None"
      using lock_okD(1,2) [OF v(1)] False by (cases "lock_holder v k") blast+
    then have "res = None" using assms(5) by (simp add: w2 lock_simps)
    moreover have "is_locked r v \<or> may_open v r \<and> (\<forall>p. \<not> is_locked p v)"
      if "r \<noteq> q" "is_locked r w2 \<or> may_open w2 r \<and> (\<forall>p. p \<noteq> q \<longrightarrow> \<not> is_locked p w2)" for r
    proof (cases "is_locked r v")
      case False
      then have free: "may_open v r" "\<And>p. p \<noteq> q \<Longrightarrow> open_file v p = None"
        using that by (simp_all add: w2 is_locked_def)
      have "\<not> is_locked p v" for p using free(2) [of p] q by (cases "p = q") (simp_all add: is_locked_def)
      then show ?thesis using free(1) by blast
    qed simp
    ultimately show ?thesis
      using False v(3) opened_nameless [OF v(1) False v(2), of q res w3] assms(5) by (simp add: w(1) w2)
  qed
qed

theorem pid_lock_race_witness:
  "\<exists>w1 w3 w4. lock_sys 2 Open_lock (fold lock_move [Acquire 1] (no_lock_file (\<lambda>p. True))) = (True, w1) \<and>
     acquire_opened 2 (fold lock_move [Release 1] w1) = (None, w3) \<and> acquire 3 w3 = (None, w4) \<and>
     is_locked 2 w4 \<and> is_locked 3 w4"
proof -
  let ?w = "fold lock_move [Acquire 1] (no_lock_file (\<lambda>p. True))"
  note eval = no_lock_file_def acquire_def release_lock_def release_calls_def is_locked_def write_pid_to_file_def lock_simps
  obtain w1 where w1: "lock_sys 2 Open_lock ?w = (True, w1)" by (simp add: eval)
  let ?w2 = "fold lock_move [Release 1] w1"
  obtain res w3 where w3: "acquire_opened 2 ?w2 = (res, w3)" by fastforce
  have w2: "path_inode ?w2 = None" "may_open ?w2 3" "\<forall>p. p \<noteq> 2 \<longrightarrow> \<not> is_locked p ?w2"
    using w1 by (auto simp: eval)
  have "\<not> is_locked 2 ?w" by (simp add: eval)
  from pid_lock_race [OF this w1 _ refl w3] w2 obtain k where k: "res = None"
      "\<forall>r. r \<noteq> 2 \<and> (is_locked r ?w2 \<or> may_open ?w2 r \<and> (\<forall>p. p \<noteq> 2 \<longrightarrow> \<not> is_locked p ?w2)) \<longrightarrow>
        (\<exists>w4 l. acquire r w3 = (None, w4) \<and> open_file w4 2 = Some k \<and> lock_holder w4 k = Some 2 \<and>
             open_file w4 r = Some l \<and> l \<noteq> k \<and> lock_holder w4 l = Some r)"
    by auto
  with w2 obtain w4 l where "acquire 3 w3 = (None, w4)" "open_file w4 2 = Some k" "open_file w4 3 = Some l"
    by (metis numeral_eq_iff num.distinct(1) semiring_norm(88))
  with w1 w3 k(1) show ?thesis by (auto simp: is_locked_def)
qed

end
