(* ===== verification/Background.thy ===== *)
theory Background
  imports CString
begin

text \<open>
  src/src/system/daemon.cpp and src/src/core/logger.cpp: going to the background with the standard
  streams redirected, and the log. A table of descriptors is the list of what each one is open on
  (None: closed); open takes the lowest closed one, as the manual of the system says.
\<close>

section \<open>Descriptors\<close>

type_synonym fd_table = "string option list"

definition fd_get :: "fd_table \<Rightarrow> nat \<Rightarrow> string option" where
  "fd_get t n = (if n < length t then t ! n else None)"

definition fd_set :: "nat \<Rightarrow> string option \<Rightarrow> fd_table \<Rightarrow> fd_table" where
  "fd_set n v t = (t @ replicate (n + 1 - length t) None)[n := v]"

definition lowest_free :: "fd_table \<Rightarrow> nat" where
  "lowest_free t = length (takeWhile (\<lambda>v. v \<noteq> None) t)"

text \<open>can tells whether the path can be opened.\<close>

definition sys_open :: "(string \<Rightarrow> bool) \<Rightarrow> string \<Rightarrow> fd_table \<Rightarrow> int \<times> fd_table" where
  "sys_open can path t = (if can path then (int (lowest_free t), fd_set (lowest_free t) (Some path) t) else (-1, t))"

text \<open>dup2 of a descriptor that is not open fails and changes nothing.\<close>

definition sys_dup2 :: "int \<Rightarrow> nat \<Rightarrow> fd_table \<Rightarrow> fd_table" where
  "sys_dup2 old new t = (if old < 0 \<or> fd_get t (nat old) = None then t else fd_set new (fd_get t (nat old)) t)"

definition sys_close :: "int \<Rightarrow> fd_table \<Rightarrow> fd_table" where
  "sys_close fd t = (if fd < 0 \<or> fd_get t (nat fd) = None then t else fd_set (nat fd) None t)"

section \<open>The daemon\<close>

definition redirect_standard_streams :: "(string \<Rightarrow> bool) \<Rightarrow> string \<Rightarrow> fd_table \<Rightarrow> fd_table" where
  "redirect_standard_streams can log_path t =
     (let (null_fd, t) = sys_open can ''/dev/null'' t;
          (log_fd, t) = sys_open can log_path t;
          (log_fd, t) = (if log_fd < 0 then sys_open can ''/dev/null'' t else (log_fd, t));
          t = sys_dup2 null_fd 0 t;
          t = sys_dup2 log_fd 1 t;
          t = sys_dup2 log_fd 2 t;
          t = (if 2 < null_fd then sys_close null_fd t else t)
      in if 2 < log_fd then sys_close log_fd t else t)"

text \<open>getppid, fork (negative, positive in the parent, zero in the child) and setsid.\<close>

record process_os =
  parent_pid :: int
  forked :: int
  session_id :: int
  can_open :: "string \<Rightarrow> bool"

datatype daemon_end =
    Parent_exits                    \<comment> \<open>\_exit(EXIT\_SUCCESS)\<close>
  | Daemon_error string             \<comment> \<open>the Result is an error\<close>
  | Goes_on fd_table                \<comment> \<open>success, with these descriptors\<close>

definition fork_process :: "process_os \<Rightarrow> daemon_end option" where
  "fork_process w =
     (if forked w < 0 then Some (Daemon_error ''Failed to fork process'')
      else if 0 < forked w then Some Parent_exits else None)"

definition setup_session :: "process_os \<Rightarrow> daemon_end option" where
  "setup_session w = (if session_id w < 0 then Some (Daemon_error ''Failed to create new session'') else None)"

definition daemonize_process :: "process_os \<Rightarrow> string \<Rightarrow> fd_table \<Rightarrow> daemon_end" where
  "daemonize_process w log_path t =
     (if parent_pid w = 1 then Goes_on t
      else case fork_process w of
        Some e \<Rightarrow> e
      | None \<Rightarrow> (case setup_session w of
            Some e \<Rightarrow> e
          | None \<Rightarrow> Goes_on (redirect_standard_streams (can_open w) log_path t)))"

section \<open>The log\<close>

datatype log_level = Log_debug | Log_info | Log_warning | Log_error

definition level_tag :: "log_level \<Rightarrow> string" where
  "level_tag l = (case l of Log_debug \<Rightarrow> ''DEBUG'' | Log_info \<Rightarrow> ''INFO'' | Log_warning \<Rightarrow> ''WARN'' | Log_error \<Rightarrow> ''ERROR'')"

record logger =
  log_target :: "string option"          \<comment> \<open>the path file\_ is open on\<close>
  log_to_file :: bool
  log_files :: "string \<Rightarrow> string"        \<comment> \<open>contents of the files\<close>
  log_stderr :: string

definition close_log :: "logger \<Rightarrow> logger" where
  "close_log g = g\<lparr>log_target := None\<rparr>"

text \<open>can: fopen for appending succeeds, which keeps what the file has.\<close>

definition init_log :: "(string \<Rightarrow> bool) \<Rightarrow> string \<Rightarrow> bool \<Rightarrow> logger \<Rightarrow> logger" where
  "init_log can path to_file g =
     (let g = (close_log g)\<lparr>log_to_file := to_file\<rparr> in
      if to_file \<and> path \<noteq> [] \<and> can path then g\<lparr>log_target := Some path\<rparr> else g)"

definition log_line :: "log_level \<Rightarrow> string \<Rightarrow> string" where
  "log_line l message = ''['' @ level_tag l @ ''] '' @ message @ [LF]"

text \<open>printf's \%s with a length stops at a NUL of the message too; stderr gets all of it.\<close>

definition log_message :: "log_level \<Rightarrow> string \<Rightarrow> logger \<Rightarrow> logger" where
  "log_message l message g =
     (case log_target g of
        Some path \<Rightarrow> g\<lparr>log_files := (log_files g)(path := log_files g path @ log_line l (cstr message))\<rparr>
      | None \<Rightarrow> g\<lparr>log_stderr := log_stderr g @ log_line l message\<rparr>)"

section \<open>Lemmas\<close>

lemma fd_get_set: "fd_get (fd_set n v t) m = (if m = n then v else fd_get t m)"
  by (auto simp: fd_get_def fd_set_def nth_append nth_list_update)

lemma lowest_free_closed: "fd_get t (lowest_free t) = None"
  using nth_length_takeWhile [of "\<lambda>v. v \<noteq> None" t] by (auto simp: fd_get_def lowest_free_def)

lemma lowest_free_below: "n < lowest_free t \<Longrightarrow> fd_get t n \<noteq> None"
proof -
  assume n: "n < lowest_free t"
  then have "takeWhile (\<lambda>v. v \<noteq> None) t ! n = t ! n" "takeWhile (\<lambda>v. v \<noteq> None) t ! n \<noteq> None"
    unfolding lowest_free_def by (rule takeWhile_nth) (use n nth_mem set_takeWhileD in \<open>unfold lowest_free_def, fast\<close>)
  moreover have "n < length t" using n length_takeWhile_le unfolding lowest_free_def by (rule less_le_trans)
  ultimately show ?thesis by (simp add: fd_get_def)
qed

lemma sys_open_get:
  assumes "can path"
  obtains n where "sys_open can path t = (int n, fd_set n (Some path) t)" "fd_get t n = None" "\<And>m. fd_get t m = None \<Longrightarrow> n \<le> m"
  using assms lowest_free_closed [of t] lowest_free_below [of _ t] that [of "lowest_free t"]
  by (auto simp: sys_open_def not_less [symmetric] simp del: not_None_eq)

lemma dup2_get: "fd_get t n = Some v \<Longrightarrow> sys_dup2 (int n) new t = fd_set new (Some v) t"
  by (simp add: sys_dup2_def)

lemma close_get: "fd_get (sys_close (int n) t) m = (if m = n then None else fd_get t m)"
  by (auto simp: sys_close_def fd_get_set)

text \<open>The two descriptors a < b opened for the null device and the log.\<close>

definition redirected :: "nat \<Rightarrow> nat \<Rightarrow> string \<Rightarrow> string \<Rightarrow> fd_table \<Rightarrow> fd_table" where
  "redirected a b null logp t =
     (let t = fd_set b (Some logp) (fd_set a (Some null) t);
          t = sys_dup2 (int b) 2 (sys_dup2 (int b) 1 (sys_dup2 (int a) 0 t));
          t = (if 2 < a then sys_close (int a) t else t)
      in if 2 < b then sys_close (int b) t else t)"

lemma redirected_get:
  assumes "a < b" "fd_get t a = None" "fd_get t b = None"
  shows "fd_get (redirected a b null logp t) n =
    (if n = 0 then Some null else if n = 1 \<or> n = 2 then Some logp else fd_get t n)"
proof -
  let ?t = "fd_set b (Some logp) (fd_set a (Some null) t)"
  have "sys_dup2 (int a) 0 ?t = fd_set 0 (Some null) ?t"
    using assms(1) by (intro dup2_get) (simp add: fd_get_set)
  moreover have "sys_dup2 (int b) 1 (fd_set 0 (Some null) ?t) = fd_set 1 (Some logp) (fd_set 0 (Some null) ?t)"
    using assms(1) by (intro dup2_get) (simp add: fd_get_set)
  moreover have "sys_dup2 (int b) 2 (fd_set 1 (Some logp) (fd_set 0 (Some null) ?t)) =
      fd_set 2 (Some logp) (fd_set 1 (Some logp) (fd_set 0 (Some null) ?t))"
    using assms(1) by (intro dup2_get) (simp add: fd_get_set)
  ultimately show ?thesis
    using assms by (simp add: redirected_def Let_def close_get fd_get_set)
qed

lemma redirect_streams:
  assumes "can ''/dev/null''"
  obtains a b where "a < b" "fd_get t a = None" "fd_get t b = None"
    "redirect_standard_streams can log_path t =
       redirected a b ''/dev/null'' (if can log_path then log_path else ''/dev/null'') t"
proof -
  let ?p = "if can log_path then log_path else ''/dev/null''"
  obtain a where a: "sys_open can ''/dev/null'' t = (int a, fd_set a (Some ''/dev/null'') t)" "fd_get t a = None"
      "\<And>m. fd_get t m = None \<Longrightarrow> a \<le> m"
    using sys_open_get [of can "''/dev/null''" t] assms by blast
  let ?t = "fd_set a (Some ''/dev/null'') t"
  have openable: "can ?p" using assms by simp
  obtain b where b: "sys_open can ?p ?t = (int b, fd_set b (Some ?p) ?t)" "fd_get ?t b = None"
    using sys_open_get [of can ?p ?t, OF openable] by blast
  then have "b \<noteq> a" "fd_get t b = None" by (auto simp: fd_get_set split: if_splits)
  moreover from this a(3) have "a < b" by (metis order_le_imp_less_or_eq)
  moreover have "redirect_standard_streams can log_path t = redirected a b ''/dev/null'' ?p t"
  proof (cases "can log_path")
    case True
    then show ?thesis using a(1) b(1) by (simp add: redirect_standard_streams_def redirected_def Let_def)
  next
    case False
    then have "sys_open can log_path ?t = (-1, ?t)" by (simp add: sys_open_def)
    then show ?thesis using a(1) b(1) False by (simp add: redirect_standard_streams_def redirected_def Let_def)
  qed
  ultimately show ?thesis using that a(2) by blast
qed

section \<open>Properties\<close>

text \<open>The streams of a daemon: whichever descriptors are open before, in the child whose system calls
  succeed standard input reads /dev/null, standard output and error go to the log, or to /dev/null
  when the log cannot be opened, and every other descriptor is as it was: none is leaked.\<close>
theorem daemon_streams:
  assumes "parent_pid w \<noteq> 1" and "forked w = 0" and "0 \<le> session_id w" and "can_open w ''/dev/null''"
  shows "\<exists>t'. daemonize_process w log_path t = Goes_on t' \<and> fd_get t' 0 = Some ''/dev/null'' \<and>
    fd_get t' 1 = Some (if can_open w log_path then log_path else ''/dev/null'') \<and> fd_get t' 2 = fd_get t' 1 \<and>
    (\<forall>fd. 2 < fd \<longrightarrow> fd_get t' fd = fd_get t fd)"
proof -
  obtain a b where ab: "a < b" "fd_get t a = None" "fd_get t b = None"
      "redirect_standard_streams (can_open w) log_path t =
        redirected a b ''/dev/null'' (if can_open w log_path then log_path else ''/dev/null'') t"
    using redirect_streams [of "can_open w" t log_path] assms(4) by blast
  have "daemonize_process w log_path t =
      Goes_on (redirected a b ''/dev/null'' (if can_open w log_path then log_path else ''/dev/null'') t)"
    using assms(1-3) by (simp add: daemonize_process_def fork_process_def setup_session_def ab(4))
  then show ?thesis by (auto simp: redirected_get [OF ab(1-3)])
qed

theorem daemon_streams_witness:
  "\<exists>t'. daemonize_process \<lparr>parent_pid = 40, forked = 0, session_id = 41, can_open = (\<lambda>p. True)\<rparr> ''/l'' [None, Some ''tty''] = Goes_on t' \<and>
    fd_get t' 0 = Some ''/dev/null'' \<and> fd_get t' 1 = Some ''/l'' \<and> fd_get t' 7 = None"
proof -
  let ?w = "\<lparr>parent_pid = 40, forked = 0, session_id = 41, can_open = (\<lambda>p. True)\<rparr>"
  have "fd_get [None, Some ''tty''] 7 = None" by (simp add: fd_get_def)
  moreover obtain t' where "daemonize_process ?w ''/l'' [None, Some ''tty''] = Goes_on t'" "fd_get t' 0 = Some ''/dev/null''"
      "fd_get t' 1 = Some ''/l''" "fd_get t' 7 = fd_get [None, Some ''tty''] 7"
    using daemon_streams [of ?w "''/l''" "[None, Some ''tty'']"] by auto
  ultimately show ?thesis by auto
qed

end
