(* ===== verification/MainCpp.thy ===== *)
theory MainCpp
  imports AppRun Options PidLock Background
begin

text \<open>
  src/src/main.cpp: the rewrite as a process. It reads the options, goes to the background, takes the
  process lock, opens the devices, runs the application until a signal ends it, and its destructors
  give everything back, in the order opposite to the construction.
\<close>

section \<open>Paths\<close>

text \<open>parent\_path of an absolute path without doubled slashes, which the link of /proc/self/exe is.\<close>

definition parent_path :: "string \<Rightarrow> string" where
  "parent_path p = (let d = rev (drop 1 (dropWhile (\<lambda>c. c \<noteq> CHR ''/'') (rev p)))
     in if d = [] \<and> CHR ''/'' \<in> set p then ''/'' else d)"

definition get_executable_directory :: "string option \<Rightarrow> string" where
  "get_executable_directory exe = (case exe of Some p \<Rightarrow> if p \<noteq> [] then parent_path p else ''.'' | None \<Rightarrow> ''.'')"

definition build_input_devices :: "cli_options \<Rightarrow> string list" where
  "build_input_devices opts =
     [if cli_keyboard opts = [] then ''/dev/input/event0'' else cli_keyboard opts,
      if cli_fiveway opts = [] then ''/dev/input/event1'' else cli_fiveway opts, ''/dev/input/event2'']"

section \<open>The process\<close>

text \<open>What the system answers: the link of the program, the process calls, the lock file, open of a
  device, the framebuffer, system, and the directory found for a path at the start.\<close>

record main_os =
  w_exe :: "string option"
  w_process :: process_os
  w_fds :: fd_table
  w_lock :: lock_os
  w_pid :: nat
  w_open :: "string \<Rightarrow> int"
  w_vinfo :: "fb_info option"
  w_mmap :: "nat \<Rightarrow> 8 word list option"
  w_system :: "string \<Rightarrow> int"
  w_directory :: "string \<Rightarrow> directory"
  w_flags :: signal_flags

text \<open>Before the loop: None where the parent exits; the results of daemonize and acquire are not looked at.\<close>

definition enter_background :: "main_os \<Rightarrow> cli_options \<Rightarrow> lock_os option" where
  "enter_background w opts =
     (if cli_foreground opts then Some (w_lock w)
      else case daemonize_process (w_process w) (get_executable_directory (w_exe w) @ ''/launchpad.log'') (w_fds w) of
        Parent_exits \<Rightarrow> None
      | Daemon_error e \<Rightarrow> Some (snd (acquire (w_pid w) (w_lock w)))
      | Goes_on t \<Rightarrow> Some (snd (acquire (w_pid w) (w_lock w))))"

definition new_injector :: "(string \<Rightarrow> int) \<Rightarrow> key_injector" where
  "new_injector op = \<lparr>keypad_fd = op ''/proc/keypad'', fiveway_fd = op ''/proc/fiveway''\<rparr>"

definition destroy_injector :: "key_injector \<Rightarrow> int list" where
  "destroy_injector ki = filter (\<lambda>fd. 0 \<le> fd) [keypad_fd ki, fiveway_fd ki]"

definition close_framebuffer :: "kindle_display \<Rightarrow> int list" where
  "close_framebuffer d = (if 0 \<le> d_fd d then [d_fd d] else [])"

definition main_display :: "main_os \<Rightarrow> kindle_display" where
  "main_display w = open_framebuffer (w_open w ''/dev/fb0'') (w_vinfo w) (w_mmap w)"

definition main_app :: "main_os \<Rightarrow> cli_options \<Rightarrow> app" where
  "main_app w opts = new_app (w_directory w (get_executable_directory (w_exe w)))
     (open_devices (w_open w) (build_input_devices opts)) (main_display w)"

record main_end =
  end_app :: app
  end_input :: device_group
  end_closed :: "int list"
  end_lock :: lock_os

text \<open>None: the parent has exited, or the loop has not ended yet.\<close>

definition main_program :: "8 word list \<Rightarrow> main_os \<Rightarrow> string list \<Rightarrow> happening list \<Rightarrow> main_end option res" where
  "main_program font w argv hs =
     (let opts = parse_options argv in
      case enter_background w opts of
        None \<Rightarrow> Inr None
      | Some lock \<Rightarrow>
          let ki = new_injector (w_open w) in
          bindR (app_run font (app_services (w_system w) ki) hs (install_handlers (w_flags w), main_app w opts))
            (\<lambda>(fl, a).
               if \<not> shutdown_requested fl then Inr None
               else case destroy_source (a_input a) of (g, fds) \<Rightarrow>
                 Inr (Some \<lparr>end_app = a, end_input = g,
                   end_closed = destroy_injector ki @ close_framebuffer (main_display w) @ fds,
                   end_lock = release_lock (w_pid w) lock\<rparr>)))"

section \<open>The framebuffer\<close>

lemma u32_id: "n < 2 ^ 32 \<Longrightarrow> u32 n = n"
  by (simp add: u32_def)

text \<open>A screen of an even width with four bits for a pixel, whose mapping has the bytes asked for.\<close>

definition even_screen :: "fb_info \<Rightarrow> bool" where
  "even_screen v = (0 < xres v \<and> 0 < yres v \<and> even (xres v) \<and> bpp v = 4 \<and> xres v * yres v * 4 < 2 ^ 32 \<and>
     yres v + STATUS_BAR_HEIGHT < 2 ^ 32)"

lemma framebuffer_rows:
  assumes "even w" "w * h * 4 < 2 ^ 32" "0 < h" "0 < w"
  shows "framebuffer_size w h 4 = h * (u32 (w + 1) div 2)" "w + 1 < 2 ^ 32" "h * (u32 (w + 1) div 2) < 2 ^ 32"
proof -
  define area where "area = w * h"
  have "w * 1 \<le> area" unfolding area_def using assms(3) by (intro mult_le_mono2) simp
  moreover have small: "area * 4 < 2 ^ 32" using assms(2) by (simp add: area_def)
  ultimately have w: "w + 1 < 2 ^ 32" by simp
  obtain k where k: "w = 2 * k" using assms(1) by (elim evenE)
  then have s: "u32 (w + 1) div 2 = k" using w by (simp add: u32_id)
  have area': "area = 2 * (h * k)" by (simp add: k area_def)
  have "framebuffer_size w h 4 = area * 4 div 8"
    using assms(2) by (simp add: framebuffer_size_def area_def u32_def)
  then show "framebuffer_size w h 4 = h * (u32 (w + 1) div 2)" unfolding s by (simp add: area')
  show "h * (u32 (w + 1) div 2) < 2 ^ 32" using small unfolding s by (simp add: area')
  show "w + 1 < 2 ^ 32" by (rule w)
qed

lemma opened_display:
  assumes "length font = 256 * BYTES_PER_GLYPH"
    and "\<And>v. vinfo = Some v \<Longrightarrow> even_screen v" and "\<And>n m. mmap n = Some m \<Longrightarrow> length m = n"
  shows "bar_fits font (open_framebuffer fd vinfo mmap)"
proof -
  have fits: "bar_fits font \<lparr>d_width = w, d_height = h, d_memory = m, d_fd = f\<rparr>"
    if "even w" "w * h * 4 < 2 ^ 32" "0 < h" "0 < w" "h + STATUS_BAR_HEIGHT < 2 ^ 32" "length m = framebuffer_size w h 4" for w h m f
    using framebuffer_rows [OF that(1-4)] that(4-6) assms(1) by (simp add: bar_fits_def display_ok_def stride_def)
  have default: "bar_fits font \<lparr>d_width = 600, d_height = 800, d_memory = m, d_fd = f\<rparr>" if "length m = framebuffer_size 600 800 4" for m f
    by (rule fits) (use that in \<open>simp_all add: STATUS_BAR_HEIGHT_def\<close>)
  have "bar_fits font \<lparr>d_width = xres v, d_height = yres v, d_memory = m, d_fd = f\<rparr>"
    if "vinfo = Some v" "length m = framebuffer_size (xres v) (yres v) 4" for v m f
    using assms(2) [OF that(1)] that(2) by (intro fits) (simp_all add: even_screen_def)
  then show ?thesis
    using default assms(3)
    by (cases vinfo; cases "0 \<le> fd")
      (auto simp: open_framebuffer_def Let_def even_screen_def dest: assms(2) split: option.split)
qed

section \<open>Shutdown\<close>

lemma happens_shutdown:
  "app_happens font sv h (fl, a) = Inr (fl', a') \<Longrightarrow>
   shutdown_requested fl \<or> h = Signal_comes SIGTERM \<or> h = Signal_comes SIGINT \<Longrightarrow> shutdown_requested fl'"
  by (cases h) (auto simp: signal_arrives_def SIGHUP_def SIGINT_def SIGTERM_def)

lemma run_shutdown:
  "app_run font sv hs (fl, a) = Inr (fl', a') \<Longrightarrow>
   shutdown_requested fl \<or> Signal_comes SIGTERM \<in> set hs \<or> Signal_comes SIGINT \<in> set hs \<Longrightarrow> shutdown_requested fl'"
proof (induction hs arbitrary: fl a)
  case (Cons h hs)
  obtain fl1 a1 where "app_happens font sv h (fl, a) = Inr (fl1, a1)" "app_run font sv hs (fl1, a1) = Inr (fl', a')"
    using Cons.prems(1) by (auto simp: app_run_def res_simps)
  with Cons.IH happens_shutdown Cons.prems(2) show ?case by (metis set_ConsD)
qed (simp add: app_run_def)

section \<open>The end of the process\<close>

lemma release_unlocks: "\<not> is_locked p (release_lock p w)"
  by (auto simp: release_lock_def is_locked_def release_calls_def lock_simps split: option.splits)

text \<open>What the system promises: any even screen the driver reports, and a mapping of the size asked for.\<close>

definition os_ok :: "main_os \<Rightarrow> bool" where
  "os_ok w = ((case w_vinfo w of None \<Rightarrow> True | Some v \<Rightarrow> even_screen v) \<and>
     (\<forall>n m. w_mmap w n = Some m \<longrightarrow> length m = n))"

lemma main_display_fits: "os_ok w \<Longrightarrow> length font = 256 * BYTES_PER_GLYPH \<Longrightarrow> bar_fits font (main_display w)"
  unfolding main_display_def by (rule opened_display) (auto simp: os_ok_def)

text \<open>The descriptors main has open when the loop starts.\<close>

definition opened_fds :: "main_os \<Rightarrow> cli_options \<Rightarrow> int list" where
  "opened_fds w opts = destroy_injector (new_injector (w_open w)) @ close_framebuffer (main_display w) @
     descriptors (open_devices (w_open w) (build_input_devices opts))"

lemma main_run:
  assumes "os_ok w" "length font = 256 * BYTES_PER_GLYPH"
  shows "\<exists>fl a. app_run font (app_services (w_system w) ki) hs (fl0, main_app w opts) = Inr (fl, a) \<and>
    app_ok font (main_display w) a \<and> descriptors (a_input a) = descriptors (open_devices (w_open w) (build_input_devices opts))"
proof -
  note fits = main_display_fits [OF assms]
  obtain fl a where run: "app_run font (app_services (w_system w) ki) hs (fl0, main_app w opts) = Inr (fl, a)"
      "app_ok font (main_display w) a"
    using run_ok [OF fits app_services_notifier] unfolding main_app_def by blast
  have "app_ok font (main_display w) (main_app w opts)"
    unfolding main_app_def by (rule new_app_ok [OF fits]) (simp_all add: open_devices_def group_ok_def)
  from run_descriptors [OF app_services_notifier this run(1)] run show ?thesis by (simp add: main_app_def)
qed

text \<open>A run that is told to end, from the start to what the destructors leave.\<close>

lemma main_ends:
  assumes "os_ok w" "length font = 256 * BYTES_PER_GLYPH" "opts = parse_options argv" "enter_background w opts = Some lock"
    and "Signal_comes SIGTERM \<in> set hs \<or> Signal_comes SIGINT \<in> set hs"
  shows "\<exists>fl a. app_run font (app_services (w_system w) (new_injector (w_open w))) hs (install_handlers (w_flags w), main_app w opts) = Inr (fl, a) \<and>
    app_ok font (main_display w) a \<and>
    main_program font w argv hs = Inr (Some \<lparr>end_app = a, end_input = fst (destroy_source (a_input a)),
      end_closed = opened_fds w opts, end_lock = release_lock (w_pid w) lock\<rparr>)"
proof -
  let ?ki = "new_injector (w_open w)"
  obtain fl a where run: "app_run font (app_services (w_system w) ?ki) hs (install_handlers (w_flags w), main_app w opts) = Inr (fl, a)"
      "app_ok font (main_display w) a" "descriptors (a_input a) = descriptors (open_devices (w_open w) (build_input_devices opts))"
    using main_run [OF assms(1,2)] by blast
  have "shutdown_requested fl" using run_shutdown [OF run(1)] assms(5) by blast
  moreover have "snd (destroy_source (a_input a)) = descriptors (a_input a)"
    using destroyed_releases ok_parts(3) [OF run(2)] by blast
  ultimately have "main_program font w argv hs = Inr (Some \<lparr>end_app = a, end_input = fst (destroy_source (a_input a)),
      end_closed = opened_fds w opts, end_lock = release_lock (w_pid w) lock\<rparr>)"
    using run assms(3,4) by (cases "destroy_source (a_input a)") (simp add: main_program_def Let_def opened_fds_def)
  with run show ?thesis by blast
qed

section \<open>Properties\<close>

text \<open>A child of the daemon on a system without a framebuffer that can be opened.\<close>

definition sample_main :: main_os where
  "sample_main = \<lparr>w_exe = Some ''/mnt/us/launchpad/launchpad'',
     w_process = \<lparr>parent_pid = 40, forked = 0, session_id = 41, can_open = (\<lambda>p. True)\<rparr>, w_fds = [], w_lock = no_lock_file (\<lambda>p. True),
     w_pid = 7, w_open = (\<lambda>p. if p = ''/proc/keypad'' then 3 else -1), w_vinfo = None, w_mmap = (\<lambda>n. None), w_system = (\<lambda>c. 0),
     w_directory = (\<lambda>p. sample_directory), w_flags = no_signal\<rparr>"

text \<open>C15: The process gives back what it took: in the foreground or in the child of the daemon, whatever
  devices can be opened, whatever the configuration, the keys, the clock and the reloads, a
  termination signal ends the program without a fault; then no device is grabbed, every descriptor
  it opened is closed, and the lock is not held. The conditions are those of os\_ok: when there is a
  framebuffer, it is not empty, has 4 bits per pixel, an even width and a size that stays in 32 bits
  with the bar added (with an odd width the program does write behind it: odd\_width\_overruns), and a
  mapping has the length it was asked for; and the font has its 256 glyphs.\<close>
theorem main_leaves_nothing:
  assumes "os_ok w" and "length font = 256 * BYTES_PER_GLYPH" and "enter_background w (parse_options argv) \<noteq> None"
    and "Signal_comes SIGTERM \<in> set hs \<or> Signal_comes SIGINT \<in> set hs"
  shows "\<exists>e. main_program font w argv hs = Inr (Some e) \<and> (\<forall>fd. \<not> grabbed (ev_ioctls (end_input e)) fd) \<and>
    (\<forall>path \<in> set (''/proc/keypad'' # ''/proc/fiveway'' # build_input_devices (parse_options argv)).
       0 \<le> w_open w path \<longrightarrow> w_open w path \<in> set (end_closed e)) \<and>
    (0 \<le> d_fd (main_display w) \<longrightarrow> d_fd (main_display w) \<in> set (end_closed e)) \<and>
    \<not> is_locked (w_pid w) (end_lock e)"
proof -
  let ?opts = "parse_options argv"
  obtain lock where lock: "enter_background w ?opts = Some lock" using assms(3) by blast
  obtain a where a: "app_ok font (main_display w) a"
      "main_program font w argv hs = Inr (Some \<lparr>end_app = a, end_input = fst (destroy_source (a_input a)),
         end_closed = opened_fds w ?opts, end_lock = release_lock (w_pid w) lock\<rparr>)"
    using main_ends [OF assms(1,2) refl lock assms(4)] by blast
  have closes: "w_open w path \<in> set (opened_fds w ?opts)"
    if "path \<in> set (''/proc/keypad'' # ''/proc/fiveway'' # build_input_devices ?opts)" "0 \<le> w_open w path" for path
    using that by (auto simp: opened_fds_def destroy_injector_def new_injector_def open_devices_def)
  have "\<not> grabbed (ev_ioctls (fst (destroy_source (a_input a)))) fd" for fd
    using destroyed_releases [OF ok_parts(3) [OF a(1)]] by blast
  moreover have "0 \<le> d_fd (main_display w) \<Longrightarrow> d_fd (main_display w) \<in> set (opened_fds w ?opts)"
    by (simp add: opened_fds_def close_framebuffer_def)
  ultimately show ?thesis unfolding a(2) using closes release_unlocks by simp
qed

theorem main_leaves_nothing_witness:
  "\<exists>e. main_program sample_font sample_main [] [Signal_comes SIGTERM] = Inr (Some e) \<and> 3 \<in> set (end_closed e) \<and>
    \<not> is_locked 7 (end_lock e) \<and> enter_background sample_main (parse_options []) \<noteq> None"
proof -
  have child: "enter_background sample_main (parse_options []) \<noteq> None"
    by (simp add: enter_background_def sample_main_def parse_options_def default_options_def daemonize_process_def
        fork_process_def setup_session_def)
  have "os_ok sample_main" by (simp add: os_ok_def sample_main_def)
  then obtain e where e: "main_program sample_font sample_main [] [Signal_comes SIGTERM] = Inr (Some e)" "\<not> is_locked (w_pid sample_main) (end_lock e)"
      "0 \<le> w_open sample_main ''/proc/keypad'' \<longrightarrow> w_open sample_main ''/proc/keypad'' \<in> set (end_closed e)"
    using main_leaves_nothing [OF _ _ child, of sample_font "[Signal_comes SIGTERM]"] by auto
  have "w_open sample_main ''/proc/keypad'' = 3" "w_pid sample_main = 7" by (simp_all add: sample_main_def)
  with e child show ?thesis by auto
qed

text \<open>The lock keeps nobody out: the result of acquire is thrown away, so that the program does
  the same whatever the lock is, and a second daemon runs beside the one that holds it.\<close>
theorem lock_result_ignored:
  "mapR (map_option (\<lambda>e. (end_app e, end_input e, end_closed e))) (main_program font (w\<lparr>w_lock := held\<rparr>) argv hs) =
   mapR (map_option (\<lambda>e. (end_app e, end_input e, end_closed e))) (main_program font (w\<lparr>w_lock := free_lock\<rparr>) argv hs)"
proof -
  have same: "main_app (w\<lparr>w_lock := l\<rparr>) = main_app w" "main_display (w\<lparr>w_lock := l\<rparr>) = main_display w" for l
    by (simp_all add: main_app_def main_display_def fun_eq_iff)
  have "enter_background (w\<lparr>w_lock := l\<rparr>) (parse_options argv) = None \<longleftrightarrow> enter_background w (parse_options argv) = None" for l
    by (simp add: enter_background_def split: daemon_end.split)
  then consider "enter_background (w\<lparr>w_lock := held\<rparr>) (parse_options argv) = None" "enter_background (w\<lparr>w_lock := free_lock\<rparr>) (parse_options argv) = None"
    | l l' where "enter_background (w\<lparr>w_lock := held\<rparr>) (parse_options argv) = Some l"
        "enter_background (w\<lparr>w_lock := free_lock\<rparr>) (parse_options argv) = Some l'"
    by (metis not_None_eq)
  then show ?thesis
  proof cases
    case 1
    then show ?thesis by (simp add: main_program_def Let_def)
  next
    case 2
    then show ?thesis
      by (cases "app_run font (app_services (w_system w) (new_injector (w_open w))) hs
          (install_handlers (w_flags w), main_app w (parse_options argv))")
        (auto simp: main_program_def Let_def same split: prod.split)
  qed
qed

text \<open>A screen of an odd width is overrun: when the driver reports an odd number of columns and at least
  two rows, the last pixel passes the test of the bounds and lies behind the mapped memory, although
  the mapping has all the bytes the program asked for.\<close>
theorem odd_width_overruns:
  assumes "odd columns" and "2 \<le> rows" and "columns * rows * 4 < 2 ^ 32" and "0 \<le> fd"
    and "mmap (framebuffer_size columns rows 4) = Some m" and "length m = framebuffer_size columns rows 4"
  shows "set_pixel (columns - 1) (rows - 1) g
    (open_framebuffer fd (Some \<lparr>xres = columns, yres = rows, bpp = 4\<rparr>) mmap) = Inl Buffer_overflow"
proof -
  obtain j k where j: "columns = 2 * j + 1" and k: "rows = k + 2" using assms(1,2) by (metis oddE le_Suc_ex add.commute)
  define area where "area = columns * rows"
  have small: "area * 4 < 2 ^ 32" and size: "length m = area div 2"
    using assms(3,6) by (simp_all add: area_def framebuffer_size_def u32_def)
  have "columns * 2 \<le> area" unfolding area_def using assms(2) by (rule mult_le_mono2)
  then have row: "u32 (columns + 1) div 2 = j + 1" using small by (simp add: j u32_def)
  define last where "last = (rows - 1) * (j + 1) + j"
  have index: "2 * last = area + k" by (simp add: last_def area_def j k algebra_simps)
  have "k \<le> area" using j by (simp add: area_def k)
  with index small have "last < 2 ^ 32" by simp
  moreover have "area div 2 \<le> last" using index by simp
  moreover have "u32 ((rows - 1) * (u32 (columns + 1) div 2) + (columns - 1) div 2) = last mod 2 ^ 32"
    unfolding row by (simp add: last_def j u32_def)
  ultimately show ?thesis
    using assms(4,5) size j k by (simp add: open_framebuffer_def Let_def set_pixel_def byte_index_def stride_def)
qed

theorem odd_width_overruns_witness:
  "set_pixel 2 1 0 (open_framebuffer 5 (Some \<lparr>xres = 3, yres = 2, bpp = 4\<rparr>) (\<lambda>n. Some (replicate n 0))) = Inl Buffer_overflow"
  using odd_width_overruns [of 3 2 5 "\<lambda>n. Some (replicate n 0)" _ 0] by simp

end
