(* ===== verification/Guards.thy ===== *)
theory Guards
  imports Prelude "HOL-Library.Multiset"
begin

text \<open>
  The two classes of the core library with a contract: src/include/launchpad/core/file\_descriptor.hpp,
  the guard that owns a descriptor, and src/include/launchpad/core/result.hpp, a value or an error.
  The objects of a program are a list of what they hold, with the calls of close they have made; a
  destroyed object stays in the list with -1.
\<close>

section \<open>Descriptors with an owner\<close>

record guards =
  g_fds :: "int list"
  g_closed :: "int list"

definition release_fd :: "nat \<Rightarrow> guards \<Rightarrow> int \<times> guards" where
  "release_fd i g = (g_fds g ! i, g\<lparr>g_fds := (g_fds g)[i := -1]\<rparr>)"

definition reset_fd :: "nat \<Rightarrow> int \<Rightarrow> guards \<Rightarrow> guards" where
  "reset_fd i new_fd g =
     (let g = (if 0 \<le> g_fds g ! i then g\<lparr>g_closed := g_closed g @ [g_fds g ! i]\<rparr> else g)
      in g\<lparr>g_fds := (g_fds g)[i := new_fd]\<rparr>)"

definition construct_fd :: "int \<Rightarrow> guards \<Rightarrow> guards" where
  "construct_fd fd g = g\<lparr>g_fds := g_fds g @ [fd]\<rparr>"

definition move_construct :: "nat \<Rightarrow> guards \<Rightarrow> guards" where
  "move_construct j g = (case release_fd j g of (fd, g) \<Rightarrow> construct_fd fd g)"

definition move_assign :: "nat \<Rightarrow> nat \<Rightarrow> guards \<Rightarrow> guards" where
  "move_assign i j g = (if i = j then g else case release_fd j g of (fd, g) \<Rightarrow> reset_fd i fd g)"

definition destroy_fd :: "nat \<Rightarrow> guards \<Rightarrow> guards" where
  "destroy_fd i g = reset_fd i (-1) g"

definition is_valid_fd :: "nat \<Rightarrow> guards \<Rightarrow> bool" where
  "is_valid_fd i g = (0 \<le> g_fds g ! i)"

section \<open>Programs\<close>

datatype guard_op = Construct int | Move_construct nat | Move_assign nat nat | Release nat | Reset nat int | Destroy nat

fun guard_step :: "guard_op \<Rightarrow> guards \<Rightarrow> guards" where
  "guard_step (Construct fd) g = construct_fd fd g"
| "guard_step (Move_construct j) g = move_construct j g"
| "guard_step (Move_assign i j) g = move_assign i j g"
| "guard_step (Release i) g = snd (release_fd i g)"
| "guard_step (Reset i fd) g = reset_fd i fd g"
| "guard_step (Destroy i) g = destroy_fd i g"

text \<open>The objects an operation names exist.\<close>

fun op_objects :: "guard_op \<Rightarrow> nat list" where
  "op_objects (Construct fd) = []"
| "op_objects (Move_construct j) = [j]"
| "op_objects (Move_assign i j) = [i, j]"
| "op_objects (Release i) = [i]"
| "op_objects (Reset i fd) = [i]"
| "op_objects (Destroy i) = [i]"

fun guard_run :: "guard_op list \<Rightarrow> guards \<Rightarrow> guards option" where
  "guard_run [] g = Some g"
| "guard_run (p # ps) g = (if list_all (\<lambda>i. i < length (g_fds g)) (op_objects p) then guard_run ps (guard_step p g) else None)"

text \<open>What the operations of a program take in, and what release gives back to its callers.\<close>

definition valid_of :: "int \<Rightarrow> int multiset" where
  "valid_of fd = (if 0 \<le> fd then {#fd#} else {#})"

fun taken_in :: "guard_op \<Rightarrow> int multiset" where
  "taken_in (Construct fd) = valid_of fd"
| "taken_in (Reset i fd) = valid_of fd"
| "taken_in p = {#}"

fun given_back :: "guard_op list \<Rightarrow> guards \<Rightarrow> int multiset" where
  "given_back [] g = {#}"
| "given_back (p # ps) g =
     (case p of Release i \<Rightarrow> valid_of (g_fds g ! i) | _ \<Rightarrow> {#}) + given_back ps (guard_step p g)"

definition held :: "guards \<Rightarrow> int multiset" where
  "held g = sum_list (map valid_of (g_fds g))"

lemma held_update: "i < length fds \<Longrightarrow>
    sum_list (map valid_of (fds[i := fd])) + valid_of (fds ! i) = sum_list (map valid_of fds) + valid_of fd"
  by (induction fds arbitrary: i) (auto split: nat.split simp: ac_simps)

lemma held_simps:
  "held (construct_fd fd g) = held g + valid_of fd"
  "i < length (g_fds g) \<Longrightarrow> held (snd (release_fd i g)) + valid_of (g_fds g ! i) = held g"
  "i < length (g_fds g) \<Longrightarrow> held (reset_fd i fd g) + mset (g_closed (reset_fd i fd g)) = held g + mset (g_closed g) + valid_of fd"
  using held_update [of i "g_fds g" "-1"] held_update [of i "g_fds g" fd]
  by (auto simp: held_def construct_fd_def release_fd_def reset_fd_def Let_def valid_of_def ac_simps)

lemma kept_simps:
  "g_closed (construct_fd fd g) = g_closed g" "g_closed (snd (release_fd i g)) = g_closed g"
  "fst (release_fd i g) = g_fds g ! i" "length (g_fds (snd (release_fd i g))) = length (g_fds g)"
  by (simp_all add: construct_fd_def release_fd_def)

text \<open>An operation neither loses nor invents a descriptor.\<close>

lemma step_conserves:
  assumes "list_all (\<lambda>i. i < length (g_fds g)) (op_objects p)"
  shows "held (guard_step p g) + mset (g_closed (guard_step p g)) + (case p of Release i \<Rightarrow> valid_of (g_fds g ! i) | _ \<Rightarrow> {#}) =
    held g + mset (g_closed g) + taken_in p"
proof (cases p)
  case (Move_construct j)
  then show ?thesis using assms held_simps(2) [of j g]
    by (cases "release_fd j g") (use kept_simps(2,3) [of j g] in \<open>simp add: move_construct_def held_simps(1) kept_simps ac_simps\<close>)
next
  case (Move_assign i j)
  have j: "i < length (g_fds g)" "j < length (g_fds g)" using assms by (simp_all add: Move_assign)
  let ?g = "snd (release_fd j g)"
  have "held (reset_fd i (g_fds g ! j) ?g) + mset (g_closed (reset_fd i (g_fds g ! j) ?g)) = held g + mset (g_closed g)"
    using held_simps(3) [of i ?g "g_fds g ! j"] held_simps(2) [OF j(2)] j(1) by (simp add: kept_simps ac_simps)
  then show ?thesis
    by (simp add: Move_assign move_assign_def kept_simps(3) case_prod_beta)
next
  case (Reset i fd)
  then show ?thesis using assms held_simps(3) [of i g fd] by simp
next
  case (Destroy i)
  then show ?thesis using assms held_simps(3) [of i g "-1"] by (simp add: destroy_fd_def valid_of_def)
next
  case (Construct fd)
  then show ?thesis by (simp add: held_simps(1) kept_simps(1) ac_simps)
next
  case (Release i)
  then have "i < length (g_fds g)" using assms by simp
  from held_simps(2) [OF this] show ?thesis by (simp add: Release kept_simps(2) flip: ac_simps(1))
qed

lemma run_conserves:
  "guard_run ps g = Some g' \<Longrightarrow>
   held g' + mset (g_closed g') + given_back ps g = held g + mset (g_closed g) + sum_list (map taken_in ps)"
proof (induction ps arbitrary: g)
  case (Cons p ps)
  have p: "list_all (\<lambda>i. i < length (g_fds g)) (op_objects p)" and ps: "guard_run ps (guard_step p g) = Some g'"
    using Cons.prems by (simp_all split: if_splits)
  let ?g = "case p of Release i \<Rightarrow> valid_of (g_fds g ! i) | _ \<Rightarrow> {#}"
  have "held g' + mset (g_closed g') + given_back (p # ps) g = held g' + mset (g_closed g') + given_back ps (guard_step p g) + ?g"
    by (simp only: given_back.simps ac_simps)
  also have "\<dots> = held (guard_step p g) + mset (g_closed (guard_step p g)) + ?g + sum_list (map taken_in ps)"
    unfolding Cons.IH [OF ps] by (simp only: ac_simps)
  also have "\<dots> = held g + mset (g_closed g) + sum_list (map taken_in (p # ps))"
    unfolding step_conserves [OF p] by (simp only: list.map sum_list.Cons ac_simps)
  finally show ?case .
qed simp

section \<open>A value or an error\<close>

datatype ('a, 'e) result = Value 'a | Failure 'e

definition is_ok :: "('a, 'e) result \<Rightarrow> bool" where
  "is_ok r = (case r of Value v \<Rightarrow> True | Failure e \<Rightarrow> False)"

definition is_err :: "('a, 'e) result \<Rightarrow> bool" where
  "is_err r = (case r of Value v \<Rightarrow> False | Failure e \<Rightarrow> True)"

text \<open>None: std::get throws bad\_variant\_access.\<close>

definition value_of :: "('a, 'e) result \<Rightarrow> 'a option" where
  "value_of r = (case r of Value v \<Rightarrow> Some v | Failure e \<Rightarrow> None)"

definition error_of :: "('a, 'e) result \<Rightarrow> 'e option" where
  "error_of r = (case r of Value v \<Rightarrow> None | Failure e \<Rightarrow> Some e)"

definition value_or :: "('a, 'e) result \<Rightarrow> 'a \<Rightarrow> 'a" where
  "value_or r default_value = (if is_ok r then the (value_of r) else default_value)"

text \<open>The specialisation for operations without a value keeps a flag beside the error, which is empty when
  there was none.\<close>

record void_result =
  vr_error :: string
  vr_has_error :: bool

definition void_success :: void_result where
  "void_success = \<lparr>vr_error = [], vr_has_error = False\<rparr>"

definition void_failure :: "string \<Rightarrow> void_result" where
  "void_failure e = \<lparr>vr_error = e, vr_has_error = True\<rparr>"

definition void_is_ok :: "void_result \<Rightarrow> bool" where
  "void_is_ok r = (\<not> vr_has_error r)"

definition void_is_err :: "void_result \<Rightarrow> bool" where
  "void_is_err r = vr_has_error r"

text \<open>It is the general class for a value of one element, but for error(), which here never throws.\<close>

definition as_result :: "void_result \<Rightarrow> (unit, string) result" where
  "as_result r = (if vr_has_error r then Failure (vr_error r) else Value ())"

lemma void_result_simulates:
  "as_result void_success = Value ()" "as_result (void_failure e) = Failure e"
  "is_ok (as_result r) = void_is_ok r" "is_err (as_result r) = void_is_err r"
  "error_of (as_result r) = (if void_is_err r then Some (vr_error r) else None)"
  by (simp_all add: as_result_def void_success_def void_failure_def void_is_ok_def void_is_err_def is_ok_def is_err_def error_of_def)

section \<open>Properties\<close>

text \<open>A guard neither leaks a descriptor nor closes one twice: whatever guards a program makes, moves,
  assigns (a guard to itself too), resets, releases and destroys, every descriptor taken in is held by
  one guard, was closed once, or was given back by release, as often as it was taken in and no oftener;
  so when all guards are gone, what was not given back has been closed.\<close>
theorem guards_conserve:
  assumes "guard_run ps \<lparr>g_fds = [], g_closed = []\<rparr> = Some g"
  shows "held g + mset (g_closed g) + given_back ps \<lparr>g_fds = [], g_closed = []\<rparr> = sum_list (map taken_in ps) \<and>
    (list_all (\<lambda>fd. fd < 0) (g_fds g) \<longrightarrow>
       mset (g_closed g) = sum_list (map taken_in ps) - given_back ps \<lparr>g_fds = [], g_closed = []\<rparr>)"
proof -
  have "held g + mset (g_closed g) + given_back ps \<lparr>g_fds = [], g_closed = []\<rparr> = sum_list (map taken_in ps)"
    using run_conserves [OF assms] by (simp add: held_def)
  moreover have "list_all (\<lambda>fd. fd < 0) fds \<Longrightarrow> sum_list (map valid_of fds) = {#}" for fds
    by (induction fds) (auto simp: valid_of_def)
  ultimately show ?thesis by (metis add_0 diff_union_cancelR held_def)
qed

theorem guards_conserve_witness:
  "guard_run [Construct 5, Construct 6, Move_assign 0 1, Move_construct 0, Release 2, Destroy 0] \<lparr>g_fds = [], g_closed = []\<rparr> =
      Some \<lparr>g_fds = [-1, -1, -1], g_closed = [5]\<rparr> \<and> mset [5] = {#5, 6#} - {#6 :: int#}"
proof -
  let ?ps = "[Construct 5, Construct 6, Move_assign 0 1, Move_construct 0, Release 2, Destroy 0]"
  note ops = construct_fd_def move_assign_def move_construct_def release_fd_def reset_fd_def destroy_fd_def Let_def
  have run: "guard_run ?ps \<lparr>g_fds = [], g_closed = []\<rparr> = Some \<lparr>g_fds = [-1, -1, -1], g_closed = [5]\<rparr>"
    by (simp add: ops)
  moreover have "given_back ?ps \<lparr>g_fds = [], g_closed = []\<rparr> = {#6#}" "sum_list (map taken_in ?ps) = {#5, 6#}"
    by (simp_all add: ops valid_of_def)
  ultimately show ?thesis using guards_conserve [OF run] by simp
qed

end
