(* ===== verification/Glyphs.thy ===== *)
theory Glyphs
  imports Main "HOL-Library.Word"
begin

text \<open>
  src/include/fnt12x22.h: the array default\_font, 256 glyphs of 22 rows of 12 pixels with four bits
  each. The six bytes of a row of the source are written as one number, the first byte in its
  highest places; glyphs\_XX holds the rows of the four glyphs from code 0xXX on.
\<close>

section \<open>Rows\<close>

definition row_of :: "nat \<Rightarrow> 8 word list" where
  "row_of n = map (\<lambda>i. word_of_nat (n div 256 ^ i)) [5, 4, 3, 2, 1, 0]"

section \<open>Glyphs\<close>

definition glyphs_00 :: "nat list" where
  "glyphs_00 = [0, 0, 0xFFFFFFFFFFF, 0xF000000000F, 0xF000000000F, 0xF000000000F, 0xF000000000F, 0xF000000000F, 0xF000000000F,
    0xF000000000F, 0xF000000000F, 0xF000000000F, 0xF000000000F, 0xF000000000F, 0xF000000000F, 0xF000000000F,
    0xF000000000F, 0xF000000000F, 0xF000000000F, 0xF000000000F, 0xFFFFFFFFFFF, 0,
    0, 0, 0xFFFFFFFFFFF, 0xF000000000F, 0xF000000000F, 0xF000000000F, 0xF000000000F, 0xF000000000F, 0xF000000000F,
    0xF000000000F, 0xF000000000F, 0xF000000000F, 0xF000000000F, 0xF000000000F, 0xF000000000F, 0xF000000000F,
    0xF000000000F, 0xF000000000F, 0xF000000000F, 0xF000000000F, 0xFFFFFFFFFFF, 0,
    0, 0, 0xFFFFFFFFFFF, 0xF000000000F, 0xF000000000F, 0xF000000000F, 0xF000000000F, 0xF000000000F, 0xF000000000F,
    0xF000000000F, 0xF000000000F, 0xF000000000F, 0xF000000000F, 0xF000000000F, 0xF000000000F, 0xF000000000F,
    0xF000000000F, 0xF000000000F, 0xF000000000F, 0xF000000000F, 0xFFFFFFFFFFF, 0,
    0, 0, 0xFFFFFFFFFFF, 0xF000000000F, 0xF000000000F, 0xF000000000F, 0xF000000000F, 0xF000000000F, 0xF000000000F,
    0xF000000000F, 0xF000000000F, 0xF000000000F, 0xF000000000F, 0xF000000000F, 0xF000000000F, 0xF000000000F,
    0xF000000000F, 0xF000000000F, 0xF000000000F, 0xF000000000F, 0xFFFFFFFFFFF, 0]"

definition glyphs_04 :: "nat list" where
  "glyphs_04 = [0, 0, 0xFFFFFFFFFFF, 0xF000000000F, 0xF000000000F, 0xF000000000F, 0xF000000000F, 0xF000000000F, 0xF000000000F,
    0xF000000000F, 0xF000000000F, 0xF000000000F, 0xF000000000F, 0xF000000000F, 0xF000000000F, 0xF000000000F,
    0xF000000000F, 0xF000000000F, 0xF000000000F, 0xF000000000F, 0xFFFFFFFFFFF, 0,
    0, 0, 0xFFFFFFFFFFF, 0xF000000000F, 0xF000000000F, 0xF000000000F, 0xF000000000F, 0xF000000000F, 0xF000000000F,
    0xF000000000F, 0xF000000000F, 0xF000000000F, 0xF000000000F, 0xF000000000F, 0xF000000000F, 0xF000000000F,
    0xF000000000F, 0xF000000000F, 0xF000000000F, 0xF000000000F, 0xFFFFFFFFFFF, 0,
    0, 0, 0xFFFFFFFFFFF, 0xF000000000F, 0xF000000000F, 0xF000000000F, 0xF000000000F, 0xF000000000F, 0xF000000000F,
    0xF000000000F, 0xF000000000F, 0xF000000000F, 0xF000000000F, 0xF000000000F, 0xF000000000F, 0xF000000000F,
    0xF000000000F, 0xF000000000F, 0xF000000000F, 0xF000000000F, 0xFFFFFFFFFFF, 0,
    0, 0, 0xFFFFFFFFFFF, 0xF000000000F, 0xF000000000F, 0xF000000000F, 0xF000000000F, 0xF000000000F, 0xF000000000F,
    0xF000000000F, 0xF000000000F, 0xF000000000F, 0xF000000000F, 0xF000000000F, 0xF000000000F, 0xF000000000F,
    0xF000000000F, 0xF000000000F, 0xF000000000F, 0xF000000000F, 0xFFFFFFFFFFF, 0]"

definition glyphs_08 :: "nat list" where
  "glyphs_08 = [0, 0, 0xFFFFFFFFFFF, 0xF000000000F, 0xF000000000F, 0xF000000000F, 0xF000000000F, 0xF000000000F, 0xF000000000F,
    0xF000000000F, 0xF000000000F, 0xF000000000F, 0xF000000000F, 0xF000000000F, 0xF000000000F, 0xF000000000F,
    0xF000000000F, 0xF000000000F, 0xF000000000F, 0xF000000000F, 0xFFFFFFFFFFF, 0,
    0, 0, 0xFFFFFFFFFFF, 0xF000000000F, 0xF000000000F, 0xF000000000F, 0xF000000000F, 0xF000000000F, 0xF000000000F,
    0xF000000000F, 0xF000000000F, 0xF000000000F, 0xF000000000F, 0xF000000000F, 0xF000000000F, 0xF000000000F,
    0xF000000000F, 0xF000000000F, 0xF000000000F, 0xF000000000F, 0xFFFFFFFFFFF, 0,
    0, 0, 0xFFFFFFFFFFF, 0xF000000000F, 0xF000000000F, 0xF000000000F, 0xF000000000F, 0xF000000000F, 0xF000000000F,
    0xF000000000F, 0xF000000000F, 0xF000000000F, 0xF000000000F, 0xF000000000F, 0xF000000000F, 0xF000000000F,
    0xF000000000F, 0xF000000000F, 0xF000000000F, 0xF000000000F, 0xFFFFFFFFFFF, 0,
    0, 0, 0xFFFFFFFFFFF, 0xF000000000F, 0xF000000000F, 0xF000000000F, 0xF000000000F, 0xF000000000F, 0xF000000000F,
    0xF000000000F, 0xF000000000F, 0xF000000000F, 0xF000000000F, 0xF000000000F, 0xF000000000F, 0xF000000000F,
    0xF000000000F, 0xF000000000F, 0xF000000000F, 0xF000000000F, 0xFFFFFFFFFFF, 0]"

definition glyphs_0C :: "nat list" where
  "glyphs_0C = [0, 0, 0xFFFFFFFFFFF, 0xF000000000F, 0xF000000000F, 0xF000000000F, 0xF000000000F, 0xF000000000F, 0xF000000000F,
    0xF000000000F, 0xF000000000F, 0xF000000000F, 0xF000000000F, 0xF000000000F, 0xF000000000F, 0xF000000000F,
    0xF000000000F, 0xF000000000F, 0xF000000000F, 0xF000000000F, 0xFFFFFFFFFFF, 0,
    0, 0, 0xFFFFFFFFFFF, 0xF000000000F, 0xF000000000F, 0xF000000000F, 0xF000000000F, 0xF000000000F, 0xF000000000F,
    0xF000000000F, 0xF000000000F, 0xF000000000F, 0xF000000000F, 0xF000000000F, 0xF000000000F, 0xF000000000F,
    0xF000000000F, 0xF000000000F, 0xF000000000F, 0xF000000000F, 0xFFFFFFFFFFF, 0,
    0, 0, 0xFFFFFFFFFFF, 0xF000000000F, 0xF000000000F, 0xF000000000F, 0xF000000000F, 0xF000000000F, 0xF000000000F,
    0xF000000000F, 0xF000000000F, 0xF000000000F, 0xF000000000F, 0xF000000000F, 0xF000000000F, 0xF000000000F,
    0xF000000000F, 0xF000000000F, 0xF000000000F, 0xF000000000F, 0xFFFFFFFFFFF, 0,
    0, 0, 0xFFFFFFFFFFF, 0xF000000000F, 0xF000000000F, 0xF000000000F, 0xF000000000F, 0xF000000000F, 0xF000000000F,
    0xF000000000F, 0xF000000000F, 0xF000000000F, 0xF000000000F, 0xF000000000F, 0xF000000000F, 0xF000000000F,
    0xF000000000F, 0xF000000000F, 0xF000000000F, 0xF000000000F, 0xFFFFFFFFFFF, 0]"

definition glyphs_10 :: "nat list" where
  "glyphs_10 = [0, 0, 0xFFFFFFFFFFF, 0xF000000000F, 0xF000000000F, 0xF000000000F, 0xF000000000F, 0xF000000000F, 0xF000000000F,
    0xF000000000F, 0xF000000000F, 0xF000000000F, 0xF000000000F, 0xF000000000F, 0xF000000000F, 0xF000000000F,
    0xF000000000F, 0xF000000000F, 0xF000000000F, 0xF000000000F, 0xFFFFFFFFFFF, 0,
    0, 0, 0xFFFFFFFFFFF, 0xF000000000F, 0xF000000000F, 0xF000000000F, 0xF000000000F, 0xF000000000F, 0xF000000000F,
    0xF000000000F, 0xF000000000F, 0xF000000000F, 0xF000000000F, 0xF000000000F, 0xF000000000F, 0xF000000000F,
    0xF000000000F, 0xF000000000F, 0xF000000000F, 0xF000000000F, 0xFFFFFFFFFFF, 0,
    0, 0, 0xFFFFFFFFFFF, 0xF000000000F, 0xF000000000F, 0xF000000000F, 0xF000000000F, 0xF000000000F, 0xF000000000F,
    0xF000000000F, 0xF000000000F, 0xF000000000F, 0xF000000000F, 0xF000000000F, 0xF000000000F, 0xF000000000F,
    0xF000000000F, 0xF000000000F, 0xF000000000F, 0xF000000000F, 0xFFFFFFFFFFF, 0,
    0, 0, 0xFFFFFFFFFFF, 0xF000000000F, 0xF000000000F, 0xF000000000F, 0xF000000000F, 0xF000000000F, 0xF000000000F,
    0xF000000000F, 0xF000000000F, 0xF000000000F, 0xF000000000F, 0xF000000000F, 0xF000000000F, 0xF000000000F,
    0xF000000000F, 0xF000000000F, 0xF000000000F, 0xF000000000F, 0xFFFFFFFFFFF, 0]"

definition glyphs_14 :: "nat list" where
  "glyphs_14 = [0, 0, 0xFFFFFFFFFFF, 0xF000000000F, 0xF000000000F, 0xF000000000F, 0xF000000000F, 0xF000000000F, 0xF000000000F,
    0xF000000000F, 0xF000000000F, 0xF000000000F, 0xF000000000F, 0xF000000000F, 0xF000000000F, 0xF000000000F,
    0xF000000000F, 0xF000000000F, 0xF000000000F, 0xF000000000F, 0xFFFFFFFFFFF, 0,
    0, 0, 0xFFFFFFFFFFF, 0xF000000000F, 0xF000000000F, 0xF000000000F, 0xF000000000F, 0xF000000000F, 0xF000000000F,
    0xF000000000F, 0xF000000000F, 0xF000000000F, 0xF000000000F, 0xF000000000F, 0xF000000000F, 0xF000000000F,
    0xF000000000F, 0xF000000000F, 0xF000000000F, 0xF000000000F, 0xFFFFFFFFFFF, 0,
    0, 0, 0xFFFFFFFFFFF, 0xF000000000F, 0xF000000000F, 0xF000000000F, 0xF000000000F, 0xF000000000F, 0xF000000000F,
    0xF000000000F, 0xF000000000F, 0xF000000000F, 0xF000000000F, 0xF000000000F, 0xF000000000F, 0xF000000000F,
    0xF000000000F, 0xF000000000F, 0xF000000000F, 0xF000000000F, 0xFFFFFFFFFFF, 0,
    0, 0, 0xFFFFFFFFFFF, 0xF000000000F, 0xF000000000F, 0xF000000000F, 0xF000000000F, 0xF000000000F, 0xF000000000F,
    0xF000000000F, 0xF000000000F, 0xF000000000F, 0xF000000000F, 0xF000000000F, 0xF000000000F, 0xF000000000F,
    0xF000000000F, 0xF000000000F, 0xF000000000F, 0xF000000000F, 0xFFFFFFFFFFF, 0]"

definition glyphs_18 :: "nat list" where
  "glyphs_18 = [0, 0, 0xFFFFFFFFFFF, 0xF000000000F, 0xF000000000F, 0xF000000000F, 0xF000000000F, 0xF000000000F, 0xF000000000F,
    0xF000000000F, 0xF000000000F, 0xF000000000F, 0xF000000000F, 0xF000000000F, 0xF000000000F, 0xF000000000F,
    0xF000000000F, 0xF000000000F, 0xF000000000F, 0xF000000000F, 0xFFFFFFFFFFF, 0,
    0, 0, 0xFFFFFFFFFFF, 0xF000000000F, 0xF000000000F, 0xF000000000F, 0xF000000000F, 0xF000000000F, 0xF000000000F,
    0xF000000000F, 0xF000000000F, 0xF000000000F, 0xF000000000F, 0xF000000000F, 0xF000000000F, 0xF000000000F,
    0xF000000000F, 0xF000000000F, 0xF000000000F, 0xF000000000F, 0xFFFFFFFFFFF, 0,
    0, 0, 0xFFFFFFFFFFF, 0xF000000000F, 0xF000000000F, 0xF000000000F, 0xF000000000F, 0xF000000000F, 0xF000000000F,
    0xF000000000F, 0xF000000000F, 0xF000000000F, 0xF000000000F, 0xF000000000F, 0xF000000000F, 0xF000000000F,
    0xF000000000F, 0xF000000000F, 0xF000000000F, 0xF000000000F, 0xFFFFFFFFFFF, 0,
    0, 0, 0xFFFFFFFFFFF, 0xF000000000F, 0xF000000000F, 0xF000000000F, 0xF000000000F, 0xF000000000F, 0xF000000000F,
    0xF000000000F, 0xF000000000F, 0xF000000000F, 0xF000000000F, 0xF000000000F, 0xF000000000F, 0xF000000000F,
    0xF000000000F, 0xF000000000F, 0xF000000000F, 0xF000000000F, 0xFFFFFFFFFFF, 0]"

definition glyphs_1C :: "nat list" where
  "glyphs_1C = [0, 0, 0xFFFFFFFFFFF, 0xF000000000F, 0xF000000000F, 0xF000000000F, 0xF000000000F, 0xF000000000F, 0xF000000000F,
    0xF000000000F, 0xF000000000F, 0xF000000000F, 0xF000000000F, 0xF000000000F, 0xF000000000F, 0xF000000000F,
    0xF000000000F, 0xF000000000F, 0xF000000000F, 0xF000000000F, 0xFFFFFFFFFFF, 0,
    0, 0, 0xFFFFFFFFFFF, 0xF000000000F, 0xF000000000F, 0xF000000000F, 0xF000000000F, 0xF000000000F, 0xF000000000F,
    0xF000000000F, 0xF000000000F, 0xF000000000F, 0xF000000000F, 0xF000000000F, 0xF000000000F, 0xF000000000F,
    0xF000000000F, 0xF000000000F, 0xF000000000F, 0xF000000000F, 0xFFFFFFFFFFF, 0,
    0, 0, 0xFFFFFFFFFFF, 0xF000000000F, 0xF000000000F, 0xF000000000F, 0xF000000000F, 0xF000000000F, 0xF000000000F,
    0xF000000000F, 0xF000000000F, 0xF000000000F, 0xF000000000F, 0xF000000000F, 0xF000000000F, 0xF000000000F,
    0xF000000000F, 0xF000000000F, 0xF000000000F, 0xF000000000F, 0xFFFFFFFFFFF, 0,
    0, 0, 0xFFFFFFFFFFF, 0xF000000000F, 0xF000000000F, 0xF000000000F, 0xF000000000F, 0xF000000000F, 0xF000000000F,
    0xF000000000F, 0xF000000000F, 0xF000000000F, 0xF000000000F, 0xF000000000F, 0xF000000000F, 0xF000000000F,
    0xF000000000F, 0xF000000000F, 0xF000000000F, 0xF000000000F, 0xFFFFFFFFFFF, 0]"

definition glyphs_20 :: "nat list" where
  "glyphs_20 = [0, 0, 0, 0, 0, 0, 0, 0, 0, 0, 0, 0, 0, 0, 0, 0, 0, 0, 0, 0, 0, 0,
    0, 0, 0xFF00000, 0xFF00000, 0xFF00000, 0xFF00000, 0xFF00000, 0xFF00000, 0xFF00000, 0xFF00000, 0xEE00000,
    0xDD00000, 0, 0, 0xFF00000, 0xFF00000, 0xFF00000, 0, 0, 0, 0, 0,
    0, 0, 0xFF00FF000, 0xFF00FF000, 0xFF00FF000, 0xFF00FF000, 0xFF00FF000, 0xFF00FF000, 0, 0, 0, 0, 0, 0, 0, 0, 0, 0,
    0, 0, 0, 0,
    0, 0, 0x9F105F60, 0xED009F20, 0x2F800ED00, 0x7F402F900, 0xCFFFFFFFFFFF, 0xCFFFFFFFFFFF, 0x1F900DE000,
    0x6F401F9000, 0xBF006F4000, 0xFFFFFFFFFFC0, 0xFFFFFFFFFFC0, 0x6F401F90000, 0xAF006F50000, 0xFB00AF00000,
    0x3F700FC00000, 0, 0, 0, 0, 0]"

definition glyphs_24 :: "nat list" where
  "glyphs_24 = [0, 0xF000000, 0xF000000, 0x3BFFFA4000, 0x4FFFFFFF000, 0xCFA1F15C000, 0xFF10F000000, 0xFF00F000000, 0xAF90F000000,
    0x1DFFF940000, 0x6BFFFB000, 0xF1AF900, 0xF00FF00, 0xF00FF00, 0xC510F1AFC00, 0xFFFFFFFF300, 0x39DFFFB3000,
    0xF000000, 0xF000000, 0xF000000, 0, 0,
    0, 0, 0x6EFD50000000, 0xFA0AF5000000, 0xF202FD000000, 0xF000FF000000, 0xF202FD000000, 0xF90AF5000481,
    0x6EFD516AFEA3, 0x38CFC73000, 0xAEEA516EFD50, 0x630006FA0AF5, 0xDF202FD, 0xFF000FF, 0xEF202FD, 0x6FA0AF5,
    0x6EFD50, 0, 0, 0, 0, 0,
    0, 0, 0x6DFFFF00, 0x9FFFFFF00, 0xFF8100000, 0xFF0000000, 0x9F7000000, 0x2FF500000, 0x3EFFF30000, 0x2FD19FD100F,
    0xAF400DFB00F, 0xFF0002FF71F, 0xFF10004FF8F, 0xDF900008FFA, 0x6FFA3003FF7, 0xAFFFFFF9FF, 0x5CFFC50AF, 0, 0, 0, 0,
    0,
    0, 0, 0xFF00000, 0xFF00000, 0xFF00000, 0xFF00000, 0xFF00000, 0xFF00000, 0, 0, 0, 0, 0, 0, 0, 0, 0, 0, 0, 0, 0, 0]"

definition glyphs_28 :: "nat list" where
  "glyphs_28 = [0, 0x2FB0000, 0xBF20000, 0x4FA00000, 0xBF200000, 0x1FD000000, 0x6F8000000, 0xBF4000000, 0xDF2000000, 0xFF0000000,
    0xFF0000000, 0xFF0000000, 0xDF2000000, 0xAF4000000, 0x6F8000000, 0x1FD000000, 0xBF300000, 0x4FA00000, 0xBF20000,
    0x2FB0000, 0, 0,
    0, 0xBF2000000, 0x2FB000000, 0xAF400000, 0x3FB00000, 0xDF10000, 0x8F60000, 0x4FB0000, 0x2FD0000, 0xFF0000,
    0xFF0000, 0xFF0000, 0x2FD0000, 0x5FB0000, 0x8F60000, 0xDF10000, 0x3FB00000, 0xAF400000, 0x2FB000000, 0xBF2000000,
    0, 0,
    0, 0, 0xF000000, 0xF000000, 0xA700F007A00, 0x4DD3F3DD400, 0x6EFE60000, 0x6EFE60000, 0x4DD3F3DD400, 0xA700F007A00,
    0xF000000, 0xF000000, 0, 0, 0, 0, 0, 0, 0, 0, 0, 0,
    0, 0, 0, 0, 0xFF000000, 0xFF000000, 0xFF000000, 0xFF000000, 0xFF000000, 0xFFFFFFFFFFF0, 0xFFFFFFFFFFF0,
    0xFF000000, 0xFF000000, 0xFF000000, 0xFF000000, 0xFF000000, 0, 0, 0, 0, 0, 0]"

definition glyphs_2C :: "nat list" where
  "glyphs_2C = [0, 0, 0, 0, 0, 0, 0, 0, 0, 0, 0, 0, 0, 0, 0xFFF00000, 0xFFF00000, 0x1FFD00000, 0x5FF400000, 0xAFC000000,
    0xEF4000000, 0, 0,
    0, 0, 0, 0, 0, 0, 0, 0, 0, 0, 0xFFFFF0000, 0xFFFFF0000, 0, 0, 0, 0, 0, 0, 0, 0, 0, 0,
    0, 0, 0, 0, 0, 0, 0, 0, 0, 0, 0, 0, 0, 0, 0xFFF0000, 0xFFF0000, 0xFFF0000, 0, 0, 0, 0, 0,
    0, 0, 0x4FC0, 0xBF50, 0x3FD00, 0xAF500, 0x2FD000, 0x9F6000, 0x1FE0000, 0x8F70000, 0x1FF10000, 0x7F800000,
    0xEF100000, 0x6F9000000, 0xDF2000000, 0x5FA0000000, 0xDF30000000, 0x5FB00000000, 0xCF400000000, 0, 0, 0]"

definition glyphs_30 :: "nat list" where
  "glyphs_30 = [0, 0, 0x5CFFC5000, 0x6FFFFFF600, 0x1FF8008FF10, 0x7FB0000BF70, 0xBF500005FB0, 0xEF200002FE0, 0xFF00DD00FF0,
    0xFF00DD00FF0, 0xFF000000FF0, 0xEF200002FE0, 0xBF500005FB0, 0x7FB0000BF70, 0x1FF8008FF10, 0x6FFFFFF600,
    0x5CFFC5000, 0, 0, 0, 0, 0,
    0, 0, 0x27DFF0000, 0xFFFFF0000, 0xD83FF0000, 0xFF0000, 0xFF0000, 0xFF0000, 0xFF0000, 0xFF0000, 0xFF0000, 0xFF0000,
    0xFF0000, 0xFF0000, 0xFF0000, 0xFFFFFFFF0, 0xFFFFFFFF0, 0, 0, 0, 0, 0,
    0, 0, 0x38CFFFC7000, 0xFFFFFFFFD10, 0xD841005EFA0, 0x3FF0, 0xFF1, 0x3FF0, 0xCFA0, 0xAFF10, 0xBFF300, 0x1DFE3000,
    0x2EFC20000, 0x4FF9000000, 0x6FE40000000, 0xFFFFFFFFFF2, 0xFFFFFFFFFF2, 0, 0, 0, 0, 0,
    0, 0, 0x37CFFFC7000, 0xFFFFFFFFD20, 0xD731004CFB0, 0x1FF0, 0x1FF0, 0x3CF80, 0xFFFFE700, 0xFFFFE700, 0x5EF60,
    0x3FD0, 0xFF0, 0x4FF0, 0xC730016EF90, 0xFFFFFFFFD10, 0x38DFFFC7000, 0, 0, 0, 0, 0]"

definition glyphs_34 :: "nat list" where
  "glyphs_34 = [0, 0, 0xDFF00, 0x8FFF00, 0x2F7FF00, 0xCC0FF00, 0x7F30FF00, 0x2F900FF00, 0xCE100FF00, 0x6F5000FF00, 0x1FB0000FF00,
    0xBF20000FF00, 0xFFFFFFFFFFF, 0xFFFFFFFFFFF, 0xFF00, 0xFF00, 0xFF00, 0, 0, 0, 0, 0,
    0, 0, 0xFFFFFFFF00, 0xFFFFFFFF00, 0xFF00000000, 0xFF00000000, 0xFF00000000, 0xFFCFFC6000, 0xFFFFFFFA00,
    0xB40027FF70, 0x6FD0, 0xFF0, 0xFF0, 0x6FC0, 0xC620027FF60, 0xFFFFFFFF900, 0x4ADFFEB4000, 0, 0, 0, 0, 0,
    0, 0, 0x18DFFB400, 0x2EFFFFFF00, 0xDFE5003B00, 0x5FF20000000, 0xAF900000000, 0xDF400000000, 0xFF17EFEA200,
    0xFF8FFFFFE20, 0xFFD4003DFA0, 0xEF300002FE0, 0xCF000000FF0, 0x8F300002FE0, 0x2FD4003DFA0, 0x8FFFFFFE20,
    0x5CFFE9100, 0, 0, 0, 0, 0,
    0, 0, 0xFFFFFFFFFF0, 0xFFFFFFFFFB0, 0xDF50, 0x4FE00, 0xAF800, 0x1FF100, 0x8FA000, 0xEF4000, 0x5FD0000, 0xBF70000,
    0x2FF10000, 0x8FA00000, 0xFF300000, 0x6FC000000, 0xCF6000000, 0, 0, 0, 0, 0]"

definition glyphs_38 :: "nat list" where
  "glyphs_38 = [0, 0, 0x29EFFE9200, 0x3FFFFFFFF30, 0xCFB3003BFC0, 0xFF100001FF0, 0xEF100001FE0, 0x7FB3003BF70, 0x6DFFFFD600,
    0x7FFFFFF700, 0x6FD4004DF60, 0xDF300003FD0, 0xFF000000FF0, 0xFF300003FF0, 0xAFD4004DFA0, 0x2EFFFFFFE20,
    0x19DFFD9100, 0, 0, 0, 0, 0,
    0, 0, 0x19EFFC5000, 0x2EFFFFFF800, 0xAFD3004DF20, 0xEF200003F80, 0xFF000000FC0, 0xEF200003FE0, 0xAFD3004DFF0,
    0x2EFFFFF8FF0, 0x29EFE71FF0, 0x4FD0, 0x9FA0, 0x2FF50, 0xB3005EFD00, 0xFFFFFFE200, 0x4BFFD81000, 0, 0, 0, 0, 0,
    0, 0, 0, 0, 0, 0, 0xFFF0000, 0xFFF0000, 0xFFF0000, 0, 0, 0, 0, 0, 0xFFF0000, 0xFFF0000, 0xFFF0000, 0, 0, 0, 0, 0,
    0, 0, 0, 0, 0, 0, 0xFFF00000, 0xFFF00000, 0xFFF00000, 0, 0, 0, 0, 0, 0xFFF00000, 0xFFF00000, 0x1FFD00000,
    0x5FF400000, 0xAFC000000, 0xEF4000000, 0, 0]"

definition glyphs_3C :: "nat list" where
  "glyphs_3C = [0, 0, 0, 0, 0, 0x17D, 0x4AFFF, 0x28EFFB50, 0x6CFFD71000, 0xFFE82000000, 0xFFD82000000, 0x6CFFC71000, 0x28EFFB50,
    0x4AFFF, 0x17D, 0, 0, 0, 0, 0, 0, 0,
    0, 0, 0, 0, 0, 0, 0, 0, 0xFFFFFFFFFFF, 0xFFFFFFFFFFF, 0, 0, 0xFFFFFFFFFFF, 0xFFFFFFFFFFF, 0, 0, 0, 0, 0, 0, 0, 0,
    0, 0, 0, 0, 0, 0xD7100000000, 0xFFFA4000000, 0x5BFFE82000, 0x17DFFC60, 0x28EFF, 0x28DFF, 0x17CFFC60, 0x5BFFE82000,
    0xFFFA4000000, 0xD7100000000, 0, 0, 0, 0, 0, 0, 0,
    0, 0, 0x3AEFFC500, 0xFFFFEFF70, 0xC51003FE0, 0x3FF0, 0x2EFA0, 0x6FFD10, 0x5FFA100, 0xDF70000, 0xFF00000,
    0xFF00000, 0, 0, 0xFF00000, 0xFF00000, 0xFF00000, 0, 0, 0, 0, 0]"

definition glyphs_40 :: "nat list" where
  "glyphs_40 = [0, 0, 0, 0x18DFFD91, 0x4FC4006FD, 0x3FB000007F, 0xDF1000001F, 0x5F9003DFE8F, 0xAF502FD11DF, 0xDF20AF5005F,
    0xFF00EF1001F, 0xFF00FF0000F, 0xFF00EF1001F, 0xDF20AF5005F, 0xAF602FD11DF, 0x4FB003DFE8F, 0xCF40000000,
    0x2EE2000000, 0x2DF720000, 0x6CEFFC0, 0, 0,
    0, 0, 0x3FF30000, 0x7FF70000, 0xBFFB0000, 0xFFFF0000, 0x4FDDF4000, 0x8F99F8000, 0xCF55FC000, 0xFF00FF000,
    0x4FC00CF400, 0x9FFFFFF900, 0xDFFFFFFD00, 0x1FF0000FF10, 0x5FB0000BF50, 0x9F700007F90, 0xEF300003FE0, 0, 0, 0, 0,
    0,
    0, 0, 0xFFFFFEB3000, 0xFFFFFFFF400, 0xFF00019FC00, 0xFF00000FF00, 0xFF00001FF00, 0xFF0002BFA00, 0xFFFFFFF9000,
    0xFFFFFFFC400, 0xFF00015DF40, 0xFF000003FC0, 0xFF000000FF0, 0xFF000002FF0, 0xFF00014CFB0, 0xFFFFFFFFE20,
    0xFFFFFFD8100, 0, 0, 0, 0, 0,
    0, 0, 0x6CFFEB40, 0xCFFFFFFF0, 0xBFD51015C0, 0x3FE10000000, 0x9F700000000, 0xDF300000000, 0xFF000000000,
    0xFF000000000, 0xFF000000000, 0xDF300000000, 0xAF700000000, 0x4FE10000000, 0xBFD51015C0, 0xCFFFFFFF0, 0x6CFFEB40,
    0, 0, 0, 0, 0]"

definition glyphs_44 :: "nat list" where
  "glyphs_44 = [0, 0, 0xFFFFEB60000, 0xFFFFFFFD100, 0xFF0015DFD00, 0xFF00000DF50, 0xFF000006FA0, 0xFF000002FD0, 0xFF000000FF0,
    0xFF000000FF0, 0xFF000000FF0, 0xFF000002FD0, 0xFF000006FA0, 0xFF00000DF50, 0xFF0015DFD00, 0xFFFFFFFD100,
    0xFFFFEB60000, 0, 0, 0, 0, 0,
    0, 0, 0xFFFFFFFFFF0, 0xFFFFFFFFFF0, 0xFF000000000, 0xFF000000000, 0xFF000000000, 0xFF000000000, 0xFFFFFFFFF00,
    0xFFFFFFFFF00, 0xFF000000000, 0xFF000000000, 0xFF000000000, 0xFF000000000, 0xFF000000000, 0xFFFFFFFFFF0,
    0xFFFFFFFFFF0, 0, 0, 0, 0, 0,
    0, 0, 0xFFFFFFFFFF0, 0xFFFFFFFFFF0, 0xFF000000000, 0xFF000000000, 0xFF000000000, 0xFF000000000, 0xFFFFFFFFF00,
    0xFFFFFFFFF00, 0xFF000000000, 0xFF000000000, 0xFF000000000, 0xFF000000000, 0xFF000000000, 0xFF000000000,
    0xFF000000000, 0, 0, 0, 0, 0,
    0, 0, 0x19EFFB400, 0x2EFFFFFF00, 0xDFB3004B00, 0x5FD00000000, 0xAF600000000, 0xDF200000000, 0xFF000000000,
    0xFF0000FFFF0, 0xFF0000FFFF0, 0xDF200000FF0, 0xAF600000FF0, 0x4FD00000FF0, 0xCFC3004FF0, 0x1DFFFFFFA0,
    0x18DFFC500, 0, 0, 0, 0, 0]"

definition glyphs_48 :: "nat list" where
  "glyphs_48 = [0, 0, 0xFF000000FF0, 0xFF000000FF0, 0xFF000000FF0, 0xFF000000FF0, 0xFF000000FF0, 0xFF000000FF0, 0xFFFFFFFFFF0,
    0xFFFFFFFFFF0, 0xFF000000FF0, 0xFF000000FF0, 0xFF000000FF0, 0xFF000000FF0, 0xFF000000FF0, 0xFF000000FF0,
    0xFF000000FF0, 0, 0, 0, 0, 0,
    0, 0, 0xFFFFFFFF000, 0xFFFFFFFF000, 0xFF000000, 0xFF000000, 0xFF000000, 0xFF000000, 0xFF000000, 0xFF000000,
    0xFF000000, 0xFF000000, 0xFF000000, 0xFF000000, 0xFF000000, 0xFFFFFFFF000, 0xFFFFFFFF000, 0, 0, 0, 0, 0,
    0, 0, 0xFFFFFF00, 0xFFFFFF00, 0xFF00, 0xFF00, 0xFF00, 0xFF00, 0xFF00, 0xFF00, 0xFF00, 0xFF00, 0xFF00, 0x2FE00,
    0xC62002BFA00, 0xFFFFFFFF300, 0x39DFFEA3000, 0, 0, 0, 0, 0,
    0, 0, 0xFF000002EF7, 0xFF00001DF70, 0xFF0001DF700, 0xFF001DF7000, 0xFF01DF90000, 0xFF0CF900000, 0xFFCFF300000,
    0xFFFDFD00000, 0xFF90DF90000, 0xFF002FF4000, 0xFF0007FE100, 0xFF0000CFA00, 0xFF00002FF50, 0xFF000006FF1,
    0xFF000000BFB, 0, 0, 0, 0, 0]"

definition glyphs_4C :: "nat list" where
  "glyphs_4C = [0, 0, 0xFF000000000, 0xFF000000000, 0xFF000000000, 0xFF000000000, 0xFF000000000, 0xFF000000000, 0xFF000000000,
    0xFF000000000, 0xFF000000000, 0xFF000000000, 0xFF000000000, 0xFF000000000, 0xFF000000000, 0xFFFFFFFFFF0,
    0xFFFFFFFFFF0, 0, 0, 0, 0, 0,
    0, 0, 0xFFE0000EFF0, 0xFFF2002FFF0, 0xFFE7007EFF0, 0xFFAB00CAFF0, 0xFF5F00F5FF0, 0xFF1F45F1FF0, 0xFF0C99C0FF0,
    0xFF07EE80FF0, 0xFF03FF30FF0, 0xFF00EE00FF0, 0xFF000000FF0, 0xFF000000FF0, 0xFF000000FF0, 0xFF000000FF0,
    0xFF000000FF0, 0, 0, 0, 0, 0,
    0, 0, 0xFFD00000FF0, 0xFFF40000FF0, 0xFFFB0000FF0, 0xFFAF2000FF0, 0xFF3F9000FF0, 0xFF0CF100FF0, 0xFF05F700FF0,
    0xFF00EE00FF0, 0xFF007F50FF0, 0xFF001FC0FF0, 0xFF0009F3FF0, 0xFF0002FAFF0, 0xFF0000BFFF0, 0xFF00004FFF0,
    0xFF00000DFF0, 0, 0, 0, 0, 0,
    0, 0, 0x5CFFC5000, 0x8FFFFFF800, 0x2FF6006FF20, 0x8F900009F80, 0xCF400004FC0, 0xEF100001FE0, 0xFF000000FF0,
    0xFF000000FF0, 0xFF000000FF0, 0xEF100001FE0, 0xCF400004FC0, 0x8F900009F80, 0x2FF6006FF20, 0x8FFFFFF800,
    0x5CFFC5000, 0, 0, 0, 0, 0]"

definition glyphs_50 :: "nat list" where
  "glyphs_50 = [0, 0, 0xFFFFFFD8100, 0xFFFFFFFFE10, 0xFF00015EF90, 0xFF000003FE0, 0xFF000000FF0, 0xFF000003FE0, 0xFF00015EF90,
    0xFFFFFFFFE10, 0xFFFFFFD8100, 0xFF000000000, 0xFF000000000, 0xFF000000000, 0xFF000000000, 0xFF000000000,
    0xFF000000000, 0, 0, 0, 0, 0,
    0, 0, 0x5CFFC5000, 0x8FFFFFF800, 0x2FF6006FF20, 0x8F900009F80, 0xCF400004FC0, 0xEF100001FE0, 0xFF000000FF0,
    0xFF000000FF0, 0xFF000000FF0, 0xEF100001FE0, 0xBF400004FB0, 0x8F900009F80, 0x2FF6006FF20, 0x7FFFFFF600,
    0x5CFFFA000, 0x3FF400, 0x6FF10, 0x9600, 0, 0,
    0, 0, 0xFFFFFFD7000, 0xFFFFFFFFD10, 0xFF00015EF90, 0xFF000003FE0, 0xFF000000FF0, 0xFF000002FE0, 0xFF00004DF70,
    0xFFFFFFFF800, 0xFFFFFFFA000, 0xFF0002CFB00, 0xFF00001EF50, 0xFF000007FD0, 0xFF000000DF7, 0xFF0000004FF,
    0xFF0000000AF, 0, 0, 0, 0, 0,
    0, 0, 0x7DFFD9300, 0x1DFFFFFFF00, 0x9FD40025C00, 0xFF200000000, 0xFF000000000, 0xDFA10000000, 0x4FFFC940000,
    0x3BFFFFE500, 0x147CFF50, 0x6FC0, 0xFF0, 0x2FF0, 0xC730015DFA0, 0xFFFFFFFFE20, 0x38CFFFD8100, 0, 0, 0, 0, 0]"

definition glyphs_54 :: "nat list" where
  "glyphs_54 = [0, 0, 0xFFFFFFFFFFF0, 0xFFFFFFFFFFF0, 0xFF000000, 0xFF000000, 0xFF000000, 0xFF000000, 0xFF000000, 0xFF000000,
    0xFF000000, 0xFF000000, 0xFF000000, 0xFF000000, 0xFF000000, 0xFF000000, 0xFF000000, 0, 0, 0, 0, 0,
    0, 0, 0xFF000000FF0, 0xFF000000FF0, 0xFF000000FF0, 0xFF000000FF0, 0xFF000000FF0, 0xFF000000FF0, 0xFF000000FF0,
    0xFF000000FF0, 0xFF000000FF0, 0xFF000000FF0, 0xFF000000FF0, 0xDF200002FD0, 0x8FD3003DF90, 0x1DFFFFFFD10,
    0x8DFFD8000, 0, 0, 0, 0, 0,
    0, 0, 0xEF300003FE0, 0x9F700007F90, 0x5FB0000BF50, 0x1FF0000FF10, 0xDF3003FD00, 0x9F8008F900, 0x5FC00CF500,
    0x1FF00FF100, 0xCF44FC000, 0x8F88F8000, 0x4FCCF4000, 0xFFFF0000, 0xCFFC0000, 0x7FF70000, 0x3FF30000, 0, 0, 0, 0,
    0,
    0, 0, 0xF100000001FE, 0xF400000004FC, 0xF600000006F9, 0xF900000009F7, 0xFB00BFB00BF4, 0xFE00FFE00EF2,
    0xFF02FCF20FF0, 0xDF35F4F53FD0, 0xAF59E0E95FA0, 0x8F8DA0AC8F80, 0x5FBF707FBF50, 0x3FFF303FFF30, 0xFFF000FFF00,
    0xEFB000BFE00, 0xBF70007FB00, 0, 0, 0, 0, 0]"

definition glyphs_58 :: "nat list" where
  "glyphs_58 = [0, 0, 0xBF900009FB0, 0x2FF2003FF20, 0x9FB00CF800, 0x1FF45FE100, 0x7FCDF6000, 0xEFFD0000, 0x6FF30000, 0x5FF20000,
    0xCFFB0000, 0x4FEFF3000, 0xCF79FB000, 0x4FE01FF300, 0xCF7008FB00, 0x4FF1001FF40, 0xCF800008FC0, 0, 0, 0, 0, 0,
    0, 0, 0xFA000000AFB0, 0xFF400004FF20, 0x7FD0000DF700, 0xDF7007FD000, 0x4FF11FF4000, 0xAFAAFA0000, 0x1FFFF10000,
    0x7FF700000, 0xFF000000, 0xFF000000, 0xFF000000, 0xFF000000, 0xFF000000, 0xFF000000, 0xFF000000, 0, 0, 0, 0, 0,
    0, 0, 0xFFFFFFFFFF0, 0xFFFFFFFFFE0, 0x1EF60, 0xAFC00, 0x4FF200, 0xEF7000, 0x8FD0000, 0x3FF30000, 0xDF900000,
    0x7FE000000, 0x2FF4000000, 0xBFA0000000, 0x6FF10000000, 0xEFFFFFFFFF0, 0xFFFFFFFFFF0, 0, 0, 0, 0, 0,
    0, 0xFFFF000, 0xFFFF000, 0xFF00000, 0xFF00000, 0xFF00000, 0xFF00000, 0xFF00000, 0xFF00000, 0xFF00000, 0xFF00000,
    0xFF00000, 0xFF00000, 0xFF00000, 0xFF00000, 0xFF00000, 0xFF00000, 0xFF00000, 0xFFFF000, 0xFFFF000, 0, 0]"

definition glyphs_5C :: "nat list" where
  "glyphs_5C = [0, 0, 0xCF400000000, 0x5FB00000000, 0xDF30000000, 0x5FA0000000, 0xDF2000000, 0x6F9000000, 0xEF100000, 0x7F800000,
    0x1FF10000, 0x8F70000, 0x1FE0000, 0x9F6000, 0x2FD000, 0xAF500, 0x3FD00, 0xBF50, 0x4FC0, 0, 0, 0,
    0, 0xFFFF00000, 0xFFFF00000, 0xFF00000, 0xFF00000, 0xFF00000, 0xFF00000, 0xFF00000, 0xFF00000, 0xFF00000,
    0xFF00000, 0xFF00000, 0xFF00000, 0xFF00000, 0xFF00000, 0xFF00000, 0xFF00000, 0xFF00000, 0xFFFF00000, 0xFFFF00000,
    0, 0,
    0, 0, 0xCFC0000, 0x8FFF8000, 0x5FC1CF500, 0x2FE101EF20, 0xDF20002FD0, 0xAF4000004FA, 0, 0, 0, 0, 0, 0, 0, 0, 0, 0,
    0, 0, 0, 0,
    0, 0, 0, 0, 0, 0, 0, 0, 0, 0, 0, 0, 0, 0, 0, 0, 0, 0, 0, 0, 0xFFFFFFFFFFFF, 0xFFFFFFFFFFFF]"

definition glyphs_60 :: "nat list" where
  "glyphs_60 = [0x9F7000000, 0xBF300000, 0xDD00000, 0x2EA0000, 0, 0, 0, 0, 0, 0, 0, 0, 0, 0, 0, 0, 0, 0, 0, 0, 0, 0,
    0, 0, 0, 0, 0, 0, 0x39DFFE9200, 0xFFFFFFFF30, 0xC62002AFB0, 0xFF0, 0x29DFFFFFF0, 0x4FFFFFFFFF0, 0xDFA30000FF0,
    0xFF000005FF0, 0xEF81016FFF0, 0x7FFFFFF7FF0, 0x5CFFC50FF0, 0, 0, 0, 0, 0,
    0, 0xFF000000000, 0xFF000000000, 0xFF000000000, 0xFF000000000, 0xFF000000000, 0xFF08EFD8000, 0xFFAFFFFFC00,
    0xFFF5005FF60, 0xFF600006FC0, 0xFF100001FF0, 0xFF000000FF0, 0xFF100001FF0, 0xFF600006FC0, 0xFFF5005FF60,
    0xFFAFFFFFB00, 0xFF08EFD8000, 0, 0, 0, 0, 0,
    0, 0, 0, 0, 0, 0, 0x4AEFFB400, 0x8FFFFFFF00, 0x4FF82004B00, 0xBF800000000, 0xFF100000000, 0xFF000000000,
    0xFF100000000, 0xBF800000000, 0x4FF82003B00, 0x8FFFFFFF00, 0x4AEFFB400, 0, 0, 0, 0, 0]"

definition glyphs_64 :: "nat list" where
  "glyphs_64 = [0, 0xFF0, 0xFF0, 0xFF0, 0xFF0, 0xFF0, 0x8DFF80FF0, 0xCFFFFFAFF0, 0x6FF5005FFF0, 0xCF600006FF0, 0xFF100001FF0,
    0xFF000000FF0, 0xFF100001FF0, 0xCF600006FF0, 0x6FF5005FFF0, 0xBFFFFFAFF0, 0x8DFE80FF0, 0, 0, 0, 0, 0,
    0, 0, 0, 0, 0, 0, 0x4BFFE9100, 0x8FFFFFFD10, 0x4FD4003BF90, 0xBF200001FE0, 0xFFFFFFFFFF0, 0xFFFFFFFFFF0,
    0xFF000000000, 0xBF500000000, 0x4FF720037C0, 0x7FFFFFFFF0, 0x3AEFFD930, 0, 0, 0, 0, 0,
    0, 0x7DFFF00, 0x6FFFFF00, 0xDF600000, 0xFF000000, 0xFF000000, 0xFFFFFFFFF00, 0xFFFFFFFFF00, 0xFF000000,
    0xFF000000, 0xFF000000, 0xFF000000, 0xFF000000, 0xFF000000, 0xFF000000, 0xFF000000, 0xFF000000, 0, 0, 0, 0, 0,
    0, 0, 0, 0, 0, 0, 0x8DFF80FF0, 0xBFFFFF9FF0, 0x6FF5005FFF0, 0xCF600006FF0, 0xFF100001FF0, 0xFF000000FF0,
    0xFF100001FF0, 0xCF600006FF0, 0x6FF6005FFF0, 0xBFFFFF9FF0, 0x8DFE80FF0, 0x3FD0, 0xC62004DF80, 0xFFFFFFFC00,
    0x3AEFFD7000, 0]"

definition glyphs_68 :: "nat list" where
  "glyphs_68 = [0, 0xFF000000000, 0xFF000000000, 0xFF000000000, 0xFF000000000, 0xFF000000000, 0xFF05CFFC400, 0xFF7FFFFFF30,
    0xFFE6102CFB0, 0xFF600002FE0, 0xFF100000FF0, 0xFF000000FF0, 0xFF000000FF0, 0xFF000000FF0, 0xFF000000FF0,
    0xFF000000FF0, 0xFF000000FF0, 0, 0, 0, 0, 0,
    0, 0xFF00000, 0xFF00000, 0, 0, 0, 0xFFFFF00000, 0xFFFFF00000, 0xFF00000, 0xFF00000, 0xFF00000, 0xFF00000,
    0xFF00000, 0xFF00000, 0xFF00000, 0xFFFFFFFFFF0, 0xFFFFFFFFFF0, 0, 0, 0, 0, 0,
    0, 0xFF00000, 0xFF00000, 0, 0, 0, 0xFFFFF00000, 0xFFFFF00000, 0xFF00000, 0xFF00000, 0xFF00000, 0xFF00000,
    0xFF00000, 0xFF00000, 0xFF00000, 0xFF00000, 0xFF00000, 0x1FF00000, 0x8FC00000, 0xFFFFF500000, 0xFFFE6000000, 0,
    0, 0xFF000000000, 0xFF000000000, 0xFF000000000, 0xFF000000000, 0xFF000000000, 0xFF00009FF60, 0xFF000AFF500,
    0xFF00BFF3000, 0xFF1CFE30000, 0xFFDFF400000, 0xFFFFFC00000, 0xFFC2EF90000, 0xFF003FF5000, 0xFF0007FF200,
    0xFF0000AFD00, 0xFF00000DFA0, 0, 0, 0, 0, 0]"

definition glyphs_6C :: "nat list" where
  "glyphs_6C = [0, 0xFFFFFF00000, 0xFFFFFF00000, 0xFF00000, 0xFF00000, 0xFF00000, 0xFF00000, 0xFF00000, 0xFF00000, 0xFF00000,
    0xFF00000, 0xFF00000, 0xFF00000, 0xFF10000, 0xCF90000, 0x4FFFFF0, 0x5DFFF0, 0, 0, 0, 0, 0,
    0, 0, 0, 0, 0, 0, 0xFF5FD18FD20, 0xFFFFFCFFFA0, 0xFF44FF54FD0, 0xFF00FF00FF0, 0xFF00FF00FF0, 0xFF00FF00FF0,
    0xFF00FF00FF0, 0xFF00FF00FF0, 0xFF00FF00FF0, 0xFF00FF00FF0, 0xFF00FF00FF0, 0, 0, 0, 0, 0,
    0, 0, 0, 0, 0, 0, 0xFF05CFFC400, 0xFF7FFFFFF30, 0xFFE6102CFB0, 0xFF600002FE0, 0xFF100000FF0, 0xFF000000FF0,
    0xFF000000FF0, 0xFF000000FF0, 0xFF000000FF0, 0xFF000000FF0, 0xFF000000FF0, 0, 0, 0, 0, 0,
    0, 0, 0, 0, 0, 0, 0x7DFFD7000, 0xCFFFFFFC00, 0x7FF5005FF60, 0xCF600006FC0, 0xFF100001FF0, 0xFF000000FF0,
    0xFF100001FF0, 0xCF600006FC0, 0x7FF5005FF70, 0xCFFFFFFC00, 0x7DFFD7000, 0, 0, 0, 0, 0]"

definition glyphs_70 :: "nat list" where
  "glyphs_70 = [0, 0, 0, 0, 0, 0, 0xFF08EFD8000, 0xFFAFFFFFC00, 0xFFF5005EF60, 0xFF600006FC0, 0xFF100001FF0, 0xFF000000FF0,
    0xFF100001FF0, 0xFF600006FC0, 0xFFF5005EF60, 0xFFAFFFFFC00, 0xFF08FFD8000, 0xFF000000000, 0xFF000000000,
    0xFF000000000, 0xFF000000000, 0,
    0, 0, 0, 0, 0, 0, 0x8DFE80FF0, 0xCFFFFFAFF0, 0x6FE5005FFF0, 0xCF600006FF0, 0xFF100001FF0, 0xFF000000FF0,
    0xFF100001FF0, 0xCF600006FF0, 0x6FE5005FFF0, 0xCFFFFF9FF0, 0x8DFF80FF0, 0xFF0, 0xFF0, 0xFF0, 0xFF0, 0,
    0, 0, 0, 0, 0, 0, 0xFF05DFE60, 0xFF5FFFFF0, 0xFFD8202A0, 0xFF9000000, 0xFF2000000, 0xFF0000000, 0xFF0000000,
    0xFF0000000, 0xFF0000000, 0xFF0000000, 0xFF0000000, 0, 0, 0, 0, 0,
    0, 0, 0, 0, 0, 0, 0x4AEFFDA300, 0x7FFFFFFFF00, 0xEF820026C00, 0xFF520000000, 0x9FFFFEC9200, 0x5BFFFFFF40,
    0x36CFD0, 0xFF0, 0xD841003AFE0, 0xFFFFFFFFF50, 0x38CFFFD9300, 0, 0, 0, 0, 0]"

definition glyphs_74 :: "nat list" where
  "glyphs_74 = [0, 0, 0, 0xFF000000, 0xFF000000, 0xFF000000, 0xFFFFFFFFF00, 0xFFFFFFFFF00, 0xFF000000, 0xFF000000, 0xFF000000,
    0xFF000000, 0xFF000000, 0xFF000000, 0xEF700000, 0x8FFFFF00, 0x8EFFF00, 0, 0, 0, 0, 0,
    0, 0, 0, 0, 0, 0, 0xFF000000FF0, 0xFF000000FF0, 0xFF000000FF0, 0xFF000000FF0, 0xFF000000FF0, 0xFF000000FF0,
    0xFF000001FF0, 0xEF200006FF0, 0xBFC2016EFF0, 0x3FFFFFF6FF0, 0x4CFFC50FF0, 0, 0, 0, 0, 0,
    0, 0, 0, 0, 0, 0, 0xDF500005FD0, 0x7FA0000AF70, 0x2FF0000FF20, 0xCF5005FC00, 0x6FB00BF600, 0x1FF11FF100,
    0xBF66FB000, 0x5FCBF5000, 0xFFFF0000, 0xAFFA0000, 0x5FF50000, 0, 0, 0, 0, 0,
    0, 0, 0, 0, 0, 0, 0xF300000003FE, 0xF700000007FA, 0xFB0000000BF6, 0xFF007F700FF2, 0xEF30CFC03FE0, 0xAF71F8F17FA0,
    0x6FB5F0F5BF60, 0x2FFAA0AAFF20, 0xEFF506FFE00, 0xAFF101FFA00, 0x6FC000CF600, 0, 0, 0, 0, 0]"

definition glyphs_78 :: "nat list" where
  "glyphs_78 = [0, 0, 0, 0, 0, 0, 0xAFD0000DFA0, 0xDFA00AFD00, 0x2FF66FF200, 0x5FFFF5000, 0x9FF90000, 0x3FF30000, 0xDFFD0000,
    0x9FDDF9000, 0x4FF33FF400, 0x1EF7007FE10, 0xAFC0000CFA0, 0, 0, 0, 0, 0,
    0, 0, 0, 0, 0, 0, 0xCF500005FC0, 0x6FC0000BF60, 0xEF3001FF10, 0x8F9007FA00, 0x2FF10EF400, 0xBF74FE000,
    0x4FEAF8000, 0xEFFF1000, 0x7FFC0000, 0x1FF60000, 0x1FF10000, 0x7FB00000, 0x2EF500000, 0xFFFE000000, 0xFFC2000000,
    0,
    0, 0, 0, 0, 0, 0, 0xFFFFFFFFFF0, 0xFFFFFFFFFE0, 0xCFF20, 0xBFF300, 0x9FF4000, 0x7FF50000, 0x6FF600000,
    0x4FF7000000, 0x3FF90000000, 0xEFFFFFFFFF0, 0xFFFFFFFFFF0, 0, 0, 0, 0, 0,
    0, 0x9DFF000, 0x9FFFF000, 0xEF600000, 0xFF000000, 0xFF000000, 0xFF000000, 0xFF000000, 0x19FC000000, 0xFFFC2000000,
    0xFFFC2000000, 0x1BFB000000, 0x2FF000000, 0xFF000000, 0xFF000000, 0xFF000000, 0xFF000000, 0xDF700000, 0x9FFFF000,
    0x8DFF000, 0, 0]"

definition glyphs_7C :: "nat list" where
  "glyphs_7C = [0, 0xFF00000, 0xFF00000, 0xFF00000, 0xFF00000, 0xFF00000, 0xFF00000, 0xFF00000, 0xFF00000, 0xFF00000, 0xFF00000,
    0xFF00000, 0xFF00000, 0xFF00000, 0xFF00000, 0xFF00000, 0xFF00000, 0xFF00000, 0xFF00000, 0xFF00000, 0xFF00000,
    0xFF00000,
    0, 0xFFD90000000, 0xFFFF9000000, 0x6FE000000, 0xFF000000, 0xFF000000, 0xFF000000, 0xFF000000, 0xCF910000,
    0x2CFFF000, 0x2CFFF000, 0xBFB10000, 0xFF200000, 0xFF000000, 0xFF000000, 0xFF000000, 0xFF000000, 0x7FD000000,
    0xFFFF9000000, 0xFFD80000000, 0, 0,
    0, 0, 0, 0, 0, 0, 0, 0, 0, 0x5CFFD94004B, 0xFFFFFFFFFFF, 0xB30037CFFC5, 0, 0, 0, 0, 0, 0, 0, 0, 0, 0,
    0, 0, 0xFFFFFFFFFFF, 0xF000000000F, 0xF000000000F, 0xF000000000F, 0xF000000000F, 0xF000000000F, 0xF000000000F,
    0xF000000000F, 0xF000000000F, 0xF000000000F, 0xF000000000F, 0xF000000000F, 0xF000000000F, 0xF000000000F,
    0xF000000000F, 0xF000000000F, 0xF000000000F, 0xF000000000F, 0xFFFFFFFFFFF, 0]"

definition glyphs_80 :: "nat list" where
  "glyphs_80 = [0, 0x666666663000, 0xFFFFFFFF8000, 0x67FE66663000, 0x2FE00000000, 0x2FE00000000, 0x2FE00000000, 0x2FE038AA600,
    0x2FEBFFFFFB0, 0x2FFFA549FF4, 0x2FF70000BF8, 0x2FF100008FA, 0x2FE000008FA, 0x2FE000008FA, 0x2FE000008FA,
    0x2FE000008FA, 0x2FE000008FA, 0x8FA, 0xAF7, 0x4FF3, 0x2FEFFA0, 0x1CCA500,
    0xAE1000, 0, 0, 0xFFFFFFFFFF0, 0xFFFFFFFFFF0, 0xFF000000000, 0xFF000000000, 0xFF000000000, 0xFF000000000,
    0xFF000000000, 0xFF000000000, 0xFF000000000, 0xFF000000000, 0xFF000000000, 0xFF000000000, 0xFF000000000,
    0xFF000000000, 0, 0, 0, 0, 0,
    0, 0, 0, 0, 0, 0, 0, 0, 0, 0, 0, 0, 0, 0, 0xFFF00000, 0xFFF00000, 0x1FFD00000, 0x5FF400000, 0xAFC000000,
    0xEF4000000, 0, 0,
    0x7F90, 0x3FB00, 0xDD000, 0xAE2000, 0, 0, 0xFFFFFFFF0, 0xFFFFFFFF0, 0xFF0000000, 0xFF0000000, 0xFF0000000,
    0xFF0000000, 0xFF0000000, 0xFF0000000, 0xFF0000000, 0xFF0000000, 0xFF0000000, 0, 0, 0, 0, 0]"

definition glyphs_84 :: "nat list" where
  "glyphs_84 = [0, 0, 0, 0, 0, 0, 0, 0, 0, 0, 0, 0, 0, 0, 0xFFF00FFF00, 0xFFF00FFF00, 0x1FFD01FFD00, 0x5FF405FF400, 0xAFC00AFC000,
    0xEF400EF4000, 0, 0,
    0, 0, 0, 0, 0, 0, 0, 0, 0, 0, 0, 0, 0, 0, 0xFFF0FFF0FFF, 0xFFF0FFF0FFF, 0xFFF0FFF0FFF, 0, 0, 0, 0, 0,
    0, 0, 0xFF00000, 0xFF00000, 0xFF00000, 0xFF00000, 0xFFFFFFFFFF0, 0xFFFFFFFFFF0, 0xFF00000, 0xFF00000, 0xFF00000,
    0xFF00000, 0xFF00000, 0xFF00000, 0xFF00000, 0xFF00000, 0xFF00000, 0xFF00000, 0xFF00000, 0, 0, 0,
    0, 0, 0xFF00000, 0xFF00000, 0xFF00000, 0xFF00000, 0xFFFFFFFFFF0, 0xFFFFFFFFFF0, 0xFF00000, 0xFF00000, 0xFF00000,
    0xFF00000, 0xFF00000, 0xFFFFFFFFFF0, 0xFFFFFFFFFF0, 0xFF00000, 0xFF00000, 0xFF00000, 0xFF00000, 0, 0, 0]"

definition glyphs_88 :: "nat list" where
  "glyphs_88 = [0, 0, 0x29EFFB400, 0x3FFFFFFF00, 0x1EFA2004B00, 0x7FB00000000, 0xCF400000000, 0xFFFFFFFD0000, 0xFF000000000,
    0xFF000000000, 0xFFFFFFB00000, 0xCF300000000, 0x8F700000000, 0x3FE10000000, 0xBFC3004B00, 0x1DFFFFFF00,
    0x18DFFB400, 0, 0, 0, 0, 0,
    0, 0, 0x9FF900000000, 0xA11A90000000, 0x1001F0000000, 0x1001F0000000, 0xA11A90017CE0, 0x9FF915BFD820,
    0x39FE930000, 0x8DE940000000, 0xA50000000000, 0x9FF90009FF90, 0xA11B909A11A9, 0x1001F0F1001F, 0x1001F0F1001F,
    0xA11A909A11A9, 0x9FF90009FF90, 0, 0, 0, 0, 0,
    0, 0x2666661000, 0x6FFFFF4000, 0x6FC8EF4000, 0x6F80CF4000, 0x6F80CF4000, 0x6F80CF4000, 0x6F80CF5000, 0x6F80CFFF80,
    0x6F80CFADFA, 0x6F80CF40DF, 0x7F70CF407F, 0x8F60CF406F, 0xBF30CF407F, 0x2FF00CF41EF, 0xCFF700CFDFF8,
    0xFC6000CFFD50, 0, 0, 0, 0, 0,
    0, 0, 0, 0, 0, 0, 0x90000, 0x1CF0000, 0x2EF40000, 0x5FD200000, 0xFF2000000, 0x5FD200000, 0x2EF40000, 0x1CF0000,
    0x90000, 0, 0, 0, 0, 0, 0, 0]"

definition glyphs_8C :: "nat list" where
  "glyphs_8C = [0, 0x610004610000, 0xF4000CF40000, 0xF4000CF40000, 0xF4000CF40000, 0xF4000CF40000, 0xF4000CF40000, 0xF4000CF50000,
    0xFFFFFFFFFB10, 0xFDCCCFFADFD0, 0xF4000CF40DF4, 0xF4000CF407F8, 0xF4000CF406F8, 0xF4000CF407F7, 0xF4000CF41EF2,
    0xF4000CFDFF80, 0xF4000CFFD500, 0, 0, 0, 0, 0,
    0xAE10000, 0, 0, 0xFF000002EF7, 0xFF00001DF70, 0xFF0001DF700, 0xFF001DF7000, 0xFF01DF90000, 0xFF0CF900000,
    0xFFCFF300000, 0xFFFDFD00000, 0xFF90DF90000, 0xFF002FF4000, 0xFF0007FE100, 0xFF0000CFA00, 0xFF00002FF50,
    0xFF000006FF1, 0, 0, 0, 0, 0,
    0, 0x666666663000, 0xFFFFFFFF8000, 0x67FE66663000, 0x2FE00000000, 0x2FE00000000, 0x2FE00000000, 0x2FE038AA600,
    0x2FEBFFFFFB0, 0x2FFFA549FF4, 0x2FF70000BF8, 0x2FF100008FA, 0x2FE000008FA, 0x2FE000008FA, 0x2FE000008FA,
    0x2FE000008FA, 0x2FE000008FA, 0, 0, 0, 0, 0,
    0, 0x36300000561, 0xAF800000EF4, 0xAF800000EF4, 0xAF800000EF4, 0xAF800000EF4, 0xAF800000EF4, 0xAF800000EF4,
    0xAF800000EF4, 0xAF800000EF4, 0xAF800000EF4, 0xAF800000EF4, 0xAF800000EF4, 0xAF800000EF4, 0xAF800000EF4,
    0xAFECCCCCFF4, 0xAFFFFFFFFF4, 0xAF40000, 0xAF40000, 0xAF40000, 0x2410000, 0]"

definition glyphs_90 :: "nat list" where
  "glyphs_90 = [0, 0xCF400000000, 0xCF400000000, 0xCF400000000, 0xCF400000000, 0x8EFA88860000, 0xFFFFFFFC0000, 0xCF400000000,
    0xCF400000000, 0xCF46CFE8000, 0xCFBFCCFF900, 0xCFE2002FF10, 0xCF70000BF40, 0xCF40000AF60, 0xCF40000AF60,
    0xCF40000BF40, 0xCF40000EF10, 0x4FD00, 0xDF600, 0x4DFA000, 0xAF80000, 0x3100000,
    0, 0x4FE000, 0xCFA000, 0x4FF5000, 0xDFF1000, 0xFFF0000, 0xFFF0000, 0, 0, 0, 0, 0, 0, 0, 0, 0, 0, 0, 0, 0, 0, 0,
    0, 0xFFF000, 0xFFF000, 0x1FFD000, 0x5FF4000, 0xAFC0000, 0xEF40000, 0, 0, 0, 0, 0, 0, 0, 0, 0, 0, 0, 0, 0, 0, 0,
    0, 0x4FE004FE00, 0xCFA00CFA00, 0x4FF504FF500, 0xDFF10DFF100, 0xFFF00FFF000, 0xFFF00FFF000, 0, 0, 0, 0, 0, 0, 0, 0,
    0, 0, 0, 0, 0, 0, 0]"

definition glyphs_94 :: "nat list" where
  "glyphs_94 = [0, 0xFFF00FFF00, 0xFFF00FFF00, 0x1FFD01FFD00, 0x5FF405FF400, 0xAFC00AFC000, 0xEF400EF4000, 0, 0, 0, 0, 0, 0, 0, 0,
    0, 0, 0, 0, 0, 0, 0,
    0, 0, 0, 0, 0, 0, 0x9FF90000, 0x9FFFF9000, 0xFFFFFF000, 0xFFFFFF000, 0x9FFFF9000, 0x9FF90000, 0, 0, 0, 0, 0, 0, 0,
    0, 0, 0,
    0, 0, 0, 0, 0, 0, 0, 0, 0, 0, 0xFFFFFFFFFFFF, 0xFFFFFFFFFFFF, 0, 0, 0, 0, 0, 0, 0, 0, 0, 0,
    0, 0, 0, 0, 0, 0, 0, 0, 0, 0, 0, 0xFFFFFFFFFFFF, 0xFFFFFFFFFFFF, 0, 0, 0, 0, 0, 0, 0, 0, 0]"

definition glyphs_98 :: "nat list" where
  "glyphs_98 = [0, 0, 0xFFFFFFFFFFF, 0xF000000000F, 0xF000000000F, 0xF000000000F, 0xF000000000F, 0xF000000000F, 0xF000000000F,
    0xF000000000F, 0xF000000000F, 0xF000000000F, 0xF000000000F, 0xF000000000F, 0xF000000000F, 0xF000000000F,
    0xF000000000F, 0xF000000000F, 0xF000000000F, 0xF000000000F, 0xFFFFFFFFFFF, 0,
    0, 0, 0xFFFF0FD00DF0, 0xF000FB76CF0, 0xF000F2ED4F0, 0xF000F09C0F0, 0xF000F0000F0, 0xF000F0000F0, 0, 0, 0, 0, 0, 0,
    0, 0, 0, 0, 0, 0, 0, 0,
    0, 0, 0, 0, 0, 0x48888830000, 0x8FFFFF60000, 0x8F406F60000, 0x8F406F60000, 0x8F406F60000, 0x8F406FEC700,
    0x8F306FDEFD0, 0x9F206F60BF6, 0xAF006F606F9, 0x1FC006F60AF7, 0xDF6006FCCFE1, 0xE80006FFEA20, 0, 0, 0, 0, 0,
    0, 0, 0, 0, 0, 0, 0x900000000, 0xFC1000000, 0x4FE200000, 0x2DF50000, 0x2FF0000, 0x2DF50000, 0x4FE200000,
    0xFC1000000, 0x900000000, 0, 0, 0, 0, 0, 0, 0]"

definition glyphs_9C :: "nat list" where
  "glyphs_9C = [0, 0, 0, 0, 0, 0x830007700000, 0xF6000EE00000, 0xF6000EE00000, 0xF6000EE00000, 0xF6000EE00000, 0xFEEEEFFDA300,
    0xFDCCCFFCFF60, 0xF6000EE03FF0, 0xF6000EE00EF2, 0xF6000EE01FF0, 0xF6000EFAEF90, 0xF6000EFFC600, 0, 0, 0, 0, 0,
    0x7F90, 0x3FB00, 0xDD000, 0xAE2000, 0, 0, 0xFF00009FF60, 0xFF000AFF500, 0xFF00BFF3000, 0xFF1CFE30000,
    0xFFDFF400000, 0xFFFFFC00000, 0xFFC2EF90000, 0xFF003FF5000, 0xFF0007FF200, 0xFF0000AFD00, 0xFF00000DFA0, 0, 0, 0,
    0, 0,
    0, 0xCF400000000, 0xCF400000000, 0xCF400000000, 0xCF400000000, 0x8EFA88860000, 0xFFFFFFFC0000, 0xCF400000000,
    0xCF400000000, 0xCF46DFD7000, 0xCFBFCCFF600, 0xCFE2006FC00, 0xCF70000EF00, 0xCF40000EF10, 0xCF40000EF20,
    0xCF40000EF20, 0xCF40000EF20, 0, 0, 0, 0, 0,
    0, 0, 0, 0, 0, 0x87000018600, 0xFE00002FC00, 0xFE00002FC00, 0xFE00002FC00, 0xFE00002FC00, 0xFE00002FC00,
    0xFE00002FC00, 0xFE00002FC00, 0xFE00002FC00, 0xFE00002FC00, 0xFF88889FC00, 0xFFFFFFFFC00, 0x6F200000, 0x6F200000,
    0x6F200000, 0, 0]"

definition glyphs_A0 :: "nat list" where
  "glyphs_A0 = [0, 0, 0, 0, 0, 0, 0, 0, 0, 0, 0, 0, 0, 0, 0, 0, 0, 0, 0, 0, 0, 0,
    0xAFFA0000, 0, 0, 0xCF6000005FC, 0x5FD00000CF6, 0xEF30002FF0, 0x8FA0008FA0, 0x1FF100EF30, 0xAF805FD00,
    0x3FE0BF600, 0xCF8FF100, 0x5FFFA000, 0xEFF4000, 0x9FD0000, 0xDF70000, 0x9FE00000, 0xFFFF500000, 0, 0, 0, 0, 0,
    0xF1001F000, 0xCA01AC000, 0x6FFFF6000, 0x9FF90000, 0, 0, 0xCF500005FC0, 0x6FC0000BF60, 0xEF3001FF10, 0x8F9007FA00,
    0x2FF10EF400, 0xBF74FE000, 0x4FEAF8000, 0xEFFF1000, 0x7FFC0000, 0x1FF60000, 0x1FF10000, 0x7FB00000, 0x2EF500000,
    0xFFFE000000, 0xFFC2000000, 0,
    0, 0, 0xFFFFFF00, 0xFFFFFF00, 0xFF00, 0xFF00, 0xFF00, 0xFF00, 0xFF00, 0xFF00, 0xFF00, 0xFF00, 0xFF00, 0x2FE00,
    0xC62002BFA00, 0xFFFFFFFF300, 0x39DFFEA3000, 0, 0, 0, 0, 0]"

definition glyphs_A4 :: "nat list" where
  "glyphs_A4 = [0, 0, 0, 0, 0, 0, 0x95000005A00, 0x5FAEFEAF500, 0xAD303DA000, 0xE30003E000, 0xF00000F000, 0xE30003E000,
    0xAD303DA000, 0x5FBEFEAF600, 0xA5000005800, 0, 0, 0, 0, 0, 0, 0,
    0xFF0, 0xFF0, 0xFFFFFFFFFF0, 0xFFFFFFFFFF0, 0xFF000000000, 0xFF000000000, 0xFF000000000, 0xFF000000000,
    0xFF000000000, 0xFF000000000, 0xFF000000000, 0xFF000000000, 0xFF000000000, 0xFF000000000, 0xFF000000000,
    0xFF000000000, 0xFF000000000, 0, 0, 0, 0, 0,
    0, 0, 0xFF00000, 0xFF00000, 0xFF00000, 0xFF00000, 0xFF00000, 0xFF00000, 0xFF00000, 0xFF00000, 0, 0, 0, 0xFF00000,
    0xFF00000, 0xFF00000, 0xFF00000, 0xFF00000, 0xFF00000, 0xFF00000, 0xFF00000, 0,
    0, 0, 0x8DFFFF000, 0x9FFFFFF000, 0xFF60000000, 0xEF10000000, 0x5FE4000000, 0x9FDFC30000, 0x9F706FF9000,
    0xFF0002DF900, 0xEF40002FF00, 0x6FF4000FE00, 0x5FFA1AF700, 0x19FFF5000, 0x2CF7000, 0x1FF000, 0x6FF000,
    0xFFFFFF9000, 0xFFFFD70000, 0, 0, 0]"

definition glyphs_A8 :: "nat list" where
  "glyphs_A8 = [0, 0, 0xFFFFFFFFFF0, 0xFFFFFFFFFF0, 0xFF000000000, 0xFF000000000, 0xFF000000000, 0xFF000000000, 0xFFFFFFFFF00,
    0xFFFFFFFFF00, 0xFF000000000, 0xFF000000000, 0xFF000000000, 0xFF000000000, 0xFF000000000, 0xFFFFFFFFFF0,
    0xFFFFFFFFFF0, 0, 0, 0, 0, 0,
    0, 0, 0, 0x4BFFFB4000, 0xAD51015DA00, 0x9A0000000A90, 0xD006DFFF00D4, 0x607D3000005B, 0x10E30000001E,
    0xF00000000F, 0x10E20000001F, 0x607D3000006B, 0xE006DFFF00D4, 0x9C0000000B90, 0x9E61016D900, 0x4BFFFB4000, 0, 0,
    0, 0, 0, 0,
    0, 0, 0x6CFFEA40, 0xCFFFFFFF0, 0xBFB30015C0, 0x3FD00000000, 0x9F500000000, 0xDF100000000, 0xFFFFFFFF000,
    0xFFFFFFFF000, 0xFF000000000, 0xDF200000000, 0xAF700000000, 0x4FE10000000, 0xBFD50015C0, 0xCFFFFFFF0, 0x6CFFEA40,
    0, 0, 0, 0, 0,
    0, 0, 0, 0, 0, 0, 0x9000090, 0x1CF001CF0, 0x2EF402EF40, 0x5FE205FD200, 0xFF300FE1000, 0x5FE205FD200, 0x2EF402EF40,
    0x1CF001CF0, 0x9000090, 0, 0, 0, 0, 0, 0, 0]"

definition glyphs_AC :: "nat list" where
  "glyphs_AC = [0, 0, 0, 0, 0, 0, 0, 0, 0xFFFFFFFFFFF, 0xFFFFFFFFFFF, 0xFF, 0xFF, 0xFF, 0, 0, 0, 0, 0, 0, 0, 0, 0,
    0, 0, 0, 0, 0, 0, 0, 0, 0, 0, 0xFFFFF0000, 0xFFFFF0000, 0, 0, 0, 0, 0, 0, 0, 0, 0, 0,
    0, 0, 0, 0x4BFFFB4000, 0xAD51015DA00, 0x9A0000000A90, 0xD00FFFFC40D4, 0x600F0004E05B, 0x100F0004E01E, 0xFC5CE300F,
    0x100F001E301F, 0x600F0005D06B, 0xE00F0000AAD4, 0x9C0000000B90, 0x9E61016D900, 0x4BFFFB4000, 0, 0, 0, 0, 0, 0,
    0, 0, 0xFFFFFFFF000, 0xFFFFFFFF000, 0xFF000000, 0xFF000000, 0xFF000000, 0xFF000000, 0xFF000000, 0xFF000000,
    0xFF000000, 0xFF000000, 0xFF000000, 0xFF000000, 0xFF000000, 0xFFFFFFFF000, 0xFFFFFFFF000, 0, 0, 0, 0, 0]"

definition glyphs_B0 :: "nat list" where
  "glyphs_B0 = [0, 0, 0x5DFD5000, 0x5D303D500, 0xD30003D00, 0xF00000F00, 0xE30003E00, 0x6D303D600, 0x6EFD5000, 0, 0, 0, 0, 0, 0,
    0, 0, 0, 0, 0, 0, 0,
    0, 0, 0, 0, 0, 0xFF000000, 0xFF000000, 0xFF000000, 0xFFFFFFFFFFF0, 0xFFFFFFFFFFF0, 0xFF000000, 0xFF000000,
    0xFF000000, 0, 0, 0xFFFFFFFFFFF0, 0xFFFFFFFFFFF0, 0, 0, 0, 0, 0,
    0, 0, 0xFFFFFFFF000, 0xFFFFFFFF000, 0xFF000000, 0xFF000000, 0xFF000000, 0xFF000000, 0xFF000000, 0xFF000000,
    0xFF000000, 0xFF000000, 0xFF000000, 0xFF000000, 0xFF000000, 0xFFFFFFFF000, 0xFFFFFFFF000, 0, 0, 0, 0, 0,
    0, 0xFF00000, 0xFF00000, 0, 0, 0, 0xFFFFF00000, 0xFFFFF00000, 0xFF00000, 0xFF00000, 0xFF00000, 0xFF00000,
    0xFF00000, 0xFF00000, 0xFF00000, 0xFFFFFFFFFF0, 0xFFFFFFFFFF0, 0, 0, 0, 0, 0]"

definition glyphs_B4 :: "nat list" where
  "glyphs_B4 = [0, 0, 0, 0xFF0, 0xFF0, 0xFF0, 0xFFFFFFFF0, 0xFFFFFFFF0, 0xFF0000000, 0xFF0000000, 0xFF0000000, 0xFF0000000,
    0xFF0000000, 0xFF0000000, 0xFF0000000, 0xFF0000000, 0xFF0000000, 0, 0, 0, 0, 0,
    0, 0, 0, 0, 0, 0, 0xFF000000FF0, 0xFF000000FF0, 0xFF000000FF0, 0xFF000000FF0, 0xFF000000FF0, 0xFF000000FF0,
    0xFF000000FF0, 0xFF200004FF0, 0xFFD3004EFF1, 0xFEDFFFFEBFF, 0xFE2BFFB23FC, 0xFE000000000, 0xFE000000000,
    0xFE000000000, 0xFE000000000, 0,
    0, 0, 0x4ADFFFFF0, 0x9FFFFF00F0, 0x7FFFFFF00F0, 0xEFFFFFF00F0, 0xFFFFFFF00F0, 0xEFFFFFF00F0, 0x7FFFFFF00F0,
    0x9FFFFF00F0, 0x39DFF00F0, 0xF00F0, 0xF00F0, 0xF00F0, 0xF00F0, 0xF00F0, 0xF00F0, 0xF00F0, 0xF00F0, 0, 0, 0,
    0, 0, 0, 0, 0, 0, 0, 0, 0xFFF0000, 0xFFF0000, 0xFFF0000, 0, 0, 0, 0, 0, 0, 0, 0, 0, 0, 0]"

definition glyphs_B8 :: "nat list" where
  "glyphs_B8 = [0, 0, 0xFF00FF000, 0xFF00FF000, 0, 0, 0x4BFFE9100, 0x8FFFFFFD10, 0x4FD4003BF90, 0xBF200001FE0, 0xFFFFFFFFFF0,
    0xFFFFFFFFFF0, 0xFF000000000, 0xBF500000000, 0x4FF720037C0, 0x7FFFFFFFF0, 0x3AEFFD930, 0, 0, 0, 0, 0,
    0, 0x365000240000, 0xAFF007FF2000, 0xAFF30EFB1000, 0xAFF50FE00000, 0xAFD80FE00000, 0xAFBB0FE00000, 0xAF8D0FE00000,
    0xAF5F0FE00000, 0xAF4F3FE06FC1, 0xAF4C6FE0F9F6, 0xAF498FE1F4C8, 0xAF46BFE0F4D7, 0xAF44EFE0CFF3, 0xCF31FFE01740,
    0xFF00EFE18884, 0xD600CFE2FFF8, 0, 0, 0, 0, 0,
    0, 0, 0, 0, 0, 0, 0x4AEFFB400, 0x8FFFFFFF00, 0x4FE61004B00, 0xBF400000000, 0xFFFFFFFF000, 0xFFFFFFFF000,
    0xFF100000000, 0xBF700000000, 0x4FF82003B00, 0x8FFFFFFF00, 0x4AEFFB400, 0, 0, 0, 0, 0,
    0, 0, 0, 0, 0, 0, 0x90000900000, 0xFC100FC1000, 0x4FE204FE200, 0x2DF502EF50, 0x1EF003FF0, 0x2DF502EF50,
    0x4FE204FE200, 0xFC100FC1000, 0x90000900000, 0, 0, 0, 0, 0, 0, 0]"

definition glyphs_BC :: "nat list" where
  "glyphs_BC = [0, 0xFF00000, 0xFF00000, 0, 0, 0, 0xFFFFF00000, 0xFFFFF00000, 0xFF00000, 0xFF00000, 0xFF00000, 0xFF00000,
    0xFF00000, 0xFF00000, 0xFF00000, 0xFF00000, 0xFF00000, 0x1FF00000, 0x8FC00000, 0xFFFFF500000, 0xFFFE6000000, 0,
    0, 0, 0x7DFFD9300, 0x1DFFFFFFF00, 0x9FD40025C00, 0xFF200000000, 0xFF000000000, 0xDFA10000000, 0x4FFFC940000,
    0x3BFFFFE500, 0x147CFF50, 0x6FC0, 0xFF0, 0x2FF0, 0xC730015DFA0, 0xFFFFFFFFE20, 0x38CFFFD8100, 0, 0, 0, 0, 0,
    0, 0, 0, 0, 0, 0, 0x4AEFFDA300, 0x7FFFFFFFF00, 0xEF820026C00, 0xFF520000000, 0x9FFFFEC9200, 0x5BFFFFFF40,
    0x36CFD0, 0xFF0, 0xD841003AFE0, 0xFFFFFFFFF50, 0x38CFFFD9300, 0, 0, 0, 0, 0,
    0, 0xFF00FF000, 0xFF00FF000, 0, 0, 0, 0xFFFFF00000, 0xFFFFF00000, 0xFF00000, 0xFF00000, 0xFF00000, 0xFF00000,
    0xFF00000, 0xFF00000, 0xFF00000, 0xFFFFFFFFFF0, 0xFFFFFFFFFF0, 0, 0, 0, 0, 0]"

definition glyphs_C0 :: "nat list" where
  "glyphs_C0 = [0, 0, 0x3FF30000, 0x7FF70000, 0xBFFB0000, 0xFFFF0000, 0x4FDDF4000, 0x8F99F8000, 0xCF55FC000, 0xFF00FF000,
    0x4FC00CF400, 0x9FFFFFF900, 0xDFFFFFFD00, 0x1FF0000FF10, 0x5FB0000BF50, 0x9F700007F90, 0xEF300003FE0, 0, 0, 0, 0,
    0,
    0, 0, 0xFFFFFFFFF00, 0xFFFFFFFFF00, 0xFF000000000, 0xFF000000000, 0xFF000000000, 0xFF000000000, 0xFFFFFEB7000,
    0xFFFFFFFFD10, 0xFF00015DF90, 0xFF000003FE0, 0xFF000000FF0, 0xFF000002FF0, 0xFF00004CFA0, 0xFFFFFFFFE20,
    0xFFFFFFD8100, 0, 0, 0, 0, 0,
    0, 0, 0xFFFFFEB3000, 0xFFFFFFFF400, 0xFF00019FC00, 0xFF00000FF00, 0xFF00001FF00, 0xFF0002BFA00, 0xFFFFFFF9000,
    0xFFFFFFFC400, 0xFF00015DF40, 0xFF000003FC0, 0xFF000000FF0, 0xFF000002FF0, 0xFF00014CFB0, 0xFFFFFFFFE20,
    0xFFFFFFD8100, 0, 0, 0, 0, 0,
    0, 0, 0xFFFFFFFFFF0, 0xFFFFFFFFFF0, 0xFF000000000, 0xFF000000000, 0xFF000000000, 0xFF000000000, 0xFF000000000,
    0xFF000000000, 0xFF000000000, 0xFF000000000, 0xFF000000000, 0xFF000000000, 0xFF000000000, 0xFF000000000,
    0xFF000000000, 0, 0, 0, 0, 0]"

definition glyphs_C4 :: "nat list" where
  "glyphs_C4 = [0, 0, 0xFFFFFFFFF00, 0xFFFFFFFFF00, 0xFF00000FF00, 0xFF00000FF00, 0xFF00000FF00, 0xFF00000FF00, 0xFF00000FF00,
    0x2FE00000FF00, 0x2FD00000FF00, 0x4FC00000FF00, 0x6FA00000FF00, 0x9F800000FF00, 0xDF600000FF00, 0xFFFFFFFFFFF0,
    0xFFFFFFFFFFF0, 0xF00000000FF0, 0xF00000000FF0, 0xF00000000FF0, 0, 0,
    0, 0, 0xFFFFFFFFFF0, 0xFFFFFFFFFF0, 0xFF000000000, 0xFF000000000, 0xFF000000000, 0xFF000000000, 0xFFFFFFFFF00,
    0xFFFFFFFFF00, 0xFF000000000, 0xFF000000000, 0xFF000000000, 0xFF000000000, 0xFF000000000, 0xFFFFFFFFFF0,
    0xFFFFFFFFFF0, 0, 0, 0, 0, 0,
    0, 0, 0xDF500FF005FD, 0x5FD00FF00DF5, 0xDF50FF05FD0, 0x5FD0FF0DF50, 0xDF4FF4FD00, 0x6FCFFCF600, 0x4FFFFFF400,
    0x9FFFFFF900, 0xEFEFFEFE00, 0x4FD6FF6DF40, 0xAF70FF07FA0, 0xFF10FF01FF0, 0x5FC00FF00CF5, 0xBF700FF007FB,
    0xFF100FF001FF, 0, 0, 0, 0, 0,
    0, 0, 0x37CFFFC7000, 0xFFFFFFFFD20, 0xD731004CFB0, 0x1FF0, 0x1FF0, 0x3CF80, 0xFFFFE700, 0xFFFFE700, 0x5EF60,
    0x3FD0, 0xFF0, 0x4FF0, 0xC730016EF90, 0xFFFFFFFFD10, 0x38DFFFC7000, 0, 0, 0, 0, 0]"

definition glyphs_C8 :: "nat list" where
  "glyphs_C8 = [0, 0, 0xFF00000DFF0, 0xFF00004FFF0, 0xFF0000BFFF0, 0xFF0002FAFF0, 0xFF0009F3FF0, 0xFF001FC0FF0, 0xFF007F50FF0,
    0xFF00EE00FF0, 0xFF05F700FF0, 0xFF0CF100FF0, 0xFF3F9000FF0, 0xFFAF2000FF0, 0xFFFB0000FF0, 0xFFF40000FF0,
    0xFFD00000FF0, 0, 0, 0, 0, 0,
    0xAFFA0000, 0, 0, 0xFF00000DFF0, 0xFF00004FFF0, 0xFF0000BFFF0, 0xFF0002FAFF0, 0xFF0009F3FF0, 0xFF001FC0FF0,
    0xFF007F50FF0, 0xFF00EE00FF0, 0xFF05F700FF0, 0xFF0CF100FF0, 0xFF3F9000FF0, 0xFFAF2000FF0, 0xFFFB0000FF0,
    0xFFF40000FF0, 0, 0, 0, 0, 0,
    0, 0, 0xFF000002EF7, 0xFF00001DF70, 0xFF0001DF700, 0xFF001DF7000, 0xFF01DF90000, 0xFF0CF900000, 0xFFCFF300000,
    0xFFFDFD00000, 0xFF90DF90000, 0xFF002FF4000, 0xFF0007FE100, 0xFF0000CFA00, 0xFF00002FF50, 0xFF000006FF1,
    0xFF000000BFB, 0, 0, 0, 0, 0,
    0, 0, 0xFFFFFFFF00, 0xFFFFFFFF00, 0xFF0000FF00, 0xFF0000FF00, 0xFF0000FF00, 0xFF0000FF00, 0xFF0000FF00,
    0xFF0000FF00, 0x1FF0000FF00, 0x2FE0000FF00, 0x3FE0000FF00, 0x7FB0000FF00, 0x4EF70000FF00, 0xFFE10000FF00,
    0xE9100000FF00, 0, 0, 0, 0, 0]"

definition glyphs_CC :: "nat list" where
  "glyphs_CC = [0, 0, 0xFFE0000EFF0, 0xFFF2002FFF0, 0xFFE7007EFF0, 0xFFAB00CAFF0, 0xFF5F00F5FF0, 0xFF1F45F1FF0, 0xFF0C99C0FF0,
    0xFF07EE80FF0, 0xFF03FF30FF0, 0xFF00EE00FF0, 0xFF000000FF0, 0xFF000000FF0, 0xFF000000FF0, 0xFF000000FF0,
    0xFF000000FF0, 0, 0, 0, 0, 0,
    0, 0, 0xFF000000FF0, 0xFF000000FF0, 0xFF000000FF0, 0xFF000000FF0, 0xFF000000FF0, 0xFF000000FF0, 0xFFFFFFFFFF0,
    0xFFFFFFFFFF0, 0xFF000000FF0, 0xFF000000FF0, 0xFF000000FF0, 0xFF000000FF0, 0xFF000000FF0, 0xFF000000FF0,
    0xFF000000FF0, 0, 0, 0, 0, 0,
    0, 0, 0x5CFFC5000, 0x8FFFFFF800, 0x2FF6006FF20, 0x8F900009F80, 0xCF400004FC0, 0xEF100001FE0, 0xFF000000FF0,
    0xFF000000FF0, 0xFF000000FF0, 0xEF100001FE0, 0xCF400004FC0, 0x8F900009F80, 0x2FF6006FF20, 0x8FFFFFF800,
    0x5CFFC5000, 0, 0, 0, 0, 0,
    0, 0, 0xFFFFFFFFFF0, 0xFFFFFFFFFF0, 0xFF000000FF0, 0xFF000000FF0, 0xFF000000FF0, 0xFF000000FF0, 0xFF000000FF0,
    0xFF000000FF0, 0xFF000000FF0, 0xFF000000FF0, 0xFF000000FF0, 0xFF000000FF0, 0xFF000000FF0, 0xFF000000FF0,
    0xFF000000FF0, 0, 0, 0, 0, 0]"

definition glyphs_D0 :: "nat list" where
  "glyphs_D0 = [0, 0, 0xFFFFFFD8100, 0xFFFFFFFFE10, 0xFF00015EF90, 0xFF000003FE0, 0xFF000000FF0, 0xFF000003FE0, 0xFF00015EF90,
    0xFFFFFFFFE10, 0xFFFFFFD8100, 0xFF000000000, 0xFF000000000, 0xFF000000000, 0xFF000000000, 0xFF000000000,
    0xFF000000000, 0, 0, 0, 0, 0,
    0, 0, 0x6CFFEB40, 0xCFFFFFFF0, 0xBFD51015C0, 0x3FE10000000, 0x9F700000000, 0xDF300000000, 0xFF000000000,
    0xFF000000000, 0xFF000000000, 0xDF300000000, 0xAF700000000, 0x4FE10000000, 0xBFD51015C0, 0xCFFFFFFF0, 0x6CFFEB40,
    0, 0, 0, 0, 0,
    0, 0, 0xFFFFFFFFFFF0, 0xFFFFFFFFFFF0, 0xFF000000, 0xFF000000, 0xFF000000, 0xFF000000, 0xFF000000, 0xFF000000,
    0xFF000000, 0xFF000000, 0xFF000000, 0xFF000000, 0xFF000000, 0xFF000000, 0xFF000000, 0, 0, 0, 0, 0,
    0, 0, 0xCF6000005FC, 0x5FD00000CF6, 0xEF30002FF0, 0x8FA0008FA0, 0x1FF100EF30, 0xAF805FD00, 0x3FE0BF600,
    0xCF8FF100, 0x5FFFA000, 0xEFF4000, 0x9FD0000, 0xDF70000, 0x9FE00000, 0xFFFF500000, 0xFFE6000000, 0, 0, 0, 0, 0]"

definition glyphs_D4 :: "nat list" where
  "glyphs_D4 = [0, 0, 0xFF000000, 0x7DFFFFD7000, 0xCFFFFFFFFC00, 0xFE61FF16EF50, 0xF500FF005FB0, 0xF100FF001FE0, 0xF000FF000FF0,
    0xF000FF000FF0, 0xF100FF001FE0, 0xF500FF005FB0, 0xFE61FF16EF50, 0xAFFFFFFFFC00, 0x6CFFFFD7000, 0xFF000000,
    0xFF000000, 0, 0, 0, 0, 0,
    0, 0, 0xBF900009FB0, 0x2FF2003FF20, 0x9FB00CF800, 0x1FF45FE100, 0x7FCDF6000, 0xEFFD0000, 0x6FF30000, 0x5FF20000,
    0xCFFB0000, 0x4FEFF3000, 0xCF79FB000, 0x4FE01FF300, 0xCF7008FB00, 0x4FF1001FF40, 0xCF800008FC0, 0, 0, 0, 0, 0,
    0, 0, 0xFF000000FF0, 0xFF000000FF0, 0xFF000000FF0, 0xFF000000FF0, 0xFF000000FF0, 0xFF000000FF0, 0xFF000000FF0,
    0xFF000000FF0, 0xFF000000FF0, 0xFF000000FF0, 0xFF000000FF0, 0xFF000000FF0, 0xFF000000FF0, 0xFFFFFFFFFFF,
    0xFFFFFFFFFFF, 0xFF, 0xFF, 0xFF, 0, 0,
    0, 0, 0xFF000000FF0, 0xFF000000FF0, 0xFF000000FF0, 0xFF000000FF0, 0xFF000000FF0, 0xFF100000FF0, 0xDF91003AFF0,
    0x7FFFFFFFFF0, 0x7DFFFC6FF0, 0xFF0, 0xFF0, 0xFF0, 0xFF0, 0xFF0, 0xFF0, 0, 0, 0, 0, 0]"

definition glyphs_D8 :: "nat list" where
  "glyphs_D8 = [0, 0, 0xFF00FF00FF0, 0xFF00FF00FF0, 0xFF00FF00FF0, 0xFF00FF00FF0, 0xFF00FF00FF0, 0xFF00FF00FF0, 0xFF00FF00FF0,
    0xFF00FF00FF0, 0xFF00FF00FF0, 0xFF00FF00FF0, 0xFF00FF00FF0, 0xFF00FF00FF0, 0xFF00FF00FF0, 0xFFFFFFFFFF0,
    0xFFFFFFFFFF0, 0, 0, 0, 0, 0,
    0, 0, 0xFF00FF00FF0, 0xFF00FF00FF0, 0xFF00FF00FF0, 0xFF00FF00FF0, 0xFF00FF00FF0, 0xFF00FF00FF0, 0xFF00FF00FF0,
    0xFF00FF00FF0, 0xFF00FF00FF0, 0xFF00FF00FF0, 0xFF00FF00FF0, 0xFF00FF00FF0, 0xFF00FF00FF0, 0xFFFFFFFFFFF,
    0xFFFFFFFFFFF, 0xFF, 0xFF, 0xFF, 0, 0,
    0, 0, 0xFFFF00000000, 0xFFFF00000000, 0xFF00000000, 0xFF00000000, 0xFF00000000, 0xFF00000000, 0xFFFFFD7100,
    0xFFFFFFFD10, 0xFF0015EF90, 0xFF00003FE0, 0xFF00000FF0, 0xFF00003FE0, 0xFF0015EF90, 0xFFFFFFFE10, 0xFFFFFD8100, 0,
    0, 0, 0, 0,
    0, 0, 0xFF000000FF0, 0xFF000000FF0, 0xFF000000FF0, 0xFF000000FF0, 0xFF000000FF0, 0xFF000000FF0, 0xFFFFB200FF0,
    0xFFFFFF20FF0, 0xFF01BFA0FF0, 0xFF002FF0FF0, 0xFF000FF0FF0, 0xFF002FF0FF0, 0xFF01BFA0FF0, 0xFFFFFF20FF0,
    0xFFFFA200FF0, 0, 0, 0, 0, 0]"

definition glyphs_DC :: "nat list" where
  "glyphs_DC = [0, 0, 0xFF000000000, 0xFF000000000, 0xFF000000000, 0xFF000000000, 0xFF000000000, 0xFF000000000, 0xFFFFFFD8100,
    0xFFFFFFFFE10, 0xFF00015EF90, 0xFF000003FE0, 0xFF000000FF0, 0xFF000003FE0, 0xFF00015EF90, 0xFFFFFFFFE10,
    0xFFFFFFD8100, 0, 0, 0, 0, 0,
    0, 0, 0x4AEFFC60000, 0xFFFFFFFC000, 0xC51004CFB00, 0xCF30, 0x5FA0, 0x1FD0, 0xFFFFFFFFF0, 0xFFFFFFFFF0, 0xFF0,
    0x2FD0, 0x7FA0, 0x1EF40, 0xC51005DFB00, 0xFFFFFFFC000, 0x4AEFFC60000, 0, 0, 0, 0, 0,
    0, 0, 0xFF001BFFA10, 0xFF00CFFFFC0, 0xFF04FD11DF4, 0xFF0AF6006F9, 0xFF0DF2002FC, 0xFF0FF1001FE, 0xFFFFF0000FF,
    0xFFFFF0000FF, 0xFF0FF0000FF, 0xFF0EF1001FE, 0xFF0CF2002FC, 0xFF09F6006F9, 0xFF04FD11DF4, 0xFF00CFFFFC0,
    0xFF001BFFA10, 0, 0, 0, 0, 0,
    0, 0, 0x18DFFFFFF, 0x1EFFFFFFFF, 0x9FD40000FF, 0xEF300000FF, 0xFF000000FF, 0xEF200000FF, 0x9FD30000FF,
    0x1CFFFFFFFF, 0x9FFFFFFF, 0xCF8000FF, 0x5FE1000FF, 0xEF60000FF, 0x8FC00000FF, 0x2FF300000FF, 0xBFA000000FF, 0, 0,
    0, 0, 0]"

definition glyphs_E0 :: "nat list" where
  "glyphs_E0 = [0, 0, 0, 0, 0, 0, 0x39DFFE9200, 0xFFFFFFFF30, 0xC62002AFB0, 0xFF0, 0x29DFFFFFF0, 0x4FFFFFFFFF0, 0xDFA30000FF0,
    0xFF000005FF0, 0xEF81016FFF0, 0x7FFFFFF7FF0, 0x5CFFC50FF0, 0, 0, 0, 0, 0,
    0, 0x38ACE4000, 0xBFFFFFC000, 0xCFFD8642000, 0x7FF700000000, 0xDF8000000000, 0xFF4BFFE90000, 0xFFFFFFFFD000,
    0xFFE5005EF700, 0xFF600006FC00, 0xFF100001FF00, 0xFF000000FF00, 0xFF100001FF00, 0xCF600006FC00, 0x6FF5005EF700,
    0xAFFFFFFC000, 0x7DFFD70000, 0, 0, 0, 0, 0,
    0, 0, 0, 0, 0, 0, 0xFFFFFD80000, 0xFFFFFFFB000, 0xFF0004FF000, 0xFF0004FD000, 0xFFFFFFC3000, 0xFFFFFFF6000,
    0xFF0006FE000, 0xFF0000FF000, 0xFF0008FE000, 0xFFFFFFF8000, 0xFFFFFD70000, 0, 0, 0, 0, 0,
    0, 0, 0, 0, 0, 0, 0xFFFFFFFF0, 0xFFFFFFFF0, 0xFF0000000, 0xFF0000000, 0xFF0000000, 0xFF0000000, 0xFF0000000,
    0xFF0000000, 0xFF0000000, 0xFF0000000, 0xFF0000000, 0, 0, 0, 0, 0]"

definition glyphs_E4 :: "nat list" where
  "glyphs_E4 = [0, 0, 0, 0, 0, 0, 0xFFFFFFFF0, 0xFFFFFFFF0, 0xFF0000FF0, 0xFF0000FF0, 0xFF0000FF0, 0x1FF0000FF0, 0x2FE0000FF0,
    0x4FC0000FF0, 0x9FB0000FF0, 0xFFFFFFFFFFF, 0xFFFFFFFFFFF, 0xFF0000000FF, 0xFF0000000FF, 0xFF0000000FF, 0, 0,
    0, 0, 0, 0, 0, 0, 0x4BFFE9100, 0x8FFFFFFD10, 0x4FD4003BF90, 0xBF200001FE0, 0xFFFFFFFFFF0, 0xFFFFFFFFFF0,
    0xFF000000000, 0xBF500000000, 0x4FF720037C0, 0x7FFFFFFFF0, 0x3AEFFD930, 0, 0, 0, 0, 0,
    0, 0, 0, 0, 0, 0, 0xFB00FF00BF50, 0xBF50FF05FB00, 0x2FE0FF0EF200, 0x7F8FF8F7000, 0x6FFFFFF6000, 0xCFFFFFFC000,
    0x2FFAFFAFF200, 0x8F91FF19F800, 0xEF30FF03FE00, 0xFD00FF00DF40, 0xF700FF007FA0, 0, 0, 0, 0, 0,
    0, 0, 0, 0, 0, 0, 0x39DFFEB5000, 0xFFFFFFFF900, 0xC620027FF00, 0x27FC00, 0xFFFFF9100, 0xFFFFFB200, 0x3AFC00,
    0xFF00, 0xB41003AFE00, 0xFFFFFFFF500, 0x3AEFFD93000, 0, 0, 0, 0, 0]"

definition glyphs_E8 :: "nat list" where
  "glyphs_E8 = [0, 0, 0, 0, 0, 0, 0xFF00004FF00, 0xFF0000DFF00, 0xFF0006FFF00, 0xFF001EFFF00, 0xFF008FCFF00, 0xFF01FF2FF00,
    0xFF0AF50FF00, 0xFF3F900FF00, 0xFFCD000FF00, 0xFFF2000FF00, 0xFF60000FF00, 0, 0, 0, 0, 0,
    0xF1001F000, 0xCA01AC000, 0x6FFFF6000, 0x9FF90000, 0, 0, 0xFF00004FF00, 0xFF0000DFF00, 0xFF0006FFF00,
    0xFF001EFFF00, 0xFF008FCFF00, 0xFF01FF2FF00, 0xFF0AF50FF00, 0xFF3F900FF00, 0xFFCD000FF00, 0xFFF2000FF00,
    0xFF60000FF00, 0, 0, 0, 0, 0,
    0, 0, 0, 0, 0, 0, 0xFF00009FF60, 0xFF000AFF500, 0xFF00BFF3000, 0xFF1CFE30000, 0xFFDFF400000, 0xFFFFFC00000,
    0xFFC2EF90000, 0xFF003FF5000, 0xFF0007FF200, 0xFF0000AFD00, 0xFF00000DFA0, 0, 0, 0, 0, 0,
    0, 0, 0, 0, 0, 0, 0xFFFFFFFF000, 0xFFFFFFFF000, 0xFF0000FF000, 0xFF0000FF000, 0xFF0000FF000, 0xFF0000FF000,
    0x1FF0000FF000, 0x3FD0000FF000, 0xAFA0000FF000, 0xFF40000FF000, 0xE700000FF000, 0, 0, 0, 0, 0]"

definition glyphs_EC :: "nat list" where
  "glyphs_EC = [0, 0, 0, 0, 0, 0, 0xFF4000004FF, 0xFFC00000CFF, 0xFFF40004FFF, 0xFFFC000CFFF, 0xFFFF404FFFF, 0xFF8FB0BF8FF,
    0xFF1FF6FF1FF, 0xFF08FFF80FF, 0xFF0000000FF, 0xFF0000000FF, 0xFF0000000FF, 0, 0, 0, 0, 0,
    0, 0, 0, 0, 0, 0, 0xFF00000FF00, 0xFF00000FF00, 0xFF00000FF00, 0xFF00000FF00, 0xFFFFFFFFF00, 0xFFFFFFFFF00,
    0xFF00000FF00, 0xFF00000FF00, 0xFF00000FF00, 0xFF00000FF00, 0xFF00000FF00, 0, 0, 0, 0, 0,
    0, 0, 0, 0, 0, 0, 0x7DFFD7000, 0xCFFFFFFC00, 0x7FF5005FF60, 0xCF600006FC0, 0xFF100001FF0, 0xFF000000FF0,
    0xFF100001FF0, 0xCF600006FC0, 0x7FF5005FF70, 0xCFFFFFFC00, 0x7DFFD7000, 0, 0, 0, 0, 0,
    0, 0, 0, 0, 0, 0, 0xFFFFFFFFF00, 0xFFFFFFFFF00, 0xFF00000FF00, 0xFF00000FF00, 0xFF00000FF00, 0xFF00000FF00,
    0xFF00000FF00, 0xFF00000FF00, 0xFF00000FF00, 0xFF00000FF00, 0xFF00000FF00, 0, 0, 0, 0, 0]"

definition glyphs_F0 :: "nat list" where
  "glyphs_F0 = [0, 0, 0, 0, 0, 0, 0xFF08EFD8000, 0xFFAFFFFFC00, 0xFFF5005EF60, 0xFF600006FC0, 0xFF100001FF0, 0xFF000000FF0,
    0xFF100001FF0, 0xFF600006FC0, 0xFFF5005EF60, 0xFFAFFFFFC00, 0xFF08FFD8000, 0xFF000000000, 0xFF000000000,
    0xFF000000000, 0xFF000000000, 0,
    0, 0, 0, 0, 0, 0, 0x4AEFFB400, 0x8FFFFFFF00, 0x4FF82004B00, 0xBF800000000, 0xFF100000000, 0xFF000000000,
    0xFF100000000, 0xBF800000000, 0x4FF82003B00, 0x8FFFFFFF00, 0x4AEFFB400, 0, 0, 0, 0, 0,
    0, 0, 0, 0, 0, 0, 0xFFFFFFFF000, 0xFFFFFFFF000, 0xFF000000, 0xFF000000, 0xFF000000, 0xFF000000, 0xFF000000,
    0xFF000000, 0xFF000000, 0xFF000000, 0xFF000000, 0, 0, 0, 0, 0,
    0, 0, 0, 0, 0, 0, 0xCF500005FC0, 0x6FC0000BF60, 0xEF3001FF10, 0x8F9007FA00, 0x2FF10EF400, 0xBF74FE000,
    0x4FEAF8000, 0xEFFF1000, 0x7FFC0000, 0x1FF60000, 0x1FF10000, 0x7FB00000, 0x2EF500000, 0xFFFE000000, 0xFFC2000000,
    0]"

definition glyphs_F4 :: "nat list" where
  "glyphs_F4 = [0, 0xFF00000, 0xFF00000, 0xFF00000, 0xFF00000, 0xFF00000, 0x2AFFFFA200, 0x2FFFFFFFF20, 0x9FC2FF2CF90,
    0xDF30FF03FD0, 0xFF00FF00FF0, 0xFF00FF00FF0, 0xFF00FF00FF0, 0xDF30FF03FD0, 0x9FC2FF2CF90, 0x2FFFFFFFF20,
    0x2AFFFFA200, 0xFF00000, 0xFF00000, 0xFF00000, 0xFF00000, 0,
    0, 0, 0, 0, 0, 0, 0xAFD0000DFA0, 0xDFA00AFD00, 0x2FF66FF200, 0x5FFFF5000, 0x9FF90000, 0x3FF30000, 0xDFFD0000,
    0x9FDDF9000, 0x4FF33FF400, 0x1EF7007FE10, 0xAFC0000CFA0, 0, 0, 0, 0, 0,
    0, 0, 0, 0, 0, 0, 0xFF00000FF00, 0xFF00000FF00, 0xFF00000FF00, 0xFF00000FF00, 0xFF00000FF00, 0xFF00000FF00,
    0xFF00000FF00, 0xFF00000FF00, 0xFF00000FF00, 0xFFFFFFFFFF0, 0xFFFFFFFFFF0, 0xFF0, 0xFF0, 0xFF0, 0, 0,
    0, 0, 0, 0, 0, 0, 0xFF00000FF00, 0xFF00000FF00, 0xFF00000FF00, 0xFF00000FF00, 0xEF80015FF00, 0x8FFFFFFFF00,
    0x8EFFD8FF00, 0xFF00, 0xFF00, 0xFF00, 0xFF00, 0, 0, 0, 0, 0]"

definition glyphs_F8 :: "nat list" where
  "glyphs_F8 = [0, 0, 0, 0, 0, 0, 0xFF00FF00FF0, 0xFF00FF00FF0, 0xFF00FF00FF0, 0xFF00FF00FF0, 0xFF00FF00FF0, 0xFF00FF00FF0,
    0xFF00FF00FF0, 0xFF00FF00FF0, 0xFF00FF00FF0, 0xFFFFFFFFFF0, 0xFFFFFFFFFF0, 0, 0, 0, 0, 0,
    0, 0, 0, 0, 0, 0, 0xFF00FF00FF0, 0xFF00FF00FF0, 0xFF00FF00FF0, 0xFF00FF00FF0, 0xFF00FF00FF0, 0xFF00FF00FF0,
    0xFF00FF00FF0, 0xFF00FF00FF0, 0xFF00FF00FF0, 0xFFFFFFFFFF6, 0xFFFFFFFFFFF, 0xFF, 0xFF, 0xFF, 0, 0,
    0, 0, 0, 0, 0, 0, 0xFFFF00000000, 0xFFFF00000000, 0xFF00000000, 0xFF00000000, 0xFFFFFFC500, 0xFFFFFFFF60,
    0xFF00018FE0, 0xFF00000FF0, 0xFF00018FE0, 0xFFFFFFFF70, 0xFFFFFFC500, 0, 0, 0, 0, 0,
    0, 0, 0, 0, 0, 0, 0xFF000000FF0, 0xFF000000FF0, 0xFF000000FF0, 0xFF000000FF0, 0xFFFFC600FF0, 0xFFFFFF70FF0,
    0xFF018FE0FF0, 0xFF000FF0FF0, 0xFF018FE0FF0, 0xFFFFFF70FF0, 0xFFFFC500FF0, 0, 0, 0, 0, 0]"

definition glyphs_FC :: "nat list" where
  "glyphs_FC = [0, 0, 0, 0, 0, 0, 0xFF000000000, 0xFF000000000, 0xFF000000000, 0xFF000000000, 0xFFFFFFC4000, 0xFFFFFFFF600,
    0xFF00018FE00, 0xFF00000FF00, 0xFF00018FE00, 0xFFFFFFFF700, 0xFFFFFFC5000, 0, 0, 0, 0, 0,
    0, 0, 0, 0, 0, 0, 0x4BFFEA40000, 0xFFFFFFF8000, 0xB40016EF400, 0x4FB00, 0xFFFFFFFF00, 0xFFFFFFFF00, 0x1FF00,
    0x7FB00, 0xB30028FF400, 0xFFFFFFF8000, 0x4BFFEA40000, 0, 0, 0, 0, 0,
    0, 0, 0, 0, 0, 0, 0xFF002BFFA10, 0xFF01EFFFFD1, 0xFF09FE22DF7, 0xFF0EF5004FD, 0xFFFFF1000FF, 0xFFFFF0000FF,
    0xFF0FF1001FF, 0xFF0CF5005FD, 0xFF07FD21DF8, 0xFF00DFFFFD1, 0xFF001AFFA10, 0, 0, 0, 0, 0,
    0, 0, 0, 0, 0, 0, 0x6CFFFFF00, 0x8FFFFFFF00, 0xEF7000FF00, 0xFF0000FF00, 0xEF7000FF00, 0x5FFFFFFF00, 0x3EFFFFF00,
    0x4FF40FF00, 0x2EF800FF00, 0xCFB000FF00, 0x9FD1000FF00, 0, 0, 0, 0, 0]"

section \<open>The font\<close>

definition glyph_rows :: "nat list" where
  "glyph_rows = concat [
    glyphs_00, glyphs_04, glyphs_08, glyphs_0C, glyphs_10, glyphs_14, glyphs_18, glyphs_1C, glyphs_20, glyphs_24,
    glyphs_28, glyphs_2C, glyphs_30, glyphs_34, glyphs_38, glyphs_3C, glyphs_40, glyphs_44, glyphs_48, glyphs_4C,
    glyphs_50, glyphs_54, glyphs_58, glyphs_5C, glyphs_60, glyphs_64, glyphs_68, glyphs_6C, glyphs_70, glyphs_74,
    glyphs_78, glyphs_7C, glyphs_80, glyphs_84, glyphs_88, glyphs_8C, glyphs_90, glyphs_94, glyphs_98, glyphs_9C,
    glyphs_A0, glyphs_A4, glyphs_A8, glyphs_AC, glyphs_B0, glyphs_B4, glyphs_B8, glyphs_BC, glyphs_C0, glyphs_C4,
    glyphs_C8, glyphs_CC, glyphs_D0, glyphs_D4, glyphs_D8, glyphs_DC, glyphs_E0, glyphs_E4, glyphs_E8, glyphs_EC,
    glyphs_F0, glyphs_F4, glyphs_F8, glyphs_FC]"

definition default_font :: "8 word list" where
  "default_font = concat (map row_of glyph_rows)"

lemma glyph_lengths:
  "length glyphs_00 = 88" "length glyphs_04 = 88" "length glyphs_08 = 88" "length glyphs_0C = 88"
  "length glyphs_10 = 88" "length glyphs_14 = 88" "length glyphs_18 = 88" "length glyphs_1C = 88"
  "length glyphs_20 = 88" "length glyphs_24 = 88" "length glyphs_28 = 88" "length glyphs_2C = 88"
  "length glyphs_30 = 88" "length glyphs_34 = 88" "length glyphs_38 = 88" "length glyphs_3C = 88"
  "length glyphs_40 = 88" "length glyphs_44 = 88" "length glyphs_48 = 88" "length glyphs_4C = 88"
  "length glyphs_50 = 88" "length glyphs_54 = 88" "length glyphs_58 = 88" "length glyphs_5C = 88"
  "length glyphs_60 = 88" "length glyphs_64 = 88" "length glyphs_68 = 88" "length glyphs_6C = 88"
  "length glyphs_70 = 88" "length glyphs_74 = 88" "length glyphs_78 = 88" "length glyphs_7C = 88"
  "length glyphs_80 = 88" "length glyphs_84 = 88" "length glyphs_88 = 88" "length glyphs_8C = 88"
  "length glyphs_90 = 88" "length glyphs_94 = 88" "length glyphs_98 = 88" "length glyphs_9C = 88"
  "length glyphs_A0 = 88" "length glyphs_A4 = 88" "length glyphs_A8 = 88" "length glyphs_AC = 88"
  "length glyphs_B0 = 88" "length glyphs_B4 = 88" "length glyphs_B8 = 88" "length glyphs_BC = 88"
  "length glyphs_C0 = 88" "length glyphs_C4 = 88" "length glyphs_C8 = 88" "length glyphs_CC = 88"
  "length glyphs_D0 = 88" "length glyphs_D4 = 88" "length glyphs_D8 = 88" "length glyphs_DC = 88"
  "length glyphs_E0 = 88" "length glyphs_E4 = 88" "length glyphs_E8 = 88" "length glyphs_EC = 88"
  "length glyphs_F0 = 88" "length glyphs_F4 = 88" "length glyphs_F8 = 88" "length glyphs_FC = 88"
  by (simp_all add:
    glyphs_00_def glyphs_04_def glyphs_08_def glyphs_0C_def glyphs_10_def glyphs_14_def glyphs_18_def glyphs_1C_def
    glyphs_20_def glyphs_24_def glyphs_28_def glyphs_2C_def glyphs_30_def glyphs_34_def glyphs_38_def glyphs_3C_def
    glyphs_40_def glyphs_44_def glyphs_48_def glyphs_4C_def glyphs_50_def glyphs_54_def glyphs_58_def glyphs_5C_def
    glyphs_60_def glyphs_64_def glyphs_68_def glyphs_6C_def glyphs_70_def glyphs_74_def glyphs_78_def glyphs_7C_def
    glyphs_80_def glyphs_84_def glyphs_88_def glyphs_8C_def glyphs_90_def glyphs_94_def glyphs_98_def glyphs_9C_def
    glyphs_A0_def glyphs_A4_def glyphs_A8_def glyphs_AC_def glyphs_B0_def glyphs_B4_def glyphs_B8_def glyphs_BC_def
    glyphs_C0_def glyphs_C4_def glyphs_C8_def glyphs_CC_def glyphs_D0_def glyphs_D4_def glyphs_D8_def glyphs_DC_def
    glyphs_E0_def glyphs_E4_def glyphs_E8_def glyphs_EC_def glyphs_F0_def glyphs_F4_def glyphs_F8_def glyphs_FC_def)

lemma length_row [simp]: "length (row_of n) = 6"
  by (simp add: row_of_def)

lemma length_concat_rows: "length (concat (map row_of ns)) = 6 * length ns"
  by (induction ns) simp_all

lemma length_glyph_rows: "length glyph_rows = 5632"
  by (simp add: glyph_rows_def glyph_lengths)

text \<open>All 256 glyphs are there.\<close>

lemma length_default_font: "length default_font = 33792"
  by (simp add: default_font_def length_concat_rows length_glyph_rows)

text \<open>Reading it: row j of glyph c is one number, byte k of the row a part of it.\<close>

lemma nth_concat_equal:
  assumes "list_all (\<lambda>xs. length xs = n) xss" "b < length xss" "t < n"
  shows "concat xss ! (n * b + t) = xss ! b ! t"
  using assms
proof (induction xss arbitrary: b)
  case (Cons xs xss)
  then show ?case by (cases b) (simp_all add: nth_append)
qed simp

lemma default_font_byte:
  assumes "r < 5632" "k < 6"
  shows "default_font ! (6 * r + k) = row_of (glyph_rows ! r) ! k"
  unfolding default_font_def using assms
  by (subst nth_concat_equal) (simp_all add: list_all_iff length_glyph_rows)

text \<open>For example the letter I, whose third row is a bar of eight pixels.\<close>

lemma letter_I_row: "glyph_rows ! (73 * 22 + 2) = 0xFFFFFFFF000"
proof -
  have "glyph_rows ! (88 * 18 + 24) = glyphs_48 ! 24"
    unfolding glyph_rows_def by (subst nth_concat_equal) (simp_all add: glyph_lengths)
  then show ?thesis by (simp add: glyphs_48_def)
qed

end
