(* ===== verification/Lettering.thy ===== *)
theory Lettering
  imports Application Glyphs
begin

text \<open>
  What the rewrite writes on the screen: the pixels of a text drawn by src/src/ui/font.cpp with the
  glyphs of src/include/fnt12x22.h, and what a message of src/src/ui/status\_bar.cpp looks like.
\<close>

section \<open>Painting\<close>

text \<open>A drawing that gives the pixels of P the grey level g and leaves the others.\<close>

definition paints :: "8 word \<Rightarrow> kindle_display \<Rightarrow> kindle_display res \<Rightarrow> (nat \<times> nat \<Rightarrow> bool) \<Rightarrow> bool" where
  "paints g d r P = (\<exists>d'. r = Inr d' \<and> display_ok d' \<and> same_size d d' \<and>
     (\<forall>q. pixel d' q = (if on_screen d q \<and> P q then quantized g else pixel d q)))"

lemma on_screen_same: "same_size d d' \<Longrightarrow> on_screen d' q = on_screen d q"
  by (simp add: same_size_def on_screen_def)

lemma paints_pixel: "display_ok d \<Longrightarrow> paints g d (set_pixel x y g d) (\<lambda>q. q = (x, y))"
  using set_pixel_pixels [of d x y g] by (auto simp: paints_def same_size_def)

lemma paints_nothing: "display_ok d \<Longrightarrow> paints g d (Inr d) (\<lambda>q. False)"
  by (simp add: paints_def same_size_def)

lemma paints_bind:
  assumes "paints g d r P" "\<And>d1. display_ok d1 \<Longrightarrow> same_size d d1 \<Longrightarrow> paints g d1 (f d1) Q"
  shows "paints g d (bindR r f) (\<lambda>q. P q \<or> Q q)"
proof -
  obtain d1 where d1: "r = Inr d1" "display_ok d1" "same_size d d1"
      "\<forall>q. pixel d1 q = (if on_screen d q \<and> P q then quantized g else pixel d q)"
    using assms(1) by (auto simp: paints_def)
  obtain d2 where d2: "f d1 = Inr d2" "display_ok d2" "same_size d1 d2"
      "\<forall>q. pixel d2 q = (if on_screen d1 q \<and> Q q then quantized g else pixel d1 q)"
    using assms(2) [OF d1(2,3)] by (auto simp: paints_def)
  have "pixel d2 q = (if on_screen d q \<and> (P q \<or> Q q) then quantized g else pixel d q)" for q
    using d1(4) [rule_format, of q] d2(4) [rule_format, of q] on_screen_same [OF d1(3), of q] by auto
  moreover have "same_size d d2" using d1(3) d2(3) by (rule same_size_trans)
  ultimately show ?thesis using d1(1) d2(1,2) by (simp add: paints_def)
qed

lemma paints_cong: "paints g d r P \<Longrightarrow> (\<And>q. P q = Q q) \<Longrightarrow> paints g d r Q"
  by (simp add: paints_def)

lemma paints_foldR:
  assumes "display_ok d" "\<And>x d1. x \<in> set xs \<Longrightarrow> display_ok d1 \<Longrightarrow> same_size d d1 \<Longrightarrow> paints g d1 (f x d1) (P x)"
  shows "paints g d (foldR f xs d) (\<lambda>q. \<exists>x \<in> set xs. P x q)"
  using assms
proof (induction xs arbitrary: d)
  case Nil
  then show ?case by (simp add: paints_nothing)
next
  case (Cons x xs)
  have "paints g d (f x d) (P x)" using Cons.prems by (simp add: same_size_def)
  moreover have "paints g d1 (foldR f xs d1) (\<lambda>q. \<exists>x \<in> set xs. P x q)" if "display_ok d1" "same_size d d1" for d1
    using Cons.IH [OF that(1)] Cons.prems(2) same_size_trans [OF that(2)] by simp
  ultimately have "paints g d (foldR f (x # xs) d) (\<lambda>q. P x q \<or> (\<exists>x \<in> set xs. P x q))"
    by (simp add: paints_bind)
  then show ?case by (rule paints_cong) simp
qed

section \<open>Letters\<close>

text \<open>Whether the pixel in column i and row j of the glyph of c has ink.\<close>

definition ink :: "8 word list \<Rightarrow> char \<Rightarrow> nat \<Rightarrow> nat \<Rightarrow> bool" where
  "ink font c i j =
     (let b = font ! (of_char c * BYTES_PER_GLYPH + j * BYTES_PER_ROW + i div 2)
      in 0 < (if even i then drop_bit 4 b AND 0x0F else b AND 0x0F))"

definition in_box :: "nat \<Rightarrow> nat \<Rightarrow> nat \<Rightarrow> nat \<Rightarrow> nat \<times> nat \<Rightarrow> bool" where
  "in_box x y w h q = (x \<le> fst q \<and> fst q < x + w \<and> y \<le> snd q \<and> snd q < y + h)"

lemma byte_paints:
  assumes "display_ok d" "of_char c * BYTES_PER_GLYPH + j * BYTES_PER_ROW + k < length font" "x + 12 < 2 ^ 32" "k < BYTES_PER_ROW"
  shows "paints 0 d (render_byte font x y (of_char c * BYTES_PER_GLYPH + j * BYTES_PER_ROW) k d)
    (\<lambda>q. in_box (x + k * 2) y 2 1 q \<and> ink font c (fst q - x) j)"
proof -
  let ?b = "font ! (of_char c * BYTES_PER_GLYPH + j * BYTES_PER_ROW + k)"
  let ?L = "0 < drop_bit 4 ?b AND 0x0F" and ?R = "0 < ?b AND 0x0F"
  have u: "u32 (x + k * 2) = x + k * 2" "u32 (x + k * 2 + 1) = x + k * 2 + 1"
    using assms(3,4) by (simp_all add: u32_def BYTES_PER_ROW_def)
  have "paints 0 d (if ?L then set_pixel (x + k * 2) y 0 d else Inr d) (\<lambda>q. ?L \<and> q = (x + k * 2, y))"
    using paints_pixel [OF assms(1)] paints_nothing [OF assms(1)] by simp
  from paints_bind [OF this, of "\<lambda>d1. if ?R then set_pixel (x + k * 2 + 1) y 0 d1 else Inr d1" "\<lambda>q. ?R \<and> q = (x + k * 2 + 1, y)"]
  have "paints 0 d (bindR (if ?L then set_pixel (x + k * 2) y 0 d else Inr d) (\<lambda>d1. if ?R then set_pixel (x + k * 2 + 1) y 0 d1 else Inr d1))
      (\<lambda>q. ?L \<and> q = (x + k * 2, y) \<or> ?R \<and> q = (x + k * 2 + 1, y))"
    using paints_pixel paints_nothing by simp
  then have "paints 0 d (render_byte font x y (of_char c * BYTES_PER_GLYPH + j * BYTES_PER_ROW) k d)
      (\<lambda>q. ?L \<and> q = (x + k * 2, y) \<or> ?R \<and> q = (x + k * 2 + 1, y))"
    unfolding render_byte_def Let_def u using assms(2) by simp
  then show ?thesis
  proof (rule paints_cong)
    fix q :: "nat \<times> nat"
    have box: "in_box (x + k * 2) y 2 1 q = (q = (x + k * 2, y) \<or> q = (x + k * 2 + 1, y))"
      by (cases q) (simp add: in_box_def, arith)
    show "(?L \<and> q = (x + k * 2, y) \<or> ?R \<and> q = (x + k * 2 + 1, y)) = (in_box (x + k * 2) y 2 1 q \<and> ink font c (fst q - x) j)"
      unfolding box by (auto simp: ink_def Let_def)
  qed
qed

lemma row_paints:
  assumes "display_ok d" "of_char c * BYTES_PER_GLYPH + j * BYTES_PER_ROW + BYTES_PER_ROW \<le> length font" "x + 12 < 2 ^ 32"
  shows "paints 0 d (render_glyph_row font x y (of_char c * BYTES_PER_GLYPH + j * BYTES_PER_ROW) d)
    (\<lambda>q. in_box x y FONT_GLYPH_WIDTH 1 q \<and> ink font c (fst q - x) j)"
proof -
  have "paints 0 d (render_glyph_row font x y (of_char c * BYTES_PER_GLYPH + j * BYTES_PER_ROW) d)
      (\<lambda>q. \<exists>k \<in> set [0..<BYTES_PER_ROW]. in_box (x + k * 2) y 2 1 q \<and> ink font c (fst q - x) j)"
    unfolding render_glyph_row_def by (rule paints_foldR [OF assms(1)], rule byte_paints) (use assms(2,3) in auto)
  then show ?thesis
  proof (rule paints_cong)
    fix q :: "nat \<times> nat"
    have "in_box x y FONT_GLYPH_WIDTH 1 q \<Longrightarrow> in_box (x + (fst q - x) div 2 * 2) y 2 1 q \<and> (fst q - x) div 2 < BYTES_PER_ROW"
      by (simp add: in_box_def font_defs) arith
    then show "(\<exists>k \<in> set [0..<BYTES_PER_ROW]. in_box (x + k * 2) y 2 1 q \<and> ink font c (fst q - x) j) =
        (in_box x y FONT_GLYPH_WIDTH 1 q \<and> ink font c (fst q - x) j)"
      by (auto simp: in_box_def font_defs)
  qed
qed

lemma char_paints:
  assumes "display_ok d" "length font = 256 * BYTES_PER_GLYPH" "x + 12 < 2 ^ 32" "y + FONT_GLYPH_HEIGHT < 2 ^ 32"
  shows "paints 0 d (draw_char font x y c d)
    (\<lambda>q. in_box x y FONT_GLYPH_WIDTH FONT_GLYPH_HEIGHT q \<and> ink font c (fst q - x) (snd q - y))"
proof -
  have small: "of_char c * BYTES_PER_GLYPH + j * BYTES_PER_ROW + BYTES_PER_ROW \<le> length font" if "j < FONT_GLYPH_HEIGHT" for j
  proof -
    define n :: nat where "n = of_char c"
    have "n < 256" by (simp add: n_def)
    then show ?thesis unfolding n_def [symmetric] using that assms(2) by (simp add: font_defs)
  qed
  have "paints 0 d (draw_char font x y c d)
      (\<lambda>q. \<exists>j \<in> set [0..<FONT_GLYPH_HEIGHT]. in_box x (u32 (y + j)) FONT_GLYPH_WIDTH 1 q \<and> ink font c (fst q - x) j)"
    unfolding draw_char_def by (rule paints_foldR [OF assms(1)], rule row_paints) (use small assms(3) in auto)
  then show ?thesis
  proof (rule paints_cong)
    fix q :: "nat \<times> nat"
    have u: "j < FONT_GLYPH_HEIGHT \<Longrightarrow> u32 (y + j) = y + j" for j using assms(4) by (simp add: u32_def)
    have "in_box x y FONT_GLYPH_WIDTH FONT_GLYPH_HEIGHT q \<Longrightarrow>
        in_box x (u32 (y + (snd q - y))) FONT_GLYPH_WIDTH 1 q \<and> snd q - y < FONT_GLYPH_HEIGHT"
      using u [of "snd q - y"] by (auto simp: in_box_def)
    moreover have "j < FONT_GLYPH_HEIGHT \<Longrightarrow> in_box x (u32 (y + j)) FONT_GLYPH_WIDTH 1 q \<Longrightarrow>
        in_box x y FONT_GLYPH_WIDTH FONT_GLYPH_HEIGHT q \<and> snd q - y = j" for j
      using u [of j] by (auto simp: in_box_def)
    ultimately show "(\<exists>j \<in> set [0..<FONT_GLYPH_HEIGHT]. in_box x (u32 (y + j)) FONT_GLYPH_WIDTH 1 q \<and> ink font c (fst q - x) j) =
        (in_box x y FONT_GLYPH_WIDTH FONT_GLYPH_HEIGHT q \<and> ink font c (fst q - x) (snd q - y))"
      by (metis atLeastLessThan_iff le0 set_upt)
  qed
qed

section \<open>Texts\<close>

text \<open>The pixels of a text: of the letter in whose box a pixel lies.\<close>

definition text_ink :: "8 word list \<Rightarrow> string \<Rightarrow> nat \<Rightarrow> nat \<Rightarrow> nat \<times> nat \<Rightarrow> bool" where
  "text_ink font str x y q = (in_box x y (FONT_GLYPH_WIDTH * length str) FONT_GLYPH_HEIGHT q \<and>
     ink font (str ! ((fst q - x) div FONT_GLYPH_WIDTH)) ((fst q - x) mod FONT_GLYPH_WIDTH) (snd q - y))"

lemma text_ink_Cons:
  "text_ink font (c # cs) x y q =
     (in_box x y FONT_GLYPH_WIDTH FONT_GLYPH_HEIGHT q \<and> ink font c (fst q - x) (snd q - y) \<or>
      text_ink font cs (x + FONT_GLYPH_WIDTH) y q)"
proof (cases "fst q < x + FONT_GLYPH_WIDTH")
  case True
  then show ?thesis by (auto simp: text_ink_def in_box_def font_defs)
next
  case False
  define i where "i = fst q - (x + FONT_GLYPH_WIDTH)"
  have q: "fst q = x + FONT_GLYPH_WIDTH + i" using False by (simp add: i_def)
  have "(FONT_GLYPH_WIDTH + i) div FONT_GLYPH_WIDTH = Suc (i div FONT_GLYPH_WIDTH)"
      "(FONT_GLYPH_WIDTH + i) mod FONT_GLYPH_WIDTH = i mod FONT_GLYPH_WIDTH"
    by (simp_all add: font_defs)
  then show ?thesis by (simp add: text_ink_def in_box_def q)
qed

lemma string_paints:
  assumes "length font = 256 * BYTES_PER_GLYPH" "y + FONT_GLYPH_HEIGHT < 2 ^ 32"
  shows "display_ok d \<Longrightarrow> x + FONT_GLYPH_WIDTH * length str < 2 ^ 32 \<Longrightarrow>
    paints 0 d (draw_string font x y str d) (text_ink font str x y)"
proof (induction str arbitrary: x d)
  case Nil
  then show ?case using paints_nothing by (simp add: text_ink_def in_box_def cong: conj_cong)
next
  case (Cons c cs)
  have x: "x + 12 < 2 ^ 32" "u32 (x + FONT_GLYPH_WIDTH) = x + FONT_GLYPH_WIDTH"
      "x + FONT_GLYPH_WIDTH + FONT_GLYPH_WIDTH * length cs < 2 ^ 32"
    using Cons.prems(2) by (simp_all add: u32_def font_defs)
  have "paints 0 d (draw_string font x y (c # cs) d)
      (\<lambda>q. in_box x y FONT_GLYPH_WIDTH FONT_GLYPH_HEIGHT q \<and> ink font c (fst q - x) (snd q - y) \<or>
        text_ink font cs (x + FONT_GLYPH_WIDTH) y q)"
    unfolding draw_string.simps x(2)
    by (rule paints_bind [OF char_paints [OF Cons.prems(1) assms(1) x(1) assms(2)] Cons.IH [OF _ x(3)]])
  then show ?case by (rule paints_cong) (simp add: text_ink_Cons)
qed

section \<open>Messages\<close>

lemma quantized_ends: "quantized 0 = 0" "quantized 0xFF = 0xFF"
  by (simp_all add: quantized_def to_nibble_def of_nibble_def)

lemma bar_text_pixels:
  assumes "bar_fits font d" "30 + FONT_GLYPH_WIDTH * length m < 2 ^ 32"
  shows "\<exists>d'. draw_bar_text font m d = Inr d' \<and> display_ok d' \<and> same_size d d' \<and>
    (\<forall>q. pixel d' q = (if on_screen d q \<and> bar_y d \<le> snd q
        then (if text_ink font m 30 (bar_y d + 1) q then 0 else 0xFF) else pixel d q))"
proof -
  have fit: "display_ok d" "length font = 256 * BYTES_PER_GLYPH" "bar_y d + 1 + FONT_GLYPH_HEIGHT < 2 ^ 32"
    using assms(1) bar_y_le [of d] by (auto simp: bar_fits_def STATUS_BAR_HEIGHT_def font_defs)
  have low: "d_height d \<le> bar_y d + STATUS_BAR_HEIGHT" by (simp add: bar_y_def)
  have "paints 0xFF d (foldR (\<lambda>(x, y). set_pixel x y 0xFF) (bar_pixels d) d) (\<lambda>q. \<exists>p \<in> set (bar_pixels d). q = p)"
    using paints_pixel by (intro paints_foldR [OF fit(1)]) auto
  then obtain d1 where d1: "foldR (\<lambda>(x, y). set_pixel x y 0xFF) (bar_pixels d) d = Inr d1" "display_ok d1" "same_size d d1"
      "\<forall>q. pixel d1 q = (if on_screen d q \<and> q \<in> set (bar_pixels d) then 0xFF else pixel d q)"
    by (auto simp: paints_def quantized_ends)
  have y: "bar_y d1 = bar_y d" using same_size_bar [OF d1(3)] by simp
  obtain d2 where d2: "draw_string font 30 (bar_y d + 1) m d1 = Inr d2" "display_ok d2" "same_size d1 d2"
      "\<forall>q. pixel d2 q = (if on_screen d1 q \<and> text_ink font m 30 (bar_y d + 1) q then 0 else pixel d1 q)"
    using string_paints [OF fit(2,3) d1(2) assms(2)] by (auto simp: paints_def quantized_ends)
  have rows: "on_screen d q \<Longrightarrow> (q \<in> set (bar_pixels d)) = (bar_y d \<le> snd q)" for q
    using bar_pixels_rows [of "fst q" "snd q" d] low by (auto simp: on_screen_def)
  have inked: "text_ink font m 30 (bar_y d + 1) q \<Longrightarrow> bar_y d \<le> snd q" for q
    by (simp add: text_ink_def in_box_def)
  have "pixel d2 q = (if on_screen d q \<and> bar_y d \<le> snd q
      then (if text_ink font m 30 (bar_y d + 1) q then 0 else 0xFF) else pixel d q)" for q
    using d1(4) [rule_format, of q] d2(4) [rule_format, of q] rows [of q] inked [of q] on_screen_same [OF d1(3), of q] by auto
  moreover have "same_size d d2" using d1(3) d2(3) by (rule same_size_trans)
  ultimately show ?thesis using d1(1) d2(1,2) by (auto simp: draw_bar_text_def y)
qed

lemma default_font_length: "length default_font = 256 * BYTES_PER_GLYPH"
  by (simp add: length_default_font font_defs)

section \<open>Properties\<close>

text \<open>C27: A message can be read: on a screen that holds its pixels and the bar (bar\_fits), whatever is on it
  and whether the bar is up or not, after show\_status the rows of the bar show, with the glyphs of the
  repository's font, exactly the letters of the message side by side, black on white, one pixel below
  the top of the bar and from column 30 on, cut at the edge of the screen; the rows above are as they
  were. The bar has the full width of the screen and its text starts at the left, as the code draws
  it; ui.md (section 2.1) and status\_bar.hpp describe a bar sized to its text in the lower right
  corner.\<close>
theorem message_legible:
  assumes "bar_fits default_font d" and "30 + FONT_GLYPH_WIDTH * length m < 2 ^ 32"
  shows "\<exists>d' sb'. show_status default_font m d sb = Inr (d', sb', bar_update d) \<and> sb_active sb' \<and>
    (\<forall>x y. get_pixel d' x y = (if x < d_width d \<and> y < d_height d \<and> bar_y d \<le> y
       then Inr (if text_ink default_font m 30 (bar_y d + 1) (x, y) then 0 else 0xFF) else get_pixel d x y))"
proof -
  obtain d' where d': "draw_bar_text default_font m d = Inr d'" "display_ok d'" "same_size d d'"
      "\<forall>q. pixel d' q = (if on_screen d q \<and> bar_y d \<le> snd q
        then (if text_ink default_font m 30 (bar_y d + 1) q then 0 else 0xFF) else pixel d q)"
    using bar_text_pixels [OF assms] by blast
  have ok: "display_ok d" using assms(1) by (simp add: bar_fits_def)
  obtain sb' where "(if \<not> sb_active sb then capture_background d sb else Inr sb) = Inr sb'" "sb_active sb'"
    using read_pixels_all [OF ok] by (cases "sb_active sb") (auto simp: capture_background_def)
  moreover have "bar_update d' = bar_update d"
    using d'(3) same_size_bar [OF d'(3)] by (simp add: bar_update_def update_region_def same_size_def)
  moreover have "get_pixel d' x y = (if x < d_width d \<and> y < d_height d \<and> bar_y d \<le> y
       then Inr (if text_ink default_font m 30 (bar_y d + 1) (x, y) then 0 else 0xFF) else get_pixel d x y)" for x y
    using d'(4) [rule_format, of "(x, y)"] get_pixel_pixel [OF d'(2)] get_pixel_pixel [OF ok] by (auto simp: on_screen_def)
  ultimately show ?thesis using d'(1) by (intro exI [of _ d'] exI [of _ sb']) (simp add: show_status_def)
qed

definition strip_display :: kindle_display where
  "strip_display = \<lparr>d_width = 60, d_height = 30, d_memory = replicate 900 0x77, d_fd = -1\<rparr>"

theorem message_legible_witness:
  "\<exists>d' sb'. show_status default_font ''I'' strip_display \<lparr>sb_active = False, saved_pixels = []\<rparr> = Inr (d', sb', []) \<and>
    get_pixel d' 30 9 = Inr 0xFF \<and> get_pixel d' 31 9 = Inr 0 \<and> get_pixel d' 31 5 = get_pixel strip_display 31 5"
proof -
  have fits: "bar_fits default_font strip_display"
    by (simp add: bar_fits_def display_ok_def strip_display_def stride_def u32_def STATUS_BAR_HEIGHT_def default_font_length)
  have y: "bar_y strip_display = 6" "d_width strip_display = 60" "d_height strip_display = 30" "bar_update strip_display = []"
    by (simp_all add: bar_y_def strip_display_def STATUS_BAR_HEIGHT_def bar_update_def update_region_def)
  have "default_font ! (6 * (73 * 22 + 2) + 0) = 0x0F"
    by (subst default_font_byte) (simp_all only: letter_I_row, simp_all add: row_of_def)
  then have "\<not> ink default_font CHR ''I'' 0 2" "ink default_font CHR ''I'' 1 2"
    by (simp_all add: ink_def font_defs)
  then have "\<not> text_ink default_font ''I'' 30 7 (30, 9)" "text_ink default_font ''I'' 30 7 (31, 9)"
    by (simp_all add: text_ink_def in_box_def FONT_GLYPH_WIDTH_def FONT_GLYPH_HEIGHT_def)
  then show ?thesis
    using message_legible [OF fits, of "''I''" "\<lparr>sb_active = False, saved_pixels = []\<rparr>"]
    by (auto simp: y FONT_GLYPH_WIDTH_def)
qed

end
