(* ===== verification/Compare.thy ===== *)
theory Compare
  imports HotKeyRun AppRun
begin

text \<open>
  The two programs side by side: the same entry of a configuration file, the same keys of the user,
  from the first key to what is done. HotKeyRun has the run of the C program, AppRun that of the
  rewrite.
\<close>

section \<open>A shell command in both programs\<close>

text \<open>The C program's row for an entry with an exclamation mark, and what executing it does.\<close>

lemma shell_row_runs:
  assumes "parse_action_command c (CHR ''!'' # cmd) = Inr (act_type row, command row)"
    and "device_ok d" and "screen_ok s" and "length (title row) < MAXPATH"
  shows "\<exists>es. execute_action d c' f (Some s) (Row row) = Inr (s, es, 0) \<and> keys_sent es = [] \<and> commands_run es = [cmd]"
proof -
  have "act_type row = ACTION_SHELL_COMMAND" "command row = cmd"
    using assms(1) by (auto simp: parse_action_command_def Let_def res_simps char_at_def
        ACTION_SHELL_COMMAND_def ACTION_KINDLE_SCRIPT_def split: if_splits)
  then have "command_outcome d c' f row = Inr ([Shell cmd], 0)"
    by (simp add: command_outcome_def ACTION_SHELL_COMMAND_def ACTION_KINDLE_SCRIPT_def ACTION_KINDLE_KEYS_def)
  from row_executed [OF assms(2-4) this] show ?thesis
    by (auto simp: keys_sent_def commands_run_def List.map_filter_def)
qed

text \<open>And the calls of the rewrite's executor.\<close>

lemma shell_entry_runs:
  assumes "cmd \<noteq> []" "NUL \<notin> set cmd"
  shows "device_effects (execute sv (parse_command (CHR ''!'' # cmd) nm dir)) = [Shell cmd]"
proof -
  have "cstr cmd = cmd" using assms(2) by (auto simp: cstr_def takeWhile_eq_all_conv)
  then show ?thesis
    using assms(1) by (simp add: execute_def parse_command_def execute_shell_def run_shell_def notify_def)
qed

lemma seq_code_sint: "seq_code (sint w) = get_substitute_code w"
  by (simp add: seq_code_def flip: substitute_agrees)

section \<open>Properties\<close>

text \<open>C4: The two programs do the same for a hotkey that runs a shell command: when the same entry binds the
  keys in both, and the user taps the introducer, the keys and the trailer (each program's own, at a
  pace the timer of the rewrite allows), both run the command once, type no key, and are then
  as before: the devices released, the screen with every pixel it had.\<close>
theorem shell_hotkeys_agree:
  assumes "cmd \<noteq> []" and "NUL \<notin> set cmd" and "val = CHR ''!'' # cmd" and "ws \<noteq> []" and "length ws \<le> MAXSEQ"
    and "idle st" and "screen st = Some s" and "screen_ok s" and "device_ok (e_dev env)" and "round_ok env (map sint ws)"
    and "find_sequence_action (e_config env) (map get_substitute_code ws) = Some (Row row)"
    and "parse_action_command c val = Inr (act_type row, command row)" and "length (title row) < MAXPATH"
    and "bar_fits font display" and "\<not> shutdown_requested fl" and "\<not> reload_requested fl"
    and "g = open_devices op paths" and "a = new_app dir g display" and "in_pace (a_interval a) g p q rs"
    and "find (entry_binds new_key_table (map get_substitute_code ws))
      (scan_actions (scan_directory (dir_files dir) (dir_entries dir) (dir_path dir))) = Some e" and "entry_value e = val"
    and "map get_substitute_code ws \<noteq> screenshot_sequence" and "m_trailer (a_config a) \<notin> set ws"
    and "inputs (round_events rs g) = tap_key (m_introducer (a_config a)) @ concat (map tap_key ws) @
      [Key_event (m_trailer (a_config a)) Pressed]"
  shows "\<exists>t a'. main_loop env (hotkey_round env (map sint ws)) st = Inr t \<and>
    app_run font (app_services runner ki) (map Round rs) (fl, a) = Inr (fl, a') \<and>
    commands_run (trace t) = commands_run (trace st) @ [cmd] \<and> commands_run (sh_effects (a_shown a')) = [cmd] \<and>
    keys_sent (trace t) = keys_sent (trace st) \<and> keys_sent (sh_effects (a_shown a')) = [] \<and>
    idle t \<and> (\<forall>fd. \<not> grabbed (ev_ioctls (a_input a')) fd) \<and>
    screen t = screen st \<and> (\<forall>x y. get_pixel (sh_display (a_shown a')) x y = get_pixel display x y)"
proof -
  have codes: "map seq_code (map sint ws) = map get_substitute_code ws" by (simp add: seq_code_sint)
  obtain es where es: "execute_action (e_dev env) (e_config env) (e_fds env) (screen st) (Row row) = Inr (s, es, 0)"
      "keys_sent es = []" "commands_run es = [cmd]"
    using shell_row_runs [OF assms(12) [unfolded assms(3)] assms(9,8,13)] assms(7) by metis
  have keys: "map sint ws \<noteq> []" "length (map sint ws) \<le> MAXSEQ" using assms(4,5) by simp_all
  from round_runs_action [OF assms(6,10) keys assms(11) [folded codes] es(1)]
  obtain t where t: "main_loop env (hotkey_round env (map sint ws)) st = Inr t" "idle t" "screen t = Some s" "trace t = trace st @ es"
    by blast
  obtain a' where a': "app_run font (app_services runner ki) (map Round rs) (fl, a) = Inr (fl, a')"
      "sh_effects (a_shown a') = [Shell cmd]" "\<forall>fd. \<not> grabbed (ev_ioctls (a_input a')) fd"
      "\<forall>x y. get_pixel (sh_display (a_shown a')) x y = get_pixel display x y"
    using rounds_run_hotkey [OF assms(14-19) refl assms(20,22) refl assms(23,24), of runner ki] shell_entry_runs [OF assms(1,2)]
    unfolding assms(3,21) by metis
  have "commands_run [Shell cmd] = [cmd]" "keys_sent [Shell cmd] = []"
    by (simp_all add: commands_run_def keys_sent_def List.map_filter_def)
  with t a' es(2,3) assms(7) show ?thesis by (intro exI [of _ t] exI [of _ a']) simp
qed

theorem shell_hotkeys_agree_witness:
  "\<exists>t a'. main_loop sample_env (hotkey_round sample_env [KPKEY_A]) start_state = Inr t \<and>
    app_run sample_font sample_services_app [Round sample_hotkey_round] (no_signal, sample_app) = Inr (no_signal, a') \<and>
    commands_run (trace t) = [''ls''] \<and> commands_run (sh_effects (a_shown a')) = [''ls'']"
proof -
  have codes: "sint KPKEY_A_c = KPKEY_A" "get_substitute_code KPKEY_A_c = KPKEY_A_c" "[KPKEY_A_c] \<noteq> screenshot_sequence"
      "KPKEY_ENTER_c \<notin> set [KPKEY_A_c]"
    by (simp add: header_codes_agree) (simp_all add: screenshot_sequence_def get_substitute_code_def raw_codes)
  have found: "find_sequence_action (e_config sample_env) (map get_substitute_code [KPKEY_A_c]) = Some (Row letter_action)"
    using sample_found(1) seq_code_sint [of KPKEY_A_c] by (simp add: codes(1))
  have parsed: "parse_action_command initial_config ''!ls'' = Inr (act_type letter_action, command letter_action)"
      "length (title letter_action) < MAXPATH"
    by (simp_all add: parse_action_command_def char_at_def letter_action_def shell_action_def title_def MAXPATH_def
        ACTION_SHELL_COMMAND_def ACTION_KINDLE_SCRIPT_def)
  have bound: "find (entry_binds new_key_table (map get_substitute_code [KPKEY_A_c]))
      (scan_actions (scan_directory (dir_files sample_directory) (dir_entries sample_directory) (dir_path sample_directory))) =
      Some \<lparr>entry_key = ''A'', entry_value = ''!ls''\<rparr>"
    using sample_binds by (simp add: sample_scan codes(2))
  have round: "round_ok sample_env (map sint [KPKEY_A_c])" "device_ok (e_dev sample_env)" "screen_ok tiny_screen" "screen start_state = Some tiny_screen"
    using sample_round(1) sample_ok by (simp_all add: codes(1) sample_env_def start_idle)
  have "commands_run [] = []" "length [KPKEY_A_c] \<le> MAXSEQ"
    by (simp_all add: commands_run_def List.map_filter_def MAXSEQ_def)
  moreover have "m_trailer (a_config sample_app) \<notin> set [KPKEY_A_c]" "\<not> shutdown_requested no_signal" "\<not> reload_requested no_signal"
    using codes(4) by (simp_all add: sample_app_config)
  moreover have "inputs (round_events [sample_hotkey_round] sample_input) = tap_key (m_introducer (a_config sample_app)) @
      concat (map tap_key [KPKEY_A_c]) @ [Key_event (m_trailer (a_config sample_app)) Pressed]"
    using sample_rounds by (simp add: sample_app_config)
  ultimately show ?thesis
    using shell_hotkeys_agree [OF _ _ refl _ _ start_idle(1) round(4,3,2,1) found parsed small_fits _ _ refl sample_app_def sample_pace(1) bound,
        of no_signal "\<lambda>cmd. 0" "\<lparr>keypad_fd = 3, fiveway_fd = 4\<rparr>"] codes(1-3)
    by (simp add: start_idle(4)) blast
qed

end
