(* ===== verification/BarText.thy ===== *)
theory BarText
  imports ScreenProps Lettering
begin

text \<open>
  What the C program writes on its status bar (statusbar\_text of src/statusbar.c with the built-in
  font), byte by byte, and that the letters are those the rewrite draws.
\<close>

section \<open>Bytes by row and column\<close>

definition byte_at :: "pixmap \<Rightarrow> int \<Rightarrow> int \<Rightarrow> 8 word" where
  "byte_at p y b = surf p ! nat (y * row_bytes (width p) + b)"

lemma index_bound:
  fixes y b S H L :: int
  assumes "0 \<le> y" "y < H" "0 \<le> b" "b < S" "S * H \<le> L"
  shows "0 \<le> y * S + b" "y * S + b < L"
proof -
  have "(y + 1) * S \<le> H * S" using assms by (intro mult_right_mono) auto
  then show "y * S + b < L" using assms by (simp add: algebra_simps)
  show "0 \<le> y * S + b" using assms by simp
qed

lemma byte_index:
  "pixmap_ok p \<Longrightarrow> 0 \<le> y \<Longrightarrow> y < height p \<Longrightarrow> 0 \<le> b \<Longrightarrow> b < row_bytes (width p) \<Longrightarrow>
   nat (y * row_bytes (width p) + b) < length (surf p)"
  using index_bound [of y "height p" b "row_bytes (width p)" "int (length (surf p))"] pixmap_okD(6) [of p]
  by (simp only: nat_less_iff)

lemma rows_written_at:
  assumes "rows_written k (y0 * S + x) S n f m m'" "0 \<le> x" "x + n \<le> S" "0 \<le> b" "b < S" "0 \<le> y" "nat (y * S + b) < length m"
  shows "m' ! nat (y * S + b) =
    (if y0 \<le> y \<and> y < y0 + int k \<and> x \<le> b \<and> b < x + n then f (nat (y - y0)) (b - x) else m ! nat (y * S + b))"
proof -
  let ?i = "nat (y * S + b)"
  have i: "int ?i = y * S + b" using assms by simp
  show ?thesis
  proof (cases "y0 \<le> y \<and> y < y0 + int k \<and> x \<le> b \<and> b < x + n")
    case True
    define j where "j = nat (y - y0)"
    have j: "int j = y - y0" "j < k" using True by (auto simp: j_def)
    have row: "y0 * S + x + int j * S = y * S + x" "y * S + b - (y0 * S + x) - int j * S = b - x"
      unfolding j(1) by (simp_all add: algebra_simps)
    have "y0 * S + x + int j * S \<le> int ?i \<and> int ?i < y0 * S + x + int j * S + n"
      using True unfolding row i by simp
    then have "m' ! ?i = f j (int ?i - (y0 * S + x) - int j * S)"
      using assms(1,7) j(2) unfolding rows_written_def by blast
    then have "m' ! ?i = f j (b - x)" unfolding i row .
    then show ?thesis using True by (simp add: j_def)
  next
    case False
    have "int ?i < y0 * S + x + int j * S \<or> y0 * S + x + int j * S + n \<le> int ?i" if j: "j < k" for j
    proof (rule linorder_cases [of y "y0 + int j"])
      assume "y < y0 + int j"
      then have "(y + 1) * S \<le> (y0 + int j) * S" using assms(4,5) by (intro mult_right_mono) auto
      then show ?thesis using assms(2,5) unfolding i by (simp add: algebra_simps)
    next
      assume "y = y0 + int j"
      then show ?thesis using False j unfolding i by (auto simp: algebra_simps)
    next
      assume "y0 + int j < y"
      then have "(y0 + int j + 1) * S \<le> y * S" using assms(4,5) by (intro mult_right_mono) auto
      then show ?thesis using assms(3,4) unfolding i by (simp add: algebra_simps)
    qed
    then have "m' ! ?i = m ! ?i" using assms(1,7) by (simp add: rows_written_def)
    then show ?thesis using False by (simp only: if_False)
  qed
qed

text \<open>A copy at an even column, on rows the destination has.\<close>

lemma pix_blt_bytes:
  assumes ok: "pixmap_ok dst" "pixmap_ok src" and at: "0 \<le> c" "c < 2 ^ 28" "0 \<le> by" "by + height src \<le> height dst"
    and b: "0 \<le> y" "y < height dst" "0 \<le> b" "b < row_bytes (width dst)" and blt: "pix_blt dst (2 * c) by src = Inr (dst', n)"
  shows "byte_at dst' y b = (if by \<le> y \<and> y < by + height src \<and> c \<le> b \<and> b < c + row_bytes (width src)
      then byte_at src (y - by) (b - c) else byte_at dst y b)"
proof -
  define S where "S = row_bytes (width dst)"
  define S' where "S' = row_bytes (width src)"
  define nb where "nb = min S' (S - c)"
  note dims = pixmap_okD [OF ok(1)] and dims' = pixmap_okD [OF ok(2)]
  have L: "height dst * S \<le> int (length (surf dst))" "height src * S' \<le> int (length (surf src))"
    using dims(6) dims'(6) by (simp_all add: S_def S'_def mult.commute)
  have S': "0 \<le> S'" using dims'(1) by (simp add: S'_def row_bytes_nonneg)
  have ints: "in_int (2 * c)" "in_int by" "in_int (- by)" "in_int (by + height src)"
    using at dims(4) dims'(3) by (auto simp: in_int_def)
  have ht: "int (nat (height src)) = height src" using dims'(3) by simp
  have clip: "(2 * c) div 2 = c" "min c 0 = 0" "max 0 c = c" "max 0 (- c) = 0" "min by 0 = 0" "max 0 by = by"
      "max 0 (- by) = 0" "min (height src) (height dst - by) = height src"
    using at by simp_all
  have body: "pix_blt dst (2 * c) by src = (if nb \<le> 0 \<or> height src \<le> 0 then Inr (dst, 0)
      else mapR (\<lambda>m. (dst\<lparr>surf := m\<rparr>, height src * nb * 2))
        (copy_rows (nat (height src)) (surf dst) (by * S + c) S (surf src) (0 * S' + 0) S' nb))"
    using pix_blt_clipped [OF ok ints(1,2)] ints(3,4) by (simp add: clip S_def S'_def nb_def)
  show ?thesis
  proof (cases "nb \<le> 0 \<or> height src \<le> 0")
    case True
    then have "dst' = dst" using blt unfolding body by simp
    moreover have "\<not> (by \<le> y \<and> y < by + height src \<and> c \<le> b \<and> b < c + S')"
      using True b(4) S' by (auto simp: nb_def S_def)
    ultimately show ?thesis unfolding S'_def [symmetric] by (simp only: if_False)
  next
    case False
    have n: "0 \<le> nb" "c + nb \<le> S" "0 + nb \<le> S'" using False by (auto simp: nb_def)
    obtain m' where m': "copy_rows (nat (height src)) (surf dst) (by * S + c) S (surf src) (0 * S' + 0) S' nb = Inr m'"
        "rows_written (nat (height src)) (by * S + c) S nb (\<lambda>j b. surf src ! nat (0 * S' + 0 + int j * S' + b)) (surf dst) m'"
      using copy_rows_ok [of "by" c nb S "nat (height src)" "height dst" "surf dst" 0 0 S' "height src" "surf src"] at n L ht by auto
    have dst': "surf dst' = m'" "width dst' = width dst" using blt m'(1) False unfolding body by auto
    moreover have "nat (y * S + b) < length (surf dst)"
      unfolding S_def by (rule byte_index [OF ok(1) b])
    moreover have "(b < c + nb) = (b < c + S')" using b(4) by (auto simp: nb_def S_def)
    ultimately show ?thesis
      using rows_written_at [OF m'(2) at(1) n(2) b(3) _ b(1)] b(4) ht
      by (simp add: byte_at_def S_def [symmetric] S'_def [symmetric])
  qed
qed

text \<open>Clearing the rows of the bar.\<close>

lemma clear_bar_bytes:
  assumes ok: "screen_ok s" and b: "0 \<le> y" "y < height (surface s)" "0 \<le> b" "b < row_bytes (width (surface s))"
    and rect: "screen_rect_at s 0 (bar_top s) (width (surface s)) STATUSBAR_HEIGHT 0 = Inr (t, n)"
  shows "byte_at (surface t) y b = (if bar_top s \<le> y then 0 else byte_at (surface s) y b)"
proof -
  let ?p = "surface s"
  define S where "S = row_bytes (width ?p)"
  have top: "0 \<le> bar_top s" "bar_top s + STATUSBAR_HEIGHT = height ?p" "0 < width ?p" "pixmap_ok ?p"
    using ok by (simp_all add: screen_ok_def bar_top_def STATUSBAR_HEIGHT_def)
  have bar: "0 < STATUSBAR_HEIGHT" "in_int STATUSBAR_HEIGHT" by (simp_all add: STATUSBAR_HEIGHT_def in_int_def)
  note dims = pixmap_okD [OF top(4)]
  have S: "0 \<le> S" "height ?p * S \<le> int (length (surf ?p))" "S * height ?p < 2 ^ 28"
    using dims by (simp_all add: S_def row_bytes_nonneg mult.commute)
  obtain m' where m': "fill_rows (nat STATUSBAR_HEIGHT) (surf ?p) (bar_top s * S + 0) S 0 S = Inr m'"
      "rows_written (nat STATUSBAR_HEIGHT) (bar_top s * S + 0) S S (\<lambda>j b. 0) (surf ?p) m'"
    using fill_rows_ok [of "bar_top s" 0 S S "nat STATUSBAR_HEIGHT" "height ?p" "surf ?p" 0] top(1-3) S bar by auto
  have ints: "in_int (width ?p)" "in_int (height ?p)" using dims by (simp_all add: in_int_def)
  have prods: "in_int (bar_top s * S)" "in_int (STATUSBAR_HEIGHT * S * 2)"
    using product_in_int [of "bar_top s" "height ?p" S S] product_in_int [of STATUSBAR_HEIGHT "height ?p" S S] S top(1,2) bar
    by simp_all
  have clips: "(0 :: int) AND NOT 1 = 0" "clip_low 0 (width ?p) = Inr (0, width ?p)"
      "clip_low (bar_top s) STATUSBAR_HEIGHT = Inr (bar_top s, STATUSBAR_HEIGHT)"
      "clip_high 0 (width ?p) (width ?p) = Inr (width ?p)"
      "clip_high (bar_top s) STATUSBAR_HEIGHT (height ?p) = Inr STATUSBAR_HEIGHT"
      "row_stride (width ?p) = Inr S"
    using top dims ints by (simp_all add: clip_low_def clip_high_def int_sum_def row_stride_eq S_def)
  have "pix_fill ?p 0 (bar_top s) (width ?p) STATUSBAR_HEIGHT 0 = Inr (?p\<lparr>surf := m'\<rparr>, STATUSBAR_HEIGHT * S * 2)"
    using m'(1) top bar prods by (simp add: pix_fill_def clips int_prod_def)
  then have "surface t = ?p\<lparr>surf := m'\<rparr>" using rect by (auto simp: screen_rect_at_def on_surface_def)
  moreover have "nat (y * S + b) < length (surf ?p)"
    unfolding S_def by (rule byte_index [OF top(4) b])
  ultimately show ?thesis
    using rows_written_at [OF m'(2) order_refl _ b(3) _ b(1)] b(2-4) top(2)
    by (simp add: byte_at_def S_def STATUSBAR_HEIGHT_def)
qed

section \<open>The letters of the C program\<close>

abbreviation built_in_font :: font where "built_in_font \<equiv> default_font_table default_font"

lemma built_in_ok: "font_ok built_in_font" "width (font_pixmap built_in_font) = 12" "height (font_pixmap built_in_font) = 22"
  using default_font_ok [of default_font] by (simp_all add: length_default_font default_font_table_def FNTWIDTH_def FNTHEIGHT_def)

text \<open>Byte i of row j of the glyph of c.\<close>

definition glyph_byte :: "char \<Rightarrow> nat \<Rightarrow> nat \<Rightarrow> 8 word" where
  "glyph_byte c i j = default_font ! (of_char c * BYTES_PER_GLYPH + j * BYTES_PER_ROW + i)"

lemma char_pixmap_bytes:
  assumes "0 \<le> j" "j < 22" "0 \<le> i" "i < 6"
  shows "byte_at (get_char_pixmap built_in_font (of_char c)) j i = glyph_byte c (nat i) (nat j)"
    and "row_bytes (width (get_char_pixmap built_in_font (of_char c))) = 6"
proof -
  define k :: nat where "k = of_char c"
  have k: "(of_char c :: int) = int k" "k < 256" by (simp_all add: k_def of_nat_of_char)
  have n: "nbytesperchar built_in_font = 132" by (simp add: default_font_table_def FNTHEIGHT_def FNTWIDTH_def)
  have "int k AND 0xFF = take_bit 8 (int k)" by (simp add: take_bit_eq_mask mask_eq_exp_minus_1)
  then have "int k AND 0xFF = int k" using k(2) by (simp add: take_bit_eq_mod)
  moreover have at: "nat (int k * 132) = k * 132" by (simp add: nat_mult_distrib)
  ultimately have p: "get_char_pixmap built_in_font (of_char c) = \<lparr>width = 12, height = 22, surf = drop (k * 132) default_font\<rparr>"
    using k n at by (simp add: get_char_pixmap_def Let_def) (simp add: default_font_table_def FNTWIDTH_def FNTHEIGHT_def at)
  have rb: "row_bytes 12 = 6" by (simp add: row_bytes_nonneg)
  then show "row_bytes (width (get_char_pixmap built_in_font (of_char c))) = 6" by (simp add: p)
  have "nat (j * 6 + i) = nat j * 6 + nat i" using assms by (simp add: nat_add_distrib nat_mult_distrib)
  moreover have "k * 132 \<le> length default_font" using k(2) by (simp add: length_default_font)
  ultimately show "byte_at (get_char_pixmap built_in_font (of_char c)) j i = glyph_byte c (nat i) (nat j)"
    by (simp add: p byte_at_def rb glyph_byte_def k_def [symmetric] font_defs nth_drop add_ac)
qed

text \<open>A text from byte column c on: the letters of the first n characters.\<close>

definition letters :: "string \<Rightarrow> int \<Rightarrow> int \<Rightarrow> int \<Rightarrow> int \<Rightarrow> 8 word \<Rightarrow> 8 word" where
  "letters cs n c j b old = (if j < 22 \<and> c \<le> b \<and> b < c + 6 * n
     then glyph_byte (cs ! nat ((b - c) div 6)) (nat ((b - c) mod 6)) (nat j) else old)"

lemma letters_Cons:
  assumes "0 < n"
  shows "letters (x # cs) n c j b old = letters cs (n - 1) (c + 6) j b (letters [x] 1 c j b old)"
proof (cases "b < c + 6")
  case True
  have outer: "(j < 22 \<and> c + 6 \<le> b \<and> b < c + 6 + 6 * (n - 1)) = False" using True by auto
  show ?thesis
  proof (cases "j < 22 \<and> c \<le> b")
    case inside: True
    then have "nat ((b - c) div 6) = 0" using True by (simp add: div_pos_pos_trivial)
    moreover have "(j < 22 \<and> c \<le> b \<and> b < c + 6 * n) = True" "(j < 22 \<and> c \<le> b \<and> b < c + 6 * 1) = True"
      using inside True assms by auto
    ultimately show ?thesis by (simp only: letters_def outer nth_Cons_0 if_True if_False)
  next
    case False
    then have "(j < 22 \<and> c \<le> b \<and> b < c + 6 * n) = False" "(j < 22 \<and> c \<le> b \<and> b < c + 6 * 1) = False" by auto
    then show ?thesis by (simp only: letters_def outer if_False)
  qed
next
  case False
  define d where "d = b - (c + 6)"
  have "b - c = d + 6" by (simp add: d_def)
  then have step: "(b - c) div 6 = (b - (c + 6)) div 6 + 1" "(b - c) mod 6 = (b - (c + 6)) mod 6"
    unfolding d_def [symmetric] by simp_all
  have "0 \<le> (b - (c + 6)) div 6" using False by simp
  then have "nat ((b - c) div 6) = Suc (nat ((b - (c + 6)) div 6))" unfolding step by simp
  then have "(x # cs) ! nat ((b - c) div 6) = cs ! nat ((b - (c + 6)) div 6)" by (simp only: nth_Cons_Suc)
  moreover have "(j < 22 \<and> c \<le> b \<and> b < c + 6 * n) = (j < 22 \<and> c + 6 \<le> b \<and> b < c + 6 + 6 * (n - 1))"
      "(j < 22 \<and> c \<le> b \<and> b < c + 6 * 1) = False"
    using False by auto
  ultimately show ?thesis by (simp only: letters_def step(2) if_False)
qed

lemma letters_0: "letters cs 0 c j b old = old"
  unfolding letters_def by (rule if_not_P) simp

lemma blt_letter:
  assumes ok: "screen_ok s" and c: "0 \<le> c" "c < 2 ^ 28" and j: "0 \<le> j" "j < STATUSBAR_HEIGHT" and b: "0 \<le> b" "b < row_bytes (width (surface s))"
    and blt: "on_surface s (\<lambda>p. pix_blt p (2 * c) (bar_top s) (get_char_pixmap built_in_font (of_char x))) = Inr (t, n)"
  shows "byte_at (surface t) (bar_top s + j) b = letters [x] 1 c j b (byte_at (surface s) (bar_top s + j) b)"
proof -
  let ?q = "get_char_pixmap built_in_font (of_char x)"
  have q: "pixmap_ok ?q" "height ?q = 22" using built_in_ok char_height by (simp_all add: font_ok_def)
  have top: "0 \<le> bar_top s" "bar_top s + height ?q \<le> height (surface s)" "0 \<le> bar_top s + j" "bar_top s + j < height (surface s)" "pixmap_ok (surface s)"
    using ok j q(2) by (simp_all add: screen_ok_def bar_top_def STATUSBAR_HEIGHT_def)
  have "pix_blt (surface s) (2 * c) (bar_top s) ?q = Inr (surface t, n)" using blt by (auto simp: on_surface_def res_simps)
  from pix_blt_bytes [OF top(5) q(1) c top(1,2,3,4) b this] show ?thesis
    using char_pixmap_bytes [of j "b - c" x] char_pixmap_bytes(2) [of 0 0 x] j
    by (auto simp: letters_def q(2) div_pos_pos_trivial mod_pos_pos_trivial)
qed

lemma string_loop_bytes:
  "screen_ok s \<Longrightarrow> 0 < n \<Longrightarrow> n < length cs \<Longrightarrow> 0 \<le> c \<Longrightarrow> c + 6 * int n \<le> 2 ^ 28 \<Longrightarrow> 0 \<le> j \<Longrightarrow> j < STATUSBAR_HEIGHT \<Longrightarrow> 0 \<le> b \<Longrightarrow>
   b < row_bytes (width (surface s)) \<Longrightarrow> string_loop built_in_font n s (2 * c) (bar_top s) cs = Inr t \<Longrightarrow>
   byte_at (surface t) (bar_top s + j) b = letters cs (int n) c j b (byte_at (surface s) (bar_top s + j) b)"
proof (induction n arbitrary: s c cs)
  case 0
  then show ?case by simp
next
  case (Suc n)
  then obtain x d ds where cs: "cs = x # d # ds" by (cases cs; cases "tl cs") auto
  have q: "pixmap_ok (get_char_pixmap built_in_font (of_char x))" "height (get_char_pixmap built_in_font (of_char x)) \<le> STATUSBAR_HEIGHT"
    using built_in_ok char_height by (simp_all add: font_ok_def STATUSBAR_HEIGHT_def)
  obtain s1 m where s1: "on_surface s (\<lambda>p. pix_blt p (2 * c) (bar_top s) (get_char_pixmap built_in_font (of_char x))) = Inr (s1, m)"
      "bar_changed s s1"
    using blt_bar [OF Suc.prems(1) q, of "2 * c"] Suc.prems(4,5) by (auto simp: moderate_def)
  have c: "c < 2 ^ 28" using Suc.prems(5) by simp
  note one = blt_letter [OF Suc.prems(1,4) c Suc.prems(6-9) s1(1)]
  have size: "bar_top s1 = bar_top s" "width (surface s1) = width (surface s)" using bar_size [OF s1(2)] by simp_all
  show ?case
  proof (cases n)
    case 0
    then have "t = s1" using Suc.prems(10) s1(1) by (simp add: cs)
    then show ?thesis using one letters_Cons [of 1 x "d # ds" c j b] by (simp add: 0 cs letters_0)
  next
    case (Suc k)
    have "string_loop built_in_font n s1 (2 * (c + 6)) (bar_top s1) (d # ds) = Inr t"
      using Suc.prems(10) s1(1) Suc by (simp add: cs size built_in_ok(2) algebra_simps)
    then have "byte_at (surface t) (bar_top s1 + j) b = letters (d # ds) (int n) (c + 6) j b (byte_at (surface s1) (bar_top s1 + j) b)"
      using Suc.prems Suc by (intro Suc.IH bar_ok [OF s1(2)]) (simp_all add: cs size)
    then show ?thesis using one letters_Cons [of "int (Suc n)" x "d # ds" c j b] by (simp add: cs size)
  qed
qed

lemma statusbar_text_bytes:
  assumes ok: "screen_ok s" and str: "str \<noteq> []" "30 + 12 * int (length str) \<le> width (surface s)"
    and shown: "statusbar_text built_in_font (Some s) str = Inr (t, es)"
    and j: "0 \<le> j" "j < STATUSBAR_HEIGHT" and b: "0 \<le> b" "b < row_bytes (width (surface s))"
  shows "byte_at (surface t) (bar_top s + j) b = letters str (int (length str)) 15 j b 0"
proof -
  obtain s1 n where s1: "screen_rect_at s 0 (bar_top s) (width (surface s)) STATUSBAR_HEIGHT 0 = Inr (s1, n)" "bar_changed s s1"
    using rect_bar [OF ok] by blast
  have size: "bar_top s1 = bar_top s" "width (surface s1) = width (surface s)" "height (surface s1) = height (surface s)"
    using bar_size [OF s1(2)] by simp_all
  have len: "1 \<le> int (length str)" using str(1) by (cases str) simp_all
  have "int (length str) = 10 * int (length str) div 10" by simp
  also have "\<dots> \<le> (width (surface s) - 30) div 10" using str(2) by (intro zdiv_mono1) simp_all
  finally have n: "int (length str) \<le> (width (surface s) - 30) sdiv 10"
    using str(2) len by (simp add: signed_divide_int_def sgn_if)
  obtain u where u: "string_loop built_in_font (length str) s1 30 (bar_top s) (str @ [NUL]) = Inr u" "t = u"
  proof -
    define q where "q = (width (surface s) - 30) sdiv 10"
    have "bar_top s + 22 \<le> height (surface s)" by (simp add: bar_top_def STATUSBAR_HEIGHT_def)
    moreover have "42 \<le> width (surface s)" using len str(2) by simp
    moreover have "(if int (length str) < q then int (length str) else q) = int (length str)" using n by (simp add: q_def)
    ultimately have "screen_string_at built_in_font s1 30 (bar_top s) str =
        mapR (\<lambda>s. (s, int (length str))) (string_loop built_in_font (length str) s1 30 (bar_top s) (str @ [NUL]))"
      by (cases "string_loop built_in_font (length str) s1 30 (bar_top s) (str @ [NUL])")
        (simp_all add: screen_string_at_def Let_def built_in_ok size q_def [symmetric])
    then show thesis using shown s1(1) that by (auto simp: statusbar_text_def with_screen_def res_simps size)
  qed
  have top: "0 \<le> bar_top s + j" "bar_top s + j < height (surface s)" "bar_top s \<le> bar_top s + j"
    using ok j by (simp_all add: screen_ok_def bar_top_def STATUSBAR_HEIGHT_def)
  have zero: "byte_at (surface s1) (bar_top s + j) b = 0"
    using clear_bar_bytes [OF ok top(1,2) b s1(1)] top(3) by simp
  have "pixmap_ok (surface s)" using ok by (simp add: screen_ok_def)
  then have "15 + 6 * int (length str) \<le> 2 ^ 28" using str(2) pixmap_okD(2) [of "surface s"] by simp
  then have "byte_at (surface t) (bar_top s1 + j) b = letters (str @ [NUL]) (int (length str)) 15 j b (byte_at (surface s1) (bar_top s1 + j) b)"
    using string_loop_bytes [OF bar_ok [OF s1(2) ok], of "length str" "str @ [NUL]" 15 j b t] u str(1) j b by (simp add: size)
  moreover have "letters (str @ [NUL]) (int (length str)) 15 j b 0 = letters str (int (length str)) 15 j b 0"
  proof -
    have "15 \<le> b \<Longrightarrow> b < 15 + 6 * int (length str) \<Longrightarrow> nat ((b - 15) div 6) < length str"
      by (simp add: nat_less_iff)
    then show ?thesis by (simp add: letters_def nth_append)
  qed
  ultimately show ?thesis by (simp add: zero size)
qed

section \<open>One screen for both programs\<close>

text \<open>The framebuffer of the C program as the rewrite sees it.\<close>

definition fb_display :: "fbscreen \<Rightarrow> kindle_display" where
  "fb_display s = \<lparr>d_width = nat (width (surface s)), d_height = nat (height (surface s)),
     d_memory = surf (surface s), d_fd = scr_fd s\<rparr>"

lemma fb_pixel:
  assumes "screen_ok s" "display_ok (fb_display s)" "int x < width (surface s)" "int y < height (surface s)"
  shows "get_pixel (fb_display s) x y = Inr (of_nibble (get_nibble (even x) (byte_at (surface s) (int y) (int (x div 2)))))"
proof -
  have on: "on_screen (fb_display s) (x, y)" using assms(3,4) by (simp add: on_screen_def fb_display_def zless_nat_eq_int_zless)
  have w: "0 < width (surface s)" using assms(1) by (simp add: screen_ok_def)
  then have "int (stride (fb_display s)) = row_bytes (width (surface s))"
    using assms(2) by (simp add: display_ok_def stride_def u32_def fb_display_def row_bytes_nonneg zdiv_int)
  then have "nat (int y * row_bytes (width (surface s)) + int (x div 2)) = y * stride (fb_display s) + x div 2"
    by (metis nat_int of_nat_add of_nat_mult)
  then show ?thesis
    using get_pixel_on [OF assms(2) on] index_split(1) [OF assms(2) on] by (simp add: byte_at_def) (simp add: fb_display_def)
qed

lemma upper_nibble: "drop_bit 4 b AND 0x0F = drop_bit 4 b" for b :: "8 word"
proof -
  have "unat (drop_bit 4 b) < 16" using get_nibble_small [of True b] by (simp add: get_nibble_def)
  then have "unat (take_bit 4 (drop_bit 4 b)) = unat (drop_bit 4 b)" by (simp add: take_bit_eq_mod unat_mod_distrib)
  then have "take_bit 4 (drop_bit 4 b) = drop_bit 4 b" by (rule unsigned_word_eqI)
  then show ?thesis by (simp add: low_nibble)
qed

lemma shade_of_nibble: "of_nibble (get_nibble e b) = 0xFF \<longleftrightarrow> get_nibble e b = 0"
proof
  assume "of_nibble (get_nibble e b) = 0xFF"
  then have "to_nibble 0xFF = get_nibble e b" using to_of_nibble [OF get_nibble_small] by metis
  then show "get_nibble e b = 0" by (simp add: to_nibble_def)
qed (simp add: of_nibble_def)

lemma ink_glyph_byte: "ink default_font c i j = (get_nibble (even i) (glyph_byte c (i div 2) j) \<noteq> 0)"
  using upper_nibble by (simp add: ink_def glyph_byte_def get_nibble_def Let_def word_neq_0_conv)

text \<open>The pixels of the text in the C program's bar.\<close>

lemma bar_text_ink:
  assumes ok: "screen_ok s" "display_ok (fb_display s)" and str: "str \<noteq> []" "30 + 12 * int (length str) \<le> width (surface s)"
    and shown: "statusbar_text built_in_font (Some s) str = Inr (t, es)" and uv: "u < 12 * length str" "v < 22"
  shows "get_pixel (fb_display t) (30 + u) (nat (bar_top s) + v) \<noteq> Inr 0xFF \<longleftrightarrow> ink default_font (str ! (u div 12)) (u mod 12) v"
proof -
  obtain t' es' where "statusbar_text built_in_font (Some s) str = Inr (t', es')" "bar_changed s t'"
    using text_bar [OF built_in_ok(1) ok(1) str(1)] by blast
  then have ch: "bar_changed s t" using shown by simp
  have t: "screen_ok t" "width (surface t) = width (surface s)" "height (surface t) = height (surface s)"
    using bar_ok [OF ch ok(1)] bar_size [OF ch] by simp_all
  have "length (surf (surface t)) = length (surf (surface s))"
    using ch by (simp add: bar_changed_def touches_def same_outside_def)
  then have d: "display_ok (fb_display t)" using ok(2) t(2,3) by (simp add: display_ok_def fb_display_def stride_def)
  have top: "0 \<le> bar_top s" "bar_top s + 30 = height (surface s)"
    using ok(1) by (simp_all add: screen_ok_def bar_top_def STATUSBAR_HEIGHT_def)
  have pos: "int (30 + u) < width (surface t)" "int (nat (bar_top s) + v) < height (surface t)"
    using uv str(2) top t(2,3) by simp_all
  let ?b = "int ((30 + u) div 2)"
  have b: "?b = 15 + int (u div 2)" by simp
  have w: "row_bytes (width (surface s)) = (width (surface s) + 1) div 2"
    using ok(1) by (simp add: screen_ok_def row_bytes_nonneg)
  have "?b < row_bytes (width (surface s))" unfolding w b using uv(1) str(2) by linarith
  then have "byte_at (surface t) (bar_top s + int v) ?b = letters str (int (length str)) 15 (int v) ?b 0"
    using uv(2) by (intro statusbar_text_bytes [OF ok(1) str shown]) (simp_all add: STATUSBAR_HEIGHT_def)
  also have "\<dots> = glyph_byte (str ! (u div 12)) (u mod 12 div 2) v"
  proof -
    have "nat (int (u div 2) div 6) = u div 2 div 6" "nat (int (u div 2) mod 6) = u div 2 mod 6"
      by (simp_all add: nat_div_distrib nat_mod_distrib)
    moreover have "u div 2 div 6 = u div 12" "u div 2 mod 6 = u mod 12 div 2"
      using div_mult2_eq [of u 2 6] mod_mult2_eq [of u 2 6] by simp_all
    ultimately have "nat (int (u div 2) div 6) = u div 12" "nat (int (u div 2) mod 6) = u mod 12 div 2" by simp_all
    moreover have "int (u div 2) < 6 * int (length str)" using uv(1) by linarith
    ultimately show ?thesis unfolding b using uv by (simp add: letters_def)
  qed
  finally have byte: "byte_at (surface t) (bar_top s + int v) ?b = glyph_byte (str ! (u div 12)) (u mod 12 div 2) v" .
  have "even (30 + u) = even (u mod 12)" by presburger
  then show ?thesis
    using fb_pixel [OF t(1) d pos] byte top(1) by (simp add: shade_of_nibble ink_glyph_byte)
qed

section \<open>Properties\<close>

text \<open>C26: The two programs write the same letters: on one framebuffer, whatever is on it, a message that
  fits shows in both bars the same shapes, in columns 30 and on, from the top row of the C program's
  bar and from the second row of the rewrite's: a pixel is not white in the one exactly where it is
  black in the other (the C program keeps the shades of grey of the glyphs). Both bars take the full
  width of the screen, as get\_bar\_region has it; ui.md (section 2.1) and status\_bar.hpp describe
  another bar for the rewrite, sized to its text and placed in the lower right corner.\<close>
theorem messages_agree:
  assumes "screen_ok s" and "display_ok (fb_display s)" and "d_height (fb_display s) + STATUS_BAR_HEIGHT < 2 ^ 32"
    and "str \<noteq> []" and "30 + 12 * int (length str) \<le> width (surface s)"
  shows "\<exists>t es d' sb'. statusbar_text built_in_font (Some s) str = Inr (t, es) \<and>
    show_status default_font str (fb_display s) sb = Inr (d', sb', bar_update (fb_display s)) \<and>
    (\<forall>u < 12 * length str. \<forall>v < 22.
       (get_pixel (fb_display t) (30 + u) (nat (bar_top s) + v) \<noteq> Inr 0xFF) =
       (get_pixel d' (30 + u) (bar_y (fb_display s) + 1 + v) = Inr 0))"
proof -
  let ?d = "fb_display s"
  obtain t es where t: "statusbar_text built_in_font (Some s) str = Inr (t, es)"
    using text_bar [OF built_in_ok(1) assms(1,4)] by blast
  have size: "int (d_width ?d) = width (surface s)" "int (d_height ?d) = height (surface s)" "30 \<le> d_height ?d"
    using assms(1) by (simp_all add: screen_ok_def pixmap_ok_def size_ok_def STATUSBAR_HEIGHT_def fb_display_def le_nat_iff)
  have fits: "bar_fits default_font ?d" "30 + FONT_GLYPH_WIDTH * length str < 2 ^ 32"
    using assms(2,3,5) size by (simp_all add: bar_fits_def default_font_length display_ok_def FONT_GLYPH_WIDTH_def)
  obtain d' where d': "draw_bar_text default_font str ?d = Inr d'" "display_ok d'"
      "\<forall>q. pixel d' q = (if on_screen ?d q \<and> bar_y ?d \<le> snd q
        then (if text_ink default_font str 30 (bar_y ?d + 1) q then 0 else 0xFF) else pixel ?d q)" "same_size ?d d'"
    using bar_text_pixels [OF fits] by blast
  obtain sb' where "show_status default_font str ?d sb = Inr (d', sb', bar_update d')"
    using read_pixels_all [OF assms(2)] d'(1) by (cases "sb_active sb") (auto simp: show_status_def capture_background_def)
  moreover have "bar_update d' = bar_update ?d"
    using d'(4) same_size_bar [OF d'(4)] by (simp add: bar_update_def update_region_def same_size_def)
  moreover have "(get_pixel (fb_display t) (30 + u) (nat (bar_top s) + v) \<noteq> Inr 0xFF) =
      (get_pixel d' (30 + u) (bar_y ?d + 1 + v) = Inr 0)" if uv: "u < 12 * length str" "v < 22" for u v
  proof -
    have "on_screen ?d (30 + u, bar_y ?d + 1 + v)"
      using uv assms(5) size by (simp add: on_screen_def bar_y_def STATUS_BAR_HEIGHT_def)
    then have "get_pixel d' (30 + u) (bar_y ?d + 1 + v) =
        Inr (if text_ink default_font str 30 (bar_y ?d + 1) (30 + u, bar_y ?d + 1 + v) then 0 else 0xFF)"
      using d'(3) get_pixel_pixel [OF d'(2)] by simp
    moreover have "text_ink default_font str 30 (bar_y ?d + 1) (30 + u, bar_y ?d + 1 + v) = ink default_font (str ! (u div 12)) (u mod 12) v"
      using uv by (simp add: text_ink_def in_box_def font_defs)
    ultimately show ?thesis using bar_text_ink [OF assms(1,2,4,5) t uv] by simp
  qed
  ultimately show ?thesis using t by (metis (no_types, lifting))
qed

definition strip_screen :: fbscreen where
  "strip_screen = \<lparr>scr_fd = -1, screensize = 960, surface = \<lparr>width = 60, height = 32, surf = replicate 960 0x77\<rparr>\<rparr>"

theorem messages_agree_witness:
  "\<exists>t es d' sb'. statusbar_text built_in_font (Some strip_screen) ''OK'' = Inr (t, es) \<and>
    show_status default_font ''OK'' (fb_display strip_screen) \<lparr>sb_active = False, saved_pixels = []\<rparr> = Inr (d', sb', []) \<and>
    (get_pixel (fb_display t) 37 12 \<noteq> Inr 0xFF) = (get_pixel d' 37 19 = Inr 0)"
proof -
  have "screen_ok strip_screen"
    by (simp add: screen_ok_def pixmap_ok_def size_ok_def strip_screen_def STATUSBAR_HEIGHT_def row_bytes_nonneg)
  moreover have "display_ok (fb_display strip_screen)" "d_height (fb_display strip_screen) + STATUS_BAR_HEIGHT < 2 ^ 32"
    by (simp_all add: display_ok_def stride_def u32_def fb_display_def strip_screen_def STATUS_BAR_HEIGHT_def)
  moreover have "30 + 12 * int (length ''OK'') \<le> width (surface strip_screen)" by (simp add: strip_screen_def)
  moreover have "bar_update (fb_display strip_screen) = []"
    by (simp add: strip_screen_def fb_display_def bar_update_def update_region_def)
  ultimately obtain t es d' sb' where r: "statusbar_text built_in_font (Some strip_screen) ''OK'' = Inr (t, es)"
      "show_status default_font ''OK'' (fb_display strip_screen) \<lparr>sb_active = False, saved_pixels = []\<rparr> = Inr (d', sb', [])"
      "\<forall>u < 12 * length ''OK''. \<forall>v < 22. (get_pixel (fb_display t) (30 + u) (nat (bar_top strip_screen) + v) \<noteq> Inr 0xFF) =
       (get_pixel d' (30 + u) (bar_y (fb_display strip_screen) + 1 + v) = Inr 0)"
    using messages_agree [of strip_screen "''OK''" "\<lparr>sb_active = False, saved_pixels = []\<rparr>"] by auto
  have "nat (bar_top strip_screen) + 10 = 12" "bar_y (fb_display strip_screen) + 1 + 10 = 19"
    by (simp_all add: bar_top_def bar_y_def strip_screen_def fb_display_def STATUSBAR_HEIGHT_def STATUS_BAR_HEIGHT_def)
  then have "(get_pixel (fb_display t) 37 12 \<noteq> Inr 0xFF) = (get_pixel d' 37 19 = Inr 0)"
    using r(3) [rule_format, of 7 10] by simp
  with r show ?thesis by blast
qed

end
