(* ===== verification/RceThreads.thy ===== *)
theory RceThreads
  imports Rce
begin

text \<open>
  The threads of src/rce.c: rce\_start makes one that runs rce\_process, rce\_stop clears keepgoing and
  closes the socket. What the threads, the main program and the network do comes in the order of
  a list of events. The settings are static variables, which the threads read when they need
  them.
\<close>

section \<open>Threads\<close>

text \<open>Where a thread is: before rce\_process, between the assignment of keepgoing and the loop, in the
  inner loop (which has no way out), or at its end.\<close>

datatype rce_place = Created | Entered | Receiving | Ended

record rce_thread =
  recv_s :: int
  place :: rce_place
  listener_of :: listener

record rce_world =
  rce_keepgoing :: bool
  rce_static :: rce_settings
  rce_closed :: "int list"       \<comment> \<open>the sockets rce\_stop has closed\<close>
  rce_threads :: "rce_thread list"

datatype rce_event =
    Settings rce_settings        \<comment> \<open>launchpad\_init has read the configuration\<close>
  | Start_thread int             \<comment> \<open>rce\_start\<close>
  | Stop_thread int              \<comment> \<open>rce\_stop\<close>
  | Enters nat                   \<comment> \<open>a thread begins rce\_process\<close>
  | Tests nat                    \<comment> \<open>and tests keepgoing\<close>
  | Receives nat "char list"     \<comment> \<open>what recvfrom gives a thread, nothing for an error\<close>

definition rce_create_thread :: "int \<Rightarrow> rce_world \<Rightarrow> rce_world" where
  "rce_create_thread s w =
     (if rce_start (rce_static w)
      then w\<lparr>rce_threads := rce_threads w @ [\<lparr>recv_s = s, place = Created, listener_of = \<lparr>is_enabled = False, commands = []\<rparr>\<rparr>]\<rparr>
      else w)"

definition rce_stop :: "int \<Rightarrow> rce_world \<Rightarrow> rce_world" where
  "rce_stop s w = w\<lparr>rce_keepgoing := False, rce_closed := rce_closed w @ [s]\<rparr>"

definition thread_enters :: "nat \<Rightarrow> rce_world \<Rightarrow> rce_world" where
  "thread_enters i w =
     (if i < length (rce_threads w) \<and> place (rce_threads w ! i) = Created
      then w\<lparr>rce_keepgoing := True, rce_threads := (rce_threads w)[i :=
             (rce_threads w ! i)\<lparr>place := Entered, listener_of := rce_start_state (rce_static w)\<rparr>]\<rparr>
      else w)"

definition thread_tests :: "nat \<Rightarrow> rce_world \<Rightarrow> rce_world" where
  "thread_tests i w =
     (if i < length (rce_threads w) \<and> place (rce_threads w ! i) = Entered
      then w\<lparr>rce_threads := (rce_threads w)[i :=
             (rce_threads w ! i)\<lparr>place := (if rce_keepgoing w then Receiving else Ended)\<rparr>]\<rparr>
      else w)"

text \<open>A call that waits while the socket is closed still gets a datagram; later ones fail until the
  descriptor's number is a socket again. What a call gives is the event's.\<close>

definition thread_receives :: "nat \<Rightarrow> char list \<Rightarrow> rce_world \<Rightarrow> rce_world res" where
  "thread_receives i d w =
     (if i < length (rce_threads w) \<and> place (rce_threads w ! i) = Receiving
      then mapR (\<lambda>l. w\<lparr>rce_threads := (rce_threads w)[i := (rce_threads w ! i)\<lparr>listener_of := l\<rparr>]\<rparr>)
             (receive (rce_static w) d (listener_of (rce_threads w ! i)))
      else Inr w)"

fun rce_happens :: "rce_event \<Rightarrow> rce_world \<Rightarrow> rce_world res" where
  "rce_happens (Settings r) w = Inr (w\<lparr>rce_static := r\<rparr>)"
| "rce_happens (Start_thread s) w = Inr (rce_create_thread s w)"
| "rce_happens (Stop_thread s) w = Inr (rce_stop s w)"
| "rce_happens (Enters i) w = Inr (thread_enters i w)"
| "rce_happens (Tests i) w = Inr (thread_tests i w)"
| "rce_happens (Receives i d) w = thread_receives i d w"

definition rce_run :: "rce_event list \<Rightarrow> rce_world \<Rightarrow> rce_world res" where
  "rce_run evs w = foldR rce_happens evs w"

definition rce_boot :: rce_world where
  "rce_boot = \<lparr>rce_keepgoing = False, rce_static = initial_rce, rce_closed = [], rce_threads = []\<rparr>"

section \<open>A thread in its inner loop\<close>

definition receiving :: "nat \<Rightarrow> int \<Rightarrow> rce_world \<Rightarrow> bool" where
  "receiving i s w = (i < length (rce_threads w) \<and> place (rce_threads w ! i) = Receiving \<and> recv_s (rce_threads w ! i) = s)"

lemma happens_total: "\<exists>w'. rce_happens e w = Inr w'"
proof (cases e)
  case (Receives i d)
  obtain l where "receive (rce_static w) d (listener_of (rce_threads w ! i)) = Inr l"
    using receive_total by blast
  then show ?thesis by (simp add: Receives thread_receives_def)
qed simp_all

lemma happens_receiving:
  assumes "rce_happens e w = Inr w'" "receiving i s w"
  shows "receiving i s w'"
  using assms
  by (cases e) (auto simp: receiving_def rce_create_thread_def rce_stop_def thread_enters_def thread_tests_def
      thread_receives_def nth_append nth_list_update res_simps split: if_splits)

lemma run_receiving: "receiving i s w \<Longrightarrow> \<exists>w'. rce_run evs w = Inr w' \<and> receiving i s w'"
  unfolding rce_run_def by (rule foldR_total) (use happens_total happens_receiving in blast)+

section \<open>Properties\<close>

text \<open>C35: rce\_stop stops nothing: once a thread is in its loop, nothing that can happen, the stop included,
  ends it. It goes on calling recvfrom on its descriptor, and whatever datagram that gives it (one it was
  waiting for, or one of a later session whose socket got the same number) it treats by its own
  switch, with the strings of the later settings: what keeps the new session's listener switched
  off does not switch off the old one.\<close>
theorem rce_stop_leaves_listener:
  assumes "i < length (rce_threads w)" and "place (rce_threads w ! i) = Receiving" and "datagram m"
  shows "\<exists>w' w''. rce_run evs w = Inr w' \<and> rce_run (evs @ [Receives i m]) w = Inr w'' \<and>
    place (rce_threads w' ! i) = Receiving \<and> recv_s (rce_threads w' ! i) = recv_s (rce_threads w ! i) \<and>
    listener_of (rce_threads w'' ! i) =
      listen (cstr (enable_string (rce_static w'))) (cstr (disable_string (rce_static w'))) (listener_of (rce_threads w' ! i)) [m]"
proof -
  have "receiving i (recv_s (rce_threads w ! i)) w" using assms by (simp add: receiving_def)
  from run_receiving [OF this, of evs] obtain w' where w': "rce_run evs w = Inr w'"
      "receiving i (recv_s (rce_threads w ! i)) w'" by blast
  define l where "l = listen (cstr (enable_string (rce_static w'))) (cstr (disable_string (rce_static w'))) (listener_of (rce_threads w' ! i)) [m]"
  have "receive (rce_static w') m (listener_of (rce_threads w' ! i)) = Inr l"
    unfolding l_def by (rule receive_datagram [OF assms(3)])
  then have "rce_run (evs @ [Receives i m]) w = Inr (w'\<lparr>rce_threads := (rce_threads w')[i := (rce_threads w' ! i)\<lparr>listener_of := l\<rparr>]\<rparr>)"
    using w' by (simp add: rce_run_def foldR_append receiving_def thread_receives_def)
  then show ?thesis using w' by (simp add: receiving_def l_def del: listen.simps)
qed

text \<open>The old thread of a session that was enabled runs a command that the new session's listener would not.\<close>

definition rce_on :: rce_settings where
  "rce_on = set_rce_autoenable ''yes'' initial_rce"

definition rce_guarded :: rce_settings where
  "rce_guarded = set_rce_enable_string ''on'' initial_rce"

definition two_sessions :: "rce_event list" where
  "two_sessions = [Stop_thread 5, Settings rce_guarded, Start_thread 5, Enters 1, Tests 1, Receives 1 ''ls'']"

theorem rce_stop_leaves_listener_witness:
  "\<exists>w w'. rce_run [Settings rce_on, Start_thread 5, Enters 0, Tests 0] rce_boot = Inr w \<and>
     rce_run (two_sessions @ [Receives 0 ''ls'']) w = Inr w' \<and>
     commands (listener_of (rce_threads w' ! 0)) = [''ls&''] \<and> commands (listener_of (rce_threads w ! 0)) = []"
proof -
  have s: "cstr (enable_string rce_guarded) = ''on''" "cstr (disable_string rce_guarded) = []" "autoenable rce_guarded = 0"
      "autoenable rce_on = 1" "rce_start rce_on" "rce_start rce_guarded"
    unfolding rce_on_def rce_guarded_def by code_simp+
  let ?t = "\<lambda>e. \<lparr>recv_s = 5, place = Receiving, listener_of = \<lparr>is_enabled = e, commands = []\<rparr>\<rparr>"
  let ?w = "\<lparr>rce_keepgoing = True, rce_static = rce_on, rce_closed = [], rce_threads = [?t True]\<rparr>"
  let ?w' = "\<lparr>rce_keepgoing = True, rce_static = rce_guarded, rce_closed = [5], rce_threads = [?t True, ?t False]\<rparr>"
  note steps = rce_run_def rce_create_thread_def thread_enters_def thread_tests_def rce_start_state_def s
  have w: "rce_run [Settings rce_on, Start_thread 5, Enters 0, Tests 0] rce_boot = Inr ?w"
    by (simp add: rce_boot_def steps)
  have ls: "datagram ''ls''" by (simp add: datagram_def MAXLEN_def)
  have w': "rce_run two_sessions ?w = Inr ?w'"
    using receive_datagram [OF ls, of rce_guarded] by (simp add: two_sessions_def steps rce_stop_def thread_receives_def)
  obtain u where "rce_run (two_sessions @ [Receives 0 ''ls'']) ?w = Inr u"
      "listener_of (rce_threads u ! 0) = \<lparr>is_enabled = True, commands = [''ls&'']\<rparr>"
    using rce_stop_leaves_listener [of 0 ?w "''ls''" two_sessions] w' ls s by (auto simp: background_def)
  with w show ?thesis by (intro exI [of _ ?w] exI [of _ u]) simp
qed

end
