(* ===== verification/KeyOrder.thy ===== *)
theory KeyOrder
  imports Registry "HOL-Library.RBT"
begin

text \<open>
  src/include/launchpad/core/units.hpp: the wrapped numbers and lists with their order, and the map of
  action\_registry.hpp that is sorted by it. The model of the registry (Registry) is a list; here
  std::map is a red-black tree over the order of KeySequence, and both keep the same actions.
\<close>

section \<open>Milliseconds\<close>

datatype milliseconds = Milliseconds (ms_value: "32 word")

instantiation milliseconds :: linorder
begin

definition less_eq_milliseconds :: "milliseconds \<Rightarrow> milliseconds \<Rightarrow> bool" where
  "less_eq_milliseconds a b = (ms_value a \<le> ms_value b)"

definition less_milliseconds :: "milliseconds \<Rightarrow> milliseconds \<Rightarrow> bool" where
  "less_milliseconds a b = (ms_value a < ms_value b)"

instance
  by standard (auto simp: less_eq_milliseconds_def less_milliseconds_def intro: milliseconds.expand)

end

section \<open>Sequences of keys\<close>

datatype key_sequence = KeySequence (seq_codes: "short list")

definition seq_push :: "short \<Rightarrow> key_sequence \<Rightarrow> key_sequence" where
  "seq_push c s = KeySequence (seq_codes s @ [c])"

definition seq_clear :: "key_sequence \<Rightarrow> key_sequence" where
  "seq_clear s = KeySequence []"

definition seq_empty :: "key_sequence \<Rightarrow> bool" where
  "seq_empty s = (seq_codes s = [])"

definition seq_size :: "key_sequence \<Rightarrow> nat" where
  "seq_size s = length (seq_codes s)"

text \<open>The defaulted comparison compares the vectors, code by code as signed numbers; a proper prefix
  comes first.\<close>

fun codes_less :: "short list \<Rightarrow> short list \<Rightarrow> bool" where
  "codes_less xs [] = False"
| "codes_less [] (y # ys) = True"
| "codes_less (x # xs) (y # ys) = (sint x < sint y \<or> sint x = sint y \<and> codes_less xs ys)"

lemma codes_less_lexorder: "codes_less xs ys = (map sint xs < map sint ys)"
  by (induction xs ys rule: codes_less.induct) simp_all

lemma map_sint_inject: "(map sint xs = map sint ys) = (xs = ys)" for xs ys :: "short list"
  using inj_map_eq_map [of sint xs ys] by (simp add: injI)

instantiation key_sequence :: linorder
begin

definition less_key_sequence :: "key_sequence \<Rightarrow> key_sequence \<Rightarrow> bool" where
  "less_key_sequence a b = codes_less (seq_codes a) (seq_codes b)"

definition less_eq_key_sequence :: "key_sequence \<Rightarrow> key_sequence \<Rightarrow> bool" where
  "less_eq_key_sequence a b = (seq_codes a = seq_codes b \<or> codes_less (seq_codes a) (seq_codes b))"

instance
proof
  fix a b c :: key_sequence
  note order = less_key_sequence_def less_eq_key_sequence_def codes_less_lexorder
  have le: "(a \<le> b) = (map sint (seq_codes a) \<le> map sint (seq_codes b))" for a b :: key_sequence
    by (auto simp: order le_less map_sint_inject)
  show "(a < b) = (a \<le> b \<and> \<not> b \<le> a)" unfolding le by (simp add: order less_le_not_le)
  show "a \<le> a" unfolding le by simp
  show "a \<le> c" if "a \<le> b" "b \<le> c" using that unfolding le by (rule order_trans)
  show "a = b" if "a \<le> b" "b \<le> a"
    using that unfolding le by (auto simp: map_sint_inject intro: key_sequence.expand)
  show "a \<le> b \<or> b \<le> a" unfolding le by (rule linear)
qed

end

lemma push_greater: "s < seq_push c s"
proof -
  have "codes_less xs (xs @ [c])" for xs by (induction xs) simp_all
  then show ?thesis by (simp add: less_key_sequence_def seq_push_def)
qed

section \<open>Maps in which the first entry stays\<close>

text \<open>What register\_action needs of its map.\<close>

locale first_entry_map =
  fixes new_map :: 'm
    and look :: "'m \<Rightarrow> 'k \<Rightarrow> 'v option"
    and add :: "'k \<Rightarrow> 'v \<Rightarrow> 'm \<Rightarrow> 'm"
  assumes look_new: "look new_map k = None"
    and look_add: "look (add k v m) k' = (if look m k' = None \<and> k' = k then Some v else look m k')"
begin

definition built :: "('k \<times> 'v) list \<Rightarrow> 'm" where
  "built kvs = fold (\<lambda>(k, v). add k v) kvs new_map"

lemma look_fold: "look (fold (\<lambda>(k, v). add k v) kvs m) k' = (case look m k' of None \<Rightarrow> map_of kvs k' | Some v \<Rightarrow> Some v)"
  by (induction kvs arbitrary: m) (auto simp: look_add split: option.splits)

lemma look_built: "look (built kvs) k = map_of kvs k"
  by (simp add: built_def look_fold look_new)

end

interpretation listed: first_entry_map "[]" map_of register_action
  by standard (simp_all add: register_action_lookup)

section \<open>The registry as a sorted map\<close>

type_synonym action_tree = "(key_sequence, hotkey_action) rbt"

definition tree_register :: "key_sequence \<Rightarrow> hotkey_action \<Rightarrow> action_tree \<Rightarrow> action_tree" where
  "tree_register s a t = (if RBT.lookup t s \<noteq> None then t else RBT.insert s a t)"

definition tree_find :: "action_tree \<Rightarrow> key_sequence \<Rightarrow> hotkey_action option" where
  "tree_find t s =
     (if s = KeySequence screenshot_sequence then Some \<lparr>display_name = ''[Screenshot]'', payload = ScreenshotAction\<rparr>
      else RBT.lookup t s)"

definition tree_size :: "action_tree \<Rightarrow> nat" where
  "tree_size t = length (RBT.entries t)"

interpretation sorted_map: first_entry_map RBT.empty RBT.lookup tree_register
  by standard (simp_all add: tree_register_def)

definition on_key :: "(short list \<times> hotkey_action) \<Rightarrow> key_sequence \<times> hotkey_action" where
  "on_key p = (KeySequence (fst p), snd p)"

lemma map_of_on_key: "map_of (map on_key kvs) (KeySequence k) = map_of kvs k"
  by (induction kvs) (auto simp: on_key_def)

lemma tree_domain: "dom (RBT.lookup (sorted_map.built (map on_key kvs))) = KeySequence ` fst ` set kvs"
proof -
  have "RBT.lookup (sorted_map.built (map on_key kvs)) = map_of (map on_key kvs)"
    by (rule ext) (rule sorted_map.look_built)
  then show ?thesis by (simp add: dom_map_of_conv_image_fst image_image on_key_def)
qed

lemma listed_distinct: "distinct (map fst (listed.built kvs))"
proof -
  have "distinct (map fst r) \<Longrightarrow> distinct (map fst (fold (\<lambda>(k, v). register_action k v) kvs r))" for r
    by (induction kvs arbitrary: r) (auto simp: register_action_distinct)
  then show ?thesis by (simp add: listed.built_def)
qed

text \<open>Whatever is registered, in whatever order: the list and the sorted map find the same actions and
  hold the same number of them, and the map lists them by ascending sequences.\<close>
theorem registry_is_sorted_map:
  "find_action (listed.built kvs) seq = tree_find (sorted_map.built (map on_key kvs)) (KeySequence seq) \<and>
   registry_size (listed.built kvs) = tree_size (sorted_map.built (map on_key kvs)) \<and>
   sorted (map fst (RBT.entries (sorted_map.built (map on_key kvs))))"
proof (intro conjI)
  let ?l = "listed.built kvs" and ?t = "sorted_map.built (map on_key kvs)"
  show "find_action ?l seq = tree_find ?t (KeySequence seq)"
    by (simp add: find_action_def tree_find_def listed.look_built sorted_map.look_built map_of_on_key)
  have "map_of ?l = map_of kvs" by (rule ext) (rule listed.look_built)
  then have "fst ` set ?l = fst ` set kvs" by (metis dom_map_of_conv_image_fst)
  then have "card (fst ` set kvs) = length ?l"
    using distinct_card [OF listed_distinct [of kvs]] by simp
  moreover have "set (map fst (RBT.entries ?t)) = KeySequence ` fst ` set kvs"
    using tree_domain [of kvs] by (simp add: dom_map_of_conv_image_fst flip: map_of_entries)
  then have "card (fst ` set kvs) = length (RBT.entries ?t)"
    using distinct_card [OF distinct_entries [of ?t]] by (simp add: card_image inj_on_def)
  ultimately show "registry_size ?l = tree_size ?t" by (simp add: registry_size_def tree_size_def)
  show "sorted (map fst (RBT.entries ?t))" by (rule sorted_entries)
qed

text \<open>So Application::load\_configuration may be read with either.\<close>

definition entry_pair :: "key_table \<Rightarrow> string \<Rightarrow> ini_entry \<Rightarrow> (short list \<times> hotkey_action) option" where
  "entry_pair t sdir e = map_option (\<lambda>seq. (seq, parse_command (entry_value e) (entry_key e) sdir)) (parse_sequence t (entry_key e))"

lemma load_registry_built:
  "load_registry t sc = listed.built (List.map_filter (entry_pair t (script_directory (scan_settings sc))) (scan_actions sc))"
proof -
  let ?d = "script_directory (scan_settings sc)"
  have "fold (register_entry t ?d) es r = fold (\<lambda>(k, v). register_action k v) (List.map_filter (entry_pair t ?d) es) r" for es r
    by (induction es arbitrary: r) (auto simp: List.map_filter_simps register_entry_def entry_pair_def split: option.split)
  then show ?thesis by (simp add: load_registry_def listed.built_def)
qed

corollary loaded_registry_sorted:
  "find_action (load_registry t sc) seq =
     tree_find (sorted_map.built (map on_key (List.map_filter (entry_pair t (script_directory (scan_settings sc))) (scan_actions sc)))) (KeySequence seq)"
  using registry_is_sorted_map by (simp add: load_registry_built)

end
