(* ===== verification/Reload.thy ===== *)
theory Reload
  imports ConfigProps Registry
begin

text \<open>
  What a reload keeps (SIGHUP, the label again of src/src/main.c): launchpad\_init runs on the statics the
  last session has left. The table of actions comes out as in a fresh start; the settings do not.
\<close>

section \<open>Two runs side by side\<close>

text \<open>Both fault alike, or both give related results.\<close>

abbreviation alike :: "('a \<Rightarrow> 'b \<Rightarrow> bool) \<Rightarrow> 'a res \<Rightarrow> 'b res \<Rightarrow> bool" where
  "alike \<equiv> rel_sum (=)"

lemma alike_bind:
  "alike R m m' \<Longrightarrow> (\<And>x y. R x y \<Longrightarrow> alike Q (f x) (g y)) \<Longrightarrow> alike Q (bindR m f) (bindR m' g)"
  by (cases m; cases m') auto

lemma alike_same: "(\<And>x. alike Q (f x) (g x)) \<Longrightarrow> alike Q (bindR m f) (bindR m g)"
  by (cases m) auto

lemma alike_fold:
  "R s s' \<Longrightarrow> (\<And>x s s'. R s s' \<Longrightarrow> alike R (f x s) (g x s')) \<Longrightarrow> alike R (foldR f xs s) (foldR g xs s')"
proof (induction xs arbitrary: s s')
  case (Cons x xs)
  show ?case
    unfolding foldR.simps
    by (rule alike_bind [OF Cons.prems(2) [OF Cons.prems(1)]]) (rule Cons.IH, assumption, rule Cons.prems(2))
qed simp

lemma alike_if: "(b \<Longrightarrow> alike Q x x') \<Longrightarrow> (\<not> b \<Longrightarrow> alike Q y y') \<Longrightarrow> alike Q (if b then x else y) (if b then x' else y')"
  by simp

lemma alike_Inr: "alike R (Inr x) m' \<Longrightarrow> \<exists>y. m' = Inr y \<and> R x y"
  by (cases m') auto

lemma alike_view: "alike R x y \<Longrightarrow> (\<And>a b. R a b \<Longrightarrow> f a = f b) \<Longrightarrow> map_sum id f x = map_sum id f y"
  by (cases x; cases y) auto

lemma map_sum_Inr: "map_sum id f x = Inr y \<Longrightarrow> \<exists>a. x = Inr a \<and> f a = y"
  by (cases x) auto

section \<open>What the actions depend on\<close>

definition same_table :: "config \<Rightarrow> config \<Rightarrow> bool" where
  "same_table c d = (input_keys c = input_keys d \<and> input_key_codes c = input_key_codes d \<and>
     n_input_keys c = n_input_keys d \<and> pactions c = pactions d \<and> script_dir c = script_dir d)"

lemma same_table_simps:
  assumes "same_table c d"
  shows "actions c = actions d" "find_input_key_code c = find_input_key_code d"
    "parse_action_command c = parse_action_command d" "parse_action_sequence c = parse_action_sequence d"
proof -
  show code: "find_input_key_code c = find_input_key_code d"
    using assms by (intro ext) (simp add: same_table_def find_input_key_code_def)
  show "actions c = actions d" using assms by (simp add: same_table_def actions_def)
  show "parse_action_command c = parse_action_command d"
  proof
    have "script_dir c = script_dir d" using assms by (simp add: same_table_def)
    then show "parse_action_command c v = parse_action_command d v" for v
      by (simp only: parse_action_command_def)
  qed
  show "parse_action_sequence c = parse_action_sequence d"
    by (intro ext) (simp only: parse_action_sequence_def sequence_codes_tokens code)
qed

lemma with_value_alike:
  "same_table c d \<Longrightarrow> (\<And>v. same_table (f v c) (f v d)) \<Longrightarrow> alike same_table (with_value db s k f c) (with_value db s k f d)"
  unfolding with_value_def by (rule alike_same) auto

lemma settings_alike: "same_table c d \<Longrightarrow> alike same_table (process_settings db s c) (process_settings db s d)"
  unfolding process_settings_def
  by (intro alike_bind [where R = same_table and Q = same_table] with_value_alike)
    (auto simp: same_table_def set_introducer_def set_trailer_def find_input_key_code_def Let_def)

lemma rce_alike: "same_table c d \<Longrightarrow> alike same_table (process_rce net db s c) (process_rce net db s d)"
  unfolding process_rce_def
  by (intro alike_bind [where R = same_table and Q = same_table] with_value_alike) (auto simp: same_table_def)

lemma new_action_alike:
  assumes "same_table c d"
  shows "alike same_table (new_action c codes disp val) (new_action d codes disp val)"
  unfolding new_action_def same_table_simps [OF assms]
  by (rule alike_same) (use assms in \<open>auto simp: same_table_def\<close>)

lemma action_row_alike:
  assumes "same_table c d"
  shows "alike same_table (action_row db s i c) (action_row db s i d)"
proof -
  have "alike same_table (action_value db s i codes disp c) (action_value db s i codes disp d)" for codes disp
    unfolding action_value_def
    by (intro alike_same) (use assms new_action_alike in \<open>auto intro!: alike_same\<close>)
  then show ?thesis
    unfolding action_row_def same_table_simps [OF assms]
    by (intro alike_same) (use assms in \<open>auto intro!: alike_same\<close>)
qed

definition same_outcome :: "config \<times> 'a \<Rightarrow> config \<times> 'a \<Rightarrow> bool" where
  "same_outcome p q = (same_table (fst p) (fst q) \<and> snd p = snd q)"

lemma actions_alike:
  assumes "same_table c d"
  shows "alike same_outcome (process_actions os db s c) (process_actions os db s d)"
proof -
  have "same_table (c\<lparr>pactions := Some (actions c)\<rparr>) (d\<lparr>pactions := Some (actions d)\<rparr>)"
    using assms same_table_simps(1) [OF assms] by (simp add: same_table_def)
  then have rows: "alike same_table (foldR (action_row db s) xs (c\<lparr>pactions := Some (actions c)\<rparr>))
      (foldR (action_row db s) xs (d\<lparr>pactions := Some (actions d)\<rparr>))" for xs
    by (rule alike_fold) (rule action_row_alike)
  show ?thesis
    unfolding process_actions_def same_table_simps(1) [OF assms]
    by (intro alike_same alike_if alike_bind [OF rows [unfolded same_table_simps(1) [OF assms]]])
      (simp_all add: same_outcome_def assms)
qed

lemma in_section_alike:
  "(\<And>s. alike R (f s) (g s)) \<Longrightarrow> alike R x y \<Longrightarrow> alike R (in_section db nm f x) (in_section db nm g y)"
  by (simp add: in_section_def Let_def)

lemma same_outcomeE:
  assumes "same_outcome p q"
  obtains c d x where "p = (c, x)" "q = (d, x)" "same_table c d"
  using assms by (cases p; cases q) (auto simp: same_outcome_def)

lemma file_alike:
  assumes "same_table c d"
  shows "alike same_outcome (process_ini_file os net path c) (process_ini_file os net path d)"
proof -
  have finished: "alike same_outcome (bindR (inidb_close pdb) (\<lambda>_. Inr (c, rc))) (bindR (inidb_close pdb) (\<lambda>_. Inr (d, rc)))"
    if "same_table c d" for c d pdb and rc :: int
    by (rule alike_same) (use that in \<open>simp add: same_outcome_def\<close>)
  have entry: "alike same_table
      (case pdb of None \<Rightarrow> Inr c | Some db \<Rightarrow> in_section db ''RemoteCommandEntry'' (\<lambda>s. process_rce net db s c) (Inr c))
      (case pdb of None \<Rightarrow> Inr d | Some db \<Rightarrow> in_section db ''RemoteCommandEntry'' (\<lambda>s. process_rce net db s d) (Inr d))"
    if "same_table c d" for c d pdb
    using that by (cases pdb) (auto intro: in_section_alike rce_alike)
  have act: "alike same_outcome (in_section db ''Actions'' (\<lambda>s. process_actions os db s c) (Inr (c, Some db, -1)))
      (in_section db ''Actions'' (\<lambda>s. process_actions os db s d) (Inr (d, Some db, -1)))"
    if "same_table c d" for c d db
    using that by (intro in_section_alike actions_alike) (auto simp: same_outcome_def)
  have settings: "alike same_table (in_section db ''Settings'' (\<lambda>s. process_settings db s c) (Inr c))
      (in_section db ''Settings'' (\<lambda>s. process_settings db s d) (Inr d))" for db
    using assms by (intro in_section_alike settings_alike) auto
  show ?thesis
    unfolding process_ini_file_def
  proof (rule alike_same)
    fix x
    show "alike same_outcome
        (case x of None \<Rightarrow> Inr (c, -1)
         | Some db \<Rightarrow> bindR (in_section db ''Settings'' (\<lambda>s. process_settings db s c) (Inr c)) (\<lambda>c.
             bindR (in_section db ''Actions'' (\<lambda>s. process_actions os db s c) (Inr (c, Some db, -1))) (\<lambda>(c, pdb, rc).
             bindR (case pdb of None \<Rightarrow> Inr c
                | Some db \<Rightarrow> in_section db ''RemoteCommandEntry'' (\<lambda>s. process_rce net db s c) (Inr c)) (\<lambda>c.
             bindR (inidb_close pdb) (\<lambda>_. Inr (c, rc))))))
        (case x of None \<Rightarrow> Inr (d, -1)
         | Some db \<Rightarrow> bindR (in_section db ''Settings'' (\<lambda>s. process_settings db s d) (Inr d)) (\<lambda>c.
             bindR (in_section db ''Actions'' (\<lambda>s. process_actions os db s c) (Inr (c, Some db, -1))) (\<lambda>(c, pdb, rc).
             bindR (case pdb of None \<Rightarrow> Inr c
                | Some db \<Rightarrow> in_section db ''RemoteCommandEntry'' (\<lambda>s. process_rce net db s c) (Inr c)) (\<lambda>c.
             bindR (inidb_close pdb) (\<lambda>_. Inr (c, rc))))))"
    proof (cases x)
      case None
      then show ?thesis using assms by (simp add: same_outcome_def)
    next
      case (Some db)
      show ?thesis
        unfolding Some option.case
        by (rule alike_bind [OF settings], rule alike_bind [OF act], assumption, erule same_outcomeE)
          (auto intro!: alike_bind [OF entry] finished)
    qed
  qed
qed

lemma entry_alike:
  "same_outcome st st' \<Longrightarrow> alike same_outcome (init_entry os net path d st) (init_entry os net path d st')"
  by (erule same_outcomeE)
    (auto simp: init_entry_def same_outcome_def intro!: alike_same file_alike split: prod.split)

lemma same_table_refl: "same_table c c"
  by (simp add: same_table_def)

lemma init_alike:
  assumes "pactions c = pactions d" "script_dir c = script_dir d"
  shows "alike same_outcome (launchpad_init os net proc_dir dir path c) (launchpad_init os net proc_dir dir path d)"
proof -
  obtain ptab pcodes n where table: "get_default_input_keydefs = (ptab, pcodes, n)"
    by (cases get_default_input_keydefs)
  have keys: "alike same_table (init_keys os proc_dir c) (init_keys os proc_dir d)"
    unfolding init_keys_def by (intro alike_same) (use assms in \<open>auto simp: same_table_def table\<close>)
  show ?thesis
    unfolding launchpad_init_def
  proof (rule alike_bind [OF keys])
    fix c d assume cd: "same_table c d"
    let ?c = "c\<lparr>rce := set_rce_defaults net (rce c)\<rparr>" and ?d = "d\<lparr>rce := set_rce_defaults net (rce d)\<rparr>"
    have start: "same_outcome (?c, r) (?d, r)" for r :: int
      using cd by (simp add: same_outcome_def same_table_def)
    have "alike same_outcome (foldR (init_entry os net path) es (?c, -1)) (foldR (init_entry os net path) es (?d, -1))" for es
      by (rule alike_fold [where R = same_outcome, OF start]) (rule entry_alike)
    then have "alike same_outcome
        (bindR (foldR (init_entry os net path) es (?c, -1)) (\<lambda>(c, _). Inr (c, int (length (actions c)))))
        (bindR (foldR (init_entry os net path) es (?d, -1)) (\<lambda>(c, _). Inr (c, int (length (actions c)))))" for es
      by (rule alike_bind) (auto elim!: same_outcomeE simp: same_outcome_def same_table_simps(1))
    with start show "alike same_outcome
       (let c = ?c in case dir of None \<Rightarrow> Inr (c, -1)
          | Some fs \<Rightarrow> bindR (foldR (init_entry os net path) fs (c, -1)) (\<lambda>(c, _). Inr (c, int (length (actions c)))))
       (let d = ?d in case dir of None \<Rightarrow> Inr (d, -1)
          | Some fs \<Rightarrow> bindR (foldR (init_entry os net path) fs (d, -1)) (\<lambda>(c, _). Inr (c, int (length (actions c)))))"
      by (simp add: Let_def split: option.split)
  qed
qed

section \<open>What the settings keep\<close>

definition settings_of :: "config \<Rightarrow> (int \<times> int \<times> int \<times> int) \<times> char list \<times> char list \<times> char list" where
  "settings_of c = ((introducer c, trailer c, hot_interval c, key_delay c), kbd_input c, fw_input c, script_dir c)"

lemma settings_frame [simp]:
  "settings_of (c\<lparr>rce := r\<rparr>) = settings_of c" "settings_of (c\<lparr>pactions := a\<rparr>) = settings_of c"
  "settings_of (c\<lparr>input_keys := k, input_key_codes := l, n_input_keys := n\<rparr>) = settings_of c"
  by (simp_all add: settings_of_def)

lemma with_value_settings:
  "with_value db s k f c = Inr c' \<Longrightarrow> (\<And>v c. settings_of (f v c) = settings_of c) \<Longrightarrow> settings_of c' = settings_of c"
  by (auto simp: with_value_def res_simps split: if_splits)

lemma rce_settings_kept: "process_rce net db s c = Inr c' \<Longrightarrow> settings_of c' = settings_of c"
  unfolding process_rce_def bindR_eq_Inr
  by (elim exE conjE) (simp add: with_value_settings)

lemma action_row_settings: "action_row db s i c = Inr c' \<Longrightarrow> settings_of c' = settings_of c"
  by (auto simp: action_row_def action_value_def new_action_def res_simps split: if_splits prod.splits)

lemma actions_settings: "process_actions os db s c = Inr (c', r) \<Longrightarrow> settings_of c' = settings_of c"
proof -
  have "settings_of c' = settings_of c" if "foldR (action_row db s) xs c0 = Inr c'" "settings_of c0 = settings_of c" for xs c0 c'
    using foldR_invariant [OF that(1), of "\<lambda>u. settings_of u = settings_of c"] that(2) action_row_settings by metis
  then show "process_actions os db s c = Inr (c', r) \<Longrightarrow> ?thesis"
    by (auto simp: process_actions_def res_simps split: if_splits)
qed

lemma file_settings:
  assumes "process_ini_file os net path c = Inr (c', r)"
    and "\<And>db. inidb_open os path = Inr (Some db) \<Longrightarrow> inidb_find_section (Some db) ''Settings'' < 0"
  shows "settings_of c' = settings_of c"
proof -
  obtain pdb where pdb: "inidb_open os path = Inr pdb"
    using assms(1) by (auto simp: process_ini_file_def res_simps)
  show ?thesis
  proof (cases pdb)
    case None
    then show ?thesis using assms(1) pdb by (simp add: process_ini_file_def)
  next
    case (Some db)
    then have "in_section db ''Settings'' (\<lambda>s. process_settings db s c) (Inr c) = Inr c"
      using assms(2) [of db] pdb by (simp add: in_section_def Let_def)
    with assms(1) pdb Some obtain c1 pdb1 c2 where
        c1: "in_section db ''Actions'' (\<lambda>s. process_actions os db s c) (Inr (c, Some db, -1)) = Inr (c1, pdb1, r)"
      and c2: "(case pdb1 of None \<Rightarrow> Inr c1
        | Some db \<Rightarrow> in_section db ''RemoteCommandEntry'' (\<lambda>s. process_rce net db s c1) (Inr c1)) = Inr c2"
      and "c' = c2"
      unfolding process_ini_file_def by (simp add: bindR_eq_Inr split_paired_Ex) blast
    moreover have "settings_of c1 = settings_of c"
      using c1 actions_settings by (auto simp: in_section_def Let_def split: if_splits)
    moreover have "settings_of c2 = settings_of c1"
      using c2 rce_settings_kept by (cases pdb1) (auto simp: in_section_def Let_def split: if_splits)
    ultimately show ?thesis by simp
  qed
qed

lemma init_settings:
  assumes "launchpad_init os net proc_dir (Some es) path c = Inr (c', rc)"
    and "\<And>nm b db. (nm, b) \<in> set es \<Longrightarrow> inidb_open os (ini_path path nm) = Inr (Some db) \<Longrightarrow>
      inidb_find_section (Some db) ''Settings'' < 0"
  shows "settings_of c' = settings_of c"
proof -
  obtain c1 where c1: "init_keys os proc_dir c = Inr c1"
    using assms(1) by (auto simp: launchpad_init_def res_simps)
  let ?st = "(c1\<lparr>rce := set_rce_defaults net (rce c1)\<rparr>, -1)"
  obtain r where run: "foldR (init_entry os net path) es ?st = Inr (c', r)"
    using assms(1) c1 by (auto simp: launchpad_init_def res_simps)
  have keys: "settings_of c1 = settings_of c"
    using c1 by (auto simp: init_keys_def res_simps split: prod.splits if_splits)
  have "settings_of (fst (c', r)) = settings_of c"
  proof (rule foldR_invariant [OF run, where P = "\<lambda>st. settings_of (fst st) = settings_of c"])
    show "settings_of (fst ?st) = settings_of c" using keys by simp
    fix e st st' assume e: "e \<in> set es" "settings_of (fst st) = settings_of c" "init_entry os net path e st = Inr st'"
    show "settings_of (fst st') = settings_of c"
    proof (cases "snd e \<and> is_ini (fst e)")
      case True
      then have "process_ini_file os net (ini_path path (fst e)) (fst st) = Inr (fst st', snd st')"
        using e(3) by (auto simp: init_entry_def res_simps split: prod.splits)
      then have "settings_of (fst st') = settings_of (fst st)"
        by (rule file_settings) (use assms(2) [of "fst e" "snd e"] e(1) in simp)
      then show ?thesis using e(2) by simp
    qed (use e(2,3) in \<open>auto simp: init_entry_def split: prod.splits if_splits\<close>)
  qed
  then show ?thesis by simp
qed

section \<open>Properties\<close>

text \<open>C23: After a reload the keys and the actions are what a fresh start would have found, whatever the
  earlier sessions did: from any statics they leave, as long as the script directory is the same, the
  initialisation faults where the fresh one does, and otherwise finds as many actions, the same
  key tables, and for each sequence the same action.\<close>
theorem reload_as_fresh:
  assumes "pactions c = None" and "script_dir c = script_dir d"
  shows "map_sum id (\<lambda>(c, rc). (find_sequence_action c, input_keys c, input_key_codes c, rc))
      (launchpad_init os net proc_dir dir path (launchpad_deinit d)) =
    map_sum id (\<lambda>(c, rc). (find_sequence_action c, input_keys c, input_key_codes c, rc))
      (launchpad_init os net proc_dir dir path c)"
proof -
  have view: "find_sequence_action c = find_sequence_action d" if "same_table c d" for c d
    using same_table_simps(1) [OF that] by (intro ext) (simp add: find_sequence_action_def)
  have "alike same_outcome (launchpad_init os net proc_dir dir path (launchpad_deinit d)) (launchpad_init os net proc_dir dir path c)"
    using assms by (intro init_alike) (simp_all add: launchpad_deinit_def)
  then show ?thesis
    by (rule alike_view) (elim same_outcomeE, simp add: view, simp add: same_table_def)
qed

text \<open>The settings are not: a reload whose files have no [Settings] section (any longer) keeps introducer,
  trailer, interval, delay, event files and script directory of the session before.\<close>
theorem removed_settings_kept:
  assumes "launchpad_init os net proc_dir (Some es) path (launchpad_deinit d) = Inr (c, rc)"
    and "\<And>nm b db. (nm, b) \<in> set es \<Longrightarrow> inidb_open os (ini_path path nm) = Inr (Some db) \<Longrightarrow>
      inidb_find_section (Some db) ''Settings'' < 0"
  shows "introducer c = introducer d \<and> trailer c = trailer d \<and> hot_interval c = hot_interval d \<and> key_delay c = key_delay d \<and>
    kbd_input c = kbd_input d \<and> fw_input c = fw_input d \<and> script_dir c = script_dir d"
  using init_settings [OF assms] by (simp add: settings_of_def launchpad_deinit_def)

text \<open>A session that had another interval and an action is followed by one with the file of ConfigProps.\<close>

definition last_session :: config where
  "last_session = initial_config\<lparr>hot_interval := 7, pactions := Some []\<rparr>"

abbreviation reload_sample :: "config \<Rightarrow> (config \<times> int) res" where
  "reload_sample \<equiv> launchpad_init sample_dir_os no_network ''/'' (Some [(''x.ini'', True)]) ''/''"

theorem reload_as_fresh_witness:
  "\<exists>c a. reload_sample (launchpad_deinit last_session) = Inr (c, 1) \<and>
     find_sequence_action c [30, 48] = Some (Row a) \<and> act_sequence a = [30, 48]"
proof -
  obtain c1 where c1: "reload_sample initial_config = Inr (c1, 1)" "map act_sequence (actions c1) = [[30, 48]]"
    using sample_dir_run by (elim exE conjE)
  from map_eq_Cons_D [OF c1(2)] obtain a where a: "actions c1 = [a]" "act_sequence a = [30, 48]"
    by (metis Nil_is_map_conv)
  then have "find_sequence_action c1 [30, 48] = Some (Row a)" by (simp add: find_sequence_action_def)
  moreover have "pactions initial_config = None" "script_dir initial_config = script_dir last_session"
    by (simp_all add: initial_config_def last_session_def)
  from reload_as_fresh [OF this, of sample_dir_os no_network "''/''" "Some [(''x.ini'', True)]" "''/''"]
  have "map_sum id (\<lambda>(c, rc). (find_sequence_action c, input_keys c, input_key_codes c, rc)) (reload_sample (launchpad_deinit last_session)) =
      Inr (find_sequence_action c1, input_keys c1, input_key_codes c1, 1)"
    by (simp only: c1(1) map_sum.simps prod.case)
  from map_sum_Inr [OF this] obtain c where "reload_sample (launchpad_deinit last_session) = Inr (c, 1)"
      "find_sequence_action c = find_sequence_action c1"
    by (clarsimp simp only: prod.case prod.inject split_paired_Ex)
  ultimately show ?thesis using a(2) by metis
qed

theorem removed_settings_kept_witness:
  "\<exists>c. reload_sample (launchpad_deinit last_session) = Inr (c, 1) \<and> hot_interval c = 7"
proof -
  have "same_outcome (initial_config, 1 :: int) (launchpad_deinit last_session, 1)"
    by (simp add: same_outcome_def same_table_def launchpad_deinit_def last_session_def initial_config_def)
  then have "alike same_outcome (reload_sample initial_config) (reload_sample (launchpad_deinit last_session))"
    by (intro init_alike) (simp_all add: same_outcome_def same_table_def)
  moreover obtain c1 where "reload_sample initial_config = Inr (c1, 1)" using sample_dir_run by (elim exE conjE)
  ultimately have "alike same_outcome (Inr (c1, 1)) (reload_sample (launchpad_deinit last_session))" by (simp only:)
  from alike_Inr [OF this] obtain c where c: "reload_sample (launchpad_deinit last_session) = Inr (c, 1)"
    by (auto simp: same_outcome_def)
  have "inidb_find_section (Some db) ''Settings'' < 0" if "inidb_open sample_dir_os (ini_path ''/'' ''x.ini'') = Inr (Some db)" for db
    using sample_dir_db that by (simp add: ini_path_def)
  from removed_settings_kept [OF c] this have "hot_interval c = hot_interval last_session" by simp
  with c show ?thesis by (simp add: last_session_def)
qed

end
