(* ===== verification/Flash.thy ===== *)
theory Flash
  imports ScreenProps
begin

text \<open>
  The threads of screen\_flash\_area in src/src/screen.c: without the wait flag a thread runs flash\_thread,
  which copies the parameters from a static structure when it begins. The callers give the flag, and
  Screen has the function for it; here the calls, the threads and the drawing of the main program
  come in the order of a list of events, and a thread gives way where it waits (in msdelay).
\<close>

section \<open>Threads\<close>

record flash_param =
  fl_count :: int
  fl_x0 :: int
  fl_y0 :: int
  fl_w :: int
  fl_h :: int
  fl_delay :: int

text \<open>Inverted: the thread waits behind the inverting update, with the saved area and what is left to do.\<close>

datatype flash_thread = Created | Looping flash_param pixmap | Inverted flash_param pixmap | Finished

record flash_world =
  fl_screen :: fbscreen
  fl_static :: flash_param
  fl_threads :: "flash_thread list"
  fl_effects :: "effect list"

datatype flash_event =
    Flash flash_param                  \<comment> \<open>screen\_flash\_area without the wait flag\<close>
  | Begins nat                         \<comment> \<open>a thread copies its parameters and saves the area\<close>
  | Goes_on nat                        \<comment> \<open>a thread runs to its next msdelay, or to its end\<close>
  | Draws int int int int int          \<comment> \<open>the main program fills an area\<close>

definition flash_call :: "flash_param \<Rightarrow> flash_world \<Rightarrow> flash_world" where
  "flash_call p w = w\<lparr>fl_static := p, fl_threads := fl_threads w @ [Created]\<rparr>"

definition set_thread :: "nat \<Rightarrow> flash_thread \<Rightarrow> flash_world \<Rightarrow> flash_world" where
  "set_thread i t w = w\<lparr>fl_threads := (fl_threads w)[i := t]\<rparr>"

definition flash_begin :: "(nat \<Rightarrow> bool) \<Rightarrow> nat \<Rightarrow> flash_world \<Rightarrow> flash_world res" where
  "flash_begin malloc i w =
     (let p = fl_static w in
      case pixbuf_alloc malloc (fl_w p) (fl_h p) of
        None \<Rightarrow> Inr (set_thread i Finished w)
      | Some q \<Rightarrow> bindR (screen_get_pixmap (fl_screen w) (fl_x0 p) (fl_y0 p) (Some q)) (\<lambda>q'.
          case q' of None \<Rightarrow> Inr (set_thread i Finished w)
          | Some psave \<Rightarrow> Inr (set_thread i (Looping p psave) w)))"

definition flash_invert :: "nat \<Rightarrow> flash_param \<Rightarrow> pixmap \<Rightarrow> flash_world \<Rightarrow> flash_world" where
  "flash_invert i p psave w =
     (if 0 < fl_count p
      then set_thread i (Inverted p psave) (w\<lparr>fl_effects := fl_effects w @
             [Update UMODE_INVERT (fl_x0 p) (fl_y0 p) (fl_x0 p + fl_w p) (fl_y0 p + fl_h p), Delay (fl_delay p)]\<rparr>)
      else set_thread i Finished w)"

definition flash_restore :: "nat \<Rightarrow> flash_param \<Rightarrow> pixmap \<Rightarrow> flash_world \<Rightarrow> flash_world res" where
  "flash_restore i p psave w =
     bindR (screen_put_pixmap (fl_screen w) (fl_x0 p) (fl_y0 p) (Some psave)) (\<lambda>(s, _).
       Inr (set_thread i (Looping (p\<lparr>fl_count := fl_count p - 1\<rparr>) psave) (w\<lparr>fl_screen := s, fl_effects := fl_effects w @
         [Update UMODE_PARTIAL (fl_x0 p) (fl_y0 p) (fl_x0 p + fl_w p) (fl_y0 p + fl_h p), Delay (fl_delay p)]\<rparr>)))"

fun flash_happens :: "(nat \<Rightarrow> bool) \<Rightarrow> flash_event \<Rightarrow> flash_world \<Rightarrow> flash_world res" where
  "flash_happens malloc (Flash p) w = Inr (flash_call p w)"
| "flash_happens malloc (Begins i) w =
     (if i < length (fl_threads w) \<and> fl_threads w ! i = Created then flash_begin malloc i w else Inr w)"
| "flash_happens malloc (Goes_on i) w =
     (if i < length (fl_threads w)
      then (case fl_threads w ! i of
              Looping p psave \<Rightarrow> Inr (flash_invert i p psave w)
            | Inverted p psave \<Rightarrow> flash_restore i p psave w
            | _ \<Rightarrow> Inr w)
      else Inr w)"
| "flash_happens malloc (Draws x y wd h color) w =
     bindR (screen_rect_at (fl_screen w) x y wd h color) (\<lambda>(s, _). Inr (w\<lparr>fl_screen := s\<rparr>))"

definition flash_run :: "(nat \<Rightarrow> bool) \<Rightarrow> flash_event list \<Rightarrow> flash_world \<Rightarrow> flash_world res" where
  "flash_run malloc evs w = foldR (flash_happens malloc) evs w"

text \<open>How a thread begins depends on the structure and the screen.\<close>

definition begun :: "(nat \<Rightarrow> bool) \<Rightarrow> flash_param \<Rightarrow> fbscreen \<Rightarrow> flash_thread res" where
  "begun malloc p s =
     (case pixbuf_alloc malloc (fl_w p) (fl_h p) of
        None \<Rightarrow> Inr Finished
      | Some q \<Rightarrow> mapR (\<lambda>q'. case q' of None \<Rightarrow> Finished | Some psave \<Rightarrow> Looping p psave)
          (screen_get_pixmap s (fl_x0 p) (fl_y0 p) (Some q)))"

lemma flash_begin_begun: "flash_begin malloc i w = mapR (\<lambda>t. set_thread i t w) (begun malloc (fl_static w) (fl_screen w))"
proof (cases "pixbuf_alloc malloc (fl_w (fl_static w)) (fl_h (fl_static w))")
  case (Some q)
  then show ?thesis
    by (cases "screen_get_pixmap (fl_screen w) (fl_x0 (fl_static w)) (fl_y0 (fl_static w)) (Some q)")
      (auto simp: flash_begin_def begun_def Let_def split: option.split)
qed (simp add: flash_begin_def begun_def Let_def)

section \<open>A thread left alone\<close>

definition turns :: "nat \<Rightarrow> nat \<Rightarrow> flash_event list" where
  "turns i n = replicate (2 * n + 1) (Goes_on i)"

lemma turns_loop:
  assumes "i < length (fl_threads w)" "fl_threads w ! i = Looping p psave" "n = nat (fl_count p)"
  shows "mapR (\<lambda>w'. (fl_screen w', fl_effects w', fl_threads w' ! i)) (flash_run malloc (turns i n) w) =
    mapR (\<lambda>(s, es). (s, fl_effects w @ es, Finished))
      (flash_loop n (fl_screen w) (fl_x0 p) (fl_y0 p) (fl_w p) (fl_h p) (fl_delay p) psave)"
  using assms
proof (induction n arbitrary: w p)
  case 0
  then show ?case by (simp add: turns_def flash_run_def flash_invert_def set_thread_def)
next
  case (Suc n)
  let ?up = "\<lambda>m. Update m (fl_x0 p) (fl_y0 p) (fl_x0 p + fl_w p) (fl_y0 p + fl_h p)"
  let ?w1 = "set_thread i (Inverted p psave) (w\<lparr>fl_effects := fl_effects w @ [?up UMODE_INVERT, Delay (fl_delay p)]\<rparr>)"
  have some: "0 < fl_count p" using Suc.prems(3) by simp
  have "turns i (Suc n) = Goes_on i # Goes_on i # turns i n" by (simp add: turns_def)
  then have run: "flash_run malloc (turns i (Suc n)) w = bindR (flash_restore i p psave ?w1) (flash_run malloc (turns i n))"
    using Suc.prems some by (simp add: flash_run_def [abs_def] flash_invert_def set_thread_def)
  show ?case
  proof (cases "screen_put_pixmap (fl_screen w) (fl_x0 p) (fl_y0 p) (Some psave)")
    case (Inl e)
    then show ?thesis unfolding run by (simp add: flash_restore_def set_thread_def)
  next
    case (Inr r)
    obtain s k where r: "r = (s, k)" by (cases r)
    let ?p = "p\<lparr>fl_count := fl_count p - 1\<rparr>"
    let ?w2 = "set_thread i (Looping ?p psave) (?w1\<lparr>fl_screen := s,
        fl_effects := fl_effects ?w1 @ [?up UMODE_PARTIAL, Delay (fl_delay p)]\<rparr>)"
    have w2: "flash_restore i p psave ?w1 = Inr ?w2"
      using Inr r by (simp add: flash_restore_def set_thread_def)
    have "mapR (\<lambda>w'. (fl_screen w', fl_effects w', fl_threads w' ! i)) (flash_run malloc (turns i n) ?w2) =
        mapR (\<lambda>(s, es). (s, fl_effects ?w2 @ es, Finished))
          (flash_loop n (fl_screen ?w2) (fl_x0 ?p) (fl_y0 ?p) (fl_w ?p) (fl_h ?p) (fl_delay ?p) psave)"
      by (rule Suc.IH) (use Suc.prems in \<open>simp_all add: set_thread_def\<close>)
    then show ?thesis
      unfolding run w2 using Inr r
      by (cases "flash_loop n s (fl_x0 p) (fl_y0 p) (fl_w p) (fl_h p) (fl_delay p) psave") (auto simp: set_thread_def)
  qed
qed

lemma finished_turns:
  "fl_threads w ! i = Finished \<Longrightarrow> flash_run malloc (replicate k (Goes_on i)) w = Inr w"
  by (induction k) (simp_all add: flash_run_def)

section \<open>Properties\<close>

text \<open>The thread does what the call with the wait flag does: when nothing else runs between its turns, it
  ends after two turns for each flash and one more, with the same screen and the same updates and
  delays in the same order as screen\_flash\_area has them, and faults where that does.\<close>
theorem flash_thread_alone:
  "mapR (\<lambda>w'. (fl_screen w', fl_effects w', fl_threads w' ! length (fl_threads w)))
      (flash_run malloc (Flash p # Begins (length (fl_threads w)) # turns (length (fl_threads w)) (nat (fl_count p))) w) =
    mapR (\<lambda>(s, es). (s, fl_effects w @ es, Finished))
      (screen_flash_area malloc (fl_screen w) (fl_count p) (fl_x0 p) (fl_y0 p) (fl_w p) (fl_h p) (fl_delay p) True)"
proof -
  let ?i = "length (fl_threads w)" and ?w = "flash_call p w"
  have run: "flash_run malloc (Flash p # Begins ?i # turns ?i n) w = bindR (flash_begin malloc ?i ?w) (flash_run malloc (turns ?i n))" for n
    by (simp add: flash_run_def [abs_def] flash_call_def)
  have gone: "flash_run malloc (turns ?i n) (set_thread ?i Finished ?w) = Inr (set_thread ?i Finished ?w)" for n
    unfolding turns_def by (rule finished_turns) (simp add: set_thread_def flash_call_def)
  have loop: "mapR (\<lambda>w'. (fl_screen w', fl_effects w', fl_threads w' ! ?i)) (flash_run malloc (turns ?i (nat (fl_count p))) (set_thread ?i (Looping p q) ?w)) =
      mapR (\<lambda>(s, es). (s, fl_effects w @ es, Finished))
        (flash_loop (nat (fl_count p)) (fl_screen w) (fl_x0 p) (fl_y0 p) (fl_w p) (fl_h p) (fl_delay p) q)" for q
    using turns_loop [of ?i "set_thread ?i (Looping p q) ?w" p q] by (simp add: set_thread_def flash_call_def)
  have w: "fl_static ?w = p" "fl_screen ?w = fl_screen w" "fl_effects ?w = fl_effects w" "fl_threads ?w ! ?i = Created"
      "?i < length (fl_threads ?w)"
    by (simp_all add: flash_call_def)
  show ?thesis
  proof (cases "pixbuf_alloc malloc (fl_w p) (fl_h p)")
    case None
    then show ?thesis
      using gone w by (simp add: run flash_begin_def screen_flash_area_def flash_whole_def) (simp add: set_thread_def)
  next
    case (Some q)
    show ?thesis
    proof (cases "screen_get_pixmap (fl_screen w) (fl_x0 p) (fl_y0 p) (Some q)")
      case (Inl e)
      then show ?thesis using Some w by (simp add: run flash_begin_def screen_flash_area_def flash_whole_def)
    next
      case (Inr r)
      then show ?thesis
        using Some w gone loop
        by (cases r; simp add: run flash_begin_def screen_flash_area_def flash_whole_def) (simp add: set_thread_def)
    qed
  qed
qed

text \<open>Parameters get lost: a call that comes before an earlier call's thread has begun replaces the
  parameters of that thread, and both flash the second area.\<close>
theorem flash_parameters_lost:
  assumes "flash_run malloc [Flash p, Flash q, Begins (length (fl_threads w)), Begins (Suc (length (fl_threads w)))] w = Inr w'"
  shows "fl_threads w' ! Suc (length (fl_threads w)) = fl_threads w' ! length (fl_threads w) \<and>
    (fl_threads w' ! length (fl_threads w) = Finished \<or> (\<exists>psave. fl_threads w' ! length (fl_threads w) = Looping q psave))"
proof -
  let ?w = "flash_call q (flash_call p w)" and ?n = "length (fl_threads w)"
  have st: "fl_static ?w = q" "fl_screen ?w = fl_screen w" "fl_threads ?w = fl_threads w @ [Created, Created]"
    by (simp_all add: flash_call_def)
  obtain t where t: "begun malloc q (fl_screen w) = Inr t"
    using assms st by (auto simp: flash_run_def flash_begin_begun nth_append res_simps)
  then have "w' = set_thread (Suc ?n) t (set_thread ?n t ?w)"
    using assms st by (simp add: flash_run_def flash_begin_begun nth_append set_thread_def)
  moreover have "t = Finished \<or> (\<exists>psave. t = Looping q psave)"
    using t by (auto simp: begun_def res_simps split: option.splits)
  ultimately show ?thesis using st by (simp add: set_thread_def nth_append)
qed

end
