(* ===== verification/MainC.thy ===== *)
theory MainC
  imports Launch Daemon
begin

text \<open>
  main of src/src/main.c from its arguments to its end: the process directory, the arguments, the
  daemon, and the sessions between which SIGHUP asks for a new initialisation. Launch has one
  session, Daemon the start in the background.
\<close>

section \<open>The process\<close>

text \<open>All sessions, one for each element of the list at most; Launch.run\_process gives the last.\<close>

fun process_sessions :: "outside list \<Rightarrow> string \<Rightarrow> cmdline \<Rightarrow> short list \<Rightarrow> config \<Rightarrow> session list res" where
  "process_sessions [] proc_dir cl seq c = Inr []"
| "process_sessions (o_s # rest) proc_dir cl seq c =
     bindR (run_session o_s proc_dir cl seq c) (\<lambda>s.
       if wants_again s
       then mapR (\<lambda>ss. s # ss)
         (process_sessions rest proc_dir cl (case s_state s of None \<Rightarrow> seq | Some st \<Rightarrow> hot_sequence st) (s_config s))
       else Inr [s])"

text \<open>The statics of main.c when the process begins.\<close>

definition initial_cmdline :: cmdline where
  "initial_cmdline = \<lparr>do_daemonize = True, pkb_file = None, pfw_file = None\<rparr>"

record process =
  p_exit :: daemon_result          \<comment> \<open>of daemonize; Returned when it was not called\<close>
  p_lock :: "string option"        \<comment> \<open>the lock file\<close>
  p_daemon :: bool                 \<comment> \<open>running\_as\_daemon\<close>
  p_sessions :: "session list"

text \<open>av[0], which main reads only when readlink fails.\<close>

definition arg0 :: "string list \<Rightarrow> string" where
  "arg0 argv = (case argv of [] \<Rightarrow> [] | a # _ \<Rightarrow> a)"

definition main_c :: "string option \<Rightarrow> string list \<Rightarrow> start_system \<Rightarrow> outside list \<Rightarrow> process res" where
  "main_c exe argv w outs =
     bindR (guardR (exe \<noteq> None \<or> argv \<noteq> []) Null_deref) (\<lambda>_.
     bindR (process_directory exe (arg0 argv)) (\<lambda>proc_dir.
       let cl = parse_args (tl argv) initial_cmdline;
           (result, lock) = (if do_daemonize cl then daemonize w else (Returned, lock_file w))
       in if result = Returned
          then mapR (\<lambda>ss. \<lparr>p_exit = Returned, p_lock = lock, p_daemon = do_daemonize cl, p_sessions = ss\<rparr>)
                 (process_sessions outs proc_dir cl (replicate MAXSEQ 0) initial_config)
          else Inr \<lparr>p_exit = result, p_lock = lock, p_daemon = False, p_sessions = []\<rparr>))"

section \<open>From one session to the next\<close>

text \<open>What a session leaves behind, when the process is still alive: the calls of close are those of the
  descriptors it has opened.\<close>

definition left_clean :: "outside \<Rightarrow> string \<Rightarrow> cmdline \<Rightarrow> session \<Rightarrow> bool" where
  "left_clean o_s proc_dir cl s =
     (\<forall>st. s_state s = Some st \<longrightarrow> alive st \<longrightarrow>
        (\<forall>fd. \<not> grabbed (grab_calls st) fd) \<and> timer st = 0 \<and> \<not> input_captured st \<and> screen st = None \<and>
        s_fds s = no_fds \<and> pactions (s_config s) = None \<and>
        (\<exists>c0 c rc. launchpad_init (o_os o_s) (o_net o_s) proc_dir (o_dir o_s) proc_dir c0 = Inr (c, rc) \<and> pactions c0 = None \<and>
           s_closed s = session_opens o_s cl c \<and> s_unmapped s = session_maps o_s))"

lemma session_runs:
  assumes "run_session o_s proc_dir cl seq c0 = Inr s" "s_state s = Some st" "alive st"
  shows "\<exists>c rc env st0 sock l. launchpad_init (o_os o_s) (o_net o_s) proc_dir (o_dir o_s) proc_dir c0 = Inr (c, rc) \<and>
    run_loop o_s c (open_event_files (o_open o_s) cl c no_fds) seq = Inr (env, st0, sock, l) \<and> s = teardown env st0 c sock l"
proof -
  obtain c rc where init: "launchpad_init (o_os o_s) (o_net o_s) proc_dir (o_dir o_s) proc_dir c0 = Inr (c, rc)" "0 \<le> rc"
    using assms(1,2) by (auto simp: run_session_def res_simps split: if_splits)
  obtain env st0 sock l where "run_loop o_s c (open_event_files (o_open o_s) cl c no_fds) seq = Inr (env, st0, sock, l)"
      "s = (if alive st0 then teardown env st0 c sock l
         else \<lparr>s_config = c, s_state = Some st0, s_fds = e_fds env, s_closed = [], s_unmapped = [], s_socket = sock, s_listening = l\<rparr>)"
    using assms(1) init by (auto simp: run_session_def res_simps split: if_splits)
  then show ?thesis using init assms(2,3) by (auto split: if_splits)
qed

lemma session_clean:
  assumes "length seq = MAXSEQ" "pactions c0 = None" "fb_map (o_display o_s) 0 = None"
    and "run_session o_s proc_dir cl seq c0 = Inr s"
  shows "left_clean o_s proc_dir cl s"
    and "wants_again s \<Longrightarrow> pactions (s_config s) = None \<and> length (case s_state s of None \<Rightarrow> seq | Some st \<Rightarrow> hot_sequence st) = MAXSEQ"
proof -
  have end_of: "(\<forall>fd. \<not> grabbed (grab_calls st) fd) \<and> timer st = 0 \<and> \<not> input_captured st \<and> screen st = None \<and>
      s_fds s = no_fds \<and> pactions (s_config s) = None \<and>
      length (hot_sequence st) = MAXSEQ \<and>
      (\<exists>c rc. launchpad_init (o_os o_s) (o_net o_s) proc_dir (o_dir o_s) proc_dir c0 = Inr (c, rc) \<and>
         s_closed s = session_opens o_s cl c \<and> s_unmapped s = session_maps o_s)"
    if st: "s_state s = Some st" "alive st" for st
  proof -
    from session_runs [OF assms(4) st] obtain c rc env st0 sock l where
        init: "launchpad_init (o_os o_s) (o_net o_s) proc_dir (o_dir o_s) proc_dir c0 = Inr (c, rc)"
      and loop: "run_loop o_s c (open_event_files (o_open o_s) cl c no_fds) seq = Inr (env, st0, sock, l)"
      and s: "s = teardown env st0 c sock l"
      by blast
    note ended = session_leaves_nothing [OF assms(1,3) init assms(4) st]
    have "hot_ok env st0" by (rule loop_state_ok [OF assms(1) loop])
    then have "length (hot_sequence st) = MAXSEQ"
      using st(1) by (auto simp: s teardown_state hot_defs release_input_def engage_hotkey_timer_def)
    moreover have "pactions (s_config s) = None"
      by (simp add: s teardown_state launchpad_deinit_def)
    ultimately show ?thesis using ended init by blast
  qed
  show "left_clean o_s proc_dir cl s" unfolding left_clean_def using end_of assms(2) by blast
  show "pactions (s_config s) = None \<and> length (case s_state s of None \<Rightarrow> seq | Some st \<Rightarrow> hot_sequence st) = MAXSEQ"
    if "wants_again s"
    using that end_of by (auto simp: wants_again_def split: option.splits)
qed

lemma sessions_clean:
  assumes "length seq = MAXSEQ" "pactions c0 = None" "process_sessions outs proc_dir cl seq c0 = Inr ss"
    and "list_all (\<lambda>o_s. fb_map (o_display o_s) 0 = None) outs"
  shows "list_all2 (\<lambda>o_s s. left_clean o_s proc_dir cl s) (take (length ss) outs) ss"
  using assms
proof (induction outs arbitrary: seq c0 ss)
  case (Cons o_s rest)
  obtain s where s: "run_session o_s proc_dir cl seq c0 = Inr s"
    using Cons.prems(3) by (auto simp: res_simps)
  have map: "fb_map (o_display o_s) 0 = None" "list_all (\<lambda>o_s. fb_map (o_display o_s) 0 = None) rest"
    using Cons.prems(4) by simp_all
  note clean = session_clean [OF Cons.prems(1,2) map(1) s]
  show ?case
  proof (cases "wants_again s")
    case True
    then obtain ts where ts: "process_sessions rest proc_dir cl (case s_state s of None \<Rightarrow> seq | Some st \<Rightarrow> hot_sequence st) (s_config s) = Inr ts"
        "ss = s # ts"
      using Cons.prems(3) s by (auto simp: res_simps)
    have start: "pactions (s_config s) = None"
        "length (case s_state s of None \<Rightarrow> seq | Some st \<Rightarrow> hot_sequence st) = MAXSEQ"
      using clean(2) [OF True] by simp_all
    show ?thesis using Cons.IH [OF start(2) start(1) ts(1) map(2)] clean(1) by (simp add: ts(2))
  next
    case False
    then have "ss = [s]" using Cons.prems(3) s by simp
    then show ?thesis using clean(1) by simp
  qed
qed simp

lemma sessions_chained:
  assumes "process_sessions outs proc_dir cl seq c0 = Inr ss"
  shows "list_all wants_again (butlast ss) \<and> length ss \<le> length outs \<and>
    (length ss < length outs \<longrightarrow> ss \<noteq> [] \<and> \<not> wants_again (last ss))"
  using assms
proof (induction outs arbitrary: seq c0 ss)
  case (Cons o_s rest)
  obtain s where s: "run_session o_s proc_dir cl seq c0 = Inr s"
    using Cons.prems by (auto simp: res_simps)
  show ?case
  proof (cases "wants_again s")
    case True
    then obtain ts where ts: "process_sessions rest proc_dir cl (case s_state s of None \<Rightarrow> seq | Some st \<Rightarrow> hot_sequence st) (s_config s) = Inr ts"
        "ss = s # ts"
      using Cons.prems s by (auto simp: res_simps)
    show ?thesis using Cons.IH [OF ts(1)] True by (auto simp: ts(2))
  next
    case False
    then have "ss = [s]" using Cons.prems s by simp
    then show ?thesis using False by simp
  qed
qed simp

section \<open>The property\<close>


text \<open>/launchpad without arguments, whose daemon gets an introducer tap and then SIGTERM.\<close>

definition sample_start :: start_system where
  "sample_start = \<lparr>ppid_is_init = False, lock_file = None, lock_open = True, lock_create = True,
     fork_result = 0, parent_wakes = Alarm, setsid_ok = True, own_pid = 18, write_ok = True\<rparr>"


end
