(* ===== verification/Displays.thy ===== *)
theory Displays
  imports Overlay
begin

text \<open>
  The interface hal::IDisplay (src/include/launchpad/hal/display.hpp) as a record of functions (without
  clear, which nothing here calls), and the
  code of src/src/ui/font.cpp and src/src/ui/status\_bar.cpp over it. Two displays that agree go through
  this code in step, faults included (the locale two\_displays); and on the Kindle's display it is the
  code of Overlay.
\<close>

section \<open>The interface\<close>

record 'd idisplay =
  bounds_of :: "'d \<Rightarrow> nat \<times> nat"
  put_at :: "nat \<Rightarrow> nat \<Rightarrow> 8 word \<Rightarrow> 'd \<Rightarrow> 'd res"
  get_at :: "nat \<Rightarrow> nat \<Rightarrow> 'd \<Rightarrow> 8 word res"
  update_at :: "nat \<times> nat \<times> nat \<times> nat \<Rightarrow> 'd \<Rightarrow> 'd"

section \<open>font.cpp\<close>

definition byte_on :: "'d idisplay \<Rightarrow> 8 word list \<Rightarrow> nat \<Rightarrow> nat \<Rightarrow> nat \<Rightarrow> nat \<Rightarrow> 'd \<Rightarrow> 'd res" where
  "byte_on i font x y row_data byte_idx d =
     bindR (guardR (row_data + byte_idx < length font) Buffer_overread) (\<lambda>_.
       let byte_val = font ! (row_data + byte_idx);
           left_nibble = drop_bit 4 byte_val AND 0x0F; right_nibble = byte_val AND 0x0F
       in bindR (if 0 < left_nibble then put_at i (u32 (x + byte_idx * 2)) y 0 d else Inr d) (\<lambda>d.
            if 0 < right_nibble then put_at i (u32 (x + byte_idx * 2 + 1)) y 0 d else Inr d))"

definition char_on :: "'d idisplay \<Rightarrow> 8 word list \<Rightarrow> nat \<Rightarrow> nat \<Rightarrow> char \<Rightarrow> 'd \<Rightarrow> 'd res" where
  "char_on i font x y c =
     foldR (\<lambda>row. foldR (byte_on i font x (u32 (y + row)) (of_char c * BYTES_PER_GLYPH + row * BYTES_PER_ROW))
         [0..<BYTES_PER_ROW])
       [0..<FONT_GLYPH_HEIGHT]"

fun string_on :: "'d idisplay \<Rightarrow> 8 word list \<Rightarrow> nat \<Rightarrow> nat \<Rightarrow> string \<Rightarrow> 'd \<Rightarrow> 'd res" where
  "string_on i font current_x y [] d = Inr d"
| "string_on i font current_x y (c # cs) d =
     bindR (char_on i font current_x y c d) (string_on i font (u32 (current_x + FONT_GLYPH_WIDTH)) y cs)"

section \<open>status\_bar.cpp\<close>

definition bar_region :: "nat \<times> nat \<Rightarrow> nat \<times> nat \<times> nat \<times> nat" where
  "bar_region wh = (case wh of (w, h) \<Rightarrow>
     (0, if STATUS_BAR_HEIGHT < h then h - STATUS_BAR_HEIGHT else 0, w, STATUS_BAR_HEIGHT))"

definition region_pixels :: "nat \<times> nat \<times> nat \<times> nat \<Rightarrow> (nat \<times> nat) list" where
  "region_pixels r = (case r of (rx, ry, rw, rh) \<Rightarrow> concat (map (\<lambda>y. map (\<lambda>x. (x, y)) [0..<rw]) [ry..<ry + rh]))"

fun read_on :: "'d idisplay \<Rightarrow> 'd \<Rightarrow> (nat \<times> nat) list \<Rightarrow> 8 word list res" where
  "read_on i d [] = Inr []"
| "read_on i d ((x, y) # ps) = bindR (get_at i x y d) (\<lambda>g. mapR (\<lambda>gs. g # gs) (read_on i d ps))"

definition capture_on :: "'d idisplay \<Rightarrow> 'd \<Rightarrow> status_bar \<Rightarrow> status_bar res" where
  "capture_on i d sb =
     mapR (\<lambda>gs. sb\<lparr>saved_pixels := gs, sb_active := True\<rparr>) (read_on i d (region_pixels (bar_region (bounds_of i d))))"

definition restore_on :: "'d idisplay \<Rightarrow> 'd \<times> status_bar \<Rightarrow> ('d \<times> status_bar) res" where
  "restore_on i x = (case x of (d, sb) \<Rightarrow>
     if \<not> sb_active sb \<or> saved_pixels sb = [] then Inr (d, sb)
     else let region = bar_region (bounds_of i d) in
       bindR (foldR (\<lambda>(idx, (x, y)) d. bindR (guardR (idx < length (saved_pixels sb)) Buffer_overread)
                       (\<lambda>_. put_at i x y (saved_pixels sb ! idx) d))
                (enumerate 0 (region_pixels region)) d) (\<lambda>d.
         Inr (update_at i region d, sb\<lparr>saved_pixels := [], sb_active := False\<rparr>)))"

definition bar_text_on :: "'d idisplay \<Rightarrow> 8 word list \<Rightarrow> string \<Rightarrow> 'd \<Rightarrow> 'd res" where
  "bar_text_on i font str d =
     (let region = bar_region (bounds_of i d) in
      bindR (foldR (\<lambda>(x, y). put_at i x y 0xFF) (region_pixels region) d) (\<lambda>d.
      bindR (string_on i font 30 (fst (snd region) + 1) str d) (\<lambda>d. Inr (update_at i region d))))"

fun call_on :: "'d idisplay \<Rightarrow> 8 word list \<Rightarrow> call \<Rightarrow> 'd \<times> status_bar \<Rightarrow> ('d \<times> status_bar) res" where
  "call_on i font (Does e) x = Inr x"
| "call_on i font (Show_status message) (d, sb) =
     bindR (if \<not> sb_active sb then capture_on i d sb else Inr sb) (\<lambda>sb.
       mapR (\<lambda>d. (d, sb)) (bar_text_on i font message d))"
| "call_on i font (Show_result success) (d, sb) =
     mapR (\<lambda>d. (d, sb)) (bar_text_on i font (if success then ''Success!'' else ''Failure.'') d)"
| "call_on i font Hide_status x = restore_on i x"

section \<open>Two displays in step\<close>

lemma rel_bind:
  "rel_sum (=) A m n \<Longrightarrow> (\<And>a b. A a b \<Longrightarrow> rel_sum (=) B (f a) (g b)) \<Longrightarrow> rel_sum (=) B (bindR m f) (bindR n g)"
  by (cases m; cases n) auto

lemma rel_map:
  "rel_sum (=) A m n \<Longrightarrow> (\<And>a b. A a b \<Longrightarrow> B (f a) (g b)) \<Longrightarrow> rel_sum (=) B (mapR f m) (mapR g n)"
  by (cases m; cases n) auto

lemma rel_guard:
  "c = c' \<Longrightarrow> (c \<Longrightarrow> rel_sum (=) B f g) \<Longrightarrow> rel_sum (=) B (bindR (guardR c e) (\<lambda>_. f)) (bindR (guardR c' e) (\<lambda>_. g))"
  by (cases c) simp_all

lemma rel_foldR:
  assumes "\<And>x a b. x \<in> set xs \<Longrightarrow> A a b \<Longrightarrow> rel_sum (=) A (f x a) (g x b)"
  shows "A a b \<Longrightarrow> rel_sum (=) A (foldR f xs a) (foldR g xs b)"
  using assms
proof (induction xs arbitrary: a b)
  case (Cons x xs)
  have "rel_sum (=) A (f x a) (g x b)" using Cons.prems by simp
  then show ?case unfolding foldR.simps by (rule rel_bind) (use Cons in simp)
qed simp

text \<open>What is set on both is the same up to a rounding.\<close>

locale two_displays =
  fixes i :: "'a idisplay" and j :: "'b idisplay" and agree :: "'a \<Rightarrow> 'b \<Rightarrow> bool" and rounding :: "8 word \<Rightarrow> 8 word"
  assumes same_bounds: "agree a b \<Longrightarrow> bounds_of i a = bounds_of j b"
    and put_agree: "agree a b \<Longrightarrow> rounding g = rounding g' \<Longrightarrow> rel_sum (=) agree (put_at i x y g a) (put_at j x y g' b)"
    and get_agree: "agree a b \<Longrightarrow> rel_sum (=) (\<lambda>g g'. rounding g = rounding g') (get_at i x y a) (get_at j x y b)"
    and update_agree: "agree a b \<Longrightarrow> agree (update_at i r a) (update_at j r b)"
begin

definition bars_agree :: "status_bar \<Rightarrow> status_bar \<Rightarrow> bool" where
  "bars_agree s t = (sb_active s = sb_active t \<and> map rounding (saved_pixels s) = map rounding (saved_pixels t))"

definition states_agree :: "'a \<times> status_bar \<Rightarrow> 'b \<times> status_bar \<Rightarrow> bool" where
  "states_agree x y = (agree (fst x) (fst y) \<and> bars_agree (snd x) (snd y))"

lemma byte_agree: "agree a b \<Longrightarrow> rel_sum (=) agree (byte_on i font x y row k a) (byte_on j font x y row k b)"
  unfolding byte_on_def Let_def by (intro rel_guard refl rel_bind [where A = agree]) (auto intro: put_agree)

lemma char_agree: "agree a b \<Longrightarrow> rel_sum (=) agree (char_on i font x y c a) (char_on j font x y c b)"
  unfolding char_on_def by (intro rel_foldR byte_agree)

lemma string_agree: "agree a b \<Longrightarrow> rel_sum (=) agree (string_on i font x y cs a) (string_on j font x y cs b)"
proof (induction cs arbitrary: x a b)
  case (Cons c cs)
  from char_agree [OF Cons.prems] show ?case unfolding string_on.simps by (rule rel_bind) (rule Cons.IH)
qed simp

lemma bar_text_agree: "agree a b \<Longrightarrow> rel_sum (=) agree (bar_text_on i font m a) (bar_text_on j font m b)"
proof -
  assume ab: "agree a b"
  have "rel_sum (=) agree (foldR (\<lambda>(x, y). put_at i x y 0xFF) ps a) (foldR (\<lambda>(x, y). put_at j x y 0xFF) ps b)" for ps
    by (rule rel_foldR [where A = agree]) (auto intro: put_agree ab)
  then show ?thesis
    unfolding bar_text_on_def Let_def same_bounds [OF ab]
    by (intro rel_bind [where A = agree] string_agree) (simp_all add: update_agree)
qed

lemma read_agree:
  "agree a b \<Longrightarrow> rel_sum (=) (\<lambda>gs hs. map rounding gs = map rounding hs) (read_on i a ps) (read_on j b ps)"
proof (induction ps)
  case (Cons p ps)
  obtain x y where p: "p = (x, y)" by (cases p)
  from get_agree [OF Cons.prems, of x y] show ?case
    unfolding p read_on.simps by (rule rel_bind) (rule rel_map [OF Cons.IH [OF Cons.prems]], simp)
qed simp

lemma capture_agree: "agree a b \<Longrightarrow> rel_sum (=) bars_agree (capture_on i a s) (capture_on j b t)"
  unfolding capture_on_def using same_bounds [of a b]
  by (intro rel_map [where A = "\<lambda>gs hs. map rounding gs = map rounding hs"]) (simp_all add: read_agree bars_agree_def)

lemma restore_agree:
  assumes "states_agree x y"
  shows "rel_sum (=) states_agree (restore_on i x) (restore_on j y)"
proof -
  obtain a s b t where x: "x = (a, s)" and y: "y = (b, t)" by (cases x; cases y)
  have ab: "agree a b" and st: "sb_active s = sb_active t" "map rounding (saved_pixels s) = map rounding (saved_pixels t)"
    using assms by (simp_all add: states_agree_def bars_agree_def x y)
  have len: "length (saved_pixels s) = length (saved_pixels t)" using st(2) by (rule map_eq_imp_length_eq)
  have "rounding (saved_pixels s ! k) = rounding (saved_pixels t ! k)" if "k < length (saved_pixels s)" for k
    using arg_cong [OF st(2), of "\<lambda>l. l ! k"] that len by simp
  note saved = this
  have put: "rel_sum (=) agree
      (foldR (\<lambda>(idx, (x, y)) d. bindR (guardR (idx < length (saved_pixels s)) Buffer_overread)
        (\<lambda>_. put_at i x y (saved_pixels s ! idx) d)) ps a)
      (foldR (\<lambda>(idx, (x, y)) d. bindR (guardR (idx < length (saved_pixels t)) Buffer_overread)
        (\<lambda>_. put_at j x y (saved_pixels t ! idx) d)) ps b)" for ps
    by (rule rel_foldR [where A = agree]) (auto intro!: rel_guard put_agree ab saved simp: len)
  have none: "(saved_pixels s = []) = (saved_pixels t = [])" using len by auto
  show ?thesis
  proof (cases "\<not> sb_active s \<or> saved_pixels s = []")
    case True
    then show ?thesis using assms none st(1) by (auto simp: restore_on_def x y)
  next
    case False
    have "rel_sum (=) states_agree
        (bindR (foldR (\<lambda>(idx, (x, y)) d. bindR (guardR (idx < length (saved_pixels s)) Buffer_overread)
            (\<lambda>_. put_at i x y (saved_pixels s ! idx) d)) (enumerate 0 (region_pixels r)) a)
          (\<lambda>d. Inr (update_at i r d, s\<lparr>saved_pixels := [], sb_active := False\<rparr>)))
        (bindR (foldR (\<lambda>(idx, (x, y)) d. bindR (guardR (idx < length (saved_pixels t)) Buffer_overread)
            (\<lambda>_. put_at j x y (saved_pixels t ! idx) d)) (enumerate 0 (region_pixels r)) b)
          (\<lambda>d. Inr (update_at j r d, t\<lparr>saved_pixels := [], sb_active := False\<rparr>)))" for r
      by (rule rel_bind [OF put]) (simp add: states_agree_def bars_agree_def update_agree)
    then show ?thesis
      using False none st(1) by (simp add: restore_on_def x y same_bounds [OF ab] Let_def)
  qed
qed

lemma call_agree:
  assumes "states_agree x y"
  shows "rel_sum (=) states_agree (call_on i font c x) (call_on j font c y)"
proof -
  obtain a s b t where x: "x = (a, s)" and y: "y = (b, t)" by (cases x; cases y)
  have ab: "agree a b" and st: "bars_agree s t" using assms by (simp_all add: states_agree_def x y)
  have shown: "rel_sum (=) states_agree (mapR (\<lambda>d. (d, s')) (bar_text_on i font m a)) (mapR (\<lambda>d. (d, t')) (bar_text_on j font m b))"
    if "bars_agree s' t'" for s' t' m
    by (rule rel_map [OF bar_text_agree [OF ab]]) (simp add: states_agree_def that)
  show ?thesis
  proof (cases c)
    case (Show_status m)
    have "rel_sum (=) bars_agree (if \<not> sb_active s then capture_on i a s else Inr s) (if \<not> sb_active t then capture_on j b t else Inr t)"
      using st capture_agree [OF ab] by (simp add: bars_agree_def [of s t])
    then show ?thesis unfolding Show_status x y call_on.simps by (rule rel_bind) (rule shown)
  next
    case (Show_result success)
    then show ?thesis using shown [OF st] by (simp add: x y)
  qed (use assms restore_agree in \<open>simp_all add: x y\<close>)
qed

lemma calls_agree:
  "states_agree x y \<Longrightarrow> rel_sum (=) states_agree (foldR (call_on i font) cs x) (foldR (call_on j font) cs y)"
  by (rule rel_foldR [OF call_agree])

end

section \<open>The display of the Kindle\<close>

text \<open>A display with the refreshes that were asked for.\<close>

type_synonym refreshed = "kindle_display \<times> (nat \<times> nat \<times> nat \<times> nat) list"

definition kindle_idisplay :: "refreshed idisplay" where
  "kindle_idisplay = \<lparr>bounds_of = (\<lambda>(d, us). (d_width d, d_height d)),
     put_at = (\<lambda>x y g (d, us). mapR (\<lambda>d. (d, us)) (set_pixel x y g d)),
     get_at = (\<lambda>x y (d, us). get_pixel d x y),
     update_at = (\<lambda>(x, y, w, h) (d, us). (d, us @ update_region d x y w h))\<rparr>"

lemma kindle_simps [simp]:
  "bounds_of kindle_idisplay (d, us) = (d_width d, d_height d)"
  "put_at kindle_idisplay x y g (d, us) = mapR (\<lambda>d. (d, us)) (set_pixel x y g d)"
  "get_at kindle_idisplay x y (d, us) = get_pixel d x y"
  "update_at kindle_idisplay (x, y, w, h) (d, us) = (d, us @ update_region d x y w h)"
  by (simp_all add: kindle_idisplay_def)

lemma foldR_beside:
  assumes "\<And>x d. x \<in> set xs \<Longrightarrow> f x (d, us) = mapR (\<lambda>d. (d, us)) (g x d)"
  shows "foldR f xs (d, us) = mapR (\<lambda>d. (d, us)) (foldR g xs d)"
  using assms
proof (induction xs arbitrary: d)
  case (Cons x xs)
  then show ?case by (cases "g x d") simp_all
qed simp

lemma byte_kindle: "byte_on kindle_idisplay font x y row k (d, us) = mapR (\<lambda>d. (d, us)) (render_byte font x y row k d)"
proof -
  have pick: "bindR (if p then put_at kindle_idisplay a y 0 (d, us) else Inr (d, us))
      (\<lambda>e. if q then put_at kindle_idisplay b y 0 e else Inr e) =
    mapR (\<lambda>d. (d, us)) (bindR (if p then set_pixel a y 0 d else Inr d) (\<lambda>e. if q then set_pixel b y 0 e else Inr e))"
    for p q :: bool and a b
    by (cases p; cases "set_pixel a y 0 d") auto
  show ?thesis
    unfolding byte_on_def render_byte_def Let_def by (cases "row + k < length font") (simp_all only: guardR_def bindR.simps if_True if_False pick mapR.simps)
qed

lemma char_kindle: "char_on kindle_idisplay font x y c (d, us) = mapR (\<lambda>d. (d, us)) (draw_char font x y c d)"
  unfolding char_on_def draw_char_def render_glyph_row_def by (intro foldR_beside byte_kindle)

lemma string_kindle: "string_on kindle_idisplay font x y cs (d, us) = mapR (\<lambda>d. (d, us)) (draw_string font x y cs d)"
proof (induction cs arbitrary: x d)
  case (Cons c cs)
  then show ?case by (cases "draw_char font x y c d") (simp_all add: char_kindle)
qed simp

lemma read_kindle: "read_on kindle_idisplay (d, us) ps = read_pixels d ps"
  by (induction ps) auto

text \<open>Drawing keeps the size.\<close>

lemma set_pixel_size: "set_pixel x y g d = Inr d' \<Longrightarrow> same_size d d'"
  by (auto simp: set_pixel_def same_size_def Let_def guardR_def split: if_splits)

lemma draw_char_size: "draw_char font x y c d = Inr d' \<Longrightarrow> same_size d d'"
proof -
  have byte: "same_size e e'" if "render_byte font x y row k e = Inr e'" for x y row k e e'
    using that unfolding render_byte_def Let_def
    by (auto simp: res_simps guardR_def split: if_splits dest!: set_pixel_size intro: same_size_trans) (simp_all add: same_size_def)
  have row: "same_size d e'" if "render_glyph_row font x y row e = Inr e'" "same_size d e" for x y row e e'
    using foldR_invariant [OF that(1) [unfolded render_glyph_row_def], of "same_size d"] that(2) byte same_size_trans by blast
  assume "draw_char font x y c d = Inr d'"
  then show ?thesis
    using foldR_invariant [of _ _ d d' "same_size d"] row unfolding draw_char_def by (fastforce simp: same_size_def)
qed

lemma draw_string_size: "draw_string font x y cs d = Inr d' \<Longrightarrow> same_size d d'"
proof (induction cs arbitrary: x d)
  case (Cons c cs)
  then show ?case using draw_char_size same_size_trans by (auto simp: res_simps) blast
qed (simp add: same_size_def)

lemma foldR_size:
  assumes "foldR f xs d = Inr d'" "\<And>x e e'. f x e = Inr e' \<Longrightarrow> same_size e e'"
  shows "same_size d d'"
proof (rule foldR_invariant [OF assms(1)])
  show "same_size d d" by (simp add: same_size_def)
  show "same_size d t" if "same_size d s" "f x s = Inr t" for x s t
    using same_size_trans [OF that(1) assms(2) [OF that(2)]] .
qed

lemma kindle_region:
  "bar_region (d_width d, d_height d) = (0, bar_y d, d_width d, STATUS_BAR_HEIGHT)"
  "region_pixels (0, bar_y d, d_width d, STATUS_BAR_HEIGHT) = bar_pixels d"
  by (simp_all add: bar_region_def region_pixels_def bar_pixels_def bar_y_def)

lemma bar_text_kindle:
  "bar_text_on kindle_idisplay font m (d, us) = mapR (\<lambda>e. (e, us @ bar_update e)) (draw_bar_text font m d)"
proof -
  have fill: "foldR (\<lambda>(x, y). put_at kindle_idisplay x y 0xFF) ps (e, us) =
      mapR (\<lambda>e. (e, us)) (foldR (\<lambda>(x, y). set_pixel x y 0xFF) ps e)" for ps e
    by (rule foldR_beside) auto
  show ?thesis
  proof (cases "foldR (\<lambda>(x, y). set_pixel x y 0xFF) (bar_pixels d) d")
    case (Inr e)
    then have e: "bar_y e = bar_y d" "d_width e = d_width d"
      using foldR_size [OF Inr] set_pixel_size same_size_bar [of d e] by auto
    have "bar_update e' = update_region e' 0 (bar_y d) (d_width d) STATUS_BAR_HEIGHT"
      if "draw_string font x y m e = Inr e'" for x y e'
      using same_size_bar [OF draw_string_size [OF that]] e by (simp add: bar_update_def)
    then show ?thesis
      using Inr e by (cases "draw_string font 30 (bar_y d + 1) m e")
        (simp_all add: bar_text_on_def draw_bar_text_def Let_def kindle_region fill string_kindle)
  qed (simp add: bar_text_on_def draw_bar_text_def Let_def kindle_region fill)
qed

lemma restore_kindle:
  "restore_on kindle_idisplay ((d, us), sb) =
     mapR (\<lambda>(e, sb, vs). ((e, us @ vs), sb)) (restore_background d sb)"
proof (cases "\<not> sb_active sb \<or> saved_pixels sb = []")
  case True
  then show ?thesis by (auto simp: restore_on_def restore_background_def)
next
  case False
  let ?f = "\<lambda>(idx, (x, y)) d. bindR (guardR (idx < length (saved_pixels sb)) Buffer_overread) (\<lambda>_. set_pixel x y (saved_pixels sb ! idx) d)"
  have fold: "foldR (\<lambda>(idx, (x, y)) d. bindR (guardR (idx < length (saved_pixels sb)) Buffer_overread)
      (\<lambda>_. put_at kindle_idisplay x y (saved_pixels sb ! idx) d)) ps (d, us) = mapR (\<lambda>e. (e, us)) (foldR ?f ps d)" for ps
    by (rule foldR_beside) (auto simp: guardR_def)
  show ?thesis
  proof (cases "foldR ?f (enumerate 0 (bar_pixels d)) d")
    case (Inr e)
    then have "same_size d e"
      by (rule foldR_size) (auto simp: guardR_def split: if_splits dest: set_pixel_size)
    then have "bar_update e = update_region e 0 (bar_y d) (d_width d) STATUS_BAR_HEIGHT"
      using same_size_bar [of d e] by (simp add: bar_update_def)
    then show ?thesis using False Inr by (simp add: restore_on_def restore_background_def kindle_region fold Let_def)
  next
    case (Inl x)
    then show ?thesis using False by (simp add: restore_on_def restore_background_def kindle_region fold Let_def)
  qed
qed

definition seen :: "shown \<Rightarrow> refreshed \<times> status_bar" where
  "seen s = ((sh_display s, sh_updates s), sh_bar s)"

lemma call_kindle: "call_on kindle_idisplay font c (seen s) = mapR seen (do_call font c s)"
proof -
  let ?d = "sh_display s" and ?us = "sh_updates s" and ?sb = "sh_bar s"
  have shown: "mapR (\<lambda>e. (e, sb)) (bar_text_on kindle_idisplay font m (?d, ?us)) =
      mapR seen (mapR (barred_shown s) (bindR (draw_bar_text font m ?d) (\<lambda>d'. Inr (d', sb, bar_update d'))))" for m sb
    by (cases "draw_bar_text font m ?d") (simp_all add: bar_text_kindle seen_def barred_shown_def)
  show ?thesis
  proof (cases c)
    case (Show_status m)
    have captured: "capture_on kindle_idisplay (?d, ?us) ?sb = capture_background ?d ?sb"
      by (simp add: capture_on_def capture_background_def read_kindle kindle_region)
    define r where "r = (if \<not> sb_active ?sb then capture_background ?d ?sb else Inr ?sb)"
    have "call_on kindle_idisplay font c (seen s) = bindR r (\<lambda>sb. mapR (\<lambda>e. (e, sb)) (bar_text_on kindle_idisplay font m (?d, ?us)))"
        "do_call font c s = mapR (barred_shown s) (bindR r (\<lambda>sb. bindR (draw_bar_text font m ?d) (\<lambda>d'. Inr (d', sb, bar_update d'))))"
      by (simp_all add: Show_status seen_def show_status_def r_def captured)
    then show ?thesis unfolding shown by (cases r) simp_all
  next
    case (Show_result b)
    then show ?thesis using shown by (simp add: seen_def [of s] show_result_def)
  next
    case Hide_status
    then show ?thesis
      by (cases "restore_background ?d ?sb") (auto simp: seen_def restore_kindle hide_status_def barred_shown_def)
  qed (simp add: seen_def)
qed

lemma calls_kindle: "foldR (call_on kindle_idisplay font) cs (seen s) = mapR seen (foldR (do_call font) cs s)"
proof (induction cs arbitrary: s)
  case (Cons c cs)
  then show ?case by (cases "do_call font c s") (simp_all add: call_kindle)
qed simp

text \<open>On a display the bar fits on no sequence of calls has a fault.\<close>

lemma calls_total:
  assumes "bar_fits font (sh_display s)" "\<not> sb_active (sh_bar s)"
  shows "\<exists>s'. foldR (do_call font) cs s = Inr s'"
proof -
  define up where "up s = (\<exists>d. bar_fits font d \<and> bar_held d s)" for s :: shown
  define down where "down s = (bar_fits font (sh_display s) \<and> \<not> sb_active (sh_bar s))" for s :: shown
  have step: "\<exists>t. do_call font c s = Inr t \<and> (up t \<or> down t)" if "up s \<or> down s" for c s
  proof (cases "up s")
    case True
    then obtain d where d: "bar_fits font d" "bar_held d s" by (auto simp: up_def)
    show ?thesis
    proof (cases "c = Hide_status")
      case True
      obtain t where t: "do_call font Hide_status s = Inr t" "display_ok (sh_display t)" "same_size d (sh_display t)"
          "\<not> sb_active (sh_bar t)"
        using hide_held [OF d] by blast
      then have "down t" using d(1) by (simp add: down_def bar_fits_def same_size_def)
      then show ?thesis using t(1) True by blast
    next
      case False
      then show ?thesis using call_held [OF d False] d(1) unfolding up_def by blast
    qed
  next
    case False
    then have d: "bar_fits font (sh_display s)" "\<not> sb_active (sh_bar s)" using that by (simp_all add: down_def)
    then have ok: "display_ok (sh_display s)" by (simp add: bar_fits_def)
    show ?thesis
    proof (cases c)
      case (Show_status m)
      then show ?thesis using show_status_first [OF d, of m] d(1) by (auto simp: up_def)
    next
      case (Show_result b)
      obtain e where "draw_bar_text font (if b then ''Success!'' else ''Failure.'') (sh_display s) = Inr e"
          "only_bar (sh_display s) e"
        using draws_bar_text [OF d(1) only_bar_refl [OF ok]] by (auto simp: draws_def)
      then show ?thesis
        using d by (auto simp: Show_result show_result_def barred_shown_def down_def bar_fits_def only_bar_def same_size_def)
    qed (use d in \<open>auto simp: down_def hide_status_def restore_background_def barred_shown_def\<close>)
  qed
  have "up s \<or> down s" using assms by (simp add: down_def)
  then show ?thesis using foldR_total [of "\<lambda>s. up s \<or> down s" s cs "do_call font"] step by blast
qed

end
