(* ===== verification/Mocks.thy ===== *)
theory Mocks
  imports Displays Evdev
begin

text \<open>
  The test doubles of the devices (src/include/launchpad/hal/mock\_display.hpp, mock\_input\_source.hpp and
  mock\_command\_runner.hpp), ScopedInputGrab of input\_source.hpp, and what a test on the doubles says
  of the real devices: the interfaces are locales, and both sides are their interpretations.
\<close>

section \<open>The display in memory\<close>

record mock_display =
  m_width :: nat
  m_height :: nat
  m_bpp :: nat
  m_pixels :: "8 word list"
  m_updates :: "(nat \<times> nat \<times> nat \<times> nat) list"

definition new_mock_display :: "nat \<Rightarrow> nat \<Rightarrow> nat \<Rightarrow> mock_display" where
  "new_mock_display w h bits = \<lparr>m_width = w, m_height = h, m_bpp = bits, m_pixels = replicate (w * h) 0xFF, m_updates = []\<rparr>"

definition mock_clear :: "8 word \<Rightarrow> mock_display \<Rightarrow> mock_display" where
  "mock_clear color m = m\<lparr>m_pixels := replicate (length (m_pixels m)) color\<rparr>"

definition mock_index :: "mock_display \<Rightarrow> nat \<Rightarrow> nat \<Rightarrow> nat" where
  "mock_index m x y = u32 (y * m_width m + x)"

definition mock_set_pixel :: "nat \<Rightarrow> nat \<Rightarrow> 8 word \<Rightarrow> mock_display \<Rightarrow> mock_display res" where
  "mock_set_pixel x y gray_level m =
     (if m_width m \<le> x \<or> m_height m \<le> y then Inr m
      else let i = mock_index m x y in
        bindR (guardR (i < length (m_pixels m)) Buffer_overflow) (\<lambda>_.
          Inr (m\<lparr>m_pixels := (m_pixels m)[i := gray_level]\<rparr>)))"

definition mock_get_pixel :: "mock_display \<Rightarrow> nat \<Rightarrow> nat \<Rightarrow> 8 word res" where
  "mock_get_pixel m x y =
     (if m_width m \<le> x \<or> m_height m \<le> y then Inr 0xFF
      else let i = mock_index m x y in
        bindR (guardR (i < length (m_pixels m)) Buffer_overread) (\<lambda>_. Inr (m_pixels m ! i)))"

definition mock_update :: "nat \<times> nat \<times> nat \<times> nat \<Rightarrow> mock_display \<Rightarrow> mock_display" where
  "mock_update region m = m\<lparr>m_updates := m_updates m @ [region]\<rparr>"

definition mock_ok :: "mock_display \<Rightarrow> bool" where
  "mock_ok m = (m_width m * m_height m \<le> 2 ^ 32 \<and> length (m_pixels m) = m_width m * m_height m)"

definition on_mock :: "mock_display \<Rightarrow> nat \<times> nat \<Rightarrow> bool" where
  "on_mock m p = (fst p < m_width m \<and> snd p < m_height m)"

definition mock_pixel :: "mock_display \<Rightarrow> nat \<times> nat \<Rightarrow> 8 word" where
  "mock_pixel m p = (if on_mock m p then m_pixels m ! (snd p * m_width m + fst p) else 0xFF)"

lemma new_mock_ok: "w * h \<le> 2 ^ 32 \<Longrightarrow> mock_ok (new_mock_display w h bits)"
  by (simp add: mock_ok_def new_mock_display_def)

lemma row_major_less: "x < w \<Longrightarrow> y < h \<Longrightarrow> y * w + x < w * (h :: nat)"
proof -
  assume "x < w" "y < h"
  then have "y * w + x < Suc y * w" by simp
  also have "\<dots> \<le> h * w" using \<open>y < h\<close> by (intro mult_le_mono1) simp
  finally show ?thesis by (simp add: mult.commute)
qed

lemma mock_index_on:
  assumes "mock_ok m" "on_mock m (x, y)"
  shows "mock_index m x y = y * m_width m + x" "mock_index m x y < length (m_pixels m)"
  using row_major_less [of x "m_width m" y "m_height m"] assms
  by (simp_all add: mock_ok_def on_mock_def mock_index_def u32_def)

lemma mock_get_pixel_pixel: "mock_ok m \<Longrightarrow> mock_get_pixel m x y = Inr (mock_pixel m (x, y))"
  using mock_index_on [of m x y]
  by (cases "on_mock m (x, y)") (auto simp: mock_get_pixel_def mock_pixel_def on_mock_def Let_def)

lemma mock_set_pixel_pixels:
  assumes ok: "mock_ok m"
  shows "\<exists>m'. mock_set_pixel x y g m = Inr m' \<and> mock_ok m' \<and> (m_width m', m_height m') = (m_width m, m_height m) \<and>
    (\<forall>q. mock_pixel m' q = (if on_mock m (x, y) \<and> q = (x, y) then g else mock_pixel m q))"
proof (cases "on_mock m (x, y)")
  case False
  then show ?thesis using ok by (auto simp: mock_set_pixel_def on_mock_def)
next
  case True
  note i = mock_index_on [OF ok True]
  define m' where "m' = m\<lparr>m_pixels := (m_pixels m)[y * m_width m + x := g]\<rparr>"
  have "mock_set_pixel x y g m = Inr m'"
    using True i by (simp add: mock_set_pixel_def on_mock_def Let_def m'_def not_le)
  moreover have "mock_ok m'" using ok by (simp add: mock_ok_def m'_def)
  moreover have "mock_pixel m' (u, v) = (if (u, v) = (x, y) then g else mock_pixel m (u, v))" for u v
  proof (cases "on_mock m (u, v)")
    case on: True
    then have "(v * m_width m + u) mod m_width m = u" "(y * m_width m + x) mod m_width m = x"
        "(v * m_width m + u) div m_width m = v" "(y * m_width m + x) div m_width m = y"
      using True by (auto simp: on_mock_def)
    then have "v * m_width m + u = y * m_width m + x \<longleftrightarrow> (u, v) = (x, y)" by (metis prod.inject)
    then show ?thesis using on i by (auto simp: mock_pixel_def m'_def on_mock_def nth_list_update)
  qed (use True in \<open>auto simp: mock_pixel_def m'_def on_mock_def\<close>)
  ultimately show ?thesis using True by (auto simp: m'_def)
qed

section \<open>The same code on the double and on the Kindle\<close>

definition mock_idisplay :: "mock_display idisplay" where
  "mock_idisplay = \<lparr>bounds_of = (\<lambda>m. (m_width m, m_height m)), put_at = mock_set_pixel,
     get_at = (\<lambda>x y m. mock_get_pixel m x y), update_at = mock_update\<rparr>"

lemma quantized_twice: "quantized (quantized g) = quantized g"
  by (simp add: quantized_def to_of_nibble [OF to_nibble_small])

text \<open>The Kindle shows the picture of the double, rounded, and was asked for the refreshes it has recorded.\<close>

definition refreshes :: "kindle_display \<Rightarrow> mock_display \<Rightarrow> (nat \<times> nat \<times> nat \<times> nat) list" where
  "refreshes d m = concat (map (\<lambda>(x, y, w, h). update_region d x y w h) (m_updates m))"

definition shows_rounded :: "mock_display \<Rightarrow> refreshed \<Rightarrow> bool" where
  "shows_rounded m k = (case k of (d, us) \<Rightarrow> mock_ok m \<and> display_ok d \<and> m_width m = d_width d \<and> m_height m = d_height d \<and>
     (\<forall>p. pixel d p = quantized (mock_pixel m p)) \<and> us = refreshes d m)"

lemma update_region_fd: "d_fd d' = d_fd d \<Longrightarrow> update_region d' = update_region d"
  by (simp add: update_region_def fun_eq_iff)

lemma mock_updates_kept: "mock_set_pixel x y g m = Inr m' \<Longrightarrow> m_updates m' = m_updates m"
  by (auto simp: mock_set_pixel_def Let_def guardR_def split: if_splits)

lemma put_rounded:
  assumes "shows_rounded m (d, us)" "quantized g = quantized g'"
  shows "rel_sum (=) shows_rounded (put_at mock_idisplay x y g m) (put_at kindle_idisplay x y g' (d, us))"
proof -
  have ok: "mock_ok m" "display_ok d" and size: "m_width m = d_width d" "m_height m = d_height d"
      and px: "\<And>p. pixel d p = quantized (mock_pixel m p)" and us: "us = refreshes d m"
    using assms(1) by (auto simp: shows_rounded_def)
  obtain m' where m': "mock_set_pixel x y g m = Inr m'" "mock_ok m'" "(m_width m', m_height m') = (m_width m, m_height m)"
      "\<forall>q. mock_pixel m' q = (if on_mock m (x, y) \<and> q = (x, y) then g else mock_pixel m q)"
    using mock_set_pixel_pixels [OF ok(1)] by blast
  obtain d' where d': "set_pixel x y g' d = Inr d'" "display_ok d'" "(d_width d', d_height d', d_fd d') = (d_width d, d_height d, d_fd d)"
      "\<forall>q. pixel d' q = (if on_screen d (x, y) \<and> q = (x, y) then quantized g' else pixel d q)"
    using set_pixel_pixels [OF ok(2)] by blast
  have "on_mock m (x, y) = on_screen d (x, y)" using size by (simp add: on_mock_def on_screen_def)
  then have "pixel d' q = quantized (mock_pixel m' q)" for q using m'(4) d'(4) px assms(2) by (cases q) simp
  moreover have "refreshes d' m' = refreshes d m"
    using mock_updates_kept [OF m'(1)] update_region_fd [of d' d] d'(3) by (simp add: refreshes_def)
  ultimately show ?thesis
    using m'(1-3) d'(1-3) size us by (simp add: mock_idisplay_def) (simp add: shows_rounded_def)
qed

interpretation tested: two_displays mock_idisplay kindle_idisplay shows_rounded quantized
proof
  fix m :: mock_display and k :: refreshed and x y and r :: "nat \<times> nat \<times> nat \<times> nat" and g g' :: "8 word"
  assume agree: "shows_rounded m k"
  obtain d us where k: "k = (d, us)" by (cases k)
  show "bounds_of mock_idisplay m = bounds_of kindle_idisplay k"
    using agree by (simp add: k shows_rounded_def mock_idisplay_def)
  show "rel_sum (=) shows_rounded (put_at mock_idisplay x y g m) (put_at kindle_idisplay x y g' k)" if "quantized g = quantized g'"
    using put_rounded [OF agree [unfolded k] that] by (simp add: k)
  show "rel_sum (=) (\<lambda>g g'. quantized g = quantized g') (get_at mock_idisplay x y m) (get_at kindle_idisplay x y k)"
    using agree mock_get_pixel_pixel [of m x y] get_pixel_pixel [of d x y]
    by (simp add: k shows_rounded_def mock_idisplay_def quantized_twice)
  show "shows_rounded (update_at mock_idisplay r m) (update_at kindle_idisplay r k)"
  proof -
    have "mock_ok (mock_update r m) = mock_ok m" "mock_pixel (mock_update r m) p = mock_pixel m p"
        "m_width (mock_update r m) = m_width m" "m_height (mock_update r m) = m_height m" for p
      by (simp_all add: mock_update_def mock_ok_def mock_pixel_def on_mock_def)
    moreover have "refreshes d (mock_update r m) = refreshes d m @ (case r of (u, v, w, h) \<Rightarrow> update_region d u v w h)"
      by (cases r) (simp add: refreshes_def mock_update_def)
    ultimately show ?thesis
      using agree by (cases r) (simp add: k shows_rounded_def mock_idisplay_def)
  qed
qed

section \<open>Key source, key injector and command runner in memory\<close>

record mock_input =
  mi_grabbed :: bool
  mi_queue :: "(short \<times> key_event_type) list"
  mi_keys :: "(short \<times> send_mode) list"

definition mock_grab :: "mock_input \<Rightarrow> mock_input" where
  "mock_grab m = m\<lparr>mi_grabbed := True\<rparr>"

definition mock_release :: "mock_input \<Rightarrow> mock_input" where
  "mock_release m = m\<lparr>mi_grabbed := False\<rparr>"

definition mock_poll_events :: "mock_input \<Rightarrow> (short \<times> key_event_type) list \<times> mock_input" where
  "mock_poll_events m = (mi_queue m, m\<lparr>mi_queue := []\<rparr>)"

definition mock_queue_event :: "short \<times> key_event_type \<Rightarrow> mock_input \<Rightarrow> mock_input" where
  "mock_queue_event ev m = m\<lparr>mi_queue := mi_queue m @ [ev]\<rparr>"

definition mock_inject_key :: "short \<Rightarrow> send_mode \<Rightarrow> mock_input \<Rightarrow> mock_input" where
  "mock_inject_key kc mode m = m\<lparr>mi_keys := mi_keys m @ [(kc, mode)]\<rparr>"

definition mock_inject_ascii_char :: "kindle_model \<Rightarrow> char \<Rightarrow> mock_input \<Rightarrow> mock_input" where
  "mock_inject_ascii_char model c m =
     (let mapping = translate model c in m\<lparr>mi_keys := mi_keys m @ [(mapping_code mapping, send_mode mapping)]\<rparr>)"

definition mock_clear_input :: "mock_input \<Rightarrow> mock_input" where
  "mock_clear_input m = m\<lparr>mi_queue := [], mi_keys := [], mi_grabbed := False\<rparr>"

record mock_runner =
  mr_code :: int
  mr_commands :: "string list"

definition mock_run_command :: "string \<Rightarrow> mock_runner \<Rightarrow> int \<times> mock_runner" where
  "mock_run_command cmd r = (mr_code r, r\<lparr>mr_commands := mr_commands r @ [cmd]\<rparr>)"

definition set_return_code :: "int \<Rightarrow> mock_runner \<Rightarrow> mock_runner" where
  "set_return_code rc r = r\<lparr>mr_code := rc\<rparr>"

definition mock_clear_runner :: "mock_runner \<Rightarrow> mock_runner" where
  "mock_clear_runner r = r\<lparr>mr_commands := []\<rparr>"

section \<open>A source of keys and a grab with a scope\<close>

text \<open>ScopedInputGrab grabs in its constructor and releases in its destructor; neither source ever reports
  that grabbing failed. What happens in between is the body.\<close>

locale input_source =
  fixes good :: "'s \<Rightarrow> bool"
    and is_grabbed :: "'s \<Rightarrow> bool"
    and seize :: "'s \<Rightarrow> 's"
    and yield :: "'s \<Rightarrow> 's"
    and holds :: "'s \<Rightarrow> int \<Rightarrow> bool"
  assumes seize_good: "good s \<Longrightarrow> good (seize s) \<and> is_grabbed (seize s)"
    and yield_good: "good s \<Longrightarrow> good (yield s) \<and> \<not> is_grabbed (yield s)"
    and holds_grabbed: "good s \<Longrightarrow> holds s fd \<Longrightarrow> is_grabbed s"
begin

definition scoped_grab :: "('s \<Rightarrow> 's) \<Rightarrow> 's \<Rightarrow> 's" where
  "scoped_grab body s = yield (body (seize s))"

lemma scope_leaves_nothing:
  assumes "\<And>s. good s \<Longrightarrow> good (body s)" "good s"
  shows "good (scoped_grab body s) \<and> \<not> is_grabbed (scoped_grab body s) \<and> \<not> holds (scoped_grab body s) fd"
  using yield_good [of "body (seize s)"] holds_grabbed [of "scoped_grab body s" fd] seize_good [OF assms(2)] assms(1)
  by (auto simp: scoped_grab_def)

end

interpretation evdev_source: input_source group_ok group_grabbed grab release "\<lambda>g. grabbed (ev_ioctls g)"
  by standard (simp_all, simp add: group_ok_def)

interpretation mock_source: input_source "\<lambda>m. True" mi_grabbed mock_grab mock_release "\<lambda>m fd. mi_grabbed m"
  by standard (auto simp: mock_grab_def mock_release_def)

section \<open>What the injectors write\<close>

text \<open>The calls an executor makes of its injector.\<close>

datatype typing = Type_key short send_mode | Type_char char

fun real_typing :: "key_injector \<Rightarrow> kindle_model \<Rightarrow> typing \<Rightarrow> effect list" where
  "real_typing ki model (Type_key kc mode) = inject_key ki kc mode"
| "real_typing ki model (Type_char c) = inject_ascii_char ki model c"

fun mock_typing :: "kindle_model \<Rightarrow> typing \<Rightarrow> mock_input \<Rightarrow> mock_input" where
  "mock_typing model (Type_key kc mode) m = mock_inject_key kc mode m"
| "mock_typing model (Type_char c) m = mock_inject_ascii_char model c m"

definition token_typing :: "key_table \<Rightarrow> string \<Rightarrow> typing list" where
  "token_typing t token =
     (if 2 \<le> length token \<and> hd token = CHR 0x22 \<and> last token = CHR 0x22
      then map Type_char (take (length token - 2) (drop 1 token))
      else case find_code t token of Some kc \<Rightarrow> [Type_key kc Normal] | None \<Rightarrow> map Type_char token)"

lemma send_token_typing:
  "send_token sv token = map Does (concat (map (real_typing (sv_injector sv) (sv_model sv)) (token_typing (sv_table sv) token)))"
  by (simp add: send_token_def send_quoted_string_def token_typing_def comp_def split: option.split)

text \<open>Every character has a code, so the injector of the device never leaves one out.\<close>

lemma translate_code: "mapping_code (translate model c) \<noteq> 0"
proof -
  have "list_all (\<lambda>e. entry_code e \<noteq> 0) K3_TABLE" "list_all (\<lambda>e. entry_code e \<noteq> 0) KDXG_TABLE" by code_simp+
  moreover have "of_char c mod 128 < (128 :: nat)" by simp
  ultimately show ?thesis
    by (auto simp: translate_def Let_def list_all_length length_translator_tables)
qed

definition is_write :: "effect \<Rightarrow> bool" where
  "is_write e = (case e of Delay ms \<Rightarrow> False | _ \<Rightarrow> True)"

definition key_writes :: "key_injector \<Rightarrow> (short \<times> send_mode) list \<Rightarrow> effect list" where
  "key_writes ki ks = concat (map (\<lambda>(kc, mode). inject_key ki kc mode) ks)"

lemma inject_key_writes: "filter is_write (inject_key ki kc mode) = inject_key ki kc mode"
  by (simp add: inject_key_def write_to_fiveway_def write_to_keypad_def is_write_def)

lemma typing_recorded:
  "\<exists>ks. mi_keys (mock_typing model t m) = mi_keys m @ ks \<and> filter is_write (real_typing ki model t) = key_writes ki ks"
proof (cases t)
  case (Type_key kc mode)
  then show ?thesis by (simp add: mock_inject_key_def inject_key_writes key_writes_def)
next
  case (Type_char c)
  then show ?thesis
    using translate_code [of model c]
    by (simp add: mock_inject_ascii_char_def inject_ascii_char_def Let_def inject_key_writes key_writes_def is_write_def)
qed

lemma typings_recorded:
  "\<exists>ks. mi_keys (fold (mock_typing model) ts m) = mi_keys m @ ks \<and>
     filter is_write (concat (map (real_typing ki model) ts)) = key_writes ki ks"
proof (induction ts arbitrary: m)
  case Nil
  then show ?case by (simp add: key_writes_def)
next
  case (Cons t ts)
  obtain ks where ks: "mi_keys (mock_typing model t m) = mi_keys m @ ks" "filter is_write (real_typing ki model t) = key_writes ki ks"
    using typing_recorded by blast
  obtain ls where "mi_keys (fold (mock_typing model) ts (mock_typing model t m)) = mi_keys (mock_typing model t m) @ ls"
      "filter is_write (concat (map (real_typing ki model) ts)) = key_writes ki ls"
    using Cons.IH by blast
  with ks show ?case by (intro exI [of _ "ks @ ls"]) (simp add: key_writes_def)
qed

section \<open>Clearing\<close>

lemma get_packed: "get_nibble e (push_bit 4 (drop_bit 4 c) OR drop_bit 4 c) = drop_bit 4 c" for c :: "8 word"
  unfolding get_nibble_def
  by (rule bit_word_eqI) (auto simp: nibble_bits dest: bit_imp_le_length)

lemma clear_pixels:
  assumes "display_ok d" "on_screen d p"
  shows "pixel (clear_display c d) p = of_nibble (drop_bit 4 c)"
proof -
  obtain x y where p: "p = (x, y)" by (cases p)
  let ?d = "clear_display c d"
  have ok: "display_ok ?d" "on_screen ?d (x, y)"
    using assms p by (simp_all add: display_ok_def on_screen_def clear_display_def Let_def stride_def)
  have "byte_index ?d x y < length (d_memory ?d)" using index_split(2) [OF ok] .
  then have "d_memory ?d ! byte_index ?d x y = push_bit 4 (drop_bit 4 c) OR drop_bit 4 c"
    by (simp add: clear_display_def Let_def)
  then show ?thesis using get_pixel_on [OF ok] by (simp add: p pixel_def get_packed)
qed

section \<open>Properties\<close>

text \<open>C40: A test of the status bar on the display in memory tells what the Kindle shows. The code of font.cpp
  and status\_bar.cpp is run on both, with any calls of the notifier, in any order: when the Kindle's
  picture is the double's, its levels rounded to the 16 of the device, before them, then no call has a
  fault on either and it is so after them; the bar is up on both or on none, and the refreshes asked of
  the driver are those the double has recorded. (The double keeps 8 bits for a pixel, where ADR 0005 has
  it emulate a buffer of 4: the rounding is what a test on it does not see.)\<close>
theorem status_bar_tested:
  assumes "bar_fits font d" and "mock_ok m" and "m_width m = d_width d" and "m_height m = d_height d" and "m_updates m = []"
    and "\<forall>p. pixel d p = quantized (mock_pixel m p)"
  shows "\<exists>m' sb s. foldR (call_on mock_idisplay font) calls (m, \<lparr>sb_active = False, saved_pixels = []\<rparr>) = Inr (m', sb) \<and>
    foldR (do_call font) calls \<lparr>sh_display = d, sh_bar = \<lparr>sb_active = False, saved_pixels = []\<rparr>, sh_effects = [], sh_updates = []\<rparr> = Inr s \<and>
    (\<forall>p. pixel (sh_display s) p = quantized (mock_pixel m' p)) \<and> sb_active sb = sb_active (sh_bar s) \<and>
    sh_updates s = concat (map (\<lambda>(x, y, w, h). update_region (sh_display s) x y w h) (m_updates m'))"
proof -
  let ?s = "\<lparr>sh_display = d, sh_bar = \<lparr>sb_active = False, saved_pixels = []\<rparr>, sh_effects = [], sh_updates = []\<rparr>"
  obtain s where s: "foldR (do_call font) calls ?s = Inr s" using calls_total [of font ?s calls] assms(1) by auto
  have "tested.states_agree (m, \<lparr>sb_active = False, saved_pixels = []\<rparr>) (seen ?s)"
    using assms by (simp add: tested.states_agree_def tested.bars_agree_def shows_rounded_def seen_def refreshes_def bar_fits_def)
  from tested.calls_agree [OF this, of font calls] obtain m' sb where
      "foldR (call_on mock_idisplay font) calls (m, \<lparr>sb_active = False, saved_pixels = []\<rparr>) = Inr (m', sb)"
      "tested.states_agree (m', sb) (seen s)"
    unfolding calls_kindle s by (auto elim: rel_sum.cases)
  then show ?thesis
    using s by (auto simp: tested.states_agree_def tested.bars_agree_def shows_rounded_def seen_def refreshes_def)
qed

theorem status_bar_tested_witness:
  "\<exists>m' sb s. foldR (call_on mock_idisplay (replicate (256 * BYTES_PER_GLYPH) 0x55)) [Show_status ''A'', Show_result True]
      (new_mock_display 2 30 4, \<lparr>sb_active = False, saved_pixels = []\<rparr>) = Inr (m', sb) \<and>
    foldR (do_call (replicate (256 * BYTES_PER_GLYPH) 0x55)) [Show_status ''A'', Show_result True]
      \<lparr>sh_display = small_display, sh_bar = \<lparr>sb_active = False, saved_pixels = []\<rparr>, sh_effects = [], sh_updates = []\<rparr> = Inr s \<and>
    pixel (sh_display s) (1, 29) = quantized (mock_pixel m' (1, 29)) \<and> sb_active sb = sb_active (sh_bar s)"
proof -
  let ?m = "new_mock_display 2 30 4" and ?font = "replicate (256 * BYTES_PER_GLYPH) (0x55 :: 8 word)"
  have "quantized 0xFF = 0xFF" by (simp add: quantized_def to_nibble_def of_nibble_def)
  moreover have "pixel small_display (x, y) = 0xFF" for x y
    using small_display_get [of x y] get_pixel_off [of small_display x y]
    by (cases "x < 2 \<and> y < 30") (auto simp: pixel_def on_screen_def small_display_def)
  moreover have "mock_pixel ?m (x, y) = 0xFF" for x y
    using row_major_less [of x 2 y 30] by (simp add: mock_pixel_def new_mock_display_def on_mock_def)
  ultimately have "\<forall>p. pixel small_display p = quantized (mock_pixel ?m p)" by simp
  moreover have "m_width ?m = d_width small_display" "m_height ?m = d_height small_display" "m_updates ?m = []"
      "bar_fits ?font small_display"
    using small_display_ok by (simp_all add: new_mock_display_def bar_fits_def STATUS_BAR_HEIGHT_def) (simp_all add: small_display_def)
  ultimately show ?thesis
    using status_bar_tested [of ?font small_display ?m "[Show_status ''A'', Show_result True]"] new_mock_ok [of 2 30 4] by fastforce
qed

text \<open>The same for the keys that are typed: what the double has recorded for the words of an action is
  what the device gets, write by write.\<close>
theorem typed_keys_tested:
  "\<exists>ks. mi_keys (fold (mock_typing (sv_model sv)) (concat (map (token_typing (sv_table sv)) (stream_words keys))) m) = mi_keys m @ ks \<and>
     filter is_write (device_effects (execute_send_keys sv keys)) = key_writes (sv_injector sv) ks"
proof -
  let ?ts = "concat (map (token_typing (sv_table sv)) (stream_words keys))"
  have "concat (map (send_token sv) ws) = map Does (concat (map (real_typing (sv_injector sv) (sv_model sv)) (concat (map (token_typing (sv_table sv)) ws))))" for ws
    by (induction ws) (simp_all add: send_token_typing)
  then have "device_effects (execute_send_keys sv keys) = concat (map (real_typing (sv_injector sv) (sv_model sv)) ?ts)"
    by (simp add: execute_send_keys_def notify_def)
  then show ?thesis using typings_recorded [of "sv_model sv" ?ts m "sv_injector sv"] by simp
qed

text \<open>Clearing is where the two part: the double takes the level as it is given, the device takes its upper half
  for what it stores, where a larger number is darker; so the default level, white, blackens the Kindle.\<close>
theorem clear_is_inverted:
  assumes "display_ok d" and "on_screen d p" and "on_mock m p" and "mock_ok m"
  shows "mock_pixel (mock_clear c m) p = c" and "pixel (clear_display c d) p = of_nibble (drop_bit 4 c)"
    and "pixel (clear_display 0xFF d) p = 0"
proof -
  have "snd p * m_width m + fst p < length (m_pixels m)"
    using assms(3,4) row_major_less by (simp add: mock_ok_def on_mock_def)
  then show "mock_pixel (mock_clear c m) p = c"
    using assms(3) by (simp add: mock_pixel_def mock_clear_def on_mock_def)
  show "pixel (clear_display c d) p = of_nibble (drop_bit 4 c)" for c
    by (rule clear_pixels [OF assms(1,2)])
  then show "pixel (clear_display 0xFF d) p = 0" by (simp add: of_nibble_def)
qed

end
