(* ===== verification/AlarmRace.thy ===== *)
theory AlarmRace
  imports HotKeyRun
begin

text \<open>
  SIGALRM inside process\_input\_event of src/src/main.c. HotKey handles a signal between two rounds of
  the loop; the handler may also run between two stores of the code that processes a pressed key.
  Here a press in the hotkey mode is split at its tests and stores, in the order of the source, and
  the timer may expire at any of these points.
\<close>

section \<open>A press, step by step\<close>

datatype point =
    Entered | Counted
  | At_trailer | Default_set | Timer_stopped | Given_back | Mode_left
  | At_key | Stored | Loaded nat
  | Finished

definition micro :: "env \<Rightarrow> int \<Rightarrow> point \<times> hotstate \<Rightarrow> (point \<times> hotstate) res" where
  "micro env kc x =
     (let st = snd x in
      case fst x of
        Entered \<Rightarrow> Inr (Counted, st\<lparr>npressed := npressed st + 1\<rparr>)
      | Counted \<Rightarrow>
          if \<not> hotkey_mode st
          then Inr (Finished, st\<lparr>introducer_just_pressed := (npressed st = 1 \<and> kc = e_introducer env)\<rparr>)
          else if kc = e_trailer env then Inr (At_trailer, st) else Inr (At_key, st)
      | At_trailer \<Rightarrow> Inr (Default_set, st\<lparr>alarm_set := False\<rparr>)
      | Default_set \<Rightarrow> Inr (Timer_stopped, st\<lparr>timer := 0\<rparr>)
      | Timer_stopped \<Rightarrow> Inr (Given_back, release_input env st)
      | Given_back \<Rightarrow> Inr (Mode_left, st\<lparr>hotkey_mode := False\<rparr>)
      | Mode_left \<Rightarrow> mapR (\<lambda>s. (Finished, s)) (run_sequence env st)
      | At_key \<Rightarrow> bindR (guardR (hot_sequence_length st < MAXSEQ) Table_overflow) (\<lambda>_.
          Inr (Stored, st\<lparr>hot_sequence := (hot_sequence st)
             [hot_sequence_length st := word_of_int (get_key_substitute_code kc)]\<rparr>))
      | Stored \<Rightarrow> Inr (Loaded (hot_sequence_length st), st)
      | Loaded n \<Rightarrow> Inr (Finished, st\<lparr>hot_sequence_length := n + 1\<rparr>)
      | Finished \<Rightarrow> Inr x)"

fun micro_run :: "env \<Rightarrow> int \<Rightarrow> nat \<Rightarrow> point \<times> hotstate \<Rightarrow> (point \<times> hotstate) res" where
  "micro_run env kc 0 x = Inr x"
| "micro_run env kc (Suc n) x = bindR (micro env kc x) (micro_run env kc n)"

text \<open>Seven steps are the most a press takes.\<close>

definition all_steps :: nat where "all_steps = 7"

definition timer_expires :: "env \<Rightarrow> hotstate \<Rightarrow> hotstate res" where
  "timer_expires env = handle_signal env Timer_expires"

text \<open>The timer expires after n steps of the press; a process that is still alive ends it.\<close>

definition press_interrupted :: "env \<Rightarrow> int \<Rightarrow> nat \<Rightarrow> hotstate \<Rightarrow> hotstate res" where
  "press_interrupted env kc n st =
     bindR (micro_run env kc n (Entered, st)) (\<lambda>(pt, s).
       bindR (timer_expires env s) (\<lambda>s.
         if alive s then mapR snd (micro_run env kc all_steps (pt, s)) else Inr s))"

lemma micro_run_finished [simp]: "micro_run env kc n (Finished, st) = Inr (Finished, st)"
  by (induction n) (simp_all add: micro_def)

lemma micro_simps:
  "micro env kc (Entered, st) = Inr (Counted, st\<lparr>npressed := npressed st + 1\<rparr>)"
  "hotkey_mode st \<Longrightarrow> micro env kc (Counted, st) = Inr (if kc = e_trailer env then At_trailer else At_key, st)"
  "\<not> hotkey_mode st \<Longrightarrow> micro env kc (Counted, st) =
     Inr (Finished, st\<lparr>introducer_just_pressed := (npressed st = 1 \<and> kc = e_introducer env)\<rparr>)"
  "micro env kc (At_trailer, st) = Inr (Default_set, st\<lparr>alarm_set := False\<rparr>)"
  "micro env kc (Default_set, st) = Inr (Timer_stopped, st\<lparr>timer := 0\<rparr>)"
  "micro env kc (Timer_stopped, st) = Inr (Given_back, release_input env st)"
  "micro env kc (Given_back, st) = Inr (Mode_left, st\<lparr>hotkey_mode := False\<rparr>)"
  "micro env kc (Mode_left, st) = mapR (\<lambda>s. (Finished, s)) (run_sequence env st)"
  "hot_sequence_length st < MAXSEQ \<Longrightarrow> micro env kc (At_key, st) =
     Inr (Stored, st\<lparr>hot_sequence := (hot_sequence st)[hot_sequence_length st := seq_code kc]\<rparr>)"
  "micro env kc (Stored, st) = Inr (Loaded (hot_sequence_length st), st)"
  "micro env kc (Loaded n, st) = Inr (Finished, st\<lparr>hot_sequence_length := n + 1\<rparr>)"
  by (simp_all add: micro_def guardR_def seq_code_def)

lemma mapR_finished [simp]:
  "bindR (mapR (\<lambda>s. (Finished, s)) m) (micro_run env kc n) = mapR (\<lambda>s. (Finished, s)) m"
  by (cases m) simp_all

lemma steps_numeral:
  "micro_run env kc (numeral k) x = bindR (micro env kc x) (micro_run env kc (pred_numeral k))"
  by (simp add: numeral_eq_Suc)

text \<open>Left alone, the steps are the press of HotKey.\<close>

lemma press_steps: "micro_run env kc (7 + k) (Entered, st) = mapR (\<lambda>s. (Finished, s)) (key_pressed env kc st)"
proof -
  have 7: "7 + k = Suc (Suc (Suc (Suc (Suc (Suc (Suc k))))))" by simp
  let ?st = "st\<lparr>npressed := npressed st + 1\<rparr>"
  show ?thesis
  proof (cases "hotkey_mode st \<and> kc \<noteq> e_trailer env \<and> \<not> hot_sequence_length st < MAXSEQ")
    case True
    then show ?thesis unfolding 7 by (simp add: key_pressed_def Let_def micro_def guardR_def)
  next
    case False
    then show ?thesis
      unfolding 7 by (auto simp: key_pressed_def Let_def micro_simps guardR_def seq_code_def engage_hotkey_timer_def)
  qed
qed

section \<open>The handler\<close>

lemma timer_fires:
  assumes "alarm_set st" "hotkey_mode st" "timer st \<noteq> 0"
  shows "timer_expires env st = run_sequence env (leave_mode env st)"
proof -
  have "leave_mode env (st\<lparr>timer := 0\<rparr>) = leave_mode env st"
    by (simp add: leave_mode_def engage_hotkey_timer_def)
  then show ?thesis
    using assms by (simp add: timer_expires_def deliver_alarm_def alarm_handler_def Let_def leave_mode_def)
qed

lemma nothing_fires: "timer st = 0 \<Longrightarrow> timer_expires env st = Inr st"
  by (simp add: timer_expires_def)

lemma mapR_bindR: "mapR f (bindR m g) = bindR m (\<lambda>x. mapR f (g x))"
  by (cases m) simp_all

text \<open>The handler does not look at the count of the keys, nor behind the collected codes.\<close>

lemma run_sequence_unseen:
  assumes "take (hot_sequence_length st) hs = collected st"
  shows "run_sequence env (st\<lparr>npressed := k, hot_sequence := hs\<rparr>) =
    mapR (\<lambda>a. a\<lparr>npressed := k, hot_sequence := hs\<rparr>) (run_sequence env st)"
proof -
  let ?u = "st\<lparr>npressed := k, hot_sequence := hs\<rparr>"
  have "collected ?u = collected st" using assms by (simp add: collected_def)
  moreover have "send_keys (e_config env) (e_fds env) (collected (s\<lparr>hot_sequence_length := 0\<rparr>)) = []" for s
    by (simp add: collected_def send_keys_def)
  ultimately show ?thesis
    by (cases "find_sequence_action (e_config env) (collected st)")
      (auto simp: run_sequence_def Let_def mapR_bindR intro!: bindR_cong)
qed

text \<open>A state whose timer runs, in the hotkey mode.\<close>

definition armed :: "hotstate \<Rightarrow> bool" where
  "armed st = (alarm_set st \<and> hotkey_mode st \<and> timer st \<noteq> 0 \<and> alive st \<and> hot_sequence_length st < MAXSEQ)"

lemma fires_unseen:
  assumes "armed st" "take (hot_sequence_length st) hs = collected st"
  shows "timer_expires env (st\<lparr>npressed := k, hot_sequence := hs\<rparr>) =
    mapR (\<lambda>a. a\<lparr>npressed := k, hot_sequence := hs\<rparr>) (timer_expires env st)"
proof -
  let ?l = "leave_mode env st"
  have "leave_mode env (st\<lparr>npressed := k, hot_sequence := hs\<rparr>) = ?l\<lparr>npressed := k, hot_sequence := hs\<rparr>"
    by (simp add: leave_mode_def engage_hotkey_timer_def release_input_def)
  moreover have "take (hot_sequence_length ?l) hs = collected ?l"
    using assms(2) by (simp add: leave_mode_def engage_hotkey_timer_def release_input_def collected_def)
  ultimately show ?thesis
    using assms(1) by (simp add: timer_fires armed_def run_sequence_unseen)
qed

lemma fires_counted:
  "armed st \<Longrightarrow> timer_expires env (st\<lparr>npressed := k\<rparr>) = mapR (\<lambda>a. a\<lparr>npressed := k\<rparr>) (timer_expires env st)"
  using fires_unseen [of st "hot_sequence st" env k] run_sequence_frame [of env "leave_mode env st"]
  by (cases "timer_expires env st")
    (auto simp: collected_def timer_fires armed_def leave_mode_def engage_hotkey_timer_def release_input_def)

lemma fired:
  assumes "armed st" "timer_expires env st = Inr a"
  shows "\<not> hotkey_mode a" "\<not> alarm_set a" "timer a = 0" "\<not> input_captured a" "hot_sequence_length a = 0"
    "alive a" "hot_sequence a = hot_sequence st" "npressed a = npressed st"
    "introducer_just_pressed a = introducer_just_pressed st" "keepgoing a = keepgoing st"
proof -
  obtain s n es where "a = (leave_mode env st)\<lparr>screen := s, skip_next_events := n, trace := es, hot_sequence_length := 0\<rparr>"
    using run_sequence_frame [of env "leave_mode env st" a] assms timer_fires [of st env] by (auto simp: armed_def)
  then show "\<not> hotkey_mode a" "\<not> alarm_set a" "timer a = 0" "\<not> input_captured a" "hot_sequence_length a = 0"
    "alive a" "hot_sequence a = hot_sequence st" "npressed a = npressed st"
    "introducer_just_pressed a = introducer_just_pressed st" "keepgoing a = keepgoing st"
    using assms(1) by (simp_all add: armed_def leave_mode_def engage_hotkey_timer_def release_input_def)
qed

text \<open>Once the timer is off, the press ends as it would have.\<close>

lemma micro_run_add: "micro_run env kc (m + n) x = bindR (micro_run env kc m x) (micro_run env kc n)"
proof (induction m arbitrary: x)
  case (Suc m)
  have "micro_run env kc (m + n) = (\<lambda>y. bindR (micro_run env kc m y) (micro_run env kc n))"
    by (rule ext) (rule Suc.IH)
  then show ?case by (simp add: bindR_assoc)
qed simp

lemma mapR_finished_snd: "mapR snd (mapR (\<lambda>s. (Finished, s)) m) = m"
  by (cases m) simp_all

lemma quiet_steps:
  assumes "micro_run env kc n (Entered, st) = Inr (pt, s)" "timer s = 0" "alive s"
  shows "press_interrupted env kc n st = key_pressed env kc st"
proof -
  have "micro_run env kc all_steps (pt, s) = micro_run env kc (7 + n) (Entered, st)"
    using micro_run_add [of env kc n 7 "(Entered, st)"] assms(1) by (simp add: all_steps_def add.commute)
  then show ?thesis
    using assms by (simp add: press_interrupted_def nothing_fires press_steps mapR_finished_snd)
qed

section \<open>Where the timer does no harm\<close>

lemma early_alarm:
  assumes "armed st" "n \<le> 1"
  shows "press_interrupted env kc n st = bindR (timer_expires env st) (key_pressed env kc)"
proof -
  let ?p = "\<lambda>a. a\<lparr>npressed := npressed st + 1\<rparr>"
  have ends: "mapR snd (micro_run env kc all_steps (Counted, ?p a)) = key_pressed env kc a"
    if "timer_expires env st = Inr a" for a
    using fired [OF assms(1) that] by (simp add: all_steps_def steps_numeral micro_simps key_pressed_def Let_def)
  have whole: "mapR snd (micro_run env kc all_steps (Entered, a)) = key_pressed env kc a" for a
    using press_steps [of env kc 0 a] by (cases "key_pressed env kc a") (simp_all add: all_steps_def)
  consider "n = 0" | "n = 1" using assms(2) by linarith
  then show ?thesis
  proof cases
    case 1
    then show ?thesis
      using whole fired(6) [OF assms(1)] by (auto simp: press_interrupted_def intro!: bindR_cong)
  next
    case 2
    then show ?thesis
      using fires_counted [OF assms(1), of env "npressed st + 1"] ends fired(6) [OF assms(1)]
      by (cases "timer_expires env st") (auto simp: press_interrupted_def micro_simps)
  qed
qed

lemma trailer_interrupted:
  assumes "armed st" "kc = e_trailer env"
  shows "n = 2 \<Longrightarrow> press_interrupted env kc n st = mapR (\<lambda>a. a\<lparr>npressed := npressed st + 1\<rparr>) (timer_expires env st)"
    and "n = 3 \<Longrightarrow> press_interrupted env kc n st =
      Inr (st\<lparr>npressed := npressed st + 1, alarm_set := False, timer := 0, alive := False\<rparr>)"
    and "3 < n \<Longrightarrow> press_interrupted env kc n st = key_pressed env kc st"
proof -
  let ?p = "\<lambda>a. a\<lparr>npressed := npressed st + 1\<rparr>"
  have mode: "hotkey_mode st" "alive st" "timer st \<noteq> 0" using assms(1) by (simp_all add: armed_def)
  have two: "micro_run env kc 2 (Entered, st) = Inr (At_trailer, ?p st)"
    using mode assms(2) by (simp add: steps_numeral micro_simps)
  have again: "mapR snd (micro_run env kc all_steps (At_trailer, ?p a)) = Inr (?p a)" if "timer_expires env st = Inr a" for a
  proof -
    have same: "a\<lparr>npressed := k, alarm_set := False, timer := 0, hotkey_mode := False\<rparr> = a\<lparr>npressed := k\<rparr>" for k
      using fired [OF assms(1) that] by (cases a) simp
    show ?thesis
      using fired [OF assms(1) that] by (simp add: all_steps_def steps_numeral micro_simps release_input_def run_sequence_def same)
  qed
  show "press_interrupted env kc n st = mapR ?p (timer_expires env st)" if "n = 2"
    using that two fires_counted [OF assms(1), of env "npressed st + 1"] again fired(6) [OF assms(1)]
    by (cases "timer_expires env st") (auto simp: press_interrupted_def)
  show "press_interrupted env kc n st = Inr (st\<lparr>npressed := npressed st + 1, alarm_set := False, timer := 0, alive := False\<rparr>)" if "n = 3"
    using that mode assms(2)
    by (simp add: press_interrupted_def steps_numeral micro_simps timer_expires_def deliver_alarm_def)
  show "press_interrupted env kc n st = key_pressed env kc st" if late: "3 < n"
  proof -
    have press: "key_pressed env kc st = run_sequence env (leave_mode env (?p st))"
      using mode assms(2) by (simp add: key_pressed_def Let_def leave_mode_def)
    have leave: "leave_mode env (?p st) = (release_input env (?p st\<lparr>alarm_set := False, timer := 0\<rparr>))\<lparr>hotkey_mode := False\<rparr>"
      by (simp add: leave_mode_def engage_hotkey_timer_def)
    have quiet: "timer (release_input env s) = timer s" "alive (release_input env s) = alive s" for s
      by (simp_all add: release_input_def)
    have ended: "timer t = 0 \<and> alive t" if "key_pressed env kc st = Inr t" for t
      using run_sequence_frame [of env "leave_mode env (?p st)" t] that mode quiet by (auto simp: press leave)
    consider "n = 4" | "n = 5" | "n = 6" | k where "n = 7 + k"
      using late le_Suc_ex [of 7 n] by (cases "n < 7") (auto simp: not_less less_Suc_eq numeral_eq_Suc)
    then show ?thesis
    proof cases
      case 4
      then show ?thesis
        using ended by (cases "key_pressed env kc st") (simp_all add: press_interrupted_def press_steps nothing_fires)
    qed (use mode assms(2) quiet in \<open>auto simp: steps_numeral micro_simps intro!: quiet_steps\<close>)
  qed
qed

section \<open>Where it does\<close>

text \<open>The state after a handler that ran between the test of the mode and the end of the press: the code is
  stored at i and the length is n, outside of the hotkey mode.\<close>

definition stale :: "env \<Rightarrow> int \<Rightarrow> hotstate \<Rightarrow> nat \<Rightarrow> nat \<Rightarrow> hotstate \<Rightarrow> hotstate" where
  "stale env kc st i n a = a\<lparr>npressed := npressed st + 1,
     hot_sequence := (hot_sequence st)[i := seq_code kc], hot_sequence_length := n\<rparr>"

lemma key_interrupted:
  assumes "armed st" "kc \<noteq> e_trailer env"
  shows "n = 2 \<Longrightarrow> press_interrupted env kc n st = mapR (stale env kc st 0 1) (timer_expires env st)"
    and "n = 3 \<Longrightarrow> press_interrupted env kc n st =
      mapR (stale env kc st (hot_sequence_length st) 1) (timer_expires env st)"
    and "n = 4 \<Longrightarrow> press_interrupted env kc n st =
      mapR (stale env kc st (hot_sequence_length st) (hot_sequence_length st + 1)) (timer_expires env st)"
    and "4 < n \<Longrightarrow> press_interrupted env kc n st = bindR (key_pressed env kc st) (timer_expires env)"
proof -
  let ?L = "hot_sequence_length st"
  let ?hs = "(hot_sequence st)[?L := seq_code kc]"
  have mode: "hotkey_mode st" "alive st" "timer st \<noteq> 0" "?L < MAXSEQ" using assms(1) by (simp_all add: armed_def)
  have room: "0 < MAXSEQ" by (simp add: MAXSEQ_def)
  have unseen: "timer_expires env (st\<lparr>npressed := npressed st + 1, hot_sequence := ?hs\<rparr>) =
      mapR (\<lambda>a. a\<lparr>npressed := npressed st + 1, hot_sequence := ?hs\<rparr>) (timer_expires env st)"
    by (rule fires_unseen [OF assms(1)]) (simp add: collected_def)
  note eval = press_interrupted_def steps_numeral micro_simps all_steps_def stale_def
  show "press_interrupted env kc n st = mapR (stale env kc st 0 1) (timer_expires env st)" if "n = 2"
    using that mode room assms(2) fires_counted [OF assms(1), of env "npressed st + 1"] fired [OF assms(1)]
    by (cases "timer_expires env st") (auto simp: eval)
  show "press_interrupted env kc n st = mapR (stale env kc st ?L 1) (timer_expires env st)" if "n = 3"
    using that mode assms(2) unseen fired [OF assms(1)] by (cases "timer_expires env st") (auto simp: eval)
  show "press_interrupted env kc n st = mapR (stale env kc st ?L (?L + 1)) (timer_expires env st)" if "n = 4"
    using that mode assms(2) unseen fired [OF assms(1)] by (cases "timer_expires env st") (auto simp: eval)
  show "press_interrupted env kc n st = bindR (key_pressed env kc st) (timer_expires env)" if late: "4 < n"
  proof -
    obtain k where n: "n = 5 + k" using le_Suc_ex [of 5 n] late by auto
    have "micro_run env kc 5 (Entered, st) = mapR (\<lambda>s. (Finished, s)) (key_pressed env kc st)"
      using mode assms(2) by (simp add: steps_numeral micro_simps key_pressed_def Let_def guardR_def seq_code_def)
    moreover have "bindR m (\<lambda>s. if alive s then mapR snd (micro_run env kc all_steps (Finished, s)) else Inr s) = m" for m
      by (cases m) simp_all
    ultimately show ?thesis
      unfolding n by (cases "key_pressed env kc st") (simp_all add: press_interrupted_def micro_run_add)
  qed
qed

section \<open>What becomes of a stale code\<close>

text \<open>Outside of the hotkey mode, with the codes of js and kc still there and kc still pressed.\<close>

definition stale_state :: "int list \<Rightarrow> int \<Rightarrow> hotstate \<Rightarrow> bool" where
  "stale_state js kc t = (\<not> hotkey_mode t \<and> \<not> input_captured t \<and> \<not> introducer_just_pressed t \<and> npressed t = 1 \<and>
     keepgoing t \<and> alive t \<and> length (hot_sequence t) = MAXSEQ \<and>
     hot_sequence_length t = length js + 1 \<and> take (length js + 1) (hot_sequence t) = map seq_code (js @ [kc]))"

lemma collecting_armed:
  assumes "collecting env s js st" "alarm_set st" "timer st \<noteq> 0" "length js < MAXSEQ"
  shows "armed st"
  using assms by (simp add: armed_def collecting_def)

lemma key_left_behind:
  assumes "collecting env s0 js st" "alarm_set st" "timer st \<noteq> 0" "kc \<noteq> e_trailer env" "js \<noteq> []" "length js < MAXSEQ"
    and "find_sequence_action (e_config env) (map seq_code js) = Some a"
    and "execute_action (e_dev env) (e_config env) (e_fds env) (screen st) a = Inr (s, es, n)"
  shows "\<exists>t. press_interrupted env kc 4 st = Inr t \<and> stale_state js kc t \<and> screen t = Some s \<and> trace t = trace st @ es"
proof -
  have armed: "armed st" using collecting_armed assms(1-3,6) by blast
  have st: "hot_sequence_length st = length js" "length (hot_sequence st) = MAXSEQ" "npressed st = 0" "keepgoing st"
      "take (length js) (hot_sequence st) = map seq_code js" "\<not> introducer_just_pressed st"
    using assms(1) by (simp_all add: collecting_def)
  let ?l = "leave_mode env st"
  have l: "collected ?l = map seq_code js" "hot_sequence_length ?l = length js" "screen ?l = screen st" "trace ?l = trace st"
    using st by (simp_all add: leave_mode_def engage_hotkey_timer_def release_input_def collected_def)
  obtain b where b: "timer_expires env st = Inr b" "screen b = Some s" "trace b = trace st @ es"
    using armed l assms(5,7,8) by (simp add: timer_fires armed_def run_sequence_def Let_def)
  have "take (length js + 1) ((hot_sequence st)[length js := seq_code kc]) = map seq_code (js @ [kc])"
    using st assms(6) by (simp add: take_Suc_conv_app_nth)
  then show ?thesis
    using key_interrupted(3) [OF armed assms(4) refl] b fired [OF armed b(1)] st
    by (simp add: stale_state_def stale_def)
qed

lemma stale_released:
  assumes "stale_state js kc t" "has_device env kc"
  shows "\<exists>r. handle env (key_input (release kc)) t = Inr r \<and> idle_with (js @ [kc]) r \<and>
    screen r = screen t \<and> trace r = trace t"
proof -
  let ?r = "(buffered (release kc) t)\<lparr>npressed := 0\<rparr>"
  have "handle env (key_input (release kc)) t = Inr ?r"
    using handle_key [of env "release kc" t] assms
    by (simp add: release_def process_input_event_def key_released_def Let_def stale_state_def buffered_def)
  moreover have "idle_with (js @ [kc]) ?r"
    using assms(1) by (simp add: idle_with_def idle_def stale_state_def buffered_def)
  ultimately show ?thesis by (simp add: buffered_same)
qed

section \<open>An example\<close>

text \<open>After the introducer, with half a second to go.\<close>

definition waiting :: hotstate where
  "waiting = start_state\<lparr>hotkey_mode := True, input_captured := True, alarm_set := True, timer := 500,
     grab_calls := map (\<lambda>fd. (fd, True)) (event_fds (e_fds sample_env))\<rparr>"

lemma waiting_collects: "collecting sample_env start_state [] waiting"
  by (simp add: collecting_def waiting_def start_state_def same_outside_keys_def) (simp add: sample_env_def)

lemma waiting_ok: "hot_ok sample_env waiting" "timer waiting \<noteq> 0" "alive waiting" "hot_sequence_length waiting < MAXSEQ"
proof -
  have "grabbed (map (\<lambda>fd. (fd, True)) ds) fd = (fd \<in> set ds)" for ds fd
    using grabbed_calls [of "[]" True ds fd] by simp
  then show "hot_ok sample_env waiting"
    by (simp add: hot_defs waiting_def start_state_def MAXSEQ_def)
qed (simp_all add: waiting_def start_state_def MAXSEQ_def)

text \<open>A second action for the joined keys, and the state with the first key pressed.\<close>

definition joined_action :: action where
  "joined_action = letter_action\<lparr>act_sequence := map word_of_int [KPKEY_A, KPKEY_B, KPKEY_A], command := ''pwd''\<rparr>"

definition joining_env :: env where
  "joining_env = sample_env\<lparr>e_config := initial_config\<lparr>pactions := Some [letter_action, joined_action]\<rparr>\<rparr>"

definition key_waiting :: hotstate where
  "key_waiting = waiting\<lparr>hot_sequence := (replicate MAXSEQ 0)[0 := seq_code KPKEY_A], hot_sequence_length := 1\<rparr>"

lemma joining_env_simps:
  "e_dev joining_env = sample_device" "e_fds joining_env = k3_fds" "e_introducer joining_env = KPKEY_SHIFT"
  "e_trailer joining_env = KPKEY_ENTER" "e_hot_interval joining_env = 500"
  "screen key_waiting = Some tiny_screen" "trace key_waiting = []"
  by (simp_all add: joining_env_def sample_env_def key_waiting_def waiting_def start_state_def)

lemma key_waiting_collects: "collecting joining_env start_state [KPKEY_A] key_waiting"
  using waiting_collects take_Suc_conv_app_nth [of 0 "(replicate MAXSEQ 0)[0 := seq_code KPKEY_A]"] by (simp add: collecting_def key_waiting_def same_outside_keys_def joining_env_def MAXSEQ_def)

lemma joining_round: "round_ok joining_env [KPKEY_A]" "has_device joining_env KPKEY_B"
  using sample_round(1) sample_devices(4) by (simp_all add: round_ok_def has_device_def joining_env_def)

lemma joining_found:
  "find_sequence_action (e_config joining_env) (map seq_code [KPKEY_A]) = Some (Row letter_action)"
  "find_sequence_action (e_config joining_env) (map seq_code ([KPKEY_A] @ [KPKEY_B] @ [KPKEY_A])) = Some (Row joined_action)"
proof -
  have "seq_code KPKEY_A = word_of_int KPKEY_A" "seq_code KPKEY_B = word_of_int KPKEY_B" by code_simp+
  then show "find_sequence_action (e_config joining_env) (map seq_code [KPKEY_A]) = Some (Row letter_action)"
    "find_sequence_action (e_config joining_env) (map seq_code ([KPKEY_A] @ [KPKEY_B] @ [KPKEY_A])) = Some (Row joined_action)"
    by (simp_all add: find_sequence_action_def joining_env_def actions_def letter_action_def joined_action_def)
qed

section \<open>Properties\<close>

text \<open>C20: The timer while a key is pressed: in the hotkey mode with room for the key, SIGALRM may come at any
  point of process\_input\_event. At the beginning or behind the end of the work it is as if the timer
  had expired before the press or after it, and in the trailer's branch it is harmless, too, before
  SIGALRM is reset and after the timer was stopped. Between these two calls of engage\_hotkey\_timer it
  kills the process. In the branch of another key the handler runs the action and leaves the mode,
  and the key is stored all the same: its code alone, the first code of the sequence, or the whole
  sequence stays behind, outside of the hotkey mode.\<close>
theorem alarm_during_press:
  assumes "hot_ok env st" and "timer st \<noteq> 0" and "alive st" and "hot_sequence_length st < MAXSEQ"
  shows "press_interrupted env kc n st =
    (if n \<le> 1 then bindR (timer_expires env st) (key_pressed env kc)
     else if kc = e_trailer env
     then (if n = 2 then mapR (\<lambda>a. a\<lparr>npressed := npressed st + 1\<rparr>) (timer_expires env st)
           else if n = 3 then Inr (st\<lparr>npressed := npressed st + 1, alarm_set := False, timer := 0, alive := False\<rparr>)
           else key_pressed env kc st)
     else if n = 2 then mapR (stale env kc st 0 1) (timer_expires env st)
     else if n = 3 then mapR (stale env kc st (hot_sequence_length st) 1) (timer_expires env st)
     else if n = 4 then mapR (stale env kc st (hot_sequence_length st) (hot_sequence_length st + 1)) (timer_expires env st)
     else bindR (key_pressed env kc st) (timer_expires env))"
proof -
  have armed: "armed st" using assms by (auto simp: armed_def hot_ok_def timer_ok_def)
  consider "n \<le> 1" | "n = 2" | "n = 3" | "n = 4" | "4 < n" by linarith
  then show ?thesis
    by cases (use early_alarm [OF armed] trailer_interrupted [OF armed] key_interrupted [OF armed] in simp_all)
qed

theorem alarm_during_press_witness:
  "\<exists>t. press_interrupted sample_env KPKEY_ENTER 3 waiting = Inr t \<and> \<not> alive t \<and> input_captured t"
  using alarm_during_press [OF waiting_ok, of KPKEY_ENTER 3]
  by (simp add: sample_keys) (simp add: waiting_def)

text \<open>C21: What a user sees of it: the timer expires between the two accesses to hot\_sequence\_length while the
  key kc is pressed after the keys js. The handler runs the action of js and leaves the mode; and when
  the next hotkey follows before a second has passed without a key (then select's timeout resets the
  length), its keys ks are appended to js and kc, and the action that is run is that of the joined
  sequence, on the screen the first one left, and no action of ks.\<close>
theorem stale_keys_join:
  assumes "collecting env s0 js st" and "alarm_set st" and "timer st \<noteq> 0" and "kc \<noteq> e_trailer env"
    and "has_device env kc" and "round_ok env ks" and "js \<noteq> []" and "length js + 1 + length ks \<le> MAXSEQ"
    and "find_sequence_action (e_config env) (map seq_code js) = Some a1"
    and "execute_action (e_dev env) (e_config env) (e_fds env) (screen st) a1 = Inr (s1, es1, n1)"
    and "find_sequence_action (e_config env) (map seq_code (js @ [kc] @ ks)) = Some a2"
    and "execute_action (e_dev env) (e_config env) (e_fds env) (Some s1) a2 = Inr (s2, es2, n2)"
  shows "\<exists>t u. press_interrupted env kc 4 st = Inr t \<and> \<not> hotkey_mode t \<and> screen t = Some s1 \<and> trace t = trace st @ es1 \<and>
    main_loop env (key_input (release kc) # hotkey_round env ks) t = Inr u \<and> idle u \<and>
    screen u = Some s2 \<and> trace u = trace st @ es1 @ es2"
proof -
  obtain t where t: "press_interrupted env kc 4 st = Inr t" "stale_state js kc t"
      "screen t = Some s1" "trace t = trace st @ es1"
    using key_left_behind [OF assms(1-4,7) _ assms(9,10)] assms(8) by auto
  obtain r where r: "handle env (key_input (release kc)) t = Inr r" "idle_with (js @ [kc]) r"
      "screen r = screen t" "trace r = trace t"
    using stale_released [OF t(2) assms(5)] by blast
  obtain u where "main_loop env (hotkey_round env ks) r = Inr u" "idle u" "screen u = Some s2" "trace u = trace r @ es2"
    using round_runs_action_with [OF r(2) assms(6), of a2 s2 es2 n2] assms(8,11,12) r(3) t(3) by auto
  with r t show ?thesis by (auto simp: stale_state_def)
qed

theorem stale_keys_join_witness:
  "\<exists>t u. press_interrupted joining_env KPKEY_B 4 key_waiting = Inr t \<and>
     main_loop joining_env (key_input (release KPKEY_B) # hotkey_round joining_env [KPKEY_A]) t = Inr u \<and>
     commands_run (trace u) = [''ls'', ''pwd'']"
proof -
  note e = joining_env_simps
  obtain es1 where es1: "execute_action (e_dev joining_env) (e_config joining_env) (e_fds joining_env) (screen key_waiting)
      (Row letter_action) = Inr (tiny_screen, es1, 0)" "commands_run es1 = [''ls'']"
    using shell_executed [of letter_action "e_config joining_env"] by (auto simp: e letter_action_def shell_action_def title_def MAXPATH_def)
  obtain es2 where es2: "execute_action (e_dev joining_env) (e_config joining_env) (e_fds joining_env) (Some tiny_screen)
      (Row joined_action) = Inr (tiny_screen, es2, 0)" "commands_run es2 = [''pwd'']"
    using shell_executed [of joined_action "e_config joining_env"]
    by (auto simp: e joined_action_def letter_action_def shell_action_def title_def MAXPATH_def)
  have "\<exists>t u. press_interrupted joining_env KPKEY_B 4 key_waiting = Inr t \<and> \<not> hotkey_mode t \<and> screen t = Some tiny_screen \<and>
      trace t = trace key_waiting @ es1 \<and>
      main_loop joining_env (key_input (release KPKEY_B) # hotkey_round joining_env [KPKEY_A]) t = Inr u \<and> idle u \<and>
      screen u = Some tiny_screen \<and> trace u = trace key_waiting @ es1 @ es2"
    by (rule stale_keys_join [OF key_waiting_collects _ _ _ joining_round(2,1) _ _ joining_found(1) es1(1) joining_found(2) es2(1)])
      (simp_all add: e key_waiting_def waiting_def MAXSEQ_def sample_codes)
  then show ?thesis using es1(2) es2(2) by (auto simp: e commands_run_def List.map_filter_def)
qed

end
