(* ===== verification/Spec2Isabelle.thy ===== *)
theory Spec2Isabelle
  imports IniRender IniRefine IniSize IniQuery AsciiTab KeyDefs Rce Config ConfigProps SendKeys
    SendProps Effects Pixop Screen ScreenProps Screenshot Actions HotKey HotKeyProps HotKeyRun Launch Daemon
    RawKeys KeyTable Translator Matcher MatcherRefine IniDoc Registry Executor Canvas Overlay
    Bitmap RceServer Evdev Signals Application AppProps AppRun Bindings Options PidLock Background MainCpp
    Guards Glyphs Lettering Compare BarText
    RceThreads KeyOrder Reload Flash Handles MainC Displays Mocks AlarmRace
begin

text \<open>
  The launchpad development: the hotkey launcher of the Kindle, in its two forms. The repository holds
  a C program (src/src/*.c, with the headers of src/include) and a rewrite of it in C++ (src/src/*/*.cpp
  and src/src/main.cpp, with the headers of src/include/launchpad). Both do the same work: they read
  .ini files, wait on the input devices for a tap on an introducer key, grab the devices, collect the
  codes of the keys that follow until a trailer key or a timer, and run what the configuration binds
  to the sequence: a shell command, a script, keys to be typed, with messages on a status bar that is
  drawn over the screen and taken away again.

  \<^bold>\<open>Conventions.\<close> An operation of the code that may have undefined behaviour (an access
  outside a buffer, a null pointer, a division by zero) gives a value of type 'a res, Inl of a fault or
  Inr of the result (Prelude). A fault is where C and C++ give no meaning to what follows: the code itself
  has no test there, and a statement about the result of a run is one about runs without faults, unless
  it says that there are none. Machine integers are words, or int and nat with the wrap-around written
  out; the signed arithmetic of pixop.c, where an overflow is undefined, is checked and gives a fault; plain char is unsigned, as on the ARM target. What the system answers (files, memory, open,
  read, poll, select, mmap, fork, the clock, the exit status of commands) is an argument of the
  definitions; what the program does to the outside is a list of effects in the order of the calls
  (Effects). Machines that move by steps (hotkeys, matcher, application, listener, locks, sockets) are
  interpretations of the locale machine of Prelude, whose fact gives their invariants in every
  reachable state; key\_database, key\_lookup, saved\_area and canvas are the interfaces between the
  database and its users, the key table and the parser of sequences, the status bar and the actions,
  and the framebuffer and what draws on it; first\_entry\_map is what the registry needs of its map, for
  the list of the model and for a sorted tree; two\_displays and input\_source are what the mock devices and
  the real ones have in common.

  \<^bold>\<open>The C program.\<close>
  \<^item> CString: characters, strings and buffers of the C library.
  \<^item> inifile.c: IniFile (the pointer parser with its bounds), IniSpec and IniRefine (the
    specification without pointers, and that the parser refines it), IniSize (when the tables are
    large enough), IniQuery (the queries and the links they trust), IniRender (writing and reading back).
  \<^item> asciitab.c and keydefs.c: KeyCodes, AsciiTab, KeyDefs.
  \<^item> launchpad.c: Config and ConfigProps (settings, sequences, the action table, the scan of the
    directory), SendKeys and SendProps (typed keys, with main.c), Actions (execute\_action),
    Reload (what an initialisation finds after earlier sessions).
  \<^item> pixop.c, font.c, screen.c, statusbar.c, screenshot.c: Pixop, Screen, ScreenProps, Screenshot,
    Flash (the threads of screen\_flash\_area, which is called with its wait flag set by the actions),
    Handles (the descriptor and the mapping of the framebuffer through all of this).
  \<^item> main.c: HotKey, HotKeyProps, HotKeyRun (capture, timer, event processing, the select loop),
    AlarmRace (SIGALRM inside the processing of an event),
    Launch (arguments, event files, a session), Daemon (daemonize, lock file, log), MainC (main from its
    arguments to its end).
  \<^item> rce.c: Rce (settings, socket, receive loop), RceThreads (start, stop, and what the threads do).

  \<^bold>\<open>The rewrite.\<close>
  \<^item> core: Guards (file\_descriptor.hpp, result.hpp), KeyOrder (units.hpp, and the registry as a map
    sorted by the order of sequences), Background (logger.cpp).
  \<^item> domain: RawKeys and KeyTable (key\_definition), Translator (ascii\_translator), Matcher and
    MatcherRefine (sequence\_matcher, against the machine of main.c), Registry (action,
    action\_registry, with config/config\_scanner.cpp), Executor (action\_executor, with the key injector
    and the command runner of hal).
  \<^item> config: IniDoc (ini\_parser, against inifile.c).
  \<^item> hal and ui: Canvas (kindle\_display), Overlay (font, status\_bar), Glyphs (fnt12x22.h), Lettering
    (what a message looks like), Bitmap (screenshot\_writer), Evdev (evdev\_input\_source),
    Displays (the code of font and status\_bar over any display), Mocks (the mock devices,
    ScopedInputGrab).
  \<^item> system: Signals, Application with AppProps, AppRun and Bindings (application.cpp), RceServer,
    Options, PidLock, Background (daemon.cpp), MainCpp (main.cpp).
  \<^item> both programs: Compare (a hotkey in either), BarText (the letters of either bar).

  How the parts meet: Config feeds its action table from IniFile and KeyDefs, HotKey looks sequences up
  in it and runs Actions, which draws with Screen and types with SendKeys; Launch and MainC are main around
  all of it. In the rewrite Application owns a Matcher, a Registry filled from IniDoc by the scanner, an Evdev
  group and an Overlay; a round of its loop gives the events of the group to the matcher, a completed
  sequence to the registry and its action to the Executor, whose calls Overlay carries out; MainCpp is
  main around it, with Options, PidLock, Background and Signals.

  \<^bold>\<open>What the theorems show.\<close> Refinement: the pointer parser against its specification, the
  receive loop of rce.c against its listener, the matcher against the C hotkey machine, the application
  against its matcher. Whole runs: what a hotkey of the user does from the first key to the effects of its
  action, in both programs; that a session, a process and a capture give back the devices, the
  descriptors, the lock and the screen. Invariants of every reachable state: hotkey machine,
  application, action table, links of the database, process lock, socket, descriptors. Equivalence of
  the two programs where they promise the same: key tables, translators, .ini readers, sequence
  parsers, typed words, command servers, options. Bounds, round trips (a written .ini file is read
  back, a saved screen restored, a bitmap shows the screen) and termination. Errors: the properties of
  kind error and the other theorems of the same sections state what the code does where it fails its
  purpose (lost sequences, a lock that two hold, a capture dropped by a reload, bindings nothing
  reaches, buffers a text overflows).

  \<^bold>\<open>Where the documents differ.\<close> The theorems follow the code. Where a document or a header says
  something else, the text before the theorem says so: which of two entries of a sequence counts, what
  the timer does with the keys collected so far, how the introducer and the trailer are pressed, the
  place of the status bar and the format of the screenshots of the rewrite.

  \<^bold>\<open>Bounds and fuel.\<close> Loops over data are structural recursion or a function with a measure;
  the loops that wait for the outside (select, poll, recv) run over a finite list of what happens, so
  that a property of all lists is one of every finite prefix of a run. The parser of inifile.c and the
  sendkeys interpreter have termination proofs of their own (IniFile, SendKeys); nothing here
  depends on fuel.

  \<^bold>\<open>Not modelled, and why.\<close> Signals come between two rounds of a loop (in C the handlers run
  while select waits, or, in AlarmRace, between the stores of a key press in program order; the flags
  of the rewrite are read once a round). The threads of the
  remote command servers and of screen\_flash\_area come in a list of their turns between the calls of
  their owner, and give way only where they wait. Diagnostic output, exit codes and C++
  exceptions (out of memory) are left out. The count of the keys held down in the matcher does not
  overflow. std::map and std::unordered\_map are lists and maps; nothing iterates over them in an order
  that matters. The header of the e-ink driver, the unit tests, the packaging scripts and
  the contributed configuration files are no part of either program.
\<close>

end
